(* ===== verification/Prelude.thy ===== *)
theory Prelude
  imports Main "HOL-Library.Char_ord" "HOL-Library.List_Lexorder"
    "HOL-Library.Multiset" "HOL-Library.Option_ord" "HOL-Library.Word"
begin

text \<open>
  What every component of the model shares: the Go integer types and the Go time and
  duration arithmetic the program uses, association-list and list lemmas, and the theorem
  collections the component proofs draw on.

  Go integers are HOL integers kept in the range of their type: every operation that can
  overflow is followed by \<open>i32\<close> or \<open>i64\<close>, which wraps to the signed 32- or
  64-bit range as the hardware does. Go's \<open>int\<close> is 64 bits wide on every platform the
  program is built for.

  A \<open>time.Time\<close> is the number of nanoseconds since the Unix epoch, a
  \<open>time.Duration\<close> a number of nanoseconds in the 64-bit range.
\<close>

named_theorems go_int \<open>wrap-around of Go integers inside their range\<close>
named_theorems go_str \<open>evaluation of Go string functions on known shapes\<close>
named_theorems go_time \<open>unfolding of Go time arithmetic\<close>

section \<open>Machine integers\<close>

definition i32 :: "int \<Rightarrow> int" where
  "i32 x = signed_take_bit 31 x"

definition i64 :: "int \<Rightarrow> int" where
  "i64 x = signed_take_bit 63 x"

definition in_i32 :: "int \<Rightarrow> bool" where
  "in_i32 x \<longleftrightarrow> - (2 ^ 31) \<le> x \<and> x < 2 ^ 31"

definition in_i64 :: "int \<Rightarrow> bool" where
  "in_i64 x \<longleftrightarrow> - (2 ^ 63) \<le> x \<and> x < 2 ^ 63"

lemma i32_id [go_int]: "in_i32 x \<Longrightarrow> i32 x = x"
  unfolding i32_def in_i32_def by (rule signed_take_bit_int_eq_self) simp_all

lemma i64_id [go_int]: "in_i64 x \<Longrightarrow> i64 x = x"
  unfolding i64_def in_i64_def by (rule signed_take_bit_int_eq_self) simp_all

lemma in_i32_i32 [simp]: "in_i32 (i32 x)"
  unfolding i32_def in_i32_def
  using signed_take_bit_int_greater_eq_minus_exp [of 31 x] signed_take_bit_int_less_exp [of 31 x] by simp

lemma in_i64_i64 [simp]: "in_i64 (i64 x)"
  unfolding i64_def in_i64_def
  using signed_take_bit_int_greater_eq_minus_exp [of 63 x] signed_take_bit_int_less_exp [of 63 x] by simp

lemma i32_add_left: "i32 (i32 a + b) = i32 (a + b)"
  unfolding i32_def by (metis take_bit_add signed_take_bit_eq_iff_take_bit_eq take_bit_signed_take_bit order_refl lessI)

text \<open>Go division and remainder truncate toward zero; the callers check the divisor.\<close>

definition go_div :: "int \<Rightarrow> int \<Rightarrow> int" where
  "go_div a b = sgn a * sgn b * (\<bar>a\<bar> div \<bar>b\<bar>)"

lemma go_div_nonneg: "0 \<le> a \<Longrightarrow> 0 < b \<Longrightarrow> go_div a b = a div b"
  by (cases "a = 0") (simp_all add: go_div_def)

section \<open>Time\<close>

type_synonym gotime = int
type_synonym duration = int

abbreviation second :: duration where "second \<equiv> 1000000000"
abbreviation minute :: duration where "minute \<equiv> 60 * second"
abbreviation hour :: duration where "hour \<equiv> 60 * minute"

text \<open>\<open>t.Sub(u)\<close> saturates at the largest and smallest duration.\<close>

definition t_sub :: "gotime \<Rightarrow> gotime \<Rightarrow> duration" where
  "t_sub t u = max (- (2 ^ 63)) (min (2 ^ 63 - 1) (t - u))"

definition t_add :: "gotime \<Rightarrow> duration \<Rightarrow> gotime" where
  "t_add t d = t + d"

text \<open>
  \<open>time.Unix(sec, 0)\<close> stores the seconds since year 1 in an \<open>int64\<close>, so seconds
  near its end wrap; \<open>t.Unix()\<close> is the whole seconds since the epoch, rounded down.
  The zero \<open>time.Time\<close> is midnight on 1 January of year 1.
\<close>

definition unix_to_internal :: int where
  "unix_to_internal = 62135596800"

definition unix_time :: "int \<Rightarrow> gotime" where
  "unix_time sec = (i64 (sec + unix_to_internal) - unix_to_internal) * second"

definition unix_sec :: "gotime \<Rightarrow> int" where
  "unix_sec t = i64 (t div second)"

definition zero_time :: gotime where
  "zero_time = - unix_to_internal * second"

text \<open>Times whose seconds the wrap of \<open>time.Unix\<close> does not touch.\<close>

definition sane_sec :: "int \<Rightarrow> bool" where
  "sane_sec s \<longleftrightarrow> - (2 ^ 62) \<le> s \<and> s < 2 ^ 62"

lemma sane_sec_i64: "sane_sec s \<Longrightarrow> in_i64 s"
  by (simp add: sane_sec_def in_i64_def)

lemma unix_time_sane: "sane_sec s \<Longrightarrow> unix_time s = s * second"
  by (simp add: unix_time_def i64_id in_i64_def sane_sec_def unix_to_internal_def)

lemma unix_sec_sane: "sane_sec (t div second) \<Longrightarrow> unix_sec t = t div second"
  by (simp add: unix_sec_def i64_id sane_sec_i64)

lemma unix_time_le: "sane_sec (t div second) \<Longrightarrow> unix_time (unix_sec t) \<le> t"
  by (simp add: unix_time_sane unix_sec_sane)

lemma t_sub_le_iff: "d < 2 ^ 63 - 1 \<Longrightarrow> - (2 ^ 63) \<le> d \<Longrightarrow> t_sub t u \<le> d \<longleftrightarrow> t - u \<le> d"
  by (auto simp: t_sub_def)

lemma t_sub_less_iff: "d \<le> 2 ^ 63 - 1 \<Longrightarrow> - (2 ^ 63) < d \<Longrightarrow> t_sub t u < d \<longleftrightarrow> t - u < d"
  by (auto simp: t_sub_def)

lemma t_sub_self [simp]: "t_sub t t = 0"
  by (simp add: t_sub_def)

lemma t_sub_mono: "t \<le> t' \<Longrightarrow> t_sub t u \<le> t_sub t' u"
  by (auto simp: t_sub_def)

section \<open>Association lists and lists\<close>

text \<open>
  A Go map whose iteration order can matter is an association list with distinct keys, in
  the order of one iteration; a theorem about such a value holds for every order.
\<close>

definition assoc_keys :: "('k \<times> 'v) list \<Rightarrow> 'k list" where
  "assoc_keys xs = map fst xs"

definition well_keyed :: "('k \<times> 'v) list \<Rightarrow> bool" where
  "well_keyed xs \<longleftrightarrow> distinct (map fst xs)"

lemma filter_length_le_id: "length (filter P xs) = length xs \<Longrightarrow> filter P xs = xs"
  by (metis filter_id_conv length_filter_less less_irrefl)

lemma sorted_strings_eqI:
  "set xs = set ys \<Longrightarrow> distinct xs \<Longrightarrow> distinct ys \<Longrightarrow> sort xs = sort (ys :: 'a::linorder list)"
  by (metis mset_sort properties_for_sort set_eq_iff_mset_eq_distinct sorted_sort)

lemma set_map_filter: "set (List.map_filter f xs) = {y. \<exists>x \<in> set xs. f x = Some y}"
  by (induction xs) (auto simp: List.map_filter_def)

lemma map_filter_Nil: "List.map_filter f xs = [] \<longleftrightarrow> (\<forall>x \<in> set xs. f x = None)"
  by (induction xs) (auto simp: List.map_filter_def)

end
