(* ===== verification/Go_Strings.thy ===== *)
theory Go_Strings
  imports Prelude
begin

text \<open>
  The parts of Go's \<open>strings\<close> and \<open>strconv\<close> packages the program calls, on byte
  strings (a Go string is a sequence of bytes, a HOL \<open>string\<close> a list of 8-bit
  characters). White space is Go's: the UTF-8 encodings of Unicode's White_Space.
  Upper and lower case are those of ASCII, which is all the program's inputs (DNS names,
  capability and environment names) use; where an input is free text, the case folding is
  a parameter of the definition that uses it.
\<close>

section \<open>Prefixes and suffixes\<close>

definition has_prefix :: "string \<Rightarrow> string \<Rightarrow> bool" where
  "has_prefix s p \<longleftrightarrow> take (length p) s = p"

definition has_suffix :: "string \<Rightarrow> string \<Rightarrow> bool" where
  "has_suffix s p \<longleftrightarrow> has_prefix (rev s) (rev p)"

definition trim_prefix :: "string \<Rightarrow> string \<Rightarrow> string" where
  "trim_prefix s p = (if has_prefix s p then drop (length p) s else s)"

definition trim_suffix :: "string \<Rightarrow> string \<Rightarrow> string" where
  "trim_suffix s p = (if has_suffix s p then take (length s - length p) s else s)"

definition cut_prefix :: "string \<Rightarrow> string \<Rightarrow> string \<times> bool" where
  "cut_prefix s p = (if has_prefix s p then (drop (length p) s, True) else (s, False))"

lemma has_prefix_append [simp, go_str]: "has_prefix (p @ s) p"
  by (simp add: has_prefix_def)

lemma has_prefix_iff: "has_prefix s p \<longleftrightarrow> (\<exists>r. s = p @ r)"
  unfolding has_prefix_def by (metis append_eq_conv_conj append_take_drop_id)

lemma has_suffix_iff: "has_suffix s p \<longleftrightarrow> (\<exists>r. s = r @ p)"
  unfolding has_suffix_def has_prefix_iff by (metis rev_append rev_rev_ident)

lemma has_suffix_append [simp, go_str]: "has_suffix (s @ p) p"
  by (auto simp: has_suffix_iff)

lemma trim_suffix_append [simp, go_str]: "trim_suffix (s @ p) p = s"
  by (simp add: trim_suffix_def)

lemma trim_prefix_append [simp, go_str]: "trim_prefix (p @ s) p = s"
  by (simp add: trim_prefix_def)

section \<open>Splitting and joining\<close>

text \<open>\<open>strings.Split(s, sep)\<close> for a one-byte separator, and \<open>strings.Join\<close>.\<close>

fun split_on :: "char \<Rightarrow> string \<Rightarrow> string list" where
  "split_on c [] = [[]]"
| "split_on c (x # xs) =
     (if x = c then [] # split_on c xs
      else case split_on c xs of [] \<Rightarrow> [[x]] | y # ys \<Rightarrow> (x # y) # ys)"

fun join :: "string \<Rightarrow> string list \<Rightarrow> string" where
  "join sep [] = []"
| "join sep [x] = x"
| "join sep (x # y # ys) = x @ sep @ join sep (y # ys)"

text \<open>\<open>strings.Cut(s, c)\<close>: the parts around the first \<open>c\<close>.\<close>

fun cut :: "char \<Rightarrow> string \<Rightarrow> string \<times> string \<times> bool" where
  "cut c [] = ([], [], False)"
| "cut c (x # xs) =
     (if x = c then ([], xs, True) else case cut c xs of (a, b, ok) \<Rightarrow> (x # a, b, ok))"

text \<open>\<open>strings.IndexByte\<close> and \<open>strings.LastIndexByte\<close>, with \<open>None\<close> for -1.\<close>

fun index_byte :: "char \<Rightarrow> string \<Rightarrow> nat option" where
  "index_byte c [] = None"
| "index_byte c (x # xs) = (if x = c then Some 0 else map_option Suc (index_byte c xs))"

fun last_index :: "char \<Rightarrow> string \<Rightarrow> nat option" where
  "last_index c [] = None"
| "last_index c (x # xs) =
     (case last_index c xs of Some i \<Rightarrow> Some (Suc i) | None \<Rightarrow> if x = c then Some 0 else None)"

text \<open>\<open>strings.Index(s, sub)\<close> and \<open>strings.Contains(s, sub)\<close>.\<close>

fun index_of :: "string \<Rightarrow> string \<Rightarrow> nat option" where
  "index_of sub [] = (if sub = [] then Some 0 else None)"
| "index_of sub (x # xs) =
     (if has_prefix (x # xs) sub then Some 0 else map_option Suc (index_of sub xs))"

definition contains :: "string \<Rightarrow> string \<Rightarrow> bool" where
  "contains s sub \<longleftrightarrow> index_of sub s \<noteq> None"

lemma split_on_nonempty [simp]: "split_on c s \<noteq> []"
  by (induction s) (auto split: list.splits)

lemma split_on_no_sep: "c \<notin> set s \<Longrightarrow> split_on c s = [s]"
  by (induction s) auto

lemma split_on_sep: "c \<notin> set a \<Longrightarrow> split_on c (a @ c # b) = a # split_on c b"
  by (induction a) auto

lemma split_on_parts: "x \<in> set (split_on c s) \<Longrightarrow> c \<notin> set x"
  by (induction s arbitrary: x) (auto split: if_splits list.splits)

lemma join_split [simp, go_str]: "join [c] (split_on c s) = s"
proof (induction s)
  case Nil
  then show ?case by simp
next
  case (Cons x s)
  obtain y ys where "split_on c s = y # ys"
    by (meson list.exhaust split_on_nonempty)
  with Cons show ?case by (cases ys) auto
qed

lemma split_join:
  "xs \<noteq> [] \<Longrightarrow> (\<And>x. x \<in> set xs \<Longrightarrow> c \<notin> set x) \<Longrightarrow> split_on c (join [c] xs) = xs"
proof (induction "[c]" xs rule: join.induct)
  case (3 x y ys)
  then show ?case using split_on_sep [of c x "join [c] (y # ys)"] by simp
qed (simp_all add: split_on_no_sep)

lemma join_Nil_iff: "join sep xs = [] \<Longrightarrow> sep \<noteq> [] \<Longrightarrow> xs = [] \<or> xs = [[]]"
  by (induction sep xs rule: join.induct) auto

lemma set_join: "set (join sep xs) \<subseteq> set sep \<union> \<Union> (set ` set xs)"
  by (induction sep xs rule: join.induct) auto

lemma cut_none: "c \<notin> set s \<Longrightarrow> cut c s = (s, [], False)"
  by (induction s) auto

lemma cut_sep: "c \<notin> set a \<Longrightarrow> cut c (a @ c # b) = (a, b, True)"
  by (induction a) auto

lemma cut_ok: "cut c s = (a, b, True) \<Longrightarrow> s = a @ c # b \<and> c \<notin> set a"
  by (induction s arbitrary: a) (auto split: if_splits prod.splits)

section \<open>White space\<close>

text \<open>The UTF-8 encodings of the runes \<open>unicode.IsSpace\<close> accepts.\<close>

definition space_runes :: "string list" where
  "space_runes =
     [[CHR 0x09],
      [CHR 0x0A],
      [CHR 0x0B],
      [CHR 0x0C],
      [CHR 0x0D],
      [CHR 0x20],
      [CHR 0xC2, CHR 0x85],
      [CHR 0xC2, CHR 0xA0],
      [CHR 0xE1, CHR 0x9A, CHR 0x80],
      [CHR 0xE2, CHR 0x80, CHR 0x80],
      [CHR 0xE2, CHR 0x80, CHR 0x81],
      [CHR 0xE2, CHR 0x80, CHR 0x82],
      [CHR 0xE2, CHR 0x80, CHR 0x83],
      [CHR 0xE2, CHR 0x80, CHR 0x84],
      [CHR 0xE2, CHR 0x80, CHR 0x85],
      [CHR 0xE2, CHR 0x80, CHR 0x86],
      [CHR 0xE2, CHR 0x80, CHR 0x87],
      [CHR 0xE2, CHR 0x80, CHR 0x88],
      [CHR 0xE2, CHR 0x80, CHR 0x89],
      [CHR 0xE2, CHR 0x80, CHR 0x8A],
      [CHR 0xE2, CHR 0x80, CHR 0xA8],
      [CHR 0xE2, CHR 0x80, CHR 0xA9],
      [CHR 0xE2, CHR 0x80, CHR 0xAF],
      [CHR 0xE2, CHR 0x81, CHR 0x9F],
      [CHR 0xE3, CHR 0x80, CHR 0x80]]"

text \<open>The length of the white-space rune a string starts with, or 0.\<close>

definition space_at :: "string \<Rightarrow> nat" where
  "space_at s = (case filter (has_prefix s) space_runes of [] \<Rightarrow> 0 | r # _ \<Rightarrow> length r)"

definition space_end :: "string \<Rightarrow> nat" where
  "space_end r = (case filter (\<lambda>u. has_prefix r (rev u)) space_runes of [] \<Rightarrow> 0 | u # _ \<Rightarrow> length u)"

lemma space_at_Nil [simp]: "space_at [] = 0" "space_end [] = 0"
  by (simp_all add: space_at_def space_end_def space_runes_def has_prefix_def)

function trim_left :: "string \<Rightarrow> string" where
  "trim_left s = (if space_at s = 0 then s else trim_left (drop (space_at s) s))"
  by pat_completeness auto
termination
  by (relation "measure length") (auto, metis diff_less gr0I length_greater_0_conv space_at_Nil(1))

function trim_right_rev :: "string \<Rightarrow> string" where
  "trim_right_rev r = (if space_end r = 0 then r else trim_right_rev (drop (space_end r) r))"
  by pat_completeness auto
termination
  by (relation "measure length") (auto, metis diff_less gr0I length_greater_0_conv space_at_Nil(2))

declare trim_left.simps [simp del] trim_right_rev.simps [simp del]

definition trim_space :: "string \<Rightarrow> string" where
  "trim_space s = rev (trim_right_rev (rev (trim_left s)))"

text \<open>
  \<open>strings.Fields\<close>: the maximal runs without white space. \<open>word\<close> is the run read
  so far, newest byte first.
\<close>

function fields_from :: "string \<Rightarrow> string \<Rightarrow> string list" where
  "fields_from word [] = (if word = [] then [] else [rev word])"
| "fields_from word (x # xs) =
     (if space_at (x # xs) = 0 then fields_from (x # word) xs
      else (if word = [] then [] else [rev word]) @ fields_from [] (drop (space_at (x # xs)) (x # xs)))"
  by pat_completeness auto
termination
  by (relation "measure (\<lambda>(w, s). length s)") auto

definition str_fields :: "string \<Rightarrow> string list" where
  "str_fields s = fields_from [] s"

text \<open>Printable ASCII bytes start no white-space rune and end none.\<close>

definition graphic :: "char \<Rightarrow> bool" where
  "graphic c \<longleftrightarrow> 33 \<le> (of_char c :: nat) \<and> (of_char c :: nat) \<le> 126"

lemma has_prefix_Cons_Cons: "has_prefix (x # xs) (y # ys) \<longleftrightarrow> x = y \<and> has_prefix xs ys"
  by (auto simp: has_prefix_def)

lemma has_prefix_Nil [simp]: "has_prefix s []"
  by (simp add: has_prefix_def)

lemma space_runes_shape:
  "u \<in> set space_runes \<Longrightarrow> u \<noteq> [] \<and> \<not> graphic (hd u) \<and> \<not> graphic (last u)"
proof -
  have "list_all (\<lambda>u. u \<noteq> [] \<and> \<not> graphic (hd u) \<and> \<not> graphic (last u)) space_runes"
    by (simp add: space_runes_def graphic_def)
  then show "u \<in> set space_runes \<Longrightarrow> ?thesis" by (auto simp: list_all_iff)
qed

lemma space_at_graphic: "graphic c \<Longrightarrow> space_at (c # s) = 0"
proof -
  assume "graphic c"
  then have "filter (has_prefix (c # s)) space_runes = []"
    using space_runes_shape
    by (fastforce simp: filter_empty_conv has_prefix_iff dest: arg_cong [where f = hd] simp: hd_append)
  then show ?thesis by (simp add: space_at_def)
qed

lemma space_end_graphic: "graphic c \<Longrightarrow> space_end (c # s) = 0"
proof -
  assume g: "graphic c"
  have "\<not> has_prefix (c # s) (rev u)" if "u \<in> set space_runes" for u
    using that g space_runes_shape [OF that]
    by (cases u rule: rev_cases) (auto simp: has_prefix_Cons_Cons)
  then have "filter (\<lambda>u. has_prefix (c # s) (rev u)) space_runes = []"
    by (simp add: filter_empty_conv)
  then show ?thesis by (simp add: space_end_def)
qed

lemma space_at_newline [simp]: "space_at (CHR 0x0A # s) = 1"
  by (simp add: space_at_def space_runes_def has_prefix_Cons_Cons)

lemma trim_left_graphic: "s = [] \<or> graphic (hd s) \<Longrightarrow> trim_left s = s"
  by (subst trim_left.simps) (cases s; simp add: space_at_graphic)

lemma trim_right_graphic: "r = [] \<or> graphic (hd r) \<Longrightarrow> trim_right_rev r = r"
  by (subst trim_right_rev.simps) (cases r; simp add: space_end_graphic)

lemma trim_space_graphic [go_str]:
  "(\<And>c. c \<in> set s \<Longrightarrow> graphic c) \<Longrightarrow> trim_space s = s"
proof -
  assume g: "\<And>c. c \<in> set s \<Longrightarrow> graphic c"
  have "trim_left s = s"
    using g by (intro trim_left_graphic) (cases s; simp)
  moreover have "trim_right_rev (rev s) = rev s"
    using g by (intro trim_right_graphic) (metis hd_in_set set_rev rev_is_Nil_conv)
  ultimately show ?thesis by (simp add: trim_space_def)
qed

lemma space_end_newline [simp]: "space_end (CHR 0x0A # s) = 1"
  by (simp add: space_end_def space_runes_def has_prefix_Cons_Cons)

lemma trim_space_line [go_str]:
  assumes "s \<noteq> []" and g: "\<And>c. c \<in> set s \<Longrightarrow> graphic c"
  shows "trim_space (s @ [CHR 0x0A]) = s"
proof -
  have "trim_left (s @ [CHR 0x0A]) = s @ [CHR 0x0A]"
    using assms by (intro trim_left_graphic) (cases s; simp)
  moreover have "trim_right_rev (rev s) = rev s"
    using g by (intro trim_right_graphic) (metis hd_in_set set_rev rev_is_Nil_conv)
  then have "trim_right_rev (CHR 0x0A # rev s) = rev s"
    by (subst trim_right_rev.simps) simp
  ultimately show ?thesis by (simp add: trim_space_def)
qed

lemma fields_from_word:
  "(\<And>c. c \<in> set w \<Longrightarrow> graphic c) \<Longrightarrow> fields_from v (w @ s) = fields_from (rev w @ v) s"
  by (induction w arbitrary: v) (simp_all add: space_at_graphic)

lemma fields_line [go_str]:
  "w \<noteq> [] \<Longrightarrow> (\<And>c. c \<in> set w \<Longrightarrow> graphic c) \<Longrightarrow> str_fields (w @ CHR 0x0A # s) = w # str_fields s"
  by (simp add: str_fields_def fields_from_word)

lemma fields_Nil [simp]: "str_fields [] = []"
  by (simp add: str_fields_def)

lemma fields_word: "w \<noteq> [] \<Longrightarrow> (\<And>c. c \<in> set w \<Longrightarrow> graphic c) \<Longrightarrow> str_fields w = [w]"
  using fields_from_word [of w "[]" "[]"] by (simp add: str_fields_def)

end
