(* ===== verification/Go_Strconv.thy ===== *)
theory Go_Strconv
  imports Go_Strings
begin

text \<open>
  Go's \<open>strconv.FormatInt(n, 10)\<close> (also \<open>strconv.Itoa\<close> and the verb
  \<open>%d\<close>), and \<open>strconv.ParseInt(s, 10, 64)\<close> (also \<open>strconv.Atoi\<close>, with
  Go's 64-bit \<open>int\<close>): an optional sign, at least one digit, nothing else, and an
  error outside the 64-bit range. The lemmas show that parsing undoes printing.
\<close>

definition digit_char :: "nat \<Rightarrow> char" where
  "digit_char d = char_of (48 + d)"

definition is_digit :: "char \<Rightarrow> bool" where
  "is_digit c \<longleftrightarrow> 48 \<le> (of_char c :: nat) \<and> (of_char c :: nat) \<le> 57"

definition digit_val :: "char \<Rightarrow> nat" where
  "digit_val c = of_char c - 48"

fun show_nat :: "nat \<Rightarrow> string" where
  "show_nat n = (if n < 10 then [digit_char n] else show_nat (n div 10) @ [digit_char (n mod 10)])"

declare show_nat.simps [simp del]

definition show_int :: "int \<Rightarrow> string" where
  "show_int n = (if n < 0 then CHR ''-'' # show_nat (nat (- n)) else show_nat (nat n))"

definition nat_of_digits :: "string \<Rightarrow> nat" where
  "nat_of_digits s = foldl (\<lambda>n c. 10 * n + digit_val c) 0 s"

definition all_digits :: "string \<Rightarrow> bool" where
  "all_digits s \<longleftrightarrow> s \<noteq> [] \<and> list_all is_digit s"

definition parse_magnitude :: "bool \<Rightarrow> string \<Rightarrow> int option" where
  "parse_magnitude neg s =
     (if \<not> all_digits s then None
      else let n = (if neg then - int (nat_of_digits s) else int (nat_of_digits s))
           in if in_i64 n then Some n else None)"

definition parse_int :: "string \<Rightarrow> int option" where
  "parse_int s =
     (case s of
        [] \<Rightarrow> None
      | c # r \<Rightarrow> if c = CHR ''-'' then parse_magnitude True r
                 else if c = CHR ''+'' then parse_magnitude False r
                 else parse_magnitude False s)"

lemma digit_char [simp]:
  "d < 10 \<Longrightarrow> is_digit (digit_char d)" "d < 10 \<Longrightarrow> digit_val (digit_char d) = d"
  by (simp_all add: is_digit_def digit_char_def digit_val_def)

lemma is_digit_graphic: "is_digit c \<Longrightarrow> graphic c"
  by (simp add: is_digit_def graphic_def)

lemma is_digit_no_sign:
  "\<not> is_digit (CHR ''-'')" "\<not> is_digit (CHR ''+'')" "\<not> is_digit (CHR '','')"
  "\<not> is_digit (CHR ''='')" "\<not> is_digit (CHR 0x09)"
  by (simp_all add: is_digit_def)

lemma show_nat_nonempty [simp]: "show_nat n \<noteq> []"
  by (subst show_nat.simps) simp

lemma show_nat_digits: "list_all is_digit (show_nat n)"
proof (induction n rule: show_nat.induct)
  case (1 n)
  then show ?case by (subst show_nat.simps) simp
qed

lemma nat_of_digits_snoc: "nat_of_digits (s @ [c]) = 10 * nat_of_digits s + digit_val c"
  by (simp add: nat_of_digits_def)

lemma nat_of_digits_show_nat [simp]: "nat_of_digits (show_nat n) = n"
proof (induction n rule: show_nat.induct)
  case (1 n)
  then show ?case
    by (subst show_nat.simps) (simp add: nat_of_digits_snoc, simp add: nat_of_digits_def)
qed

lemma show_int_nonempty [simp]: "show_int n \<noteq> []"
  by (simp add: show_int_def)

lemma show_int_chars: "c \<in> set (show_int n) \<Longrightarrow> c = CHR ''-'' \<or> is_digit c"
  using show_nat_digits by (auto simp: show_int_def list_all_iff split: if_splits)

lemma show_int_graphic: "c \<in> set (show_int n) \<Longrightarrow> graphic c"
  using show_int_chars is_digit_graphic by (fastforce simp: graphic_def)

lemma show_int_no_sep:
  "CHR '','' \<notin> set (show_int n)" "CHR ''='' \<notin> set (show_int n)" "CHR 0x09 \<notin> set (show_int n)"
  using show_int_chars is_digit_no_sign by fastforce+

text \<open>Parsing a printed 64-bit integer gives it back.\<close>

lemma parse_show [simp, go_str]:
  assumes "in_i64 n"
  shows "parse_int (show_int n) = Some n"
proof (cases "n < 0")
  case True
  then show ?thesis
    using assms show_nat_digits
    by (simp add: show_int_def parse_int_def parse_magnitude_def all_digits_def)
next
  case False
  obtain c r where cr: "show_nat (nat n) = c # r"
    by (meson list.exhaust show_nat_nonempty)
  then have "is_digit c"
    using show_nat_digits [of "nat n"] by simp
  then have "c \<noteq> CHR ''-''" and "c \<noteq> CHR ''+''"
    using is_digit_no_sign by auto
  moreover have "parse_magnitude False (c # r) = Some n"
    using assms False show_nat_digits [of "nat n"] nat_of_digits_show_nat [of "nat n"]
    by (simp add: parse_magnitude_def all_digits_def cr del: nat_of_digits_show_nat)
  ultimately show ?thesis
    using False by (simp add: show_int_def parse_int_def cr)
qed

lemma show_int_inj: "in_i64 m \<Longrightarrow> in_i64 n \<Longrightarrow> show_int m = show_int n \<longleftrightarrow> m = n"
  by (metis option.inject parse_show)

lemma parse_int_range: "parse_int s = Some n \<Longrightarrow> in_i64 n"
  by (auto simp: parse_int_def parse_magnitude_def Let_def split: list.splits if_splits)

section \<open>ASCII case\<close>

definition lower_char :: "char \<Rightarrow> char" where
  "lower_char c = (let n = (of_char c :: nat) in if 65 \<le> n \<and> n \<le> 90 then char_of (n + 32) else c)"

definition upper_char :: "char \<Rightarrow> char" where
  "upper_char c = (let n = (of_char c :: nat) in if 97 \<le> n \<and> n \<le> 122 then char_of (n - 32) else c)"

definition to_lower :: "string \<Rightarrow> string" where
  "to_lower s = map lower_char s"

definition to_upper :: "string \<Rightarrow> string" where
  "to_upper s = map upper_char s"

lemma lower_char_idem [simp]: "lower_char (lower_char c) = lower_char c"
  by (simp add: lower_char_def Let_def)

lemma to_lower_idem [simp]: "to_lower (to_lower s) = to_lower s"
  by (simp add: to_lower_def)

lemma to_lower_append [simp]: "to_lower (s @ t) = to_lower s @ to_lower t"
  by (simp add: to_lower_def)

end
