(* ===== verification/Disk.thy ===== *)
theory Disk
  imports Go_Strconv "HOL-Library.AList"
begin

text \<open>
  The file system under the state directory of x-inactivation, as the system calls of
  \<open>x-inactivation/cell.go\<close> use it: reading, writing a temporary file, publishing it
  with \<open>link(2)\<close> or \<open>rename(2)\<close>, appending, removing. A call may fail (the fault
  plan of the environment says which do) and a write is not atomic: the disk goes through
  a torn content first. \<open>trace\<close> records every disk state the calls pass through, newest
  first, so a property of all of \<open>trace\<close> holds at any moment another process, or the next one
  after a crash, could look at the directory. Sync and the directory's sync may fail but change
  nothing here: what a power loss takes of unsynced data is not modelled.
\<close>

type_synonym files = "(string \<times> string) list"

datatype io_error = NotExist | Exist | IOFault | BadAllele string | RandomError

record world =
  files :: files
  tick :: nat
  trace :: "files list"

text \<open>
  \<open>faults E n\<close>: the \<open>n\<close>th system call fails; \<open>tmp_random E n\<close>: the random part
  of a temporary name chosen at that call; \<open>torn E n data\<close>: what a write of \<open>data\<close>
  leaves on the disk when it is cut short there.
\<close>

record env =
  faults :: "nat \<Rightarrow> bool"
  tmp_random :: "nat \<Rightarrow> string"
  torn :: "nat \<Rightarrow> string \<Rightarrow> string"

type_synonym 'a io = "world \<Rightarrow> (io_error + 'a) \<times> world"

definition ticked :: "world \<Rightarrow> world" where
  "ticked w = w\<lparr>tick := Suc (tick w)\<rparr>"

definition set_files :: "files \<Rightarrow> world \<Rightarrow> world" where
  "set_files fs w = w\<lparr>files := fs, trace := fs # trace w\<rparr>"

lemma world_simps [simp]:
  "files (ticked w) = files w" "trace (ticked w) = trace w" "tick (ticked w) = Suc (tick w)"
  "files (set_files fs w) = fs" "trace (set_files fs w) = fs # trace w" "tick (set_files fs w) = tick w"
  by (simp_all add: ticked_def set_files_def)

section \<open>System calls\<close>

text \<open>A call without an effect on the files: MkdirAll, Chmod, Sync, Close, Flock, opening a directory.\<close>

definition fs_touch :: "env \<Rightarrow> unit io" where
  "fs_touch E w = (if faults E (tick w) then Inl IOFault else Inr (), ticked w)"

definition fs_read :: "env \<Rightarrow> string \<Rightarrow> string io" where
  "fs_read E name w =
     (if faults E (tick w) then Inl IOFault
      else case map_of (files w) name of None \<Rightarrow> Inl NotExist | Some b \<Rightarrow> Inr b, ticked w)"

definition fs_stat :: "env \<Rightarrow> string \<Rightarrow> unit io" where
  "fs_stat E name w =
     (if faults E (tick w) then Inl IOFault
      else if map_of (files w) name = None then Inl NotExist else Inr (), ticked w)"

text \<open>\<open>open(O_CREAT)\<close>: the file exists afterwards, with its old content if it had one.\<close>

definition fs_open_create :: "env \<Rightarrow> string \<Rightarrow> unit io" where
  "fs_open_create E name w =
     (if faults E (tick w) then (Inl IOFault, ticked w)
      else if map_of (files w) name = None
      then (Inr (), set_files (AList.update name [] (files w)) (ticked w))
      else (Inr (), ticked w))"

text \<open>\<open>os.CreateTemp\<close>: a new empty file, never an existing one.\<close>

definition temp_name :: "string \<Rightarrow> string" where
  "temp_name r = ''.tmp-'' @ r"

definition fs_create_temp :: "env \<Rightarrow> string io" where
  "fs_create_temp E w =
     (let name = temp_name (tmp_random E (tick w))
      in if faults E (tick w) then (Inl IOFault, ticked w)
         else if map_of (files w) name \<noteq> None then (Inl Exist, ticked w)
         else (Inr name, set_files (AList.update name [] (files w)) (ticked w)))"

text \<open>Writing \<open>data\<close> after \<open>old\<close>: torn first, then whole unless the call fails.\<close>

definition fs_write :: "env \<Rightarrow> string \<Rightarrow> string \<Rightarrow> string \<Rightarrow> unit io" where
  "fs_write E name old data w =
     (let w1 = set_files (AList.update name (old @ torn E (tick w) data) (files w)) (ticked w)
      in if faults E (tick w) then (Inl IOFault, w1)
         else (Inr (), set_files (AList.update name (old @ data) (files w)) w1))"

definition fs_rename :: "env \<Rightarrow> string \<Rightarrow> string \<Rightarrow> unit io" where
  "fs_rename E src dst w =
     (if faults E (tick w) then (Inl IOFault, ticked w)
      else case map_of (files w) src of
        None \<Rightarrow> (Inl NotExist, ticked w)
      | Some b \<Rightarrow> (Inr (), set_files (AList.delete src (AList.update dst b (files w))) (ticked w)))"

definition fs_link :: "env \<Rightarrow> string \<Rightarrow> string \<Rightarrow> unit io" where
  "fs_link E src dst w =
     (if faults E (tick w) then (Inl IOFault, ticked w)
      else if map_of (files w) dst \<noteq> None then (Inl Exist, ticked w)
      else case map_of (files w) src of
        None \<Rightarrow> (Inl NotExist, ticked w)
      | Some b \<Rightarrow> (Inr (), set_files (AList.update dst b (files w)) (ticked w)))"

definition fs_remove :: "env \<Rightarrow> string \<Rightarrow> unit io" where
  "fs_remove E name w =
     (if faults E (tick w) then (Inl IOFault, ticked w)
      else if map_of (files w) name = None then (Inl NotExist, ticked w)
      else (Inr (), set_files (AList.delete name (files w)) (ticked w)))"

text \<open>\<open>errors.Join\<close> of results: the errors, in order; none means nil.\<close>

definition errs_of :: "io_error + 'a \<Rightarrow> io_error list" where
  "errs_of r = (case r of Inl e \<Rightarrow> [e] | Inr _ \<Rightarrow> [])"

lemma errs_of_simps [simp]: "errs_of (Inl e) = [e]" "errs_of (Inr a) = []"
  by (simp_all add: errs_of_def)

section \<open>Helpers of cell.go: writeTemp, writeAtomic, syncDir, appendLine\<close>

text \<open>\<open>writeTemp\<close> runs Chmod, Write, Sync and Close whatever the others return.\<close>

definition write_temp :: "env \<Rightarrow> string \<Rightarrow> string io" where
  "write_temp E data w =
     (case fs_create_temp E w of
        (Inl e, w) \<Rightarrow> (Inl e, w)
      | (Inr tmp, w) \<Rightarrow>
          (let (r1, w) = fs_touch E w;
               (r2, w) = fs_write E tmp [] data w;
               (r3, w) = fs_touch E w;
               (r4, w) = fs_touch E w
           in case errs_of r1 @ errs_of r2 @ errs_of r3 @ errs_of r4 of
                [] \<Rightarrow> (Inr tmp, w)
              | e # _ \<Rightarrow> (Inl e, snd (fs_remove E tmp w))))"

definition sync_dir :: "env \<Rightarrow> unit io" where
  "sync_dir E w =
     (case fs_touch E w of
        (Inl e, w) \<Rightarrow> (Inl e, w)
      | (Inr _, w) \<Rightarrow>
          (let (r1, w) = fs_touch E w; (r2, w) = fs_touch E w
           in case errs_of r1 @ errs_of r2 of [] \<Rightarrow> (Inr (), w) | e # _ \<Rightarrow> (Inl e, w)))"

definition write_atomic :: "env \<Rightarrow> string \<Rightarrow> string \<Rightarrow> unit io" where
  "write_atomic E path data w =
     (case write_temp E data w of
        (Inl e, w) \<Rightarrow> (Inl e, w)
      | (Inr tmp, w) \<Rightarrow>
          (case fs_rename E tmp path w of
             (Inl e, w) \<Rightarrow> (Inl e, snd (fs_remove E tmp w))
           | (Inr _, w) \<Rightarrow> sync_dir E w))"

definition append_line :: "env \<Rightarrow> string \<Rightarrow> string \<Rightarrow> unit io" where
  "append_line E path line w =
     (case fs_open_create E path w of
        (Inl e, w) \<Rightarrow> (Inl e, w)
      | (Inr _, w) \<Rightarrow>
          (let old = (case map_of (files w) path of None \<Rightarrow> [] | Some b \<Rightarrow> b);
               (r1, w) = fs_write E path old (line @ [CHR 0x0A]) w;
               (r2, w) = fs_touch E w;
               (r3, w) = fs_touch E w
           in case errs_of r1 @ errs_of r2 @ errs_of r3 of [] \<Rightarrow> (Inr (), w) | e # _ \<Rightarrow> (Inl e, w)))"

lemmas fs_defs = fs_touch_def fs_read_def fs_stat_def fs_open_create_def fs_create_temp_def
  fs_write_def fs_rename_def fs_link_def fs_remove_def

section \<open>Facts that hold at every moment\<close>

text \<open>
  \<open>always n ok w\<close>: the content of file \<open>n\<close> (\<open>None\<close>: no such file) satisfies
  \<open>ok\<close> now and satisfied it in every state since the trace began.
\<close>

definition always :: "string \<Rightarrow> (string option \<Rightarrow> bool) \<Rightarrow> world \<Rightarrow> bool" where
  "always n ok w \<longleftrightarrow> ok (map_of (files w) n) \<and> (\<forall>fs \<in> set (trace w). ok (map_of fs n))"

lemma always_ticked [simp]: "always n ok (ticked w) = always n ok w"
  by (simp add: always_def)

lemma always_set_files [simp]:
  "always n ok (set_files fs w) \<longleftrightarrow> ok (map_of fs n) \<and> (\<forall>gs \<in> set (trace w). ok (map_of gs n))"
  by (auto simp: always_def)

lemma alist_simps [simp]:
  "map_of (AList.update k v fs) n = (if n = k then Some v else map_of fs n)"
  "map_of (AList.delete k fs) n = (if n = k then None else map_of fs n)"
  by (simp_all add: update_conv' delete_conv')

text \<open>The temporary names are never the name of a file the program reads.\<close>

definition not_temp :: "string \<Rightarrow> bool" where
  "not_temp n \<longleftrightarrow> \<not> has_prefix n ''.tmp-''"

lemma not_temp_temp [simp]: "\<not> not_temp (temp_name r)"
  using has_prefix_append [of "''.tmp-''" r] by (simp add: not_temp_def temp_name_def del: append_Cons)

lemma not_temp_neq [simp]: "not_temp n \<Longrightarrow> n \<noteq> temp_name r"
  by auto

text \<open>
  What every helper does to a file \<open>n\<close> it is not aimed at, and what \<open>writeAtomic\<close>
  does to the one it is: no torn content is ever seen there.
\<close>

locale watched_file =
  fixes n :: string and ok :: "string option \<Rightarrow> bool"
  assumes n_not_temp: "not_temp n"
begin

lemma touch_keeps [simp]: "always n ok (snd (fs_touch E w)) = always n ok w"
  by (simp add: fs_touch_def)

lemma read_keeps [simp]: "always n ok (snd (fs_read E name w)) = always n ok w"
  by (simp add: fs_read_def)

lemma stat_keeps [simp]: "always n ok (snd (fs_stat E name w)) = always n ok w"
  by (simp add: fs_stat_def)

lemma open_create_keeps [simp]:
  "name \<noteq> n \<Longrightarrow> always n ok (snd (fs_open_create E name w)) = always n ok w"
  by (auto simp: fs_open_create_def always_def)

lemma write_keeps [simp]:
  "name \<noteq> n \<Longrightarrow> always n ok (snd (fs_write E name old data w)) = always n ok w"
  by (auto simp: fs_write_def always_def Let_def)

lemma remove_keeps [simp]: "name \<noteq> n \<Longrightarrow> always n ok (snd (fs_remove E name w)) = always n ok w"
  by (auto simp: fs_remove_def always_def)

lemma create_temp_keeps [simp]: "always n ok (snd (fs_create_temp E w)) = always n ok w"
  using n_not_temp by (auto simp: fs_create_temp_def always_def Let_def)

lemma create_temp_name: "fst (fs_create_temp E w) = Inr tmp \<Longrightarrow> tmp \<noteq> n"
  using n_not_temp by (auto simp: fs_create_temp_def Let_def split: if_splits)

lemma rename_keeps [simp]:
  "src \<noteq> n \<Longrightarrow> dst \<noteq> n \<Longrightarrow> always n ok (snd (fs_rename E src dst w)) = always n ok w"
  by (auto simp: fs_rename_def always_def split: option.splits)

lemma rename_publishes:
  "src \<noteq> n \<Longrightarrow> map_of (files w) src = Some b \<Longrightarrow> ok (Some b) \<Longrightarrow> always n ok w \<Longrightarrow>
   always n ok (snd (fs_rename E src n w))"
  by (auto simp: fs_rename_def always_def)

lemma link_publishes:
  "map_of (files w) src = Some b \<Longrightarrow> ok (Some b) \<Longrightarrow> always n ok w \<Longrightarrow>
   always n ok (snd (fs_link E src n w))"
  by (auto simp: fs_link_def always_def)

lemma write_temp_keeps [simp]: "always n ok (snd (write_temp E data w)) = always n ok w"
  by (auto simp: write_temp_def case_prod_beta Let_def split: sum.splits list.splits dest!: create_temp_name)

lemma write_temp_name: "fst (write_temp E data w) = Inr tmp \<Longrightarrow> tmp \<noteq> n"
  by (auto simp: write_temp_def case_prod_beta Let_def split: sum.splits list.splits dest: create_temp_name)

lemma sync_dir_keeps [simp]: "always n ok (snd (sync_dir E w)) = always n ok w"
  by (simp add: sync_dir_def case_prod_beta Let_def split: sum.splits list.splits)

lemma write_atomic_keeps [simp]:
  "path \<noteq> n \<Longrightarrow> always n ok (snd (write_atomic E path data w)) = always n ok w"
  by (auto simp: write_atomic_def case_prod_beta split: sum.splits dest!: write_temp_name)

lemma append_line_keeps [simp]:
  "path \<noteq> n \<Longrightarrow> always n ok (snd (append_line E path line w)) = always n ok w"
  by (simp add: append_line_def Let_def case_prod_beta split: sum.splits list.splits)

end

text \<open>A successful \<open>writeTemp\<close> leaves a complete file behind.\<close>

lemma touch_files [simp]: "files (snd (fs_touch E w)) = files w"
  by (simp add: fs_touch_def)

lemma write_files: "fst (fs_write E name old data w) = Inr u \<Longrightarrow>
    files (snd (fs_write E name old data w)) =
      AList.update name (old @ data) (AList.update name (old @ torn E (tick w) data) (files w))"
  by (auto simp: fs_write_def Let_def split: if_splits)

lemma errs_of_Nil: "errs_of r = [] \<longleftrightarrow> (\<exists>a. r = Inr a)"
  by (cases r) auto

lemma write_temp_content:
  "fst (write_temp E data w) = Inr tmp \<Longrightarrow> map_of (files (snd (write_temp E data w))) tmp = Some data"
  by (auto simp: write_temp_def case_prod_beta Let_def errs_of_Nil write_files split: sum.splits list.splits)

context watched_file begin

lemma write_atomic_publishes:
  assumes "ok (Some data)" and "always n ok w"
  shows "always n ok (snd (write_atomic E n data w))"
proof (cases "fst (write_temp E data w)")
  case (Inl e)
  then show ?thesis using assms by (simp add: write_atomic_def case_prod_beta)
next
  case (Inr tmp)
  then have "tmp \<noteq> n" by (rule write_temp_name)
  moreover have "always n ok (snd (fs_rename E tmp n (snd (write_temp E data w))))"
    using \<open>tmp \<noteq> n\<close> write_temp_content [OF Inr] assms by (intro rename_publishes) auto
  ultimately show ?thesis
    using Inr by (simp add: write_atomic_def case_prod_beta split: sum.splits)
qed

end

section \<open>Runs without faults\<close>

text \<open>
  With no faulty call and no leftover temporary file, the helpers act on the directory,
  seen as a map from names to contents, the way their comments say.
\<close>

definition fault_free :: "env \<Rightarrow> bool" where
  "fault_free E \<longleftrightarrow> (\<forall>n. \<not> faults E n)"

definition view :: "world \<Rightarrow> string \<Rightarrow> string option" where
  "view w = map_of (files w)"

definition clean :: "world \<Rightarrow> bool" where
  "clean w \<longleftrightarrow> (\<forall>n. view w n \<noteq> None \<longrightarrow> not_temp n)"

lemma view_ticked [simp]: "view (ticked w) = view w"
  by (simp add: view_def)

lemma clean_ticked [simp]: "clean (ticked w) = clean w"
  by (simp add: clean_def)

lemma clean_temp: "clean w \<Longrightarrow> view w (temp_name r) = None"
  by (metis clean_def not_temp_temp)

lemma ff_calls:
  assumes "fault_free E"
  shows "fs_touch E w = (Inr (), ticked w)"
    and "fs_read E n w = (case view w n of None \<Rightarrow> Inl NotExist | Some b \<Rightarrow> Inr b, ticked w)"
    and "fs_stat E n w = (if view w n = None then Inl NotExist else Inr (), ticked w)"
  using assms by (simp_all add: fault_free_def fs_touch_def fs_read_def fs_stat_def view_def)

text \<open>The outcome of an operation: its result, and the directory it leaves.\<close>

definition outcome :: "'a \<times> world \<Rightarrow> 'a \<Rightarrow> (string \<Rightarrow> string option) \<Rightarrow> bool" where
  "outcome rw r V \<longleftrightarrow> fst rw = r \<and> view (snd rw) = V \<and> clean (snd rw)"

lemma ff_open_create:
  assumes "fault_free E" and "clean w" and "not_temp n"
  shows "outcome (fs_open_create E n w) (Inr ())
           ((view w)(n \<mapsto> (case view w n of None \<Rightarrow> [] | Some b \<Rightarrow> b)))"
  using assms
  by (auto simp: outcome_def fault_free_def fs_open_create_def clean_def view_def fun_eq_iff split: option.splits)

lemma ff_write_temp:
  assumes "fault_free E" and "clean w"
  shows "\<exists>r. fst (write_temp E data w) = Inr (temp_name r)
    \<and> view (snd (write_temp E data w)) = (view w)(temp_name r \<mapsto> data)"
  using assms clean_temp [OF assms(2)]
  by (auto simp: write_temp_def fs_create_temp_def fs_touch_def fs_write_def fault_free_def Let_def
        view_def fun_eq_iff)

lemma ff_sync_dir: "fault_free E \<Longrightarrow> fst (sync_dir E w) = Inr () \<and> view (snd (sync_dir E w)) = view w"
  by (simp add: sync_dir_def ff_calls)

lemma ff_write_atomic:
  assumes E: "fault_free E" and cl: "clean w" and n: "not_temp n"
  shows "outcome (write_atomic E n data w) (Inr ()) ((view w)(n \<mapsto> data))"
proof -
  let ?w1 = "snd (write_temp E data w)"
  obtain r where r: "fst (write_temp E data w) = Inr (temp_name r)"
    and v: "view ?w1 = (view w)(temp_name r \<mapsto> data)"
    using ff_write_temp [OF E cl] by blast
  let ?w2 = "snd (fs_rename E (temp_name r) n ?w1)"
  have "fst (fs_rename E (temp_name r) n ?w1) = Inr ()" "view ?w2 = (view w)(n \<mapsto> data)"
    using E v clean_temp [OF cl, of r] n
    by (auto simp: fs_rename_def fault_free_def view_def fun_eq_iff)
  then show ?thesis
    using r ff_sync_dir [OF E, of ?w2] n cl
    by (auto simp: write_atomic_def case_prod_beta outcome_def clean_def)
qed

lemma ff_append_line:
  assumes E: "fault_free E" and "clean w" and "not_temp n"
  shows "outcome (append_line E n line w) (Inr ())
    ((view w)(n \<mapsto> (case view w n of None \<Rightarrow> [] | Some b \<Rightarrow> b) @ line @ [CHR 0x0A]))"
  using assms ff_open_create [OF assms]
  by (auto simp: append_line_def case_prod_beta Let_def ff_calls fs_write_def outcome_def fault_free_def
        clean_def view_def fun_eq_iff)

lemma ff_remove:
  assumes "fault_free E" and "clean w"
  shows "outcome (fs_remove E n w) (if view w n = None then Inl NotExist else Inr ()) ((view w)(n := None))"
  using assms by (auto simp: outcome_def fault_free_def fs_remove_def clean_def view_def fun_eq_iff)

end
