(* ===== verification/Cell.thy ===== *)
theory Cell
  imports Disk
begin

text \<open>
  \<open>x-inactivation/cell.go\<close>: one node's inactivation state on disk. \<open>expressed\<close> is
  \<open>Cell.Expressed\<close>, \<open>record_crash\<close> is \<open>Cell.RecordCrash\<close>; both thread a
  \<open>world\<close> (the directory, the system-call counter and the trace) and run under a fault
  plan. The log sentences of \<open>Decision.Reason\<close> are the constructors of \<open>reason\<close>.
  The lemmas show that no moment of any run, crash or fault shows anything but an allele in
  the choice file, when an escape happens, and how often it can.
\<close>

section \<open>Alleles and the cell\<close>

definition Xm :: string where "Xm = ''Xm''"
definition Xp :: string where "Xp = ''Xp''"

definition Other :: "string \<Rightarrow> string" where
  "Other a = (if a = Xm then Xp else Xm)"

definition is_allele :: "string \<Rightarrow> bool" where
  "is_allele a \<longleftrightarrow> a = Xm \<or> a = Xp"

text \<open>\<open>Mosaic\<close> of \<open>main.go\<close>: the only component that follows the node's allele.\<close>

definition Mosaic :: string where "Mosaic = ''kube-apiserver''"

definition choice_file :: string where "choice_file = ''x-inactivation''"
definition last_escape_file :: string where "last_escape_file = ''last-escape''"
definition upgrading_file :: string where "upgrading_file = ''upgrading''"
definition escapes_file :: string where "escapes_file = ''escapes''"
definition lock_file :: string where "lock_file = ''.lock''"

definition crashes_suffix :: string where "crashes_suffix = ''.crashes''"
definition starts_suffix :: string where "starts_suffix = ''.starts''"

text \<open>\<open>BootID\<close> is \<open>None\<close> when the field is nil; \<open>bootID\<close> reads it.\<close>

record cell =
  EscapeCrashes :: int
  EscapeWindow :: duration
  Cooldown :: duration
  BootID :: "string option"

definition bootID :: "cell \<Rightarrow> string" where
  "bootID c = (case BootID c of None \<Rightarrow> [] | Some b \<Rightarrow> b)"

text \<open>\<open>rand.Int(rand.Reader, 2)\<close>, or \<open>None\<close> when the reader fails.\<close>

definition RandomAllele :: "int option \<Rightarrow> string option" where
  "RandomAllele n = (case n of None \<Rightarrow> None | Some k \<Rightarrow> if k = 0 then Some Xm else Some Xp)"

section \<open>Reading and choosing\<close>

definition read_allele :: "env \<Rightarrow> string io" where
  "read_allele E w =
     (case fs_read E choice_file w of
        (Inl e, w) \<Rightarrow> (Inl e, w)
      | (Inr b, w) \<Rightarrow>
          (let a = trim_space b in if a \<noteq> Xm \<and> a \<noteq> Xp then (Inl (BadAllele a), w) else (Inr a, w)))"

definition publish_choice :: "env \<Rightarrow> string \<Rightarrow> string \<Rightarrow> (string \<times> bool) io" where
  "publish_choice E pick tmp w =
     (case fs_link E tmp choice_file w of
        (Inl e, w) \<Rightarrow>
          if e = Exist
          then (case read_allele E w of (Inl e, w) \<Rightarrow> (Inl e, w) | (Inr a, w) \<Rightarrow> (Inr (a, False), w))
          else (Inl e, w)
      | (Inr _, w) \<Rightarrow>
          (case sync_dir E w of (Inl e, w) \<Rightarrow> (Inl e, w) | (Inr _, w) \<Rightarrow> (Inr (pick, True), w)))"

definition expressed :: "env \<Rightarrow> string option \<Rightarrow> (string \<times> bool) io" where
  "expressed E random w =
     (case read_allele E w of
        (Inr a, w) \<Rightarrow> (Inr (a, False), w)
      | (Inl e, w) \<Rightarrow>
          if e \<noteq> NotExist then (Inl e, w)
          else (case random of
             None \<Rightarrow> (Inl RandomError, w)
           | Some pick \<Rightarrow>
               (case fs_touch E w of
                  (Inl e, w) \<Rightarrow> (Inl e, w)
                | (Inr _, w) \<Rightarrow>
                    (case write_temp E (pick @ [CHR 0x0A]) w of
                       (Inl e, w) \<Rightarrow> (Inl e, w)
                     | (Inr tmp, w) \<Rightarrow>
                         (let (r, w) = publish_choice E pick tmp w in (r, snd (fs_remove E tmp w)))))))"

definition Upgrading :: "env \<Rightarrow> world \<Rightarrow> bool \<times> world" where
  "Upgrading E w = (case fs_stat E upgrading_file w of (Inl _, w) \<Rightarrow> (False, w) | (Inr _, w) \<Rightarrow> (True, w))"

section \<open>Crash history\<close>

text \<open>\<open>recent\<close> keeps the timestamps of a history that fall in the window before \<open>now\<close>.\<close>

definition recent_sec :: "cell \<Rightarrow> gotime \<Rightarrow> string \<Rightarrow> int option" where
  "recent_sec c now line =
     (case parse_int line of
        None \<Rightarrow> None
      | Some sec \<Rightarrow>
          (let t = unix_time sec in if now < t \<or> EscapeWindow c < t_sub now t then None else Some sec))"

definition recent :: "env \<Rightarrow> cell \<Rightarrow> string \<Rightarrow> gotime \<Rightarrow> world \<Rightarrow> int list \<times> world" where
  "recent E c path now w =
     (case fs_read E path w of
        (Inl _, w) \<Rightarrow> ([], w)
      | (Inr b, w) \<Rightarrow> (List.map_filter (recent_sec c now) (str_fields b), w))"

definition formatTimes :: "int list \<Rightarrow> string" where
  "formatTimes ts = concat (map (\<lambda>t. show_int t @ [CHR 0x0A]) ts)"

text \<open>\<open>filepath.Glob(dir/*suffix)\<close>: the names with the suffix, in lexical order.\<close>

definition glob :: "string \<Rightarrow> files \<Rightarrow> string list" where
  "glob suf fs = sort (remdups (filter (\<lambda>n. has_suffix n suf) (map fst fs)))"

fun remove_all :: "env \<Rightarrow> string list \<Rightarrow> world \<Rightarrow> io_error list \<times> world" where
  "remove_all E [] w = ([], w)"
| "remove_all E (m # ms) w =
     (let (r, w) = fs_remove E m w; (errs, w) = remove_all E ms w
      in (filter (\<lambda>e. e \<noteq> NotExist) (errs_of r) @ errs, w))"

definition clearHistories :: "env \<Rightarrow> world \<Rightarrow> io_error list \<times> world" where
  "clearHistories E w =
     (let (e1, w) = remove_all E (glob crashes_suffix (files w)) w;
          (e2, w) = remove_all E (glob starts_suffix (files w)) w
      in (e1 @ e2, w))"

section \<open>Recording a crash\<close>

datatype blocked = ByUpgrade | SinceBoot | CoolingDown gotime gotime

datatype reason =
    NoReason
  | Counting int int duration
  | CannotReadAllele
  | AlreadySwitched string
  | EscapeBlocked blocked
  | CrashLoop int duration

record decision =
  Crashes :: int
  Escaped :: bool
  To :: string
  Reason :: reason

text \<open>What the last escape says about now, from the content of its file.\<close>

definition blocked_by_last :: "cell \<Rightarrow> gotime \<Rightarrow> string \<Rightarrow> blocked option" where
  "blocked_by_last c now b =
     (case str_fields b of
        [] \<Rightarrow> None
      | sec # rest \<Rightarrow>
          if rest \<noteq> [] \<and> hd rest = bootID c then Some SinceBoot
          else (case parse_int sec of
             None \<Rightarrow> None
           | Some s \<Rightarrow>
               (let last = unix_time s
                in if \<not> now < last \<and> t_sub now last < Cooldown c
                   then Some (CoolingDown last (t_add last (Cooldown c))) else None)))"

definition escapeBlocked :: "env \<Rightarrow> cell \<Rightarrow> gotime \<Rightarrow> world \<Rightarrow> blocked option \<times> world" where
  "escapeBlocked E c now w =
     (case Upgrading E w of
        (True, w) \<Rightarrow> (Some ByUpgrade, w)
      | (False, w) \<Rightarrow>
          (case fs_read E last_escape_file w of
             (Inl _, w) \<Rightarrow> (None, w)
           | (Inr b, w) \<Rightarrow> (blocked_by_last c now b, w)))"

definition escape_stamp :: "cell \<Rightarrow> gotime \<Rightarrow> string" where
  "escape_stamp c now =
     show_int (unix_sec now) @ (if bootID c \<noteq> [] then CHR '' '' # bootID c else []) @ [CHR 0x0A]"

text \<open>The line \<open>escapes\<close> gets; its time format is the argument \<open>rfc\<close>.\<close>

definition escape_line :: "(gotime \<Rightarrow> string) \<Rightarrow> gotime \<Rightarrow> string \<Rightarrow> string \<Rightarrow> string \<Rightarrow> string" where
  "escape_line rfc now component allele to =
     rfc now @ '' '' @ component @ '' escaped '' @ allele @ '' -> '' @ to"

definition perform_escape ::
    "env \<Rightarrow> cell \<Rightarrow> (gotime \<Rightarrow> string) \<Rightarrow> gotime \<Rightarrow> string \<Rightarrow> string \<Rightarrow> int \<Rightarrow> decision \<Rightarrow> world
     \<Rightarrow> (decision \<times> io_error list) \<times> world" where
  "perform_escape E c rfc now component allele n d w =
     (let to = Other allele
      in case write_atomic E choice_file (to @ [CHR 0x0A]) w of
           (Inl e, w) \<Rightarrow> ((d, [e]), w)
         | (Inr _, w) \<Rightarrow>
             (let d = d\<lparr>Escaped := True, To := to, Reason := CrashLoop n (EscapeWindow c)\<rparr>;
                  (r1, w) = write_atomic E last_escape_file (escape_stamp c now) w;
                  (e2, w) = clearHistories E w;
                  (r3, w) = append_line E escapes_file (escape_line rfc now component allele to) w
              in ((d, errs_of r1 @ e2 @ errs_of r3), w)))"

definition save_history :: "env \<Rightarrow> string \<Rightarrow> int list \<Rightarrow> decision \<Rightarrow> io_error list \<Rightarrow> world
     \<Rightarrow> (decision \<times> io_error list) \<times> world" where
  "save_history E history ts d errs w =
     (let (r, w) = write_atomic E history (formatTimes ts) w in ((d, errs @ errs_of r), w))"

definition decide_crash ::
    "env \<Rightarrow> cell \<Rightarrow> (gotime \<Rightarrow> string) \<Rightarrow> gotime \<Rightarrow> string \<Rightarrow> string \<Rightarrow> world
     \<Rightarrow> (decision \<times> io_error list) \<times> world" where
  "decide_crash E c rfc now component allele w =
     (let history = component @ crashes_suffix;
          (old, w) = recent E c history now w;
          ts = old @ [unix_sec now];
          n = int (length ts);
          d = \<lparr>Crashes = n, Escaped = False, To = allele, Reason = NoReason\<rparr>
      in if n < EscapeCrashes c
         then save_history E history ts (d\<lparr>Reason := Counting n (EscapeCrashes c) (EscapeWindow c)\<rparr>) [] w
         else (case read_allele E w of
            (Inl e, w) \<Rightarrow> save_history E history ts (d\<lparr>Reason := CannotReadAllele\<rparr>) [e] w
          | (Inr current, w) \<Rightarrow>
              if current \<noteq> allele
              then save_history E history ts (d\<lparr>To := current, Reason := AlreadySwitched current\<rparr>) [] w
              else (case escapeBlocked E c now w of
                 (Some r, w) \<Rightarrow> save_history E history ts (d\<lparr>Reason := EscapeBlocked r\<rparr>) [] w
               | (None, w) \<Rightarrow> perform_escape E c rfc now component allele n d w)))"

text \<open>
  \<open>RecordCrash\<close>: create the directory, take the lock (open and flock), decide. The lock
  makes whole calls follow one another; releasing it changes no file.
\<close>

definition record_crash ::
    "env \<Rightarrow> cell \<Rightarrow> (gotime \<Rightarrow> string) \<Rightarrow> gotime \<Rightarrow> string \<Rightarrow> string \<Rightarrow> world
     \<Rightarrow> (decision \<times> io_error list) \<times> world" where
  "record_crash E c rfc now component allele w =
     (let d0 = \<lparr>Crashes = 0, Escaped = False, To = allele, Reason = NoReason\<rparr>
      in case fs_touch E w of
           (Inl e, w) \<Rightarrow> ((d0, [e]), w)
         | (Inr _, w) \<Rightarrow>
             (case fs_open_create E lock_file w of
                (Inl e, w) \<Rightarrow> ((d0, [e]), w)
              | (Inr _, w) \<Rightarrow>
                  (case fs_touch E w of
                     (Inl e, w) \<Rightarrow> ((d0, [e]), w)
                   | (Inr _, w) \<Rightarrow> decide_crash E c rfc now component allele w)))"

section \<open>Crash safety\<close>

text \<open>What the choice file may hold: nothing yet, or an allele.\<close>

definition choice_ok :: "string option \<Rightarrow> bool" where
  "choice_ok x = (case x of None \<Rightarrow> True | Some b \<Rightarrow> is_allele (trim_space b))"

definition safe_cell :: "world \<Rightarrow> bool" where
  "safe_cell w = always choice_file choice_ok w"

lemmas file_names = choice_file_def last_escape_file_def upgrading_file_def escapes_file_def
  lock_file_def crashes_suffix_def starts_suffix_def

lemma not_temp_names [simp]:
  "not_temp choice_file" "not_temp last_escape_file" "not_temp upgrading_file"
  "not_temp escapes_file" "not_temp lock_file"
  by (simp_all add: not_temp_def file_names has_prefix_def)

interpretation choice: watched_file choice_file choice_ok
  by unfold_locales simp

lemma suffix_neq:
  "n \<noteq> [] \<Longrightarrow> \<not> has_suffix m n \<Longrightarrow> a @ n \<noteq> m" "\<not> has_suffix m n \<Longrightarrow> m \<noteq> a @ n"
  by (auto simp: has_suffix_iff)

lemma no_history_suffix [simp]:
  "\<not> has_suffix choice_file crashes_suffix" "\<not> has_suffix choice_file starts_suffix"
  "\<not> has_suffix last_escape_file crashes_suffix" "\<not> has_suffix last_escape_file starts_suffix"
  "\<not> has_suffix upgrading_file crashes_suffix" "\<not> has_suffix upgrading_file starts_suffix"
  "\<not> has_suffix escapes_file crashes_suffix" "\<not> has_suffix escapes_file starts_suffix"
  "\<not> has_suffix lock_file crashes_suffix" "\<not> has_suffix lock_file starts_suffix"
  by (simp_all add: file_names has_suffix_def has_prefix_def)

lemma history_neq [simp]:
  "a @ crashes_suffix \<noteq> choice_file" "a @ crashes_suffix \<noteq> last_escape_file"
  "a @ crashes_suffix \<noteq> upgrading_file" "a @ crashes_suffix \<noteq> lock_file"
  "a @ crashes_suffix \<noteq> escapes_file"
  using no_history_suffix has_suffix_append by metis+

lemma names_distinct [simp]:
  "lock_file \<noteq> choice_file" "last_escape_file \<noteq> choice_file" "escapes_file \<noteq> choice_file"
  "choice_file \<noteq> last_escape_file" "escapes_file \<noteq> last_escape_file" "lock_file \<noteq> last_escape_file"
  "upgrading_file \<noteq> choice_file" "lock_file \<noteq> upgrading_file" "escapes_file \<noteq> upgrading_file"
  "upgrading_file \<noteq> lock_file" "last_escape_file \<noteq> lock_file" "choice_file \<noteq> lock_file"
  by (simp_all add: file_names)

lemma trim_allele [simp]: "is_allele a \<Longrightarrow> trim_space (a @ [CHR 0x0A]) = a"
  by (rule trim_space_line) (auto simp: is_allele_def Xm_def Xp_def graphic_def)

lemma choice_ok_allele [simp]: "is_allele a \<Longrightarrow> choice_ok (Some (a @ [CHR 0x0A]))"
  by (simp add: choice_ok_def)

lemma is_allele_Other [simp]: "is_allele (Other a)"
  by (simp add: is_allele_def Other_def)

lemma Other_neq [simp]: "Other a \<noteq> a"
  by (simp add: Other_def Xm_def Xp_def)

lemma Other_Other: "is_allele a \<Longrightarrow> Other (Other a) = a"
  by (auto simp: is_allele_def Other_def Xm_def Xp_def)

lemma read_allele_files [simp]: "files (snd (read_allele E w)) = files w"
  by (simp add: read_allele_def fs_read_def Let_def split: option.splits)

lemma read_allele_trace [simp]: "trace (snd (read_allele E w)) = trace w"
  by (simp add: read_allele_def fs_read_def Let_def split: option.splits)

lemma read_allele_keeps [simp]: "safe_cell (snd (read_allele E w)) = safe_cell w"
  by (simp add: safe_cell_def always_def)

lemmas safe_calls [simp] =
  choice.touch_keeps [folded safe_cell_def] choice.read_keeps [folded safe_cell_def]
  choice.stat_keeps [folded safe_cell_def] choice.open_create_keeps [folded safe_cell_def]
  choice.remove_keeps [folded safe_cell_def] choice.write_temp_keeps [folded safe_cell_def]
  choice.sync_dir_keeps [folded safe_cell_def] choice.write_atomic_keeps [folded safe_cell_def]
  choice.append_line_keeps [folded safe_cell_def]

lemma remove_all_keeps:
  "choice_file \<notin> set ms \<Longrightarrow> safe_cell (snd (remove_all E ms w)) = safe_cell w"
  by (induction ms arbitrary: w) (simp_all add: case_prod_beta Let_def eq_commute [of choice_file])

lemma glob_suffix: "m \<in> set (glob suf fs) \<Longrightarrow> has_suffix m suf"
  by (auto simp: glob_def)

lemma clearHistories_keeps [simp]: "safe_cell (snd (clearHistories E w)) = safe_cell w"
proof -
  have "choice_file \<notin> set (glob crashes_suffix fs)" "choice_file \<notin> set (glob starts_suffix fs)" for fs
    using glob_suffix by fastforce+
  then show ?thesis by (simp add: clearHistories_def case_prod_beta Let_def remove_all_keeps)
qed

lemma publish_choice_keeps:
  "safe_cell w \<Longrightarrow> is_allele pick \<Longrightarrow> map_of (files w) tmp = Some (pick @ [CHR 0x0A]) \<Longrightarrow>
   safe_cell (snd (publish_choice E pick tmp w))"
  using choice.link_publishes [of w tmp "pick @ [CHR 0x0A]" E, folded safe_cell_def]
  by (simp add: publish_choice_def case_prod_beta split: sum.splits)

lemma expressed_keeps:
  assumes w: "safe_cell w" and pick: "\<And>p. random = Some p \<Longrightarrow> is_allele p"
  shows "safe_cell (snd (expressed E random w))"
  using w choice.write_temp_name write_temp_content
  by (auto simp: expressed_def case_prod_beta Let_def publish_choice_keeps pick
        split: sum.splits option.splits)

lemma save_history_keeps [simp]:
  "safe_cell (snd (save_history E (a @ crashes_suffix) ts d errs w)) = safe_cell w"
  by (simp add: save_history_def case_prod_beta Let_def)

lemma escapeBlocked_keeps [simp]: "safe_cell (snd (escapeBlocked E c now w)) = safe_cell w"
  by (simp add: escapeBlocked_def Upgrading_def case_prod_beta split: sum.splits bool.splits)

lemma perform_escape_keeps:
  "safe_cell w \<Longrightarrow> safe_cell (snd (perform_escape E c rfc now component allele n d w))"
  using choice.write_atomic_publishes [of "Other allele @ [CHR 0x0A]" w E, folded safe_cell_def]
  by (simp add: perform_escape_def case_prod_beta Let_def split: sum.splits)

lemma recent_keeps [simp]: "safe_cell (snd (recent E c path now w)) = safe_cell w"
  by (simp add: recent_def case_prod_beta split: sum.splits)

lemma decide_crash_keeps:
  "safe_cell w \<Longrightarrow> safe_cell (snd (decide_crash E c rfc now component allele w))"
  by (simp add: decide_crash_def case_prod_beta Let_def perform_escape_keeps split: sum.splits option.splits)

lemma record_crash_keeps:
  "safe_cell w \<Longrightarrow> safe_cell (snd (record_crash E c rfc now component allele w))"
  by (simp add: record_crash_def case_prod_beta Let_def decide_crash_keeps split: sum.splits)

section \<open>What Expressed returns\<close>

lemma read_allele_Inr:
  "fst (read_allele E w) = Inr a \<Longrightarrow>
   is_allele a \<and> (\<exists>b. map_of (files w) choice_file = Some b \<and> trim_space b = a)"
  by (auto simp: read_allele_def fs_read_def Let_def is_allele_def split: if_splits option.splits)

lemma sync_dir_files [simp]: "files (snd (sync_dir E w)) = files w"
  by (simp add: sync_dir_def case_prod_beta Let_def split: sum.splits list.splits)

text \<open>The allele \<open>a\<close> is what the directory holds.\<close>

definition on_disk :: "string \<Rightarrow> world \<Rightarrow> bool" where
  "on_disk a w \<longleftrightarrow> is_allele a \<and> (\<exists>b. map_of (files w) choice_file = Some b \<and> trim_space b = a)"

lemma on_disk_remove [simp]: "tmp \<noteq> choice_file \<Longrightarrow> on_disk a (snd (fs_remove E tmp w)) = on_disk a w"
  by (auto simp: on_disk_def fs_remove_def)

lemma publish_choice_result:
  "fst (publish_choice E pick tmp w) = Inr (a, fb) \<Longrightarrow> is_allele pick \<Longrightarrow>
   map_of (files w) tmp = Some (pick @ [CHR 0x0A]) \<Longrightarrow> on_disk a (snd (publish_choice E pick tmp w))"
  by (auto simp: publish_choice_def case_prod_beta fs_link_def on_disk_def
        split: sum.splits if_splits option.splits dest: read_allele_Inr)

lemma expressed_on_disk:
  assumes "fst (expressed E random w) = Inr (a, fb)" and "\<And>p. random = Some p \<Longrightarrow> is_allele p"
  shows "on_disk a (snd (expressed E random w))"
  using assms choice.write_temp_name write_temp_content publish_choice_result
  by (auto simp: expressed_def case_prod_beta Let_def on_disk_def [symmetric]
        split: sum.splits option.splits if_splits dest!: read_allele_Inr) (auto simp: on_disk_def)

section \<open>The abstract crash decision\<close>

text \<open>
  What \<open>RecordCrash\<close> promises, on the directory as a map \<open>V\<close>, with nothing
  failing: \<open>record_crash_outcome\<close> shows that the detailed definition computes it.
\<close>

definition crash_times :: "cell \<Rightarrow> gotime \<Rightarrow> string \<Rightarrow> (string \<Rightarrow> string option) \<Rightarrow> int list" where
  "crash_times c now component V =
     (case V (component @ crashes_suffix) of
        None \<Rightarrow> []
      | Some b \<Rightarrow> List.map_filter (recent_sec c now) (str_fields b))"

definition stored_allele :: "(string \<Rightarrow> string option) \<Rightarrow> io_error + string" where
  "stored_allele V =
     (case V choice_file of
        None \<Rightarrow> Inl NotExist
      | Some b \<Rightarrow> if is_allele (trim_space b) then Inr (trim_space b) else Inl (BadAllele (trim_space b)))"

definition escape_guard :: "cell \<Rightarrow> gotime \<Rightarrow> (string \<Rightarrow> string option) \<Rightarrow> blocked option" where
  "escape_guard c now V =
     (if V upgrading_file \<noteq> None then Some ByUpgrade
      else case V last_escape_file of None \<Rightarrow> None | Some b \<Rightarrow> blocked_by_last c now b)"

definition forget_histories :: "(string \<Rightarrow> string option) \<Rightarrow> string \<Rightarrow> string option" where
  "forget_histories V n = (if has_suffix n crashes_suffix \<or> has_suffix n starts_suffix then None else V n)"

definition content :: "string option \<Rightarrow> string" where
  "content x = (case x of None \<Rightarrow> [] | Some b \<Rightarrow> b)"

definition escaped_view ::
    "cell \<Rightarrow> (gotime \<Rightarrow> string) \<Rightarrow> gotime \<Rightarrow> string \<Rightarrow> string \<Rightarrow> (string \<Rightarrow> string option)
     \<Rightarrow> string \<Rightarrow> string option" where
  "escaped_view c rfc now component allele V =
     (forget_histories (V(choice_file \<mapsto> Other allele @ [CHR 0x0A], last_escape_file \<mapsto> escape_stamp c now)))
       (escapes_file \<mapsto> content (V escapes_file)
          @ escape_line rfc now component allele (Other allele) @ [CHR 0x0A])"

definition crash_spec ::
    "cell \<Rightarrow> (gotime \<Rightarrow> string) \<Rightarrow> gotime \<Rightarrow> string \<Rightarrow> string \<Rightarrow> (string \<Rightarrow> string option)
     \<Rightarrow> (decision \<times> io_error list) \<times> (string \<Rightarrow> string option)" where
  "crash_spec c rfc now component allele V =
     (let ts = crash_times c now component V @ [unix_sec now];
          n = int (length ts);
          d = \<lparr>Crashes = n, Escaped = False, To = allele, Reason = NoReason\<rparr>;
          kept = V(component @ crashes_suffix \<mapsto> formatTimes ts)
      in if n < EscapeCrashes c
         then ((d\<lparr>Reason := Counting n (EscapeCrashes c) (EscapeWindow c)\<rparr>, []), kept)
         else (case stored_allele V of
            Inl e \<Rightarrow> ((d\<lparr>Reason := CannotReadAllele\<rparr>, [e]), kept)
          | Inr current \<Rightarrow>
              if current \<noteq> allele then ((d\<lparr>To := current, Reason := AlreadySwitched current\<rparr>, []), kept)
              else (case escape_guard c now V of
                 Some r \<Rightarrow> ((d\<lparr>Reason := EscapeBlocked r\<rparr>, []), kept)
               | None \<Rightarrow> ((d\<lparr>Escaped := True, To := Other allele, Reason := CrashLoop n (EscapeWindow c)\<rparr>, []),
                          escaped_view c rfc now component allele V))))"

text \<open>The lock file exists once a crash has been recorded.\<close>

definition with_lock :: "(string \<Rightarrow> string option) \<Rightarrow> string \<Rightarrow> string option" where
  "with_lock V = V(lock_file \<mapsto> content (V lock_file))"

lemma ff_read_allele:
  "fault_free E \<Longrightarrow> read_allele E w = (stored_allele (view w), ticked w)"
  by (auto simp: read_allele_def ff_calls stored_allele_def is_allele_def Let_def split: option.splits)

lemma ff_recent:
  "fault_free E \<Longrightarrow> recent E c (component @ crashes_suffix) now w =
     (crash_times c now component (view w), ticked w)"
  by (auto simp: recent_def ff_calls crash_times_def split: option.splits)

lemma ff_escapeBlocked:
  assumes "fault_free E"
  shows "fst (escapeBlocked E c now w) = escape_guard c now (view w)"
    and "view (snd (escapeBlocked E c now w)) = view w" and "clean (snd (escapeBlocked E c now w)) = clean w"
  using assms
  by (auto simp: escapeBlocked_def Upgrading_def ff_calls escape_guard_def split: option.splits)

lemma ff_save_history:
  assumes "fault_free E" and "clean w" and "not_temp h"
  shows "outcome (save_history E h ts d errs w) (d, errs) ((view w)(h \<mapsto> formatTimes ts))"
  using ff_write_atomic [OF assms]
  by (simp add: outcome_def save_history_def case_prod_beta Let_def)

lemma ff_remove_all:
  "fault_free E \<Longrightarrow> clean w \<Longrightarrow>
   outcome (remove_all E ms w) [] (\<lambda>n. if n \<in> set ms then None else view w n)"
proof (induction ms arbitrary: w)
  case Nil
  then show ?case by (simp add: outcome_def)
next
  case (Cons m ms)
  let ?w1 = "snd (fs_remove E m w)"
  have r: "outcome (fs_remove E m w) (if view w m = None then Inl NotExist else Inr ()) ((view w)(m := None))"
    using Cons.prems by (rule ff_remove)
  then have v: "view ?w1 = (view w)(m := None)" and "clean ?w1"
    by (simp_all add: outcome_def)
  then have "outcome (remove_all E ms ?w1) [] (\<lambda>n. if n \<in> set ms then None else ((view w)(m := None)) n)"
    using Cons.IH [of ?w1] Cons.prems(1) by (simp only: v)
  moreover have "(\<lambda>n. if n \<in> set ms then None else ((view w)(m := None)) n) =
      (\<lambda>n. if n \<in> set (m # ms) then None else view w n)"
    by (auto simp: fun_eq_iff)
  ultimately show ?case
    using r by (auto simp: outcome_def case_prod_beta Let_def)
qed

lemma set_glob: "set (glob suf (files w)) = {n. has_suffix n suf \<and> view w n \<noteq> None}"
  unfolding glob_def view_def by (auto simp: map_of_eq_None_iff simp flip: not_None_eq)

lemma ff_clearHistories:
  assumes "fault_free E" and "clean w"
  shows "outcome (clearHistories E w) [] (forget_histories (view w))"
proof -
  let ?w1 = "snd (remove_all E (glob crashes_suffix (files w)) w)"
  have 1: "outcome (remove_all E (glob crashes_suffix (files w)) w) []
      (\<lambda>n. if n \<in> set (glob crashes_suffix (files w)) then None else view w n)"
    using assms by (rule ff_remove_all)
  then have "outcome (remove_all E (glob starts_suffix (files ?w1)) ?w1) []
      (\<lambda>n. if n \<in> set (glob starts_suffix (files ?w1)) then None else view ?w1 n)"
    using assms(1) by (intro ff_remove_all) (simp_all add: outcome_def)
  with 1 show ?thesis
    by (auto simp: outcome_def clearHistories_def case_prod_beta Let_def set_glob forget_histories_def fun_eq_iff)
qed


lemma ff_perform_escape:
  assumes E: "fault_free E" and cl: "clean w"
  shows "outcome (perform_escape E c rfc now component allele n d w)
    (d\<lparr>Escaped := True, To := Other allele, Reason := CrashLoop n (EscapeWindow c)\<rparr>, [])
    (escaped_view c rfc now component allele (view w))"
proof -
  let ?w1 = "snd (write_atomic E choice_file (Other allele @ [CHR 0x0A]) w)"
  let ?w2 = "snd (write_atomic E last_escape_file (escape_stamp c now) ?w1)"
  let ?w3 = "snd (clearHistories E ?w2)"
  have 1: "outcome (write_atomic E choice_file (Other allele @ [CHR 0x0A]) w) (Inr ())
      ((view w)(choice_file \<mapsto> Other allele @ [CHR 0x0A]))"
    using E cl by (rule ff_write_atomic) simp
  have 2: "outcome (write_atomic E last_escape_file (escape_stamp c now) ?w1) (Inr ())
      ((view ?w1)(last_escape_file \<mapsto> escape_stamp c now))"
    using 1 by (intro ff_write_atomic [OF E]) (simp_all add: outcome_def)
  have 3: "outcome (clearHistories E ?w2) [] (forget_histories (view ?w2))"
    using 2 by (intro ff_clearHistories [OF E]) (simp add: outcome_def)
  have 4: "outcome (append_line E escapes_file (escape_line rfc now component allele (Other allele)) ?w3) (Inr ())
      ((view ?w3)(escapes_file \<mapsto> content (view ?w3 escapes_file)
         @ escape_line rfc now component allele (Other allele) @ [CHR 0x0A]))"
    using 3 unfolding content_def by (intro ff_append_line [OF E]) (simp_all add: outcome_def)
  have "content (view ?w3 escapes_file) = content (view w escapes_file)"
    using 1 2 3 by (simp add: outcome_def forget_histories_def)
  then show ?thesis
    using 1 2 3 4 by (simp add: outcome_def perform_escape_def case_prod_beta Let_def escaped_view_def)
qed

text \<open>Refinement: without faults, the detailed definition computes the abstract decision.\<close>

lemma ff_decide_crash:
  assumes E: "fault_free E" and cl: "clean w" and h: "not_temp (component @ crashes_suffix)"
  shows "outcome (decide_crash E c rfc now component allele w)
    (fst (crash_spec c rfc now component allele (view w))) (snd (crash_spec c rfc now component allele (view w)))"
proof -
  let ?ts = "crash_times c now component (view w) @ [unix_sec now]"
  have save: "outcome (save_history E (component @ crashes_suffix) ?ts d errs w')
      (d, errs) ((view w)(component @ crashes_suffix \<mapsto> formatTimes ?ts))"
    if "view w' = view w" "clean w'" for d errs w'
    using ff_save_history [OF E that(2) h, of ?ts d errs] that(1) by simp
  have esc: "outcome (perform_escape E c rfc now component allele n
        \<lparr>Crashes = n, Escaped = False, To = allele, Reason = NoReason\<rparr> w')
      (\<lparr>Crashes = n, Escaped = True, To = Other allele, Reason = CrashLoop n (EscapeWindow c)\<rparr>, [])
      (escaped_view c rfc now component allele (view w))"
    if "view w' = view w" "clean w'" for n w'
    using ff_perform_escape [OF E that(2), of c rfc now component allele n
        "\<lparr>Crashes = n, Escaped = False, To = allele, Reason = NoReason\<rparr>"] that(1) by simp
  show ?thesis
    using E cl ff_escapeBlocked [OF E, of c now "ticked (ticked w)"]
    by (auto simp: decide_crash_def crash_spec_def Let_def case_prod_beta ff_recent ff_read_allele
          intro!: save esc split: sum.splits option.splits if_splits)
qed

lemma record_crash_outcome:
  assumes "fault_free E" and "clean w" and "not_temp (component @ crashes_suffix)"
  shows "outcome (record_crash E c rfc now component allele w)
    (fst (crash_spec c rfc now component allele (with_lock (view w))))
    (snd (crash_spec c rfc now component allele (with_lock (view w))))"
proof -
  have "outcome (fs_open_create E lock_file (ticked w)) (Inr ()) (with_lock (view w))"
    using ff_open_create [OF assms(1), of "ticked w" lock_file] assms(2)
    by (simp add: with_lock_def content_def)
  then show ?thesis
    using assms ff_decide_crash [OF assms(1) _ assms(3), of "ticked (snd (fs_open_create E lock_file (ticked w)))"]
    by (simp add: record_crash_def ff_calls outcome_def case_prod_beta)
qed

section \<open>Histories and stamps\<close>

definition in_window :: "cell \<Rightarrow> gotime \<Rightarrow> int \<Rightarrow> bool" where
  "in_window c now sec \<longleftrightarrow> \<not> now < unix_time sec \<and> t_sub now (unix_time sec) \<le> EscapeWindow c"

lemma recent_sec_show: "in_i64 t \<Longrightarrow> recent_sec c now (show_int t) = (if in_window c now t then Some t else None)"
  by (simp add: recent_sec_def in_window_def Let_def)

lemma fields_formatTimes: "str_fields (formatTimes ts) = map show_int ts"
proof (induction ts)
  case Nil
  then show ?case by (simp add: formatTimes_def)
next
  case (Cons t ts)
  have "str_fields (show_int t @ CHR 0x0A # formatTimes ts) = show_int t # str_fields (formatTimes ts)"
    by (rule fields_line) (simp_all add: show_int_graphic)
  with Cons show ?case by (simp add: formatTimes_def)
qed

lemma map_filter_recent:
  "(\<And>t. t \<in> set ts \<Longrightarrow> in_i64 t) \<Longrightarrow>
   List.map_filter (recent_sec c now) (map show_int ts) = filter (in_window c now) ts"
  by (induction ts) (auto simp: List.map_filter_def recent_sec_show)

lemma fields_append_space:
  "w \<noteq> [] \<Longrightarrow> (\<And>c. c \<in> set w \<Longrightarrow> graphic c) \<Longrightarrow> str_fields (w @ CHR '' '' # s) = w # str_fields s"
  by (simp add: str_fields_def fields_from_word) (simp add: space_at_def space_runes_def has_prefix_Cons_Cons)

definition plain_boot :: "cell \<Rightarrow> bool" where
  "plain_boot c \<longleftrightarrow> (\<forall>x \<in> set (bootID c). graphic x)"

lemma fields_stamp:
  assumes "plain_boot c"
  shows "str_fields (escape_stamp c now) =
    show_int (unix_sec now) # (if bootID c \<noteq> [] then [bootID c] else [])"
proof (cases "bootID c = []")
  case True
  then show ?thesis
    using fields_line [of "show_int (unix_sec now)" "[]"] by (simp add: escape_stamp_def show_int_graphic)
next
  case False
  then have "str_fields (bootID c @ [CHR 0x0A]) = [bootID c]"
    using fields_line [of "bootID c" "[]"] assms by (simp add: plain_boot_def)
  with False show ?thesis
    using fields_append_space [of "show_int (unix_sec now)" "bootID c @ [CHR 0x0A]"]
    by (simp add: escape_stamp_def show_int_graphic)
qed

text \<open>A stamp written at \<open>t0\<close> blocks the same boot, and everyone until the cooldown is over.\<close>

lemma blocked_by_stamp:
  assumes "plain_boot c0" and "in_i64 (unix_sec t0)" and "blocked_by_last c now (escape_stamp c0 t0) = None"
  shows "(bootID c0 \<noteq> [] \<longrightarrow> bootID c \<noteq> bootID c0) \<and>
    (now < unix_time (unix_sec t0) \<or> Cooldown c \<le> t_sub now (unix_time (unix_sec t0)))"
  using assms
  by (auto simp: blocked_by_last_def fields_stamp Let_def split: if_splits)

section \<open>Sequences of crashes\<close>

text \<open>
  \<open>crash_seq\<close> records crashes one after another, each with the cell of its boot, its
  time, its component and its allele, and collects the escapes: the cell and time of each.
\<close>

fun crash_seq ::
    "env \<Rightarrow> (gotime \<Rightarrow> string) \<Rightarrow> (cell \<times> gotime \<times> string \<times> string) list \<Rightarrow> world
     \<Rightarrow> (cell \<times> gotime) list \<times> world" where
  "crash_seq E rfc [] w = ([], w)"
| "crash_seq E rfc ((c, now, component, allele) # cs) w =
     (let ((d, _), w) = record_crash E c rfc now component allele w;
          (es, w) = crash_seq E rfc cs w
      in (if Escaped d then (c, now) # es else es, w))"

lemma with_lock_other [simp]: "n \<noteq> lock_file \<Longrightarrow> with_lock V n = V n"
  by (simp add: with_lock_def)

lemma escape_guard_with_lock [simp]: "escape_guard c now (with_lock V) = escape_guard c now V"
  by (simp add: escape_guard_def)

lemma stored_allele_with_lock [simp]: "stored_allele (with_lock V) = stored_allele V"
  by (simp add: stored_allele_def)

lemma crash_times_with_lock [simp]: "crash_times c now component (with_lock V) = crash_times c now component V"
  by (simp add: crash_times_def)

lemma crash_spec_escapes:
  "Escaped (fst (fst (crash_spec c rfc now component allele V))) \<longleftrightarrow>
     EscapeCrashes c \<le> int (length (crash_times c now component V)) + 1
     \<and> stored_allele V = Inr allele \<and> escape_guard c now V = None"
  by (auto simp: crash_spec_def Let_def split: sum.splits option.splits)

lemma crash_spec_last_escape:
  "snd (crash_spec c rfc now component allele V) last_escape_file =
     (if Escaped (fst (fst (crash_spec c rfc now component allele V)))
      then Some (escape_stamp c now) else V last_escape_file)"
  by (auto simp: crash_spec_def Let_def escaped_view_def forget_histories_def eq_commute [of last_escape_file]
        split: sum.splits option.splits)

definition spaced :: "duration \<Rightarrow> cell \<times> gotime \<Rightarrow> cell \<times> gotime \<Rightarrow> bool" where
  "spaced k e1 e2 \<longleftrightarrow>
     (bootID (fst e1) \<noteq> [] \<longrightarrow> bootID (fst e2) \<noteq> bootID (fst e1)) \<and>
     k \<le> snd e2 - unix_time (unix_sec (snd e1))"

definition calm_clock :: "duration \<Rightarrow> (cell \<times> gotime \<times> string \<times> string) list \<Rightarrow> bool" where
  "calm_clock k cs \<longleftrightarrow> sorted (map (\<lambda>(c, now, _). now) cs) \<and>
     (\<forall>(c, now, component, allele) \<in> set cs.
        Cooldown c = k \<and> plain_boot c \<and> sane_sec (now div second) \<and> not_temp (component @ crashes_suffix))"

lemma crash_step_last:
  assumes "fault_free E" and "clean w" and "not_temp (component @ crashes_suffix)"
    and "record_crash E c rfc now component allele w = ((d, errs), w')"
  shows "clean w'"
    and "view w' last_escape_file = (if Escaped d then Some (escape_stamp c now) else view w last_escape_file)"
    and "Escaped d \<Longrightarrow> view w last_escape_file = Some b \<Longrightarrow> blocked_by_last c now b = None"
proof -
  let ?S = "crash_spec c rfc now component allele (with_lock (view w))"
  have r: "fst ?S = (d, errs)" "view w' = snd ?S" and "clean w'"
    using record_crash_outcome [OF assms(1-3), of c rfc now allele] assms(4) by (simp_all add: outcome_def)
  show "clean w'" by fact
  show "view w' last_escape_file = (if Escaped d then Some (escape_stamp c now) else view w last_escape_file)"
    using r crash_spec_last_escape [of c rfc now component allele "with_lock (view w)"] by simp
  show "blocked_by_last c now b = None" if "Escaped d" "view w last_escape_file = Some b"
    using that r crash_spec_escapes [of c rfc now component allele "with_lock (view w)"]
    by (simp add: escape_guard_def split: if_splits)
qed

lemma spaced_successor:
  assumes "plain_boot c0" and "sane_sec (t0 div second)" and "t0 \<le> now" and "in_i64 (Cooldown c)"
    and "blocked_by_last c now (escape_stamp c0 t0) = None"
  shows "spaced (Cooldown c) (c0, t0) (c, now)"
proof -
  have "unix_time (unix_sec t0) \<le> now"
    using unix_time_le [OF assms(2)] assms(3) by simp
  moreover have "in_i64 (unix_sec t0)"
    by (simp add: unix_sec_def)
  ultimately show ?thesis
    using blocked_by_stamp [OF assms(1) _ assms(5)] assms(4)
    by (auto simp: spaced_def t_sub_def in_i64_def split: if_splits)
qed

lemma crash_seq_spaced:
  assumes "fault_free E" and "clean w" and "calm_clock k cs" and "in_i64 k"
    and "\<And>c0 t0. prev = Some (c0, t0) \<Longrightarrow> plain_boot c0 \<and> sane_sec (t0 div second)
          \<and> view w last_escape_file = Some (escape_stamp c0 t0) \<and> (\<forall>(c, now, _) \<in> set cs. t0 \<le> now)"
  shows "successively (spaced k) ((case prev of None \<Rightarrow> [] | Some e \<Rightarrow> [e]) @ fst (crash_seq E rfc cs w))"
  using assms
proof (induction cs arbitrary: w prev)
  case Nil
  then show ?case by (cases prev) simp_all
next
  case (Cons x cs)
  obtain c now component allele where x: "x = (c, now, component, allele)"
    by (metis prod.exhaust)
  obtain d errs w1 where step: "record_crash E c rfc now component allele w = ((d, errs), w1)"
    by (metis prod.exhaust)
  have wf: "Cooldown c = k" "plain_boot c" "sane_sec (now div second)" "not_temp (component @ crashes_suffix)"
    and clk: "calm_clock k cs" and later: "\<forall>(c', now', _) \<in> set cs. now \<le> now'"
    using Cons.prems(3) by (auto simp: x calm_clock_def)
  note s = crash_step_last [OF Cons.prems(1,2) wf(4) step]
  show ?case
  proof (cases "Escaped d")
    case True
    have "successively (spaced k) ([(c, now)] @ fst (crash_seq E rfc cs w1))"
      using Cons.IH [OF Cons.prems(1) s(1) clk Cons.prems(4), of "Some (c, now)"] wf later s(2) True by simp
    moreover have "spaced k e (c, now)" if "prev = Some e" for e
      using Cons.prems(4,5) that s(3) [OF True] wf(1) x
      by (cases e) (auto intro!: spaced_successor [of _ _ now c, unfolded wf(1)] simp: wf)
    ultimately show ?thesis
      using True step x by (cases prev) (auto simp: case_prod_beta Let_def)
  next
    case False
    then have "view w1 last_escape_file = view w last_escape_file"
      using s(2) by simp
    then have "successively (spaced k) ((case prev of None \<Rightarrow> [] | Some e \<Rightarrow> [e]) @ fst (crash_seq E rfc cs w1))"
      using Cons.prems(5) by (intro Cons.IH [OF Cons.prems(1) s(1) clk Cons.prems(4)]) (auto simp: x)
    then show ?thesis
      using False step x by (simp add: case_prod_beta Let_def)
  qed
qed

section \<open>Properties\<close>

text \<open>A run of the two operations on one directory, each start with its own random pick.\<close>

datatype cell_op =
    StartOp "string option"
  | CrashOp cell gotime string string

fun run_ops :: "env \<Rightarrow> (gotime \<Rightarrow> string) \<Rightarrow> cell_op list \<Rightarrow> world \<Rightarrow> world" where
  "run_ops E rfc [] w = w"
| "run_ops E rfc (StartOp random # ops) w = run_ops E rfc ops (snd (expressed E random w))"
| "run_ops E rfc (CrashOp c now component allele # ops) w =
     run_ops E rfc ops (snd (record_crash E c rfc now component allele w))"

definition quiet :: env where
  "quiet = \<lparr>faults = (\<lambda>_. False), tmp_random = show_nat, torn = (\<lambda>_ _. [])\<rparr>"

definition node_with :: "string \<Rightarrow> world" where
  "node_with a = \<lparr>files = [(choice_file, a @ [CHR 0x0A])], tick = 0, trace = []\<rparr>"

definition test_cell :: "string \<Rightarrow> cell" where
  "test_cell b = \<lparr>EscapeCrashes = 2, EscapeWindow = 10 * minute, Cooldown = 24 * hour, BootID = Some b\<rparr>"

lemma test_cell_simps [simp]:
  "EscapeCrashes (test_cell b) = 2" "EscapeWindow (test_cell b) = 10 * minute"
  "Cooldown (test_cell b) = 24 * hour" "bootID (test_cell b) = b"
  by (simp_all add: test_cell_def bootID_def)

lemma quiet_fault_free [simp]: "fault_free quiet"
  by (simp add: fault_free_def quiet_def)

lemma node_with_clean [simp]: "clean (node_with a)"
  by (simp add: clean_def view_def node_with_def)

lemma node_with_view: "view (node_with a) = [choice_file \<mapsto> a @ [CHR 0x0A]]"
  by (simp add: view_def node_with_def)

lemma apiserver_not_temp [simp]: "not_temp (Mosaic @ crashes_suffix)"
  by (simp add: Mosaic_def not_temp_def has_prefix_def crashes_suffix_def)

lemma random_allele_is_allele: "RandomAllele n = Some p \<Longrightarrow> is_allele p"
  by (auto simp: RandomAllele_def is_allele_def split: option.splits if_splits)

text \<open>
  Claim C27. Crash safety: whatever the fault plan, wherever writes are torn and whatever
  sequence of starts and crashes runs on the directory, every disk state any of them passes
  through has in the choice file either nothing or an allele, never half-written content.
\<close>

theorem choice_never_torn:
  "safe_cell w \<Longrightarrow> (\<forall>random. StartOp random \<in> set ops \<longrightarrow> (\<exists>n. random = RandomAllele n)) \<Longrightarrow>
   safe_cell (run_ops E rfc ops w)"
proof (induction E rfc ops w rule: run_ops.induct)
  case (2 E rfc random ops w)
  then obtain n where n: "random = RandomAllele n" by auto
  have "is_allele p" if "random = Some p" for p
    using that n random_allele_is_allele by simp
  with 2 have "safe_cell (snd (expressed E random w))"
    by (intro expressed_keeps)
  with 2 show ?case by simp
qed (simp_all add: record_crash_keeps)

theorem choice_never_torn_witness:
  "safe_cell (run_ops \<lparr>faults = (\<lambda>n. n = 3), tmp_random = show_nat, torn = (\<lambda>_ d. take 1 d)\<rparr> (\<lambda>_. [])
     [StartOp (RandomAllele (Some 0)), CrashOp (test_cell ''b'') 0 Mosaic Xm]
     \<lparr>files = [], tick = 0, trace = []\<rparr>)"
  by (rule choice_never_torn) (auto simp: safe_cell_def always_def choice_ok_def)

text \<open>
  Claim C28. Inheritance: whatever allele a start returned, under any faults, is the one on
  the disk, and the next start whose first read works returns the same allele, reports that
  it is not a first boot, and changes no file.
\<close>

theorem expressed_inherited:
  assumes "fst (expressed E random w) = Inr (a, first)"
    and "\<And>p. random = Some p \<Longrightarrow> is_allele p"
    and "w' = snd (expressed E random w)" and "\<not> faults E' (tick w')"
  shows "is_allele a \<and> fst (expressed E' random' w') = Inr (a, False)
    \<and> files (snd (expressed E' random' w')) = files w'"
proof -
  have "on_disk a w'"
    using expressed_on_disk [OF assms(1)] assms(2,3) by blast
  then have "is_allele a" "read_allele E' w' = (Inr a, ticked w')"
    using assms(4) by (auto simp: on_disk_def read_allele_def fs_read_def is_allele_def Let_def)
  then show ?thesis by (simp add: expressed_def)
qed

theorem expressed_inherited_witness:
  "is_allele Xp \<and> fst (expressed quiet (Some Xm) (snd (expressed quiet (Some Xm) (node_with Xp)))) = Inr (Xp, False)"
proof -
  have "fst (expressed quiet (Some Xm) (node_with Xp)) = Inr (Xp, False)"
    by (simp add: expressed_def ff_read_allele stored_allele_def node_with_view is_allele_def)
  then show ?thesis
    using expressed_inherited [of quiet "Some Xm" "node_with Xp" Xp False _ quiet "Some Xm"]
    by (simp add: is_allele_def quiet_def)
qed

text \<open>
  Failing loudly: when the choice file exists but cannot be read or holds
  anything but an allele, a start returns an error, never an allele, and changes no file.
\<close>

theorem expressed_never_guesses:
  assumes "map_of (files w) choice_file = Some b"
    and "faults E (tick w) \<or> \<not> is_allele (trim_space b)"
  shows "(\<exists>e. fst (expressed E random w) = Inl e) \<and> files (snd (expressed E random w)) = files w"
  using assms by (auto simp: expressed_def read_allele_def fs_read_def is_allele_def Let_def)

theorem expressed_never_guesses_witness:
  "\<exists>e. fst (expressed quiet (Some Xm) (node_with ''Xq'')) = Inl e"
proof -
  have "trim_space (''Xq'' @ [CHR 0x0A]) = ''Xq''"
    by (rule trim_space_line) (auto simp: graphic_def)
  then show ?thesis
    using expressed_never_guesses [of "node_with ''Xq''" "''Xq'' @ [CHR 0x0A]" quiet "Some Xm"]
    by (simp add: node_with_def is_allele_def Xm_def Xp_def)
qed

text \<open>
  Claim C31. When a node escapes: without faults, \<open>RecordCrash\<close> switches the allele
  exactly when the crashes in the window, this one included, reach the threshold, the node
  still expresses the crashed allele, no operator blocks escapes, and the last escape was
  neither on this boot nor within the cooldown; it then publishes the other allele.
\<close>

theorem escapes_exactly_when:
  assumes "fault_free E" and "clean w" and "not_temp (component @ crashes_suffix)"
    and "record_crash E c rfc now component allele w = ((d, errs), w')"
  shows "(Escaped d \<longleftrightarrow>
      EscapeCrashes c \<le> int (length (crash_times c now component (view w))) + 1
      \<and> stored_allele (view w) = Inr allele \<and> view w upgrading_file = None
      \<and> (case view w last_escape_file of None \<Rightarrow> True | Some b \<Rightarrow> blocked_by_last c now b = None))
    \<and> (Escaped d \<longrightarrow> stored_allele (view w') = Inr (Other allele))"
proof -
  let ?S = "crash_spec c rfc now component allele (with_lock (view w))"
  have r: "(d, errs) = fst ?S" "view w' = snd ?S"
    using record_crash_outcome [OF assms(1-3), of c rfc now allele] assms(4) by (simp_all add: outcome_def)
  have "stored_allele (view w') = Inr (Other allele)" if "Escaped d"
  proof -
    have "snd ?S = escaped_view c rfc now component allele (with_lock (view w))"
      using that r(1) by (auto simp: crash_spec_def Let_def split: sum.splits option.splits if_splits)
    then show ?thesis
      by (simp add: r stored_allele_def escaped_view_def forget_histories_def eq_commute [of choice_file])
  qed
  moreover have "Escaped d \<longleftrightarrow> Escaped (fst (fst ?S))"
    using r(1) by (metis fst_conv)
  ultimately show ?thesis
    by (auto simp: crash_spec_escapes escape_guard_def split: option.splits)
qed

text \<open>A node whose history already holds one crash.\<close>

definition struck_node :: world where
  "struck_node = \<lparr>files = [(choice_file, Xm @ [CHR 0x0A]), (Mosaic @ crashes_suffix, formatTimes [999])],
     tick = 0, trace = []\<rparr>"

lemma struck_node:
  "clean struck_node" "view struck_node choice_file = Some (Xm @ [CHR 0x0A])"
  "view struck_node (Mosaic @ crashes_suffix) = Some (formatTimes [999])"
  "view struck_node upgrading_file = None" "view struck_node last_escape_file = None"
  using apiserver_not_temp names_distinct history_neq
  by (auto simp: clean_def view_def struck_node_def split: if_splits) (metis names_distinct(4) history_neq)+

lemma struck_times: "crash_times (test_cell b) 1000000000000 Mosaic (view struck_node) = [999]"
  by (simp add: crash_times_def struck_node fields_formatTimes map_filter_recent [of "[999]", simplified] in_i64_def
      in_window_def unix_time_def i64_id unix_to_internal_def t_sub_def)

theorem escapes_exactly_when_witness:
  "Escaped (fst (fst (record_crash quiet (test_cell ''b'') (\<lambda>_. []) (1000 * second) Mosaic Xm struck_node)))"
proof -
  obtain d errs w' where
    r: "record_crash quiet (test_cell ''b'') (\<lambda>_. []) (1000 * second) Mosaic Xm struck_node = ((d, errs), w')"
    by (metis prod.exhaust)
  have "Escaped d"
    using escapes_exactly_when [OF quiet_fault_free struck_node(1) apiserver_not_temp r]
    by (simp add: struck_times struck_node stored_allele_def is_allele_def)
  with r show ?thesis by simp
qed

text \<open>
  The rate limit: along any sequence of crashes whose clock never steps back and
  whose calls do not fail, two successive escapes are never on the same known boot, and
  the second comes at least the cooldown after the recorded second of the first.
\<close>

theorem escapes_spaced:
  assumes "fault_free E" and "clean w" and "calm_clock k cs" and "in_i64 k"
  shows "successively (spaced k) (fst (crash_seq E rfc cs w))"
  using crash_seq_spaced [OF assms, of None] by simp

theorem escapes_spaced_witness:
  "successively (spaced (24 * hour)) (fst (crash_seq quiet (\<lambda>_. [])
     [(test_cell ''b'', 1000 * second, Mosaic, Xm), (test_cell ''b'', 1001 * second, Mosaic, Xm),
      (test_cell ''b'', 1002 * second, Mosaic, Xp)] (node_with Xm)))"
proof (rule escapes_spaced)
  show "calm_clock (24 * hour)
     [(test_cell ''b'', 1000 * second, Mosaic, Xm), (test_cell ''b'', 1001 * second, Mosaic, Xm),
      (test_cell ''b'', 1002 * second, Mosaic, Xp)]"
    using apiserver_not_temp
    by (simp add: calm_clock_def plain_boot_def graphic_def sane_sec_def)
qed (simp_all add: in_i64_def)

text \<open>
  After an escape the loop starts afresh: with no fault, the crash that follows an
  escape finds an empty history, so it counts as the first and cannot escape again while
  at least two crashes are needed.
\<close>

theorem escape_forgets_histories:
  assumes "fault_free E" and "clean w" and "not_temp (component @ crashes_suffix)" and "not_temp (other @ crashes_suffix)"
    and "Escaped (fst (fst (record_crash E c rfc now component allele w)))"
    and "w' = snd (record_crash E c rfc now component allele w)" and "2 \<le> EscapeCrashes c'"
  shows "Crashes (fst (fst (record_crash E c' rfc now' other allele' w'))) = 1
    \<and> \<not> Escaped (fst (fst (record_crash E c' rfc now' other allele' w')))"
proof -
  let ?S = "crash_spec c rfc now component allele (with_lock (view w))"
  have r: "fst (record_crash E c rfc now component allele w) = fst ?S" "view w' = snd ?S" "clean w'"
    using record_crash_outcome [OF assms(1-3)] assms(6) by (simp_all add: outcome_def)
  then have "view w' = escaped_view c rfc now component allele (with_lock (view w))"
    using assms(5) by (auto simp: crash_spec_def Let_def split: sum.splits option.splits if_splits)
  then have "crash_times c' now' other (view w') = []"
    using no_history_suffix by (auto simp: crash_times_def escaped_view_def forget_histories_def)
  then show ?thesis
    using record_crash_outcome [OF assms(1) \<open>clean w'\<close> assms(4), of c' rfc now' allele'] assms(7)
    by (simp add: outcome_def crash_spec_def)
qed

theorem escape_forgets_histories_witness:
  "Crashes (fst (fst (record_crash quiet (test_cell ''b'') (\<lambda>_. []) (1001 * second) Mosaic Xp
     (snd (record_crash quiet (test_cell ''b'') (\<lambda>_. []) (1000 * second) Mosaic Xm struck_node))))) = 1"
proof -
  have "Escaped (fst (fst (crash_spec (test_cell ''b'') (\<lambda>_. []) (1000 * second) Mosaic Xm
      (with_lock (view struck_node)))))"
    by (simp add: crash_spec_escapes struck_times struck_node stored_allele_def escape_guard_def is_allele_def)
  then have "Escaped (fst (fst (record_crash quiet (test_cell ''b'') (\<lambda>_. []) (1000 * second) Mosaic Xm struck_node)))"
    using record_crash_outcome [OF quiet_fault_free struck_node(1) apiserver_not_temp] by (simp add: outcome_def)
  then show ?thesis
    by (rule escape_forgets_histories [THEN conjunct1, OF quiet_fault_free struck_node(1) apiserver_not_temp
          apiserver_not_temp _ refl]) simp
qed

text \<open>
  Claim C30. Refinement of \<open>RecordCrash\<close>: on a disk without faults, the sequence of file
  operations computes the abstract decision \<open>crash_spec\<close> on the directory seen as a map,
  result and new directory both, on every branch (still counting, unreadable or switched
  allele, upgrade, same boot, cooling down, escape); it leaves no temporary file.
\<close>

theorem record_crash_refines:
  assumes "fault_free E" and "clean w" and "not_temp (component @ crashes_suffix)"
  shows "fst (record_crash E c rfc now component allele w)
      = fst (crash_spec c rfc now component allele (with_lock (view w)))
    \<and> view (snd (record_crash E c rfc now component allele w))
      = snd (crash_spec c rfc now component allele (with_lock (view w)))
    \<and> clean (snd (record_crash E c rfc now component allele w))"
  using record_crash_outcome [OF assms] by (simp add: outcome_def)

theorem record_crash_refines_witness:
  "view (snd (record_crash quiet (test_cell ''b'') (\<lambda>_. []) (5 * second) Mosaic Xp (node_with Xp)))
     = snd (crash_spec (test_cell ''b'') (\<lambda>_. []) (5 * second) Mosaic Xp (with_lock (view (node_with Xp))))"
  using record_crash_refines [of quiet "node_with Xp" Mosaic] by simp

text \<open>
  The crash history round trip: what \<open>formatTimes\<close> wrote is read back as
  exactly the timestamps that lie in the window and not in the future, in order.
\<close>

theorem history_roundtrip:
  assumes "fault_free E" and "view w (component @ crashes_suffix) = Some (formatTimes ts)"
    and "\<And>t. t \<in> set ts \<Longrightarrow> in_i64 t"
  shows "fst (recent E c (component @ crashes_suffix) now w) = filter (in_window c now) ts"
  using assms by (simp add: ff_recent crash_times_def fields_formatTimes map_filter_recent)

theorem history_roundtrip_witness:
  "fst (recent quiet (test_cell ''b'') (''k'' @ crashes_suffix) (700 * second)
     \<lparr>files = [(''k'' @ crashes_suffix, formatTimes [50, 650, 800])], tick = 0, trace = []\<rparr>) = [650]"
proof -
  let ?w = "\<lparr>files = [(''k'' @ crashes_suffix, formatTimes [50, 650, 800])], tick = 0, trace = []\<rparr>"
  have "fst (recent quiet (test_cell ''b'') (''k'' @ crashes_suffix) (700 * second) ?w)
      = filter (in_window (test_cell ''b'') (700 * second)) [50, 650, 800]"
    by (rule history_roundtrip) (auto simp: view_def in_i64_def)
  then show ?thesis
    by (simp add: in_window_def unix_time_def i64_id in_i64_def unix_to_internal_def t_sub_def)
qed

end
