(* ===== verification/Starters.thy ===== *)
theory Starters
  imports Cell
begin

text \<open>
  Several starters racing for the first choice on one node (\<open>Cell.Expressed\<close>, run by
  concurrent processes): the system calls of each run interleave with the others' in any
  order. A starter reads the choice, and if there is none prepares its own pick in a private
  file, tries to publish it with \<open>link(2)\<close>, which fails if the choice exists, and in
  that case reads the winner's. Any call may fail, the directory's sync after a successful
  link too, and then the starter ends with an error. The lemmas show that all starters agree and exactly one of
  them can report a first boot; the last one ties the steps to \<open>expressed\<close>.
\<close>

datatype starter =
    Reading
  | Linking string
  | Rereading
  | Finished string bool
  | Failed

record race =
  choice :: "string option"
  at :: "nat \<Rightarrow> starter"

definition race_init :: race where
  "race_init = \<lparr>choice = None, at = (\<lambda>_. Reading)\<rparr>"

inductive race_step :: "race \<Rightarrow> race \<Rightarrow> bool" where
  read_hit: "at s i = Reading \<Longrightarrow> choice s = Some a \<Longrightarrow> race_step s (s\<lparr>at := (at s)(i := Finished a False)\<rparr>)"
| read_miss: "at s i = Reading \<Longrightarrow> choice s = None \<Longrightarrow> is_allele p \<Longrightarrow>
    race_step s (s\<lparr>at := (at s)(i := Linking p)\<rparr>)"
| link_win: "at s i = Linking p \<Longrightarrow> choice s = None \<Longrightarrow>
    race_step s (s\<lparr>choice := Some p, at := (at s)(i := Finished p True)\<rparr>)"
| link_lose: "at s i = Linking p \<Longrightarrow> choice s = Some a \<Longrightarrow>
    race_step s (s\<lparr>at := (at s)(i := Rereading)\<rparr>)"
| reread: "at s i = Rereading \<Longrightarrow> choice s = Some a \<Longrightarrow>
    race_step s (s\<lparr>at := (at s)(i := Finished a False)\<rparr>)"
| fails: "at s i = Reading \<or> at s i = Rereading \<or> at s i = Linking p \<Longrightarrow> race_step s (s\<lparr>at := (at s)(i := Failed)\<rparr>)"
| link_unsynced: "at s i = Linking p \<Longrightarrow> choice s = None \<Longrightarrow>
    race_step s (s\<lparr>choice := Some p, at := (at s)(i := Failed)\<rparr>)"

inductive race_reachable :: "race \<Rightarrow> bool" where
  start: "race_reachable race_init"
| step: "race_reachable s \<Longrightarrow> race_step s t \<Longrightarrow> race_reachable t"

inductive_cases race_stepE: "race_step s t"

text \<open>
  The invariant: before the choice exists nobody is past the link, and afterwards every
  starter that finished or is about to reread sees it, with one winner at most.
\<close>

definition race_inv :: "race \<Rightarrow> bool" where
  "race_inv s \<longleftrightarrow>
     (\<forall>i a b. at s i = Finished a b \<longrightarrow> choice s = Some a) \<and>
     (\<forall>i. at s i = Rereading \<longrightarrow> choice s \<noteq> None) \<and>
     (\<forall>i p. at s i = Linking p \<longrightarrow> is_allele p) \<and>
     (\<forall>a. choice s = Some a \<longrightarrow> is_allele a) \<and>
     (\<forall>i j a b. at s i = Finished a True \<and> at s j = Finished b True \<longrightarrow> i = j)"

lemma race_inv_init: "race_inv race_init"
  by (simp add: race_inv_def race_init_def)

lemma race_step_inv: "race_step s t \<Longrightarrow> race_inv s \<Longrightarrow> race_inv t"
  by (induction rule: race_step.induct) (unfold race_inv_def, (force split: if_splits)+)

lemma race_reachable_inv: "race_reachable s \<Longrightarrow> race_inv s"
  by (induction rule: race_reachable.induct) (blast intro: race_inv_init race_step_inv)+

text \<open>Once made, the choice never changes.\<close>

lemma race_step_choice: "race_step s t \<Longrightarrow> choice s = Some a \<Longrightarrow> choice t = Some a"
  by (auto elim: race_stepE)

text \<open>No starter is stuck: each that has not ended has a step, even when no call fails.\<close>

lemma race_progress:
  assumes "race_inv s" and "\<And>a b. at s i \<noteq> Finished a b" and "at s i \<noteq> Failed"
  shows "\<exists>t. race_step s t \<and> at t i \<noteq> at s i"
proof (cases "at s i")
  case Reading
  show ?thesis
  proof (cases "choice s")
    case None
    have "is_allele Xm" by (simp add: is_allele_def)
    then show ?thesis using read_miss [OF Reading None] Reading by fastforce
  next
    case (Some a)
    then show ?thesis using read_hit [OF Reading Some] Reading by fastforce
  qed
next
  case (Linking p)
  show ?thesis
  proof (cases "choice s")
    case None
    then show ?thesis using link_win [OF Linking None] Linking by fastforce
  next
    case (Some a)
    then show ?thesis using link_lose [OF Linking Some] Linking by fastforce
  qed
next
  case Rereading
  then obtain a where "choice s = Some a" using assms(1) by (auto simp: race_inv_def)
  then show ?thesis using reread [OF Rereading] Rereading by fastforce
qed (use assms(2,3) in blast)+

text \<open>
  The two runs of the sequential model are runs of the relation: with no fault,
  \<open>expressed\<close> on a directory without a choice ends as \<open>read_miss\<close> then
  \<open>link_win\<close> do, and on one with a choice as \<open>read_hit\<close> does.
\<close>

lemma expressed_is_read_hit:
  assumes "fault_free E" and "stored_allele (view w) = Inr a"
  shows "fst (expressed E random w) = Inr (a, False)"
  using assms by (simp add: expressed_def ff_read_allele)

lemma expressed_is_link_win:
  assumes E: "fault_free E" and cl: "clean w" and none: "view w choice_file = None" and p: "is_allele p"
  shows "fst (expressed E (Some p) w) = Inr (p, True)
    \<and> view (snd (expressed E (Some p) w)) = (view w)(choice_file \<mapsto> p @ [CHR 0x0A])"
proof -
  let ?w1 = "snd (write_temp E (p @ [CHR 0x0A]) (ticked (ticked w)))"
  obtain r where r: "fst (write_temp E (p @ [CHR 0x0A]) (ticked (ticked w))) = Inr (temp_name r)"
    and v: "view ?w1 = (view w)(temp_name r \<mapsto> p @ [CHR 0x0A])"
    using ff_write_temp [OF E, of "ticked (ticked w)" "p @ [CHR 0x0A]"] cl by auto
  let ?l = "fs_link E (temp_name r) choice_file ?w1"
  have l: "fst ?l = Inr ()" "view (snd ?l) = (view ?w1)(choice_file \<mapsto> p @ [CHR 0x0A])"
    using E v none not_temp_neq [of choice_file r]
    by (auto simp: fs_link_def fault_free_def view_def fun_eq_iff)
  have rem: "view (snd (fs_remove E n x)) = (view x)(n := None)" for n x
    using E by (auto simp: fs_remove_def fault_free_def view_def fun_eq_iff)
  show ?thesis
    using r l v E none ff_sync_dir [OF E, of "snd ?l"] clean_temp [OF cl, of r] not_temp_neq [of choice_file r]
    by (auto simp: expressed_def ff_read_allele stored_allele_def ff_calls case_prod_beta Let_def
          publish_choice_def rem fun_eq_iff)
qed

text \<open>
  Claim C29. Exactly one starter wins: in every state that racing first starts can reach,
  all starters that finished return the same allele, and at most one of them reports a
  first boot.
\<close>

theorem starters_agree:
  assumes "race_reachable s" and "at s i = Finished a f" and "at s j = Finished b g"
  shows "a = b \<and> is_allele a \<and> (f \<and> g \<longrightarrow> i = j)"
  using race_reachable_inv [OF assms(1)] assms(2,3) unfolding race_inv_def by (metis option.inject)

theorem starters_agree_witness:
  "\<exists>s. race_reachable s \<and> at s 0 = Finished Xm True \<and> at s 1 = Finished Xm False \<and> is_allele Xm"
proof -
  define s1 where "s1 = race_init\<lparr>at := (at race_init)(0 := Linking Xm)\<rparr>"
  define s2 where "s2 = s1\<lparr>at := (at s1)(1 := Linking Xp)\<rparr>"
  define s3 where "s3 = s2\<lparr>choice := Some Xm, at := (at s2)(0 := Finished Xm True)\<rparr>"
  define s4 where "s4 = s3\<lparr>at := (at s3)(1 := Rereading)\<rparr>"
  define s5 where "s5 = s4\<lparr>at := (at s4)(1 := Finished Xm False)\<rparr>"
  have steps: "race_step race_init s1" "race_step s1 s2" "race_step s2 s3" "race_step s3 s4" "race_step s4 s5"
    unfolding s5_def s4_def s3_def s2_def s1_def
    by (rule race_step.intros; simp add: race_init_def is_allele_def)+
  then have "race_reachable s5"
    using race_reachable.intros by blast
  moreover have "at s5 0 = Finished Xm True" "at s5 1 = Finished Xm False"
    by (simp_all add: s5_def s4_def s3_def)
  ultimately show ?thesis
    using starters_agree [of s5 0 Xm True 1 Xm False] by blast
qed

end
