(* ===== verification/Wrapper.thy ===== *)
theory Wrapper
  imports Starters
begin

text \<open>
  \<open>x-inactivation/main.go\<close>: the process installed under a control-plane component's
  name, which picks the allele to express (\<open>choose_allele\<close>), adds the emulated version
  (\<open>withEmulation\<close>), runs the component under \<open>supervise\<close> and, when it exits,
  decides whether that was a crash (\<open>exited\<close>). The environment variables are a function
  \<open>getenv\<close> (the empty string when unset), \<open>time.ParseDuration\<close> is the parameter
  \<open>parse_duration\<close>, and the select loop of \<open>supervise\<close> consumes one event at a
  time: a signal, a tick with what \<open>cell.read\<close> returned, the kill timer, or the exit of
  the component. Log lines are not modelled; the branch that logs is a value of
  \<open>exit_log\<close>.
\<close>

section \<open>Settings\<close>

type_synonym getenv = "string \<Rightarrow> string"

definition env_or :: "getenv \<Rightarrow> string \<Rightarrow> string \<Rightarrow> string" where
  "env_or getenv name def = (if getenv name \<noteq> [] then getenv name else def)"

definition duration_or :: "getenv \<Rightarrow> (string \<Rightarrow> duration option) \<Rightarrow> string \<Rightarrow> duration \<Rightarrow> duration" where
  "duration_or getenv parse_duration name def =
     (let v = getenv name
      in if v = [] then def
         else case parse_duration v of None \<Rightarrow> def | Some d \<Rightarrow> if d \<le> 0 then def else d)"

record wrapper =
  component :: string
  node_cell :: cell
  state_dir :: string
  pinned :: bool
  minUptime :: duration
  stopTimeout :: duration
  follow :: duration

definition newWrapper :: "getenv \<Rightarrow> (string \<Rightarrow> duration option) \<Rightarrow> string \<Rightarrow> string \<Rightarrow> wrapper" where
  "newWrapper getenv parse_duration boot_id name =
     (let crashes = (case parse_int (env_or getenv ''KYVERNETRIA_ESCAPE_CRASHES'' ''5'') of
            None \<Rightarrow> 5 | Some n \<Rightarrow> if n < 2 then 5 else n);
          dur = duration_or getenv parse_duration
      in \<lparr>component = name,
          node_cell = \<lparr>EscapeCrashes = crashes,
            EscapeWindow = dur ''KYVERNETRIA_ESCAPE_WINDOW'' (10 * minute),
            Cooldown = dur ''KYVERNETRIA_ESCAPE_COOLDOWN'' (24 * hour),
            BootID = Some boot_id\<rparr>,
          state_dir = env_or getenv ''KYVERNETRIA_STATE_DIR'' ''/var/lib/kyvernetria'',
          pinned = False,
          minUptime = dur ''KYVERNETRIA_CRASH_UPTIME'' (120 * second),
          stopTimeout = dur ''KYVERNETRIA_STOP_TIMEOUT'' (30 * second),
          follow = dur ''KYVERNETRIA_FOLLOW_INTERVAL'' (5 * second)\<rparr>)"

section \<open>Choosing an allele\<close>

datatype start_error =
    BadPin string
  | StateUnreadable io_error
  | MinorUnreadable
  | BadMinor string

definition choose_allele ::
    "env \<Rightarrow> getenv \<Rightarrow> string option \<Rightarrow> wrapper \<Rightarrow> world \<Rightarrow> (start_error + string) \<times> wrapper \<times> world" where
  "choose_allele E getenv random w d =
     (let pin = getenv ''KYVERNETRIA_ALLELE''
      in if pin \<noteq> []
         then (if pin \<noteq> Xm \<and> pin \<noteq> Xp then (Inl (BadPin pin), w, d)
               else (Inr pin, w\<lparr>pinned := True\<rparr>, d))
         else if component w \<noteq> Mosaic then (Inr Xp, w, d)
         else (case expressed E random d of
            (Inl e, d) \<Rightarrow> (Inl (StateUnreadable e), w, d)
          | (Inr (a, firstBoot), d) \<Rightarrow> (Inr a, w, d)))"

section \<open>The emulated version\<close>

text \<open>\<open>read_file path\<close> is the content of a file, or \<open>None\<close> when it cannot be read.\<close>

definition xpMinor :: "getenv \<Rightarrow> (string \<Rightarrow> string option) \<Rightarrow> start_error + string" where
  "xpMinor getenv read_file =
     (let check = (\<lambda>v. let parts = split_on (CHR ''.'') v
            in if length parts \<noteq> 2 then Inl (BadMinor v)
               else if list_all (\<lambda>p. parse_int p \<noteq> None) parts then Inr v else Inl (BadMinor v));
          v = getenv ''KYVERNETRIA_XP_MINOR''
      in if v \<noteq> [] then check v
         else (case read_file (env_or getenv ''KYVERNETRIA_XP_MINOR_FILE'' ''/usr/local/share/kyvernetria/xp-minor'') of
            None \<Rightarrow> Inl MinorUnreadable
          | Some b \<Rightarrow> check (trim_space b)))"

definition emulated_flag :: string where
  "emulated_flag = ''--emulated-version''"

definition chooses_version :: "string \<Rightarrow> bool" where
  "chooses_version a \<longleftrightarrow> a = emulated_flag \<or> has_prefix a (emulated_flag @ ''='')"

definition withEmulation :: "getenv \<Rightarrow> (string \<Rightarrow> string option) \<Rightarrow> string list \<Rightarrow> start_error + string list" where
  "withEmulation getenv read_file args =
     (if list_ex chooses_version args then Inr args
      else case xpMinor getenv read_file of
        Inl e \<Rightarrow> Inl e
      | Inr m \<Rightarrow> Inr (args @ [emulated_flag @ ''='' @ m]))"

section \<open>Exits\<close>

text \<open>What \<open>cmd.Wait\<close> returned: success, a signal, an exit status, or another error.\<close>

datatype wait_result = WaitOk | Signaled int | ExitStatus int | WaitFailed

fun exitCode :: "wait_result \<Rightarrow> int" where
  "exitCode WaitOk = 0"
| "exitCode (Signaled s) = 128 + s"
| "exitCode (ExitStatus n) = n"
| "exitCode WaitFailed = 1"

datatype exit_log =
    CleanExit
  | OnRequest
  | RanLong
  | NeverEscapes
  | PinnedNoEscape
  | CrashNoted decision "io_error list"

definition exited ::
    "env \<Rightarrow> (gotime \<Rightarrow> string) \<Rightarrow> wrapper \<Rightarrow> string \<Rightarrow> int \<Rightarrow> duration \<Rightarrow> bool \<Rightarrow> gotime \<Rightarrow> world
     \<Rightarrow> exit_log \<times> world" where
  "exited E rfc w allele code uptime stopping now d =
     (if code = 0 then (CleanExit, d)
      else if stopping then (OnRequest, d)
      else if minUptime w \<le> uptime then (RanLong, d)
      else if component w \<noteq> Mosaic then (NeverEscapes, d)
      else if pinned w then (PinnedNoEscape, d)
      else (case record_crash E (node_cell w) rfc now (component w) allele d of
         ((dec, errs), d) \<Rightarrow> (CrashNoted dec errs, d)))"

section \<open>Supervision\<close>

datatype action = SendSignal int | SendKill

definition SIGTERM :: int where "SIGTERM = 15"

datatype sup_event =
    SignalEv int
  | TickEv "io_error + string"
  | KillEv
  | ExitEv wait_result duration gotime

record sup =
  stopping :: bool
  kill_armed :: bool
  actions :: "action list"

definition sup_start :: sup where
  "sup_start = \<lparr>stopping = False, kill_armed = False, actions = []\<rparr>"

text \<open>One pass of the select loop that does not end it.\<close>

fun sup_step :: "wrapper \<Rightarrow> string \<Rightarrow> sup \<Rightarrow> sup_event \<Rightarrow> sup" where
  "sup_step w allele s (SignalEv sig) = s\<lparr>stopping := True, actions := actions s @ [SendSignal sig]\<rparr>"
| "sup_step w allele s KillEv =
     (if kill_armed s then s\<lparr>kill_armed := False, actions := actions s @ [SendKill]\<rparr> else s)"
| "sup_step w allele s (TickEv r) =
     (if component w \<noteq> Mosaic \<or> pinned w \<or> stopping s then s
      else case r of
        Inl _ \<Rightarrow> s
      | Inr now \<Rightarrow>
          if now \<noteq> allele
          then s\<lparr>stopping := True, kill_armed := True, actions := actions s @ [SendSignal SIGTERM]\<rparr>
          else s)"
| "sup_step w allele s (ExitEv r uptime now) = s"

text \<open>\<open>None\<close>: the events are used up and the component still runs.\<close>

fun sup_loop ::
    "env \<Rightarrow> (gotime \<Rightarrow> string) \<Rightarrow> wrapper \<Rightarrow> string \<Rightarrow> sup \<Rightarrow> sup_event list \<Rightarrow> world
     \<Rightarrow> (int \<times> exit_log \<times> sup \<times> world) option" where
  "sup_loop E rfc w allele s [] d = None"
| "sup_loop E rfc w allele s (ExitEv r uptime now # es) d =
     (let code = exitCode r; (log, d) = exited E rfc w allele code uptime (stopping s) now d
      in Some (code, log, s, d))"
| "sup_loop E rfc w allele s (e # es) d = sup_loop E rfc w allele (sup_step w allele s e) es d"

definition supervise ::
    "env \<Rightarrow> (gotime \<Rightarrow> string) \<Rightarrow> wrapper \<Rightarrow> string \<Rightarrow> bool \<Rightarrow> gotime \<Rightarrow> sup_event list \<Rightarrow> world
     \<Rightarrow> (int \<times> exit_log \<times> sup \<times> world) option" where
  "supervise E rfc w allele started now events d =
     (if \<not> started
      then (let (log, d) = exited E rfc w allele 1 0 False now d in Some (1, log, sup_start, d))
      else sup_loop E rfc w allele sup_start events d)"

text \<open>
  \<open>run\<close>: exit code 1 without starting anything when no allele can be chosen, else the
  outcome of supervising \<open>component.allele\<close>, taken from the directory given first, with
  the arguments.
\<close>

datatype run_result =
    Refused start_error
  | Launched string string "string list" "(int \<times> exit_log \<times> sup \<times> world) option"

definition run ::
    "env \<Rightarrow> (gotime \<Rightarrow> string) \<Rightarrow> getenv \<Rightarrow> (string \<Rightarrow> duration option) \<Rightarrow> (string \<Rightarrow> string option) \<Rightarrow> string
     \<Rightarrow> string \<Rightarrow> string option \<Rightarrow> string \<Rightarrow> string list \<Rightarrow> bool \<Rightarrow> gotime \<Rightarrow> sup_event list \<Rightarrow> world \<Rightarrow> run_result" where
  "run E rfc getenv parse_duration read_file executable_dir boot_id random name args started now events d =
     (case choose_allele E getenv random (newWrapper getenv parse_duration boot_id name) d of
        (Inl e, _, _) \<Rightarrow> Refused e
      | (Inr allele, w, d) \<Rightarrow>
          (case (if name = Mosaic \<and> allele = Xm then withEmulation getenv read_file args else Inr args) of
             Inl e \<Rightarrow> Refused e
           | Inr args \<Rightarrow>
               Launched (env_or getenv ''KYVERNETRIA_BIN_DIR'' executable_dir) (name @ ''.'' @ allele) args
                 (supervise E rfc w allele started now events d)))"

section \<open>Lemmas\<close>

lemma newWrapper_simps [simp]:
  "component (newWrapper g p b n) = n" "pinned (newWrapper g p b n) = False"
  "2 \<le> EscapeCrashes (node_cell (newWrapper g p b n))"
  by (auto simp: newWrapper_def Let_def split: option.splits)

lemma choose_component: "choose_allele E g r w d = (res, w', d') \<Longrightarrow> component w' = component w"
  by (auto simp: choose_allele_def Let_def case_prod_beta split: if_splits prod.splits sum.splits)

lemma sup_step_stopping: "stopping s \<Longrightarrow> stopping (sup_step w a s e)"
  by (cases "(w, a, s, e)" rule: sup_step.cases) (auto split: sum.splits)

lemma sup_loop_stopping:
  "sup_loop E rfc w a s es d = Some (code, log, s', d') \<Longrightarrow> stopping s \<Longrightarrow>
   d' = d \<and> (log = OnRequest \<or> code = 0 \<and> log = CleanExit)"
proof (induction E rfc w a s es d rule: sup_loop.induct)
  case (2 E rfc w a s r uptime now es d)
  then show ?case by (auto simp: Let_def exited_def split: if_splits)
qed (auto simp: sup_step_stopping split: sum.splits)

text \<open>The events that make the wrapper ask the component to stop.\<close>

definition asks_to_stop :: "wrapper \<Rightarrow> string \<Rightarrow> sup_event \<Rightarrow> bool" where
  "asks_to_stop w allele e =
     (case e of
        SignalEv _ \<Rightarrow> True
      | TickEv (Inr now) \<Rightarrow> component w = Mosaic \<and> \<not> pinned w \<and> now \<noteq> allele
      | _ \<Rightarrow> False)"

lemma sup_step_stopping_iff:
  "stopping (sup_step w a s e) \<longleftrightarrow> stopping s \<or> asks_to_stop w a e"
  by (cases e) (auto simp: asks_to_stop_def split: sum.splits)

definition no_exit :: "sup_event list \<Rightarrow> bool" where
  "no_exit es \<longleftrightarrow> (\<forall>r uptime now. ExitEv r uptime now \<notin> set es)"

lemma sup_loop_append:
  "no_exit es \<Longrightarrow> sup_loop E rfc w a s (es @ fs) d = sup_loop E rfc w a (foldl (sup_step w a) s es) fs d"
proof (induction es arbitrary: s)
  case (Cons e es)
  then show ?case by (cases e) (auto simp: no_exit_def)
qed (simp add: no_exit_def)

lemma foldl_stopping_iff:
  "stopping (foldl (sup_step w a) s es) \<longleftrightarrow> stopping s \<or> list_ex (asks_to_stop w a) es"
  by (induction es arbitrary: s) (auto simp: sup_step_stopping_iff)

text \<open>
  A SIGKILL is only ever sent by the timer that an allele switch armed, once, with the
  SIGTERM of the switch before it.
\<close>

definition kill_inv :: "sup \<Rightarrow> bool" where
  "kill_inv s \<longleftrightarrow>
     (kill_armed s \<longrightarrow> stopping s \<and> SendSignal SIGTERM \<in> set (actions s) \<and> SendKill \<notin> set (actions s))
     \<and> (SendKill \<in> set (actions s) \<longrightarrow>
          stopping s \<and> SendSignal SIGTERM \<in> set (takeWhile (\<lambda>x. x \<noteq> SendKill) (actions s)))
     \<and> count_list (actions s) SendKill \<le> 1"

lemma takeWhile_absent: "SendKill \<notin> set xs \<Longrightarrow> takeWhile (\<lambda>x. x \<noteq> SendKill) (xs @ ys) = xs @ takeWhile (\<lambda>x. x \<noteq> SendKill) ys"
  by (rule takeWhile_append2) auto

lemma takeWhile_present: "SendKill \<in> set xs \<Longrightarrow> takeWhile (\<lambda>x. x \<noteq> SendKill) (xs @ ys) = takeWhile (\<lambda>x. x \<noteq> SendKill) xs"
  by (rule takeWhile_append1) auto

lemma kill_inv_step: "kill_inv s \<Longrightarrow> kill_inv (sup_step w a s e)"
  by (cases "(w, a, s, e)" rule: sup_step.cases)
    (auto simp: kill_inv_def count_list_0_iff takeWhile_absent takeWhile_present split: sum.splits)

lemma kill_inv_start: "kill_inv sup_start"
  by (simp add: kill_inv_def sup_start_def)

lemma sup_loop_kill_inv:
  "sup_loop E rfc w a s es d = Some (code, log, s', d') \<Longrightarrow> kill_inv s \<Longrightarrow> kill_inv s'"
proof (induction E rfc w a s es d rule: sup_loop.induct)
  case (2 E rfc w a s r uptime now es d)
  then show ?case by (simp add: Let_def case_prod_beta)
qed (simp_all add: kill_inv_step del: sup_step.simps)

definition counts_as_crash :: "wrapper \<Rightarrow> int \<Rightarrow> duration \<Rightarrow> bool \<Rightarrow> bool" where
  "counts_as_crash w code uptime asked \<longleftrightarrow>
     code \<noteq> 0 \<and> \<not> asked \<and> uptime < minUptime w \<and> component w = Mosaic \<and> \<not> pinned w"

lemma exited_counts:
  "(\<exists>dec errs. fst (exited E rfc w a code uptime asked now d) = CrashNoted dec errs)
     \<longleftrightarrow> counts_as_crash w code uptime asked"
  by (auto simp: exited_def counts_as_crash_def case_prod_beta)

lemma exited_else:
  "\<not> counts_as_crash w code uptime asked \<Longrightarrow> snd (exited E rfc w a code uptime asked now d) = d"
  by (auto simp: exited_def counts_as_crash_def)

lemma sup_loop_exit:
  "no_exit es \<Longrightarrow> sup_loop E rfc w a s (es @ ExitEv r uptime now # rest) d =
   (let s' = foldl (sup_step w a) s es;
        out = exited E rfc w a (exitCode r) uptime (stopping s') now d
    in Some (exitCode r, fst out, s', snd out))"
  by (simp add: sup_loop_append Let_def case_prod_beta)

lemma xpMinor_shape:
  "xpMinor g rf = Inr m \<Longrightarrow>
   \<exists>major minor. m = major @ CHR ''.'' # minor \<and> parse_int major \<noteq> None \<and> parse_int minor \<noteq> None"
proof -
  assume "xpMinor g rf = Inr m"
  then have len: "length (split_on (CHR ''.'') m) = 2"
    and ok: "list_all (\<lambda>p. parse_int p \<noteq> None) (split_on (CHR ''.'') m)"
    by (auto simp: xpMinor_def Let_def split: if_splits option.splits)
  then obtain x y where xy: "split_on (CHR ''.'') m = [x, y]"
    by (auto simp: numeral_2_eq_2 length_Suc_conv)
  then have "m = x @ CHR ''.'' # y" by (metis join_split join.simps(2,3) append_Cons append_Nil)
  then show ?thesis using ok xy by auto
qed

section \<open>Properties\<close>

text \<open>A pod environment with the given variables, and the test wrapper of a node.\<close>

definition vars :: "(string \<times> string) list \<Rightarrow> getenv" where
  "vars kvs name = (case map_of kvs name of None \<Rightarrow> [] | Some v \<Rightarrow> v)"

definition test_wrapper :: "string \<Rightarrow> wrapper" where
  "test_wrapper name = newWrapper (vars []) (\<lambda>_. None) ''boot'' name"

text \<open>
  The skew policy: a component other than kube-apiserver, when nothing pins it, is
  launched from its \<open>Xp\<close> binary with exactly the arguments it was given, whatever the
  node's allele is and whatever fails on its disk; and however it runs and exits, its wrapper
  changes nothing of the node's state.
\<close>

theorem others_express_Xp:
  assumes "name \<noteq> Mosaic" and "getenv ''KYVERNETRIA_ALLELE'' = []"
  shows "\<exists>dir r. run E rfc getenv parse_duration read_file executable_dir boot_id random name args started now
            events d = Launched dir (name @ ''.'' @ Xp) args r
          \<and> (\<forall>code log s d'. r = Some (code, log, s, d') \<longrightarrow> d' = d)"
proof -
  let ?w = "newWrapper getenv parse_duration boot_id name"
  have loop: "sup_loop E rfc ?w Xp s events d = Some (code, log, s', d') \<Longrightarrow> d' = d" for s code log s' d'
  proof (induction E rfc ?w "Xp" s events d rule: sup_loop.induct)
    case (2 E rfc s r uptime now es d)
    then show ?case using assms(1) exited_else [of ?w]
      by (simp add: Let_def case_prod_beta counts_as_crash_def)
  qed (simp_all del: sup_step.simps)
  have "supervise E rfc ?w Xp started now events d = Some (code, log, s', d') \<Longrightarrow> d' = d" for code log s' d'
    using assms(1) exited_else [of ?w] loop
    by (auto simp: supervise_def counts_as_crash_def Let_def case_prod_beta split: if_splits)
  then show ?thesis using assms by (simp add: run_def choose_allele_def)
qed

theorem others_express_Xp_witness:
  "\<exists>dir r. run quiet (\<lambda>_. []) (vars []) (\<lambda>_. None) (\<lambda>_. None) ''/bin'' ''boot'' None ''kube-scheduler'' [''-v=2''] True 0
       [ExitEv (ExitStatus 1) second 5] (node_with Xm) = Launched dir ''kube-scheduler.Xp'' [''-v=2''] r
     \<and> (\<forall>code log s d'. r = Some (code, log, s, d') \<longrightarrow> d' = node_with Xm)"
proof -
  have "''kube-scheduler'' @ ''.'' @ Xp = ''kube-scheduler.Xp''" by (simp add: Xp_def)
  then show ?thesis
    using others_express_Xp [of "''kube-scheduler''" "vars []" quiet "\<lambda>_. []" "\<lambda>_. None" "\<lambda>_. None"
        "''/bin''" "''boot''" None "[''-v=2'']" True 0 "[ExitEv (ExitStatus 1) second 5]" "node_with Xm"]
    by (simp add: vars_def Mosaic_def)
qed

text \<open>
  What a recorded crash leaves in the node's directory: its time after the earlier ones of the
  window in the component's history, or, when it was one too many, the other allele.
\<close>

definition crash_stored :: "cell \<Rightarrow> gotime \<Rightarrow> string \<Rightarrow> string \<Rightarrow> decision \<Rightarrow> world \<Rightarrow> world \<Rightarrow> bool" where
  "crash_stored c now name allele dec d d' \<longleftrightarrow>
     Crashes dec = int (length (crash_times c now name (view d))) + 1
     \<and> (if Escaped dec
        then stored_allele (view d) = Inr allele \<and> stored_allele (view d') = Inr (Other allele)
        else view d' (name @ crashes_suffix) = Some (formatTimes (crash_times c now name (view d) @ [unix_sec now])))"

lemma record_crash_stored:
  assumes "fault_free E" and "clean d" and "not_temp (name @ crashes_suffix)"
    and "record_crash E c rfc now name allele d = ((dec, errs), d')"
  shows "crash_stored c now name allele dec d d'"
proof -
  let ?S = "crash_spec c rfc now name allele (with_lock (view d))"
  have "(dec, errs) = fst ?S" and v: "view d' = snd ?S"
    using record_crash_outcome [OF assms(1-3), of c rfc now allele] assms(4) by (simp_all add: outcome_def)
  then have r: "dec = fst (fst ?S)" "view d' = snd ?S" by (metis fst_conv) (rule v)
  show ?thesis
  proof (cases "Escaped dec")
    case True
    then have "snd ?S = escaped_view c rfc now name allele (with_lock (view d))" and "stored_allele (view d) = Inr allele"
        and "Crashes dec = int (length (crash_times c now name (view d))) + 1"
      using r(1) by (auto simp: crash_spec_def Let_def split: sum.splits option.splits if_splits)
    moreover have "stored_allele (escaped_view c rfc now name allele V) = Inr (Other allele)" for V
      by (simp add: stored_allele_def escaped_view_def forget_histories_def eq_commute [of choice_file])
    ultimately show ?thesis using True by (simp add: crash_stored_def r(2))
  next
    case False
    then show ?thesis using r
      by (auto simp: crash_stored_def crash_spec_def Let_def split: sum.splits option.splits if_splits)
  qed
qed

text \<open>
  Claim C32. Which exits count: after any events short of an exit, the component's exit is
  recorded as a crash exactly when its code is not zero, nothing asked it to stop (no signal
  was forwarded and no switch of the node's allele was seen), it ran less than the crash
  uptime, and it is an unpinned kube-apiserver. Then the node's state is what recording that
  crash of the allele it ran leaves, and on a disk without faults the crash is in the
  component's history, or the node has escaped to the other allele. Any other exit is not
  recorded and leaves the node's state as it was. Either way the wrapper returns the
  component's own exit code.
\<close>

theorem crash_counted_exactly_when:
  assumes "no_exit es"
  shows "\<exists>log s d'. supervise E rfc w a True t0 (es @ ExitEv r uptime now # rest) d
             = Some (exitCode r, log, s, d')
           \<and> (if exitCode r \<noteq> 0 \<and> \<not> list_ex (asks_to_stop w a) es \<and> uptime < minUptime w
                 \<and> component w = Mosaic \<and> \<not> pinned w
              then \<exists>dec errs. log = CrashNoted dec errs
                \<and> record_crash E (node_cell w) rfc now Mosaic a d = ((dec, errs), d')
                \<and> (fault_free E \<and> clean d \<longrightarrow> crash_stored (node_cell w) now Mosaic a dec d d')
              else (\<forall>dec errs. log \<noteq> CrashNoted dec errs) \<and> d' = d)"
proof -
  let ?s = "foldl (sup_step w a) sup_start es"
  let ?out = "exited E rfc w a (exitCode r) uptime (stopping ?s) now d"
  have st: "stopping ?s \<longleftrightarrow> list_ex (asks_to_stop w a) es"
    by (simp add: foldl_stopping_iff) (simp add: sup_start_def)
  have sup: "supervise E rfc w a True t0 (es @ ExitEv r uptime now # rest) d = Some (exitCode r, fst ?out, ?s, snd ?out)"
    using assms by (simp add: supervise_def sup_loop_exit Let_def)
  have counts: "counts_as_crash w (exitCode r) uptime (stopping ?s) \<longleftrightarrow>
      exitCode r \<noteq> 0 \<and> \<not> list_ex (asks_to_stop w a) es \<and> uptime < minUptime w \<and> component w = Mosaic \<and> \<not> pinned w"
    unfolding counts_as_crash_def st by blast
  obtain dec errs d' where rc: "record_crash E (node_cell w) rfc now Mosaic a d = ((dec, errs), d')"
    by (metis surj_pair)
  show ?thesis
  proof (cases "counts_as_crash w (exitCode r) uptime (stopping ?s)")
    case True
    then have "?out = (CrashNoted dec errs, d')"
      using rc by (simp add: exited_def counts_as_crash_def)
    then show ?thesis
      using sup True [unfolded counts] rc record_crash_stored [OF _ _ apiserver_not_temp rc]
      by (intro exI [of _ "CrashNoted dec errs"] exI [of _ ?s] exI [of _ d']) simp
  next
    case False
    then show ?thesis
      using sup False [unfolded counts] exited_counts [of E rfc w a "exitCode r" uptime "stopping ?s" now d]
        exited_else [OF False, of E rfc a now d]
      by (intro exI [of _ "fst ?out"] exI [of _ ?s] exI [of _ d]) auto
  qed
qed

theorem crash_counted_exactly_when_witness:
  "\<exists>log s d'. supervise quiet (\<lambda>_. []) (test_wrapper Mosaic) Xp True 0
        ([TickEv (Inr Xp)] @ ExitEv (Signaled 9) second 5 # []) (node_with Xp) = Some (exitCode (Signaled 9), log, s, d')
      \<and> (\<exists>dec errs. log = CrashNoted dec errs \<and> crash_stored (node_cell (test_wrapper Mosaic)) 5 Mosaic Xp dec (node_with Xp) d')"
proof -
  have m: "minUptime (test_wrapper Mosaic) = 120000000000"
    by (simp add: test_wrapper_def newWrapper_def duration_or_def vars_def Let_def)
  have c: "component (test_wrapper Mosaic) = Mosaic" "\<not> pinned (test_wrapper Mosaic)"
    by (simp_all add: test_wrapper_def)
  have "no_exit [TickEv (Inr Xp)]" "\<not> list_ex (asks_to_stop (test_wrapper Mosaic) Xp) [TickEv (Inr Xp)]"
    by (simp_all add: no_exit_def asks_to_stop_def)
  then show ?thesis
    using crash_counted_exactly_when [of "[TickEv (Inr Xp)]" quiet "\<lambda>_. []" "test_wrapper Mosaic" Xp 0
        "Signaled 9" second 5 "[]" "node_with Xp"] m c by fastforce
qed

text \<open>
  The kill timer: however the events interleave, by the time the component exits the
  wrapper has sent at most one SIGKILL, and only after a SIGTERM it sent to follow a switch of
  the node's allele; the exit after it counts as requested, so it is never recorded as a crash.
\<close>

theorem kill_only_after_switch:
  assumes "supervise E rfc w a started t0 events d = Some (code, log, s, d')"
  shows "count_list (actions s) SendKill \<le> 1
    \<and> (SendKill \<in> set (actions s) \<longrightarrow>
         SendSignal SIGTERM \<in> set (takeWhile (\<lambda>x. x \<noteq> SendKill) (actions s)) \<and> stopping s \<and> d' = d)"
proof -
  have inv: "kill_inv s"
    using assms sup_loop_kill_inv kill_inv_start
    by (auto simp: supervise_def Let_def case_prod_beta split: if_splits)
  have "stopping s \<Longrightarrow> d' = d"
  proof -
    have "sup_loop E rfc w a s0 events d = Some (code, log, s, d') \<Longrightarrow> stopping s \<Longrightarrow> d' = d" for s0
    proof (induction E rfc w a s0 events d rule: sup_loop.induct)
      case (2 E rfc w a s0 r uptime now es d)
      then show ?case by (auto simp: Let_def case_prod_beta exited_else counts_as_crash_def)
    qed (simp_all del: sup_step.simps)
    then show "stopping s \<Longrightarrow> d' = d"
      using assms by (auto simp: supervise_def Let_def case_prod_beta sup_start_def split: if_splits)
  qed
  then show ?thesis using inv by (auto simp: kill_inv_def)
qed

theorem kill_only_after_switch_witness:
  "\<exists>code log s d'. supervise quiet (\<lambda>_. []) (test_wrapper Mosaic) Xp True 0
       [TickEv (Inr Xm), KillEv, KillEv, ExitEv (Signaled 9) second 5] (node_with Xm) = Some (code, log, s, d')
     \<and> actions s = [SendSignal SIGTERM, SendKill] \<and> count_list (actions s) SendKill \<le> 1 \<and> d' = node_with Xm"
proof -
  have c: "component (test_wrapper Mosaic) = Mosaic" "\<not> pinned (test_wrapper Mosaic)"
    by (simp_all add: test_wrapper_def)
  have "supervise quiet (\<lambda>_. []) (test_wrapper Mosaic) Xp True 0
       [TickEv (Inr Xm), KillEv, KillEv, ExitEv (Signaled 9) second 5] (node_with Xm)
     = Some (137, OnRequest, \<lparr>stopping = True, kill_armed = False, actions = [SendSignal SIGTERM, SendKill]\<rparr>, node_with Xm)"
    using c by (simp add: supervise_def sup_start_def exited_def Xm_def Xp_def)
  from kill_only_after_switch [OF this] this show ?thesis by simp
qed

text \<open>
  An apiserver on \<open>Xm\<close> serves the API of \<open>Xp\<close>: when \<open>withEmulation\<close>
  succeeds, the arguments name an emulated version; the user's arguments are passed on
  unchanged when they already choose one, and else exactly one flag is appended, whose value
  is \<open>major.minor\<close> with both parts numbers. Doing it again changes nothing.
\<close>

theorem emulation_added_once:
  assumes "withEmulation getenv read_file args = Inr args'"
  shows "list_ex chooses_version args'
    \<and> (if list_ex chooses_version args then args' = args
       else \<exists>major minor. args' = args @ [emulated_flag @ ''='' @ major @ CHR ''.'' # minor]
              \<and> parse_int major \<noteq> None \<and> parse_int minor \<noteq> None)
    \<and> withEmulation getenv read_file args' = Inr args'"
proof (cases "list_ex chooses_version args")
  case True
  then show ?thesis using assms by (simp add: withEmulation_def)
next
  case False
  then obtain m where m: "xpMinor getenv read_file = Inr m" "args' = args @ [emulated_flag @ ''='' @ m]"
    using assms by (auto simp: withEmulation_def split: sum.splits)
  have "chooses_version (emulated_flag @ ''='' @ m)"
    unfolding chooses_version_def using has_prefix_append [of "emulated_flag @ ''=''" m] by simp
  then have "list_ex chooses_version args'" using m(2) by simp
  moreover obtain x y where "m = x @ CHR ''.'' # y" "parse_int x \<noteq> None" "parse_int y \<noteq> None"
    using xpMinor_shape [OF m(1)] by blast
  ultimately show ?thesis using m(2) False by (auto simp: withEmulation_def)
qed

theorem emulation_added_once_witness:
  "\<exists>args'. withEmulation (vars [(''KYVERNETRIA_XP_MINOR'', ''1.33'')]) (\<lambda>_. None) [''--v=2''] = Inr args'
     \<and> args' = [''--v=2'', ''--emulated-version=1.33''] \<and> list_ex chooses_version args'"
proof -
  have "withEmulation (vars [(''KYVERNETRIA_XP_MINOR'', ''1.33'')]) (\<lambda>_. None) [''--v=2'']
     = Inr [''--v=2'', ''--emulated-version=1.33'']" by code_simp
  from emulation_added_once [OF this] this show ?thesis by simp
qed

end
