(* ===== verification/Kube.thy ===== *)
theory Kube
  imports Go_Strconv
begin

text \<open>
  What several components take from \<open>pkg/kyvernetria/kyvernetria.go\<close> (the shared names
  and numbers) and from the Kubernetes API: the error classes the clients tell apart, the
  owner reference and the pod fields they read. The API server, its listers and
  \<open>schema.ParseGroupVersion\<close> are not part of the repository: where they are used they are
  parameters. The locale \<open>settling\<close> is the contract of a memory kept in an annotation.
\<close>

section \<open>Shared names and numbers\<close>

definition kyv_prefix :: string where "kyv_prefix = ''kyvernetria.io/''"
definition SelfLabel :: string where "SelfLabel = kyv_prefix @ ''self''"
definition ExcludedAnnotation :: string where "ExcludedAnnotation = kyv_prefix @ ''excluded''"
definition DiscussedAnnotation :: string where "DiscussedAnnotation = kyv_prefix @ ''discussed''"
definition RememberedNodesAnnotation :: string where "RememberedNodesAnnotation = kyv_prefix @ ''remembered-nodes''"
definition WorriedAnnotation :: string where "WorriedAnnotation = kyv_prefix @ ''worried''"
definition DosingLabel :: string where "DosingLabel = kyv_prefix @ ''dosing''"
definition DosingStartLow :: string where "DosingStartLow = ''start-low''"
definition StartingDoseAnnotation :: string where "StartingDoseAnnotation = kyv_prefix @ ''starting-dose''"
definition StartingDoseCPU :: string where "StartingDoseCPU = ''50m''"
definition StartingDoseMemory :: string where "StartingDoseMemory = ''64Mi''"
definition SupportGrace :: duration where "SupportGrace = 30 * 24 * hour"
definition SystemNamespace :: string where "SystemNamespace = ''kyvernetria-system''"
definition PlacentaLabel :: string where "PlacentaLabel = kyv_prefix @ ''placenta''"
definition CareLabel :: string where "CareLabel = kyv_prefix @ ''care''"
definition CareNewborn :: string where "CareNewborn = ''newborn''"
definition NewbornCareAnnotation :: string where "NewbornCareAnnotation = kyv_prefix @ ''newborn-care''"
definition PrimaryCaregiverAnnotation :: string where
  "PrimaryCaregiverAnnotation = kyv_prefix @ ''primary-caregiver''"
definition SecondaryCaregiverAnnotation :: string where
  "SecondaryCaregiverAnnotation = kyv_prefix @ ''secondary-caregiver''"
definition NewbornCareDuration :: duration where "NewbornCareDuration = 72 * hour"
definition MaxRememberedNodes :: nat where "MaxRememberedNodes = 16"
definition WorryThresholdPercent :: int where "WorryThresholdPercent = 70"

section \<open>Objects of the API\<close>

datatype api_error = NotFound | Conflict | AlreadyExists | OtherError string

type_synonym 'a api = "api_error + 'a"
type_synonym strmap = "string \<Rightarrow> string option"

text \<open>Reading a missing key of a Go string map gives the empty string.\<close>

definition lookup_str :: "strmap \<Rightarrow> string \<Rightarrow> string" where
  "lookup_str m k = (case m k of None \<Rightarrow> [] | Some v \<Rightarrow> v)"

lemma lookup_str_upd [simp]: "lookup_str (m(k \<mapsto> v)) k' = (if k' = k then v else lookup_str m k')"
  by (simp add: lookup_str_def)

lemma lookup_str_del [simp]: "lookup_str (m(k := None)) k' = (if k' = k then [] else lookup_str m k')"
  by (simp add: lookup_str_def)

record owner_ref =
  APIVersion :: string
  RefKind :: string
  RefName :: string
  RefUID :: string

text \<open>
  The part of a pod that several components read; \<open>Controller\<close> is what
  \<open>metav1.GetControllerOfNoCopy\<close> returns for it.
\<close>

record pod =
  PodNamespace :: string
  PodName :: string
  PodUID :: string
  PodLabels :: strmap
  PodController :: "owner_ref option"
  NodeName :: string
  PodPhase :: string
  PodDeleting :: bool

record annotated_pod = pod +
  PodAnnotations :: strmap

definition PodRunning :: string where "PodRunning = ''Running''"
definition PodSucceeded :: string where "PodSucceeded = ''Succeeded''"
definition PodFailed :: string where "PodFailed = ''Failed''"

section \<open>Annotations that a controller recomputes\<close>

text \<open>
  A component that keeps its memory in one annotation decodes the value, works on it with what
  it observed (\<open>r\<close>) and encodes the result. The contract \<open>settling\<close> is what makes
  such a controller quiet: for a sane observation, decoding what was encoded gives it back, and
  working on a worked value changes nothing. Then the controller that finds its own value
  writes nothing more.
\<close>

locale settling =
  fixes enc :: "'a \<Rightarrow> string" and dec :: "string \<Rightarrow> 'a" and work :: "'r \<Rightarrow> 'a \<Rightarrow> 'a"
    and sane :: "'r \<Rightarrow> bool"
  assumes dec_enc: "sane r \<Longrightarrow> dec (enc (work r (dec s))) = work r (dec s)"
    and work_work: "sane r \<Longrightarrow> work r (work r (dec s)) = work r (dec s)"
begin

lemma settled: "sane r \<Longrightarrow> enc (work r (dec (enc (work r (dec s))))) = enc (work r (dec s))"
  by (simp add: dec_enc work_work)

lemma settled_iter: "sane r \<Longrightarrow> ((\<lambda>s. enc (work r (dec s))) ^^ Suc n) s = enc (work r (dec s))"
  by (induction n) (simp_all add: settled)

end

end
