(* ===== verification/Placement.thy ===== *)
theory Placement
  imports Kube "HOL-Library.AList"
begin

text \<open>
  \<open>pkg/kyvernetria/placement/placement.go\<close>: which object remembers where a pod lived
  (\<open>HolderFor\<close>), the two encodings of the memory in the remembered-nodes annotation,
  \<open>Recall\<close>, which recomputes it from the running pods, and the scores the scheduler
  gives to remembered nodes. A Go map from nodes to ordinals is an association list in one
  iteration order; a map from ordinals to nodes is an association list kept in the order of
  the ordinals, so equal maps are equal lists. \<open>schema.ParseGroupVersion\<close> is the parameter
  \<open>group_of\<close> (\<open>None\<close> for a parse error) and the ReplicaSet lister the parameter
  \<open>replica_sets\<close>, which gives the controlling owner of a ReplicaSet.
\<close>

section \<open>Holders\<close>

definition Deployment :: string where "Deployment = ''Deployment''"
definition ReplicaSet :: string where "ReplicaSet = ''ReplicaSet''"
definition StatefulSet :: string where "StatefulSet = ''StatefulSet''"

record holder =
  Kind :: string
  Namespace :: string
  Name :: string

definition Holder_String :: "holder \<Rightarrow> string" where
  "Holder_String h = Kind h @ ''/'' @ Namespace h @ ''/'' @ Name h"

definition ParseHolder :: "string \<Rightarrow> holder option" where
  "ParseHolder key =
     (let parts = split_on (CHR ''/'') key
      in if length parts \<noteq> 3 then None
         else Some \<lparr>Kind = parts ! 0, Namespace = parts ! 1, Name = parts ! 2\<rparr>)"

definition appsOwner :: "(string \<Rightarrow> string option) \<Rightarrow> owner_ref option \<Rightarrow> owner_ref option" where
  "appsOwner group_of controller =
     (case controller of
        None \<Rightarrow> None
      | Some ref \<Rightarrow>
          (case group_of (APIVersion ref) of
             None \<Rightarrow> None
           | Some g \<Rightarrow> if g \<noteq> ''apps'' then None else Some ref))"

type_synonym rs_lister = "string \<Rightarrow> string \<Rightarrow> owner_ref option api"

definition HolderFor :: "(string \<Rightarrow> string option) \<Rightarrow> rs_lister option \<Rightarrow> pod \<Rightarrow> holder option" where
  "HolderFor group_of replica_sets p =
     (case appsOwner group_of (PodController p) of
        None \<Rightarrow> None
      | Some ref \<Rightarrow>
          let here = (\<lambda>k n. \<lparr>Kind = k, Namespace = PodNamespace p, Name = n\<rparr>)
          in if RefKind ref = StatefulSet then Some (here StatefulSet (RefName ref))
             else if RefKind ref = ReplicaSet
             then (case replica_sets of
                     None \<Rightarrow> Some (here ReplicaSet (RefName ref))
                   | Some get \<Rightarrow>
                       (case get (PodNamespace p) (RefName ref) of
                          Inl _ \<Rightarrow> Some (here ReplicaSet (RefName ref))
                        | Inr rs \<Rightarrow>
                            (case appsOwner group_of rs of
                               Some owner \<Rightarrow>
                                 if RefKind owner = Deployment
                                 then Some (here Deployment (RefName owner))
                                 else Some (here ReplicaSet (RefName ref))
                             | None \<Rightarrow> Some (here ReplicaSet (RefName ref)))))
             else None)"

definition pod_index_label :: string where
  "pod_index_label = ''apps.kubernetes.io/pod-index''"

definition Ordinal :: "pod \<Rightarrow> string \<Rightarrow> int option" where
  "Ordinal p statefulSet =
     (let (raw, ok) = (case PodLabels p pod_index_label of
            Some v \<Rightarrow> (v, True)
          | None \<Rightarrow> cut_prefix (PodName p) (statefulSet @ ''-''))
      in if \<not> ok then None
         else (case parse_int raw of None \<Rightarrow> None | Some n \<Rightarrow> if 0 \<le> n then Some n else None))"

section \<open>Encodings\<close>

text \<open>Both decoders start from the raw annotation value, empty when it is missing.\<close>

definition decode_nodes :: "string \<Rightarrow> string list" where
  "decode_nodes raw = (if raw = [] then [] else split_on (CHR '','') raw)"

definition Decode :: "strmap \<Rightarrow> string list" where
  "Decode annotations = decode_nodes (lookup_str annotations RememberedNodesAnnotation)"

definition Encode :: "string list \<Rightarrow> string" where
  "Encode nodes = join '','' nodes"

type_synonym ordinals = "(int \<times> string) list"

fun ord_insert :: "int \<Rightarrow> string \<Rightarrow> ordinals \<Rightarrow> ordinals" where
  "ord_insert i n [] = [(i, n)]"
| "ord_insert i n ((j, v) # m) =
     (if i < j then (i, n) # (j, v) # m
      else if i = j then (j, n) # m
      else (j, v) # ord_insert i n m)"

definition decode_pair :: "ordinals \<Rightarrow> string \<Rightarrow> ordinals" where
  "decode_pair m pair =
     (let (ord, node, ok) = cut (CHR ''='') pair
      in case parse_int ord of
           None \<Rightarrow> m
         | Some n \<Rightarrow> if ok \<and> node \<noteq> [] then ord_insert n node m else m)"

definition decode_ordinals :: "string \<Rightarrow> ordinals" where
  "decode_ordinals raw = (if raw = [] then [] else foldl decode_pair [] (split_on (CHR '','') raw))"

definition DecodeOrdinals :: "strmap \<Rightarrow> ordinals" where
  "DecodeOrdinals annotations = decode_ordinals (lookup_str annotations RememberedNodesAnnotation)"

definition encode_pair :: "int \<times> string \<Rightarrow> string" where
  "encode_pair p = show_int (fst p) @ ''='' @ snd p"

definition EncodeOrdinals :: "ordinals \<Rightarrow> string" where
  "EncodeOrdinals m = join '','' (map encode_pair (sort_key fst m))"

text \<open>Reading an ordinal that is not in the map gives the empty string.\<close>

definition home_of :: "ordinals \<Rightarrow> int \<Rightarrow> string" where
  "home_of m i = (case map_of m i of None \<Rightarrow> [] | Some n \<Rightarrow> n)"

section \<open>Recall\<close>

type_synonym running = "(string \<times> int list) list"

text \<open>The loop that fades the oldest homes, from the last index down.\<close>

fun fade :: "string list \<Rightarrow> nat \<Rightarrow> string list \<Rightarrow> string list" where
  "fade current 0 nodes = nodes"
| "fade current (Suc i) nodes =
     (if length nodes > MaxRememberedNodes
      then fade current i (if nodes ! i \<in> set current then nodes else take i nodes @ drop (Suc i) nodes)
      else nodes)"

definition recall_nodes :: "running \<Rightarrow> string list \<Rightarrow> string list" where
  "recall_nodes run previous =
     (let added = sort (filter (\<lambda>n. n \<notin> set previous) (map fst run));
          nodes = added @ previous
      in fade (map fst run) (length nodes) nodes)"

definition recallNodes :: "string list \<Rightarrow> running \<Rightarrow> string" where
  "recallNodes previous run = Encode (recall_nodes run previous)"

definition set_current :: "running \<Rightarrow> ordinals \<Rightarrow> ordinals" where
  "set_current run m = foldl (\<lambda>m (node, ords). foldl (\<lambda>m i. ord_insert i node m) m ords) m run"

definition current_ords :: "running \<Rightarrow> int list" where
  "current_ords run = concat (map snd run)"

text \<open>The loop that drops the highest ordinals without a running pod.\<close>

fun drop_ordinals :: "int list \<Rightarrow> int list \<Rightarrow> ordinals \<Rightarrow> ordinals" where
  "drop_ordinals current [] m = m"
| "drop_ordinals current (i # is) m =
     (if length m \<le> MaxRememberedNodes then m
      else drop_ordinals current is (if i \<in> set current then m else filter (\<lambda>p. fst p \<noteq> i) m))"

definition recall_ordinals :: "running \<Rightarrow> ordinals \<Rightarrow> ordinals" where
  "recall_ordinals run m =
     (let m = set_current run m
      in if length m > MaxRememberedNodes
         then drop_ordinals (current_ords run) (rev (sort (map fst m))) m else m)"

definition recallOrdinals :: "ordinals \<Rightarrow> running \<Rightarrow> string" where
  "recallOrdinals m run = EncodeOrdinals (recall_ordinals run m)"

definition Recall :: "string \<Rightarrow> string \<Rightarrow> running \<Rightarrow> string" where
  "Recall kind previous run =
     (if length run > MaxRememberedNodes then []
      else let annotations = [RememberedNodesAnnotation \<mapsto> previous]
           in if kind = StatefulSet then recallOrdinals (DecodeOrdinals annotations) run
              else recallNodes (Decode annotations) run)"

section \<open>Scores\<close>

definition scoreAt :: "int \<Rightarrow> int" where
  "scoreAt i = (let s = i64 (100 - i64 (5 * i)) in if s < 50 then 50 else s)"

fun score_from :: "int \<Rightarrow> string list \<Rightarrow> string \<Rightarrow> int" where
  "score_from i [] node = 0"
| "score_from i (n # nodes) node = (if n = node then scoreAt i else score_from (i + 1) nodes node)"

definition Score :: "string list \<Rightarrow> string \<Rightarrow> int" where
  "Score nodes node = score_from 0 nodes node"

fun scores_from :: "int \<Rightarrow> string list \<Rightarrow> string list \<Rightarrow> (string \<times> int) list \<Rightarrow> (string \<times> int) list" where
  "scores_from i [] busy out = out"
| "scores_from i (n # nodes) busy out =
     scores_from (i + 1) nodes busy (if n \<in> set busy then out else AList.update n (scoreAt i) out)"

definition Scores :: "string list \<Rightarrow> string list \<Rightarrow> (string \<times> int) list" where
  "Scores nodes busy = scores_from 0 nodes busy []"

section \<open>Lemmas: holders\<close>

definition slash_free :: "holder \<Rightarrow> bool" where
  "slash_free h \<longleftrightarrow> CHR ''/'' \<notin> set (Kind h) \<and> CHR ''/'' \<notin> set (Namespace h) \<and> CHR ''/'' \<notin> set (Name h)"

lemma split_holder: "slash_free h \<Longrightarrow> split_on (CHR ''/'') (Holder_String h) = [Kind h, Namespace h, Name h]"
  by (simp add: Holder_String_def slash_free_def split_on_sep split_on_no_sep)

lemma parse_holder_string: "slash_free h \<Longrightarrow> ParseHolder (Holder_String h) = Some h"
  by (simp add: ParseHolder_def split_holder)

lemma parse_holder_sound: "ParseHolder key = Some h \<Longrightarrow> Holder_String h = key \<and> slash_free h"
proof -
  assume a: "ParseHolder key = Some h"
  then obtain x y z where parts: "split_on (CHR ''/'') key = [x, y, z]"
    by (auto simp: ParseHolder_def Let_def length_Suc_conv numeral_3_eq_3 split: if_splits)
  then have h: "h = \<lparr>Kind = x, Namespace = y, Name = z\<rparr>" using a by (simp add: ParseHolder_def)
  have "join ''/'' [x, y, z] = key" using parts join_split [of "CHR ''/''" key] by simp
  then show ?thesis using h split_on_parts [of _ "CHR ''/''" key] parts
    by (auto simp: Holder_String_def slash_free_def)
qed

section \<open>Lemmas: fading nodes\<close>

lemma mem_delete_at:
  "i < length xs \<Longrightarrow> x \<in> set xs \<Longrightarrow> x \<noteq> xs ! i \<Longrightarrow> x \<in> set (take i xs @ drop (Suc i) xs)"
  using id_take_nth_drop [of i xs] by (metis Un_iff set_ConsD set_append)

lemma set_delete_at: "set (take i xs @ drop (Suc i) xs) \<subseteq> set xs"
  by (auto dest: in_set_takeD in_set_dropD)

lemma fade_keeps_current:
  "i \<le> length nodes \<Longrightarrow> n \<in> set nodes \<Longrightarrow> n \<in> set current \<Longrightarrow> n \<in> set (fade current i nodes)"
proof (induction current i nodes rule: fade.induct)
  case (2 current i nodes)
  then have "n \<in> set (if nodes ! i \<in> set current then nodes else take i nodes @ drop (Suc i) nodes)"
    using mem_delete_at [of i nodes n] by (cases "n = nodes ! i") (auto simp del: set_append)
  then show ?case using 2 by (cases "nodes ! i \<in> set current") auto
qed simp

lemma fade_subset: "set (fade current i nodes) \<subseteq> set nodes"
proof (induction current i nodes rule: fade.induct)
  case (2 current i nodes)
  then show ?case using set_delete_at [of i nodes] by (cases "nodes ! i \<in> set current"; simp del: set_append; blast)
qed simp

lemma fade_long:
  "i \<le> length nodes \<Longrightarrow> length (fade current i nodes) > MaxRememberedNodes \<Longrightarrow>
   fade current i nodes = filter (\<lambda>n. n \<in> set current) (take i nodes) @ drop i nodes"
proof (induction current i nodes rule: fade.induct)
  case (2 current i nodes)
  have len: "length nodes > MaxRememberedNodes" using 2 by (auto split: if_splits)
  have i: "i < length nodes" using 2 by simp
  show ?case
  proof (cases "nodes ! i \<in> set current")
    case True
    then show ?thesis using 2 len i by (simp add: take_Suc_conv_app_nth Cons_nth_drop_Suc)
  next
    case False
    let ?ns = "take i nodes @ drop (Suc i) nodes"
    have "fade current i ?ns = filter (\<lambda>n. n \<in> set current) (take i ?ns) @ drop i ?ns"
      using 2 False len i by auto
    then show ?thesis using False len i by (simp add: take_Suc_conv_app_nth)
  qed
qed simp

lemma fade_whole:
  "length (fade current (length nodes) nodes) > MaxRememberedNodes \<Longrightarrow>
   fade current (length nodes) nodes = filter (\<lambda>n. n \<in> set current) nodes"
  using fade_long [of "length nodes" nodes current] by simp

lemma fade_all_current: "set nodes \<subseteq> set current \<Longrightarrow> i \<le> length nodes \<Longrightarrow> fade current i nodes = nodes"
  by (induction i) (auto simp: subset_iff)

lemma fade_short: "length nodes \<le> MaxRememberedNodes \<Longrightarrow> fade current i nodes = nodes"
  by (cases i) auto

lemma fade_length:
  "MaxRememberedNodes < length nodes \<Longrightarrow> i \<le> length nodes \<Longrightarrow> MaxRememberedNodes \<le> length (fade current i nodes)"
proof (induction current i nodes rule: fade.induct)
  case (2 current i nodes)
  let ?ns = "take i nodes @ drop (Suc i) nodes"
  have len: "Suc (length ?ns) = length nodes" using 2 by simp
  show ?case
  proof (cases "nodes ! i \<in> set current \<or> MaxRememberedNodes < length ?ns")
    case True
    then show ?thesis using 2 len by (cases "nodes ! i \<in> set current") auto
  next
    case False
    then show ?thesis using 2(2) len by (simp add: fade_short)
  qed
qed simp

lemma fade_single: "fade current (length nodes) nodes = [x] \<Longrightarrow> nodes = [x]"
proof -
  assume f: "fade current (length nodes) nodes = [x]"
  then have "\<not> MaxRememberedNodes < length nodes"
    using fade_length [of nodes "length nodes" current] by (auto simp: MaxRememberedNodes_def)
  then show ?thesis using f fade_short [of nodes] by simp
qed

lemma fade_settled:
  "fade current (length (fade current (length nodes) nodes)) (fade current (length nodes) nodes)
   = fade current (length nodes) nodes"
proof (cases "length (fade current (length nodes) nodes) > MaxRememberedNodes")
  case True
  then show ?thesis using fade_long [of "length nodes" nodes current]
    by (intro fade_all_current) auto
qed (simp add: fade_short)

lemma set_sort_filter [simp]: "set (sort (filter P xs)) = {x \<in> set xs. P x}"
  by auto

lemma recall_nodes_current: "n \<in> set (map fst run) \<Longrightarrow> n \<in> set (recall_nodes run previous)"
  unfolding recall_nodes_def Let_def by (rule fade_keeps_current) auto

lemma recall_nodes_subset: "set (recall_nodes run previous) \<subseteq> set (map fst run) \<union> set previous"
  using fade_subset unfolding recall_nodes_def Let_def by fastforce

lemma recall_nodes_known:
  "set (map fst run) \<subseteq> set r \<Longrightarrow> recall_nodes run r = fade (map fst run) (length r) r"
proof -
  assume "set (map fst run) \<subseteq> set r"
  then have "filter (\<lambda>n. n \<notin> set r) (map fst run) = []" by (auto simp: filter_empty_conv)
  then show ?thesis by (simp only: recall_nodes_def Let_def sort_key_simps append_Nil)
qed

lemma recall_nodes_settled: "recall_nodes run (recall_nodes run previous) = recall_nodes run previous"
proof -
  let ?r = "recall_nodes run previous"
  have "recall_nodes run ?r = fade (map fst run) (length ?r) ?r"
    using recall_nodes_current by (intro recall_nodes_known) auto
  then show ?thesis by (simp only: recall_nodes_def fade_settled Let_def)
qed

text \<open>Node names as Kubernetes has them: not empty, without commas.\<close>

definition node_name :: "string \<Rightarrow> bool" where
  "node_name n \<longleftrightarrow> n \<noteq> [] \<and> CHR '','' \<notin> set n"

definition good_run :: "running \<Rightarrow> bool" where
  "good_run run \<longleftrightarrow> (\<forall>(n, is) \<in> set run. node_name n \<and> (\<forall>i \<in> set is. in_i64 i))"

lemma decode_Encode:
  "list_all (\<lambda>n. CHR '','' \<notin> set n) nodes \<Longrightarrow> nodes \<noteq> [[]] \<Longrightarrow> decode_nodes (Encode nodes) = nodes"
proof (cases "nodes = []")
  case False
  assume a: "list_all (\<lambda>n. CHR '','' \<notin> set n) nodes" "nodes \<noteq> [[]]"
  have "join '','' nodes \<noteq> []" using join_Nil_iff [of "'',''" nodes] False a(2) by auto
  then show ?thesis using a(1) False split_join [of nodes "CHR '',''"]
    by (auto simp: decode_nodes_def Encode_def list_all_iff)
qed (simp add: decode_nodes_def Encode_def)

lemma decode_nodes_nonempty: "decode_nodes s \<noteq> [[]]"
proof
  assume a: "decode_nodes s = [[]]"
  then have "split_on (CHR '','') s = [[]]" "s \<noteq> []" by (auto simp: decode_nodes_def split: if_splits)
  then show False using join_split [of "CHR '',''" s] by simp
qed

lemma decode_nodes_parts: "n \<in> set (decode_nodes s) \<Longrightarrow> CHR '','' \<notin> set n"
  using split_on_parts by (auto simp: decode_nodes_def split: if_splits)

interpretation node_memory: settling Encode decode_nodes recall_nodes good_run
proof
  fix run s assume run: "good_run run"
  let ?r = "recall_nodes run (decode_nodes s)"
  have sub: "n \<in> set (map fst run) \<or> n \<in> set (decode_nodes s)" if "n \<in> set ?r" for n
    using that recall_nodes_subset by blast
  have fine: "node_name n" if "n \<in> set (map fst run)" for n
    using run that by (auto simp: good_run_def)
  have "CHR '','' \<notin> set n" if "n \<in> set ?r" for n
    using sub [OF that] fine [of n] decode_nodes_parts [of n s] by (auto simp: node_name_def)
  then have "list_all (\<lambda>n. CHR '','' \<notin> set n) ?r"
    by (simp add: list_all_iff)
  moreover have "?r \<noteq> [[]]"
  proof
    assume r: "?r = [[]]"
    let ?nodes = "sort (filter (\<lambda>n. n \<notin> set (decode_nodes s)) (map fst run)) @ decode_nodes s"
    have f: "fade (map fst run) (length ?nodes) ?nodes = [[]]"
      using r by (simp only: recall_nodes_def Let_def)
    from fade_single [OF f] have "?nodes = [[]]" .
    then have "decode_nodes s = [[]] \<or> [] \<in> set (sort (filter (\<lambda>n. n \<notin> set (decode_nodes s)) (map fst run)))"
      by (metis append_eq_Cons_conv append_is_Nil_conv list.set_intros(1))
    then show False using fine [of "[]"] decode_nodes_nonempty by (auto simp: node_name_def)
  qed
  ultimately show "decode_nodes (Encode ?r) = ?r" by (rule decode_Encode)
qed (rule recall_nodes_settled)

section \<open>Lemmas: ordinals\<close>

definition ord_wf :: "ordinals \<Rightarrow> bool" where
  "ord_wf m \<longleftrightarrow> sorted_wrt (<) (map fst m)"

lemma ord_wf_simps [simp]:
  "ord_wf []" "ord_wf (p # m) \<longleftrightarrow> (\<forall>q \<in> set m. fst p < fst q) \<and> ord_wf m"
  by (auto simp: ord_wf_def)

lemma ord_wf_distinct: "ord_wf m \<Longrightarrow> distinct (map fst m) \<and> sorted (map fst m)"
  by (auto simp: ord_wf_def strict_sorted_iff)

lemma set_ord_insert: "fst ` set (ord_insert i n m) = insert i (fst ` set m)"
  by (induction i n m rule: ord_insert.induct) auto

lemma ord_insert_mem: "p \<in> set (ord_insert i n m) \<Longrightarrow> p = (i, n) \<or> p \<in> set m"
  by (induction i n m rule: ord_insert.induct) (auto split: if_splits)

lemma ord_insert_wf: "ord_wf m \<Longrightarrow> ord_wf (ord_insert i n m)"
  by (induction i n m rule: ord_insert.induct) (auto dest: ord_insert_mem)

lemma map_of_ord_insert [simp]: "map_of (ord_insert i n m) = (map_of m)(i \<mapsto> n)"
  by (induction i n m rule: ord_insert.induct) (auto simp: fun_eq_iff)

lemma ord_insert_last: "ord_wf (acc @ [(i, n)]) \<Longrightarrow> ord_insert i n acc = acc @ [(i, n)]"
  by (induction acc) (auto split: prod.splits)

lemma ord_eqI: "ord_wf m \<Longrightarrow> ord_wf m' \<Longrightarrow> map_of m = map_of m' \<Longrightarrow> m = m'"
proof -
  assume a: "ord_wf m" "ord_wf m'" "map_of m = map_of m'"
  have s: "set x = {(k, v). map_of x k = Some v}" if "ord_wf x" for x :: ordinals
    using ord_wf_distinct [OF that] by auto
  have "set m = set m'" using s [OF a(1)] s [OF a(2)] a(3) by simp
  moreover have "inj_on fst (set m \<union> set m')"
    using calculation ord_wf_distinct [OF a(1)] by (simp add: distinct_map)
  ultimately show ?thesis
    using map_sorted_distinct_set_unique [of fst m m'] ord_wf_distinct [OF a(1)] ord_wf_distinct [OF a(2)]
    by blast
qed

definition good_ords :: "ordinals \<Rightarrow> bool" where
  "good_ords m \<longleftrightarrow> ord_wf m \<and> (\<forall>(i, n) \<in> set m. in_i64 i \<and> node_name n)"

lemma cut_node:
  "cut (CHR ''='') pair = (a, n, ok) \<Longrightarrow> CHR '','' \<notin> set pair \<Longrightarrow> CHR '','' \<notin> set n"
  by (induction pair arbitrary: a n ok) (auto split: if_splits prod.splits)

lemma decode_pair_good: "good_ords m \<Longrightarrow> CHR '','' \<notin> set pair \<Longrightarrow> good_ords (decode_pair m pair)"
  by (auto simp: decode_pair_def good_ords_def node_name_def ord_insert_wf Let_def
        dest!: ord_insert_mem parse_int_range split: prod.splits option.splits dest: cut_node)

lemma foldl_decode_good:
  "good_ords m \<Longrightarrow> (\<And>p. p \<in> set ps \<Longrightarrow> CHR '','' \<notin> set p) \<Longrightarrow> good_ords (foldl decode_pair m ps)"
  by (induction ps arbitrary: m) (simp_all add: decode_pair_good)

lemma decode_ordinals_good [simp]: "good_ords (decode_ordinals s)"
proof -
  have "good_ords []" by (simp add: good_ords_def)
  then show ?thesis using foldl_decode_good [of "[]" "split_on (CHR '','') s"] split_on_parts
    by (auto simp: decode_ordinals_def)
qed

lemma encode_pair_chars:
  "node_name (snd p) \<Longrightarrow> CHR '','' \<notin> set (encode_pair p)" "encode_pair p \<noteq> []"
  using show_int_no_sep by (auto simp: encode_pair_def node_name_def)

lemma decode_encode_pair:
  "in_i64 (fst p) \<Longrightarrow> node_name (snd p) \<Longrightarrow> decode_pair m (encode_pair p) = ord_insert (fst p) (snd p) m"
  using cut_sep [of "CHR ''=''" "show_int (fst p)" "snd p"] show_int_no_sep
  by (simp add: decode_pair_def encode_pair_def node_name_def)

lemma foldl_decode_encode:
  "good_ords (acc @ m) \<Longrightarrow> foldl decode_pair acc (map encode_pair m) = acc @ m"
proof (induction m arbitrary: acc)
  case (Cons p m)
  have "ord_wf (acc @ [p])" using Cons.prems by (auto simp: good_ords_def ord_wf_def sorted_wrt_append)
  then have "decode_pair acc (encode_pair p) = acc @ [p]"
    using Cons.prems ord_insert_last [of acc "fst p" "snd p"]
    by (auto simp: good_ords_def decode_encode_pair)
  then show ?case using Cons.IH [of "acc @ [p]"] Cons.prems by simp
qed simp

lemma decode_EncodeOrdinals: "good_ords m \<Longrightarrow> decode_ordinals (EncodeOrdinals m) = m"
proof (cases "m = []")
  case False
  assume g: "good_ords m"
  have sorted: "sort_key fst m = m"
    using g ord_wf_distinct by (auto simp: good_ords_def intro: sort_key_id_if_sorted)
  have ne: "join '','' (map encode_pair m) \<noteq> []"
    using join_Nil_iff [of "'',''" "map encode_pair m"] False encode_pair_chars(2) by auto
  have "split_on (CHR '','') (join '','' (map encode_pair m)) = map encode_pair m"
    using g False encode_pair_chars(1) by (intro split_join) (auto simp: good_ords_def)
  then show ?thesis
    using ne g foldl_decode_encode [of "[]" m] by (simp add: decode_ordinals_def EncodeOrdinals_def sorted)
qed (simp add: decode_ordinals_def EncodeOrdinals_def)

text \<open>The running pods as pairs of an ordinal and its node, in the order they are visited.\<close>

definition visits :: "running \<Rightarrow> ordinals" where
  "visits run = concat (map (\<lambda>(n, is). map (\<lambda>i. (i, n)) is) run)"

definition put :: "ordinals \<Rightarrow> int \<times> string \<Rightarrow> ordinals" where
  "put m p = ord_insert (fst p) (snd p) m"

lemma set_current_visits: "set_current run m = foldl put m (visits run)"
proof -
  have inner: "foldl (\<lambda>m i. ord_insert i n m) m is = foldl put m (map (\<lambda>i. (i, n)) is)" for n "is" m
    by (induction "is" arbitrary: m) (simp_all add: put_def)
  show ?thesis
    by (induction run arbitrary: m) (auto simp: set_current_def visits_def inner)
qed

lemma current_ords_visits: "set (current_ords run) = fst ` set (visits run)"
  by (force simp: current_ords_def visits_def)

lemma good_run_visits: "good_run run \<Longrightarrow> (i, n) \<in> set (visits run) \<Longrightarrow> in_i64 i \<and> node_name n"
  by (auto simp: visits_def good_run_def)

lemma foldl_put_map: "map_of (foldl put m ps) = map_of m ++ map_of (rev ps)"
  by (induction ps arbitrary: m) (simp_all add: put_def map_add_upd_left map_add_def fun_eq_iff split: option.splits)

lemma foldl_put_good:
  "good_ords m \<Longrightarrow> (\<And>i n. (i, n) \<in> set ps \<Longrightarrow> in_i64 i \<and> node_name n) \<Longrightarrow> good_ords (foldl put m ps)"
proof (induction ps arbitrary: m)
  case (Cons p ps)
  have "good_ords (put m p)"
    using Cons.prems by (cases p) (auto simp: put_def good_ords_def ord_insert_wf dest!: ord_insert_mem)
  then show ?case unfolding foldl.simps by (rule Cons.IH) (use Cons.prems in auto)
qed simp

lemma ord_wf_filter: "ord_wf m \<Longrightarrow> ord_wf (filter P m)"
  by (simp add: ord_wf_def sorted_wrt_map sorted_wrt_filter)

lemma drop_ordinals_subset: "set (drop_ordinals current is m) \<subseteq> set m"
  by (induction current "is" m rule: drop_ordinals.induct) auto

lemma drop_ordinals_wf: "ord_wf m \<Longrightarrow> ord_wf (drop_ordinals current is m)"
  by (induction current "is" m rule: drop_ordinals.induct) (simp_all add: ord_wf_filter)

lemma drop_ordinals_current:
  "p \<in> set m \<Longrightarrow> fst p \<in> set current \<Longrightarrow> p \<in> set (drop_ordinals current is m)"
proof (induction current "is" m rule: drop_ordinals.induct)
  case (2 current i "is" m)
  then show ?case by (cases "i \<in> set current"; cases "fst p = i") auto
qed simp

lemma drop_ordinals_long:
  "length (drop_ordinals current is m) > MaxRememberedNodes \<Longrightarrow> p \<in> set (drop_ordinals current is m) \<Longrightarrow>
   fst p \<in> set is \<Longrightarrow> fst p \<in> set current"
proof (induction current "is" m rule: drop_ordinals.induct)
  case (2 current i "is" m)
  let ?m = "if i \<in> set current then m else filter (\<lambda>p. fst p \<noteq> i) m"
  have eq: "drop_ordinals current (i # is) m = drop_ordinals current is ?m"
    using 2(2) by (auto split: if_splits)
  have len: "\<not> length m \<le> MaxRememberedNodes" using 2(2) by (auto split: if_splits)
  show ?case
  proof (cases "fst p \<in> set is")
    case True
    then show ?thesis using 2(1) [OF len] 2(2,3) eq by simp
  next
    case False
    then have "p \<in> set ?m" "fst p = i" using 2(3,4) eq drop_ordinals_subset by (fastforce, simp)
    then show ?thesis by (auto split: if_splits)
  qed
qed simp

lemma drop_ordinals_all: "fst ` set m \<subseteq> set current \<Longrightarrow> drop_ordinals current is m = m"
proof (induction "is")
  case (Cons i "is")
  then have "i \<in> set current \<or> filter (\<lambda>p. fst p \<noteq> i) m = m" by (auto simp: filter_id_conv)
  then show ?case using Cons by auto
qed simp

lemma recall_ordinals_wf: "ord_wf (set_current run m) \<Longrightarrow> ord_wf (recall_ordinals run m)"
  by (simp add: recall_ordinals_def Let_def drop_ordinals_wf)

lemma recall_ordinals_subset: "set (recall_ordinals run m) \<subseteq> set (set_current run m)"
  using drop_ordinals_subset by (auto simp: recall_ordinals_def Let_def split: if_splits)

lemma recall_ordinals_current:
  "p \<in> set (set_current run m) \<Longrightarrow> fst p \<in> set (current_ords run) \<Longrightarrow> p \<in> set (recall_ordinals run m)"
  by (simp add: recall_ordinals_def Let_def drop_ordinals_current)

lemma recall_ordinals_long:
  "length (recall_ordinals run m) > MaxRememberedNodes \<Longrightarrow> fst ` set (recall_ordinals run m) \<subseteq> set (current_ords run)"
  using drop_ordinals_long [of "current_ords run" "rev (sort (map fst (set_current run m)))" "set_current run m"]
    drop_ordinals_subset [of "current_ords run" "rev (sort (map fst (set_current run m)))" "set_current run m"]
  by (auto simp: recall_ordinals_def Let_def split: if_splits)

lemma set_current_good: "good_run run \<Longrightarrow> good_ords m \<Longrightarrow> good_ords (set_current run m)"
  unfolding set_current_visits by (rule foldl_put_good) (auto dest: good_run_visits)

lemma recall_ordinals_good: "good_run run \<Longrightarrow> good_ords m \<Longrightarrow> good_ords (recall_ordinals run m)"
proof -
  assume g: "good_run run" "good_ords m"
  then have "good_ords (set_current run m)"
    by (rule set_current_good)
  then show ?thesis using recall_ordinals_subset recall_ordinals_wf
    unfolding good_ords_def by blast
qed

lemma set_current_again:
  assumes "ord_wf (set_current run m)"
  shows "set_current run (recall_ordinals run m) = recall_ordinals run m" (is "set_current run ?r = ?r")
proof (rule ord_eqI)
  let ?m1 = "set_current run m"
  show wf: "ord_wf ?r" using assms by (rule recall_ordinals_wf)
  have put_wf: "ord_wf x \<Longrightarrow> ord_wf (foldl put x ps)" for x ps
    by (induction ps arbitrary: x) (simp_all add: put_def ord_insert_wf)
  show "ord_wf (set_current run ?r)" using wf by (simp add: set_current_visits put_wf)
  have "map_of ?r i = Some n" if v: "map_of (rev (visits run)) i = Some n" for i n
  proof -
    have "map_of ?m1 i = Some n" using v by (simp add: set_current_visits foldl_put_map)
    then have "(i, n) \<in> set ?m1" by (rule map_of_SomeD)
    moreover have "i \<in> set (current_ords run)" using map_of_SomeD [OF v] by (force simp: current_ords_visits)
    ultimately have "(i, n) \<in> set ?r" using recall_ordinals_current by simp
    then show ?thesis using ord_wf_distinct [OF wf] by simp
  qed
  then show "map_of (set_current run ?r) = map_of ?r"
    by (auto simp: set_current_visits foldl_put_map map_add_def fun_eq_iff split: option.splits)
qed

lemma recall_ordinals_settled:
  assumes "ord_wf (set_current run m)"
  shows "recall_ordinals run (recall_ordinals run m) = recall_ordinals run m"
proof (cases "length (recall_ordinals run m) > MaxRememberedNodes")
  case True
  then show ?thesis
    using set_current_again [OF assms] recall_ordinals_long [OF True] drop_ordinals_all
    by (simp add: recall_ordinals_def [of run "recall_ordinals run m"] Let_def)
qed (simp add: recall_ordinals_def [of run "recall_ordinals run m"] Let_def set_current_again [OF assms])

interpretation ordinal_memory: settling EncodeOrdinals decode_ordinals recall_ordinals good_run
proof
  fix run s assume run: "good_run run"
  show "decode_ordinals (EncodeOrdinals (recall_ordinals run (decode_ordinals s))) = recall_ordinals run (decode_ordinals s)"
    using run by (intro decode_EncodeOrdinals recall_ordinals_good) simp_all
  have "good_ords (set_current run (decode_ordinals s))"
    using run by (intro set_current_good) simp_all
  then show "recall_ordinals run (recall_ordinals run (decode_ordinals s)) = recall_ordinals run (decode_ordinals s)"
    by (intro recall_ordinals_settled) (simp add: good_ords_def)
qed

section \<open>Lemmas: bounds and scores\<close>

lemma recall_nodes_bounded:
  assumes "distinct previous" "distinct (map fst run)" "length run \<le> MaxRememberedNodes"
  shows "length (recall_nodes run previous) \<le> MaxRememberedNodes"
proof (rule ccontr)
  let ?nodes = "sort (filter (\<lambda>n. n \<notin> set previous) (map fst run)) @ previous"
  let ?r = "recall_nodes run previous"
  assume "\<not> length ?r \<le> MaxRememberedNodes"
  then have "?r = filter (\<lambda>n. n \<in> set (map fst run)) ?nodes"
    unfolding recall_nodes_def Let_def not_le by (rule fade_whole)
  moreover have "distinct ?nodes" using assms(1,2) by (auto simp: distinct_map_filter)
  ultimately have "distinct ?r" "set ?r \<subseteq> set (map fst run)" by auto
  then have "length ?r \<le> length (map fst run)"
    using card_mono [of "set (map fst run)" "set ?r"] card_length [of "map fst run"]
    by (simp add: distinct_card del: set_map)
  then show False using assms(3) \<open>\<not> length ?r \<le> MaxRememberedNodes\<close> by simp
qed

lemma recall_ordinals_bounded:
  "ord_wf (set_current run m) \<Longrightarrow>
   length (recall_ordinals run m) \<le> max MaxRememberedNodes (length (current_ords run))"
proof (cases "length (recall_ordinals run m) > MaxRememberedNodes")
  case True
  assume "ord_wf (set_current run m)"
  then have "distinct (map fst (recall_ordinals run m))" using recall_ordinals_wf ord_wf_distinct by blast
  then have "length (recall_ordinals run m) = card (fst ` set (recall_ordinals run m))"
    by (metis distinct_card length_map set_map)
  also have "\<dots> \<le> card (set (current_ords run))"
    using recall_ordinals_long [OF True] by (intro card_mono) simp_all
  also have "\<dots> \<le> length (current_ords run)" by (rule card_length)
  finally show ?thesis by simp
qed simp

lemma scoreAt_plain: "0 \<le> i \<Longrightarrow> i < 2 ^ 60 \<Longrightarrow> scoreAt i = max 50 (100 - 5 * i)"
  by (simp add: scoreAt_def i64_id in_i64_def Let_def)

lemma score_from_mem:
  "node \<in> set nodes \<Longrightarrow> \<exists>k. 0 \<le> k \<and> k < int (length nodes) \<and> score_from i nodes node = scoreAt (i + k)"
proof (induction i nodes node rule: score_from.induct)
  case (2 i n nodes node)
  show ?case
  proof (cases "n = node")
    case False
    then obtain k where "0 \<le> k" "k < int (length nodes)" "score_from (i + 1) nodes node = scoreAt (i + 1 + k)"
      using 2 by auto
    then show ?thesis using False by (intro exI [of _ "k + 1"]) (simp add: algebra_simps)
  qed (auto intro: exI [of _ 0])
qed simp

lemma score_from_not_mem: "node \<notin> set nodes \<Longrightarrow> score_from i nodes node = 0"
  by (induction nodes arbitrary: i) auto

lemma Score_range:
  "length nodes < 2 ^ 60 \<Longrightarrow> node \<in> set nodes \<Longrightarrow> 50 \<le> Score nodes node \<and> Score nodes node \<le> 100"
proof -
  assume a: "length nodes < 2 ^ 60" "node \<in> set nodes"
  obtain k where "0 \<le> k" "k < int (length nodes)" "Score nodes node = scoreAt k"
    using score_from_mem [OF a(2), of 0] by (auto simp: Score_def)
  moreover have "int (length nodes) < 2 ^ 60" using a(1) by (metis of_nat_less_iff of_nat_numeral of_nat_power)
  ultimately show ?thesis by (simp add: scoreAt_plain)
qed

lemma scores_from_mem:
  "map_of (scores_from i nodes busy out) n = Some s \<Longrightarrow>
   map_of out n = Some s \<or> n \<in> set nodes \<and> n \<notin> set busy
     \<and> (\<exists>k. 0 \<le> k \<and> k < int (length nodes) \<and> s = scoreAt (i + k))"
proof (induction i nodes busy out rule: scores_from.induct)
  case (2 i a nodes busy out)
  let ?out = "if a \<in> set busy then out else AList.update a (scoreAt i) out"
  from 2 consider "map_of ?out n = Some s"
    | k where "n \<in> set nodes" "n \<notin> set busy" "0 \<le> k" "k < int (length nodes)" "s = scoreAt (i + 1 + k)"
    by auto
  then show ?case
  proof cases
    case 1
    then show ?thesis by (auto simp: update_conv' split: if_splits intro: exI [of _ 0])
  next
    case 2
    then show ?thesis by (intro disjI2) (auto intro: exI [of _ "k + 1"] simp: algebra_simps)
  qed
qed simp

lemma Scores_range:
  "map_of (Scores nodes busy) n = Some s \<Longrightarrow> length nodes < 2 ^ 60 \<Longrightarrow>
   n \<in> set nodes \<and> n \<notin> set busy \<and> 50 \<le> s \<and> s \<le> 100"
proof -
  assume a: "map_of (Scores nodes busy) n = Some s" "length nodes < 2 ^ 60"
  then obtain k where "n \<in> set nodes" "n \<notin> set busy" "0 \<le> k" "k < int (length nodes)" "s = scoreAt k"
    using scores_from_mem [of 0 nodes busy "[]" n s] by (auto simp: Scores_def)
  moreover have "int (length nodes) < 2 ^ 60" using a(2) by (metis of_nat_less_iff of_nat_numeral of_nat_power)
  ultimately show ?thesis by (simp add: scoreAt_plain)
qed

lemma Recall_nodes: "kind \<noteq> StatefulSet \<Longrightarrow> length run \<le> MaxRememberedNodes \<Longrightarrow>
    Recall kind previous run = Encode (recall_nodes run (decode_nodes previous))"
  by (simp add: Recall_def Decode_def recallNodes_def lookup_str_def)

lemma Recall_ordinals: "length run \<le> MaxRememberedNodes \<Longrightarrow>
    Recall StatefulSet previous run = EncodeOrdinals (recall_ordinals run (decode_ordinals previous))"
  by (simp add: Recall_def DecodeOrdinals_def recallOrdinals_def lookup_str_def)

lemma recall_home_ordinal:
  assumes "good_run run" and "length run \<le> MaxRememberedNodes"
    and "(node, ords) \<in> set run" and "ord \<in> set ords" and "distinct (current_ords run)"
  shows "home_of (decode_ordinals (Recall StatefulSet previous run)) ord = node"
proof -
  let ?m = "set_current run (decode_ordinals previous)"
  have vis: "(ord, node) \<in> set (visits run)" using assms(3,4) by (force simp: visits_def)
  have "map fst (visits run) = current_ords run"
    by (simp add: visits_def current_ords_def map_concat comp_def case_prod_beta)
  then have "map_of (rev (visits run)) ord = Some node"
    using assms(5) vis by (intro map_of_is_SomeI) (simp_all add: rev_map [symmetric])
  then have "(ord, node) \<in> set ?m"
    by (intro map_of_SomeD) (simp add: set_current_visits foldl_put_map)
  moreover have "ord \<in> set (current_ords run)" using vis by (force simp: current_ords_visits)
  ultimately have mem: "(ord, node) \<in> set (recall_ordinals run (decode_ordinals previous))"
    using recall_ordinals_current by simp
  have "good_ords (recall_ordinals run (decode_ordinals previous))"
    using assms(1) by (simp add: recall_ordinals_good)
  then have "map_of (recall_ordinals run (decode_ordinals previous)) ord = Some node"
    using mem ord_wf_distinct by (simp add: good_ords_def)
  then show ?thesis
    using assms(1,2) by (simp add: Recall_ordinals ordinal_memory.dec_enc home_of_def)
qed

lemma recall_home_node:
  assumes "good_run run" and "length run \<le> MaxRememberedNodes"
    and "node \<in> set (map fst run)" and "kind \<noteq> StatefulSet"
  shows "node \<in> set (decode_nodes (Recall kind previous run))"
  using assms recall_nodes_current [of node run] by (simp add: Recall_nodes node_memory.dec_enc)

section \<open>Properties\<close>

text \<open>
  Work queue keys: a key parses to a holder exactly when it is that holder's
  string and none of the holder's parts contains a slash, so no two holders share a key.
\<close>

theorem holder_key_roundtrip:
  "ParseHolder key = Some h \<longleftrightarrow> slash_free h \<and> key = Holder_String h"
  using parse_holder_sound parse_holder_string by blast

text \<open>
  The memory settles: recomputing it from the same running pods gives the value
  just written, for every kind of holder and whatever the annotation held before, so the
  controller writes nothing on an unchanged cluster.
\<close>

theorem recall_settles:
  assumes "good_run run"
  shows "Recall kind (Recall kind previous run) run = Recall kind previous run"
proof (cases "length run > MaxRememberedNodes")
  case False
  then show ?thesis
    using node_memory.settled [OF assms] ordinal_memory.settled [OF assms]
    by (cases "kind = StatefulSet") (simp_all add: Recall_nodes Recall_ordinals)
qed (simp add: Recall_def)

theorem recall_settles_witness:
  "Recall Deployment ''n1,n2'' [(''n3'', [-1]), (''n1'', [-1])] = ''n3,n1,n2''
   \<and> Recall Deployment ''n3,n1,n2'' [(''n3'', [-1]), (''n1'', [-1])] = ''n3,n1,n2''"
proof -
  have v: "Recall Deployment ''n1,n2'' [(''n3'', [-1]), (''n1'', [-1])] = ''n3,n1,n2''" by code_simp
  have "good_run [(''n3'', [-1]), (''n1'', [-1])]" by code_simp
  from recall_settles [OF this, of Deployment "''n1,n2''"] v show ?thesis by simp
qed

text \<open>
  Current homes are never forgotten: after a recomputation of a workload that
  runs on at most 16 nodes, a Deployment or ReplicaSet remembers every node it runs on, and a
  StatefulSet remembers, for each ordinal that runs, the node it runs on.
\<close>

theorem recall_keeps_current_homes:
  assumes "good_run run" and "length run \<le> MaxRememberedNodes"
    and "(node, ords) \<in> set run" and "ord \<in> set ords"
    and "kind = StatefulSet \<longrightarrow> distinct (current_ords run)"
  shows "if kind = StatefulSet then home_of (decode_ordinals (Recall kind previous run)) ord = node
         else node \<in> set (decode_nodes (Recall kind previous run))"
  using assms recall_home_ordinal [OF assms(1-4)] recall_home_node [OF assms(1,2), of node kind]
  by (force simp del: imp_disjL)

theorem recall_keeps_current_homes_witness:
  "home_of (decode_ordinals (Recall StatefulSet ''0=old,7=n7'' [(''n0'', [0]), (''n1'', [1, 2])])) 0 = ''n0''"
proof -
  have "good_run [(''n0'', [0]), (''n1'', [1, 2])]" by code_simp
  then show ?thesis
    using recall_keeps_current_homes [of "[(''n0'', [0]), (''n1'', [1, 2])]" "''n0''" "[0]" 0 StatefulSet "''0=old,7=n7''"]
    by (simp add: MaxRememberedNodes_def current_ords_def)
qed

text \<open>
  The memory is bounded: from an annotation without repeated nodes, a Deployment or
  ReplicaSet remembers at most 16 nodes. A StatefulSet remembers at most 16 ordinals, or as
  many as run now when those are more (up to 16 nodes may each run several of them).
\<close>

theorem recall_bounded:
  assumes "good_run run" and "distinct (map fst run)" and "distinct (decode_nodes previous)"
  shows "if kind = StatefulSet
         then length (decode_ordinals (Recall kind previous run)) \<le> max MaxRememberedNodes (length (current_ords run))
         else length (decode_nodes (Recall kind previous run)) \<le> MaxRememberedNodes"
proof (cases "length run > MaxRememberedNodes")
  case True
  then show ?thesis by (simp add: Recall_def decode_ordinals_def decode_nodes_def)
next
  case False
  have "ord_wf (set_current run (decode_ordinals previous))"
    using set_current_good [OF assms(1)] decode_ordinals_good by (auto simp: good_ords_def)
  then show ?thesis
    using False assms recall_ordinals_bounded [of run "decode_ordinals previous"]
    by (simp add: Recall_nodes Recall_ordinals node_memory.dec_enc ordinal_memory.dec_enc recall_nodes_bounded)
qed

theorem recall_bounded_witness:
  "length (decode_nodes (Recall ReplicaSet ''a,b'' [(''c'', [-1])])) \<le> MaxRememberedNodes"
proof -
  have "good_run [(''c'', [-1])]" "distinct (decode_nodes ''a,b'')" "ReplicaSet \<noteq> StatefulSet" by code_simp+
  then show ?thesis using recall_bounded [of "[(''c'', [-1])]" "''a,b''" ReplicaSet] by simp
qed

text \<open>One node can run more ordinals of a StatefulSet than the bound on remembered nodes.\<close>

lemma statefulset_memory_exceeds_bound:
  "length (decode_ordinals (Recall StatefulSet [] [(''n'', map int [0..<17])])) = 17"
  by code_simp

text \<open>
  Scores: a remembered node that is not busy scores between 50 and 100, a node that
  is busy or not remembered gets no entry, and a later place in the memory never scores higher.
\<close>

theorem scores_in_range:
  assumes "length nodes < 2 ^ 60"
  shows "(\<forall>n s. map_of (Scores nodes busy) n = Some s \<longrightarrow> n \<in> set nodes \<and> n \<notin> set busy \<and> 50 \<le> s \<and> s \<le> 100)
    \<and> (\<forall>n. 0 \<noteq> Score nodes n \<longleftrightarrow> n \<in> set nodes)
    \<and> (\<forall>i j. i \<le> j \<and> j < length nodes \<longrightarrow> scoreAt (int j) \<le> scoreAt (int i))"
proof (intro conjI allI impI)
  fix n s assume "map_of (Scores nodes busy) n = Some s"
  then have "n \<in> set nodes \<and> n \<notin> set busy \<and> 50 \<le> s \<and> s \<le> 100" using Scores_range assms by blast
  then show "n \<in> set nodes" "n \<notin> set busy" "50 \<le> s" "s \<le> 100" by blast+
next
  fix n show "0 \<noteq> Score nodes n \<longleftrightarrow> n \<in> set nodes"
    using Score_range [OF assms, of n] score_from_not_mem [of n nodes 0] by (fastforce simp: Score_def)
next
  fix i j :: nat assume ij: "i \<le> j \<and> j < length nodes"
  then have "int j < 2 ^ 60" using assms by (metis less_trans of_nat_less_iff of_nat_numeral of_nat_power)
  moreover have "int i \<le> int j" using ij by simp
  ultimately show "scoreAt (int j) \<le> scoreAt (int i)" by (simp add: scoreAt_plain del: of_nat_le_iff)
qed

theorem scores_in_range_witness:
  "map_of (Scores [''a'', ''b'', ''c''] [''b'']) ''c'' = Some 90 \<and> 0 \<noteq> Score [''a'', ''b'', ''c''] ''b''"
proof -
  have "map_of (Scores [''a'', ''b'', ''c''] [''b'']) ''c'' = Some 90" by code_simp
  moreover have "length [''a'', ''b'', ''c''] < 2 ^ 60" by simp
  note scores_in_range [OF this]
  ultimately show ?thesis by simp
qed

end
