(* ===== verification/PlaceMemory.thy ===== *)
theory PlaceMemory
  imports Placement
begin

text \<open>
  The two users of the placement memory. The controller
  (\<open>controller/placememory/controller.go\<close>) recomputes a holder's memory from the running
  pods and writes it under optimistic locking (\<open>sync\<close>); the scheduler plugin
  (\<open>scheduler/placememory/placememory.go\<close>) reads it and scores the nodes of a new pod
  (\<open>PreScore\<close>, \<open>plugin_score\<close>). Listers and the API client are parameters:
  functions that return what the cache or the server holds, or an error. The lemmas show what
  the memory does for the two together: a replacement pod is drawn to the node the controller
  recorded, pods already recorded are not queued again, and a write never overwrites a change
  someone else made.
\<close>

section \<open>Scheduler plugin\<close>

record node_info =
  NodeOf :: "string option"
  GetPods :: "pod list"

type_synonym ann_lister = "string \<Rightarrow> string \<Rightarrow> strmap api"

record listers =
  groups :: "string \<Rightarrow> string option"
  rs_owners :: "rs_lister option"
  rs_annotations :: ann_lister
  deploy_annotations :: ann_lister
  sts_annotations :: ann_lister

abbreviation holder_for :: "listers \<Rightarrow> pod \<Rightarrow> holder option" where
  "holder_for L p \<equiv> HolderFor (groups L) (rs_owners L) p"

text \<open>Does the node run a live replica of the holder? The sibling cache is by owner UID.\<close>

type_synonym siblings = "string \<Rightarrow> bool option"

fun occupied :: "listers \<Rightarrow> pod \<Rightarrow> holder \<Rightarrow> pod list \<Rightarrow> siblings \<Rightarrow> bool \<times> siblings" where
  "occupied L p h [] sib = (False, sib)"
| "occupied L p h (other # pods) sib =
     (if PodNamespace other \<noteq> PodNamespace p \<or> PodUID other = PodUID p \<or> PodDeleting other
      then occupied L p h pods sib
      else case PodController other of
        None \<Rightarrow> occupied L p h pods sib
      | Some ref \<Rightarrow>
          (let (same, sib) = (case sib (RefUID ref) of
                 Some s \<Rightarrow> (s, sib)
               | None \<Rightarrow> (let s = (holder_for L other = Some h) in (s, sib(RefUID ref \<mapsto> s))))
           in if same then (True, sib) else occupied L p h pods sib))"

fun busy_nodes :: "listers \<Rightarrow> pod \<Rightarrow> holder \<Rightarrow> string list \<Rightarrow> node_info list \<Rightarrow> siblings \<Rightarrow> string list" where
  "busy_nodes L p h wanted [] sib = []"
| "busy_nodes L p h wanted (ni # nodes) sib =
     (case NodeOf ni of
        None \<Rightarrow> busy_nodes L p h wanted nodes sib
      | Some name \<Rightarrow>
          if name \<notin> set wanted then busy_nodes L p h wanted nodes sib
          else (let (busy, sib) = occupied L p h (GetPods ni) sib
                in (if busy then [name] else []) @ busy_nodes L p h wanted nodes sib))"

definition homes :: "listers \<Rightarrow> pod \<Rightarrow> holder \<Rightarrow> string list \<Rightarrow> node_info list \<Rightarrow> (string \<times> int) list" where
  "homes L p h remembered nodes =
     (if remembered = [] then []
      else Scores remembered (busy_nodes L p h remembered nodes (\<lambda>_. None)))"

definition place_scores :: "listers \<Rightarrow> pod \<Rightarrow> node_info list \<Rightarrow> (string \<times> int) list" where
  "place_scores L p nodes =
     (case holder_for L p of
        None \<Rightarrow> []
      | Some h \<Rightarrow>
          if Kind h = StatefulSet
          then (case sts_annotations L (Namespace h) (Name h) of
                  Inl _ \<Rightarrow> []
                | Inr ann \<Rightarrow>
                    (case Ordinal p (Name h) of
                       None \<Rightarrow> []
                     | Some ord \<Rightarrow>
                         (let node = home_of (DecodeOrdinals ann) ord
                          in if node \<noteq> [] then [(node, 100)] else [])))
          else if Kind h = Deployment
          then (case deploy_annotations L (Namespace h) (Name h) of
                  Inl _ \<Rightarrow> [] | Inr ann \<Rightarrow> homes L p h (Decode ann) nodes)
          else if Kind h = ReplicaSet
          then (case rs_annotations L (Namespace h) (Name h) of
                  Inl _ \<Rightarrow> [] | Inr ann \<Rightarrow> homes L p h (Decode ann) nodes)
          else [])"

text \<open>The cycle state: nothing, the plugin's scores, or another plugin's data under its key.\<close>

datatype cycle_data = ScoresData "(string \<times> int) list" | OtherData

datatype prescore = Skip | Written cycle_data

definition PreScore :: "listers \<Rightarrow> pod \<Rightarrow> node_info list \<Rightarrow> prescore" where
  "PreScore L p nodes =
     (let s = place_scores L p nodes in if s = [] then Skip else Written (ScoresData s))"

definition plugin_score :: "cycle_data option \<Rightarrow> node_info \<Rightarrow> api_error + int" where
  "plugin_score state ni =
     (case NodeOf ni of
        None \<Rightarrow> Inr 0
      | Some name \<Rightarrow>
          (case state of
             None \<Rightarrow> Inr 0
           | Some OtherData \<Rightarrow> Inl (OtherError ''unexpected state'')
           | Some (ScoresData s) \<Rightarrow> Inr (case map_of s name of None \<Rightarrow> 0 | Some k \<Rightarrow> k)))"

section \<open>Controller\<close>

definition running_pod :: "pod \<Rightarrow> bool" where
  "running_pod p \<longleftrightarrow> NodeName p \<noteq> [] \<and> PodPhase p = PodRunning \<and> \<not> PodDeleting p"

definition remembers :: "holder \<Rightarrow> strmap \<Rightarrow> pod \<Rightarrow> bool" where
  "remembers h annotations p =
     (if Kind h = StatefulSet
      then (case Ordinal p (Name h) of
              None \<Rightarrow> False
            | Some ord \<Rightarrow> home_of (DecodeOrdinals annotations) ord = NodeName p)
      else NodeName p \<in> set (Decode annotations))"

text \<open>\<open>holder\<close>: the annotations of the holder object in the cache.\<close>

definition cached_holder :: "listers \<Rightarrow> holder \<Rightarrow> strmap api" where
  "cached_holder L h =
     (if Kind h = Deployment then deploy_annotations L (Namespace h) (Name h)
      else if Kind h = StatefulSet then sts_annotations L (Namespace h) (Name h)
      else if Kind h = ReplicaSet then rs_annotations L (Namespace h) (Name h)
      else Inl (OtherError ''unknown holder kind''))"

text \<open>The key a pod event queues, if any.\<close>

definition enqueuePod :: "listers \<Rightarrow> pod \<Rightarrow> string option" where
  "enqueuePod L p =
     (if \<not> running_pod p then None
      else case holder_for L p of
        None \<Rightarrow> None
      | Some h \<Rightarrow>
          (case cached_holder L h of
             Inr ann \<Rightarrow> if remembers h ann p then None else Some (Holder_String h)
           | Inl _ \<Rightarrow> Some (Holder_String h)))"

definition replicas :: "int option \<Rightarrow> int" where
  "replicas spec = (case spec of None \<Rightarrow> 1 | Some n \<Rightarrow> n)"

text \<open>The key an update of a Deployment or StatefulSet queues when it was scaled.\<close>

definition scaled :: "string \<Rightarrow> string \<Rightarrow> string \<Rightarrow> int option \<Rightarrow> int option \<Rightarrow> string option" where
  "scaled kind ns name old new =
     (if replicas old \<noteq> replicas new
      then Some (Holder_String \<lparr>Kind = kind, Namespace = ns, Name = name\<rparr>) else None)"

fun add_ordinal :: "string \<Rightarrow> int \<Rightarrow> running \<Rightarrow> running" where
  "add_ordinal node i [] = [(node, [i])]"
| "add_ordinal node i ((n, is) # run) =
     (if n = node then (n, is @ [i]) # run else (n, is) # add_ordinal node i run)"

definition pod_ordinal :: "holder \<Rightarrow> pod \<Rightarrow> int option" where
  "pod_ordinal h p = (if Kind h = StatefulSet then Ordinal p (Name h) else Some (-1))"

definition add_running :: "listers \<Rightarrow> holder \<Rightarrow> running \<Rightarrow> pod \<Rightarrow> running" where
  "add_running L h out p =
     (if \<not> running_pod p then out
      else if holder_for L p \<noteq> Some h then out
      else case pod_ordinal h p of None \<Rightarrow> out | Some ord \<Rightarrow> add_ordinal (NodeName p) ord out)"

definition runningPods :: "listers \<Rightarrow> holder \<Rightarrow> pod list \<Rightarrow> running" where
  "runningPods L h pods = foldl (add_running L h) [] pods"

record live_holder =
  HolderAnnotations :: strmap
  ResourceVersion :: string

text \<open>The API client: a patch made against a version, and a live read of the holder.\<close>

record 's client =
  patch_memory :: "holder \<Rightarrow> string \<Rightarrow> string option \<Rightarrow> 's \<Rightarrow> api_error option \<times> 's"
  get_holder :: "holder \<Rightarrow> 's \<Rightarrow> live_holder api \<times> 's"

definition write_memory :: "'s client \<Rightarrow> holder \<Rightarrow> string \<Rightarrow> string \<Rightarrow> 's \<Rightarrow> api_error option \<times> 's" where
  "write_memory C h rv value s =
     patch_memory C h rv (if value = [] then None else Some value) s"

fun sync_attempts ::
    "'s client \<Rightarrow> holder \<Rightarrow> running \<Rightarrow> nat \<Rightarrow> live_holder \<Rightarrow> 's \<Rightarrow> api_error option \<times> 's" where
  "sync_attempts C h pods 0 current s = (Some (OtherError ''kept changing''), s)"
| "sync_attempts C h pods (Suc n) current s =
     (let previous = lookup_str (HolderAnnotations current) RememberedNodesAnnotation;
          want = Recall (Kind h) previous pods
      in if want = previous then (None, s)
         else (case write_memory C h (ResourceVersion current) want s of
            (err, s) \<Rightarrow>
              if err \<noteq> Some Conflict then (err, s)
              else (case get_holder C h s of
                 (Inl e, s) \<Rightarrow> if e = NotFound then (None, s) else (Some e, s)
               | (Inr live, s) \<Rightarrow> sync_attempts C h pods n live s)))"

definition sync :: "'s client \<Rightarrow> listers \<Rightarrow> (holder \<Rightarrow> live_holder api) \<Rightarrow> (string \<Rightarrow> pod list api)
     \<Rightarrow> string \<Rightarrow> 's \<Rightarrow> api_error option \<times> 's" where
  "sync C L cached list_pods key s =
     (case ParseHolder key of
        None \<Rightarrow> (None, s)
      | Some h \<Rightarrow>
          (case cached h of
             Inl e \<Rightarrow> if e = NotFound then (None, s) else (Some e, s)
           | Inr current \<Rightarrow>
               (case list_pods (Namespace h) of
                  Inl e \<Rightarrow> (Some e, s)
                | Inr pods \<Rightarrow> sync_attempts C h (runningPods L h pods) 5 current s)))"

text \<open>\<open>next\<close>: a failed key is queued again with a delay, a successful one forgotten.\<close>

datatype queue_action = AddRateLimited string | Forget string

definition next_key :: "'s client \<Rightarrow> listers \<Rightarrow> (holder \<Rightarrow> live_holder api) \<Rightarrow> (string \<Rightarrow> pod list api)
     \<Rightarrow> string \<Rightarrow> 's \<Rightarrow> queue_action \<times> 's" where
  "next_key C L cached list_pods key s =
     (case sync C L cached list_pods key s of
        (Some _, s) \<Rightarrow> (AddRateLimited key, s) | (None, s) \<Rightarrow> (Forget key, s))"

section \<open>Lemmas: siblings\<close>

definition live_sibling :: "listers \<Rightarrow> pod \<Rightarrow> holder \<Rightarrow> pod \<Rightarrow> bool" where
  "live_sibling L p h other \<longleftrightarrow>
     PodNamespace other = PodNamespace p \<and> PodUID other \<noteq> PodUID p \<and> \<not> PodDeleting other
     \<and> holder_for L other = Some h"

lemma holder_for_controller: "holder_for L p = Some h \<Longrightarrow> PodController p \<noteq> None"
  by (auto simp: HolderFor_def appsOwner_def split: option.splits)

text \<open>Pods of the namespace that have the same controller have the same holder.\<close>

definition uid_determines :: "listers \<Rightarrow> pod \<Rightarrow> pod set \<Rightarrow> bool" where
  "uid_determines L p P \<longleftrightarrow>
     (\<forall>o1 \<in> P. \<forall>o2 \<in> P. \<forall>r1 r2. PodNamespace o1 = PodNamespace p \<and> PodNamespace o2 = PodNamespace p
        \<and> PodController o1 = Some r1 \<and> PodController o2 = Some r2 \<and> RefUID r1 = RefUID r2
        \<longrightarrow> holder_for L o1 = holder_for L o2)"

definition sib_ok :: "listers \<Rightarrow> pod \<Rightarrow> holder \<Rightarrow> pod set \<Rightarrow> siblings \<Rightarrow> bool" where
  "sib_ok L p h P sib \<longleftrightarrow>
     (\<forall>other \<in> P. \<forall>ref s. PodNamespace other = PodNamespace p \<and> PodController other = Some ref
        \<and> sib (RefUID ref) = Some s \<longrightarrow> s = (holder_for L other = Some h))"

lemma sib_ok_upd:
  "sib_ok L p h P sib \<Longrightarrow> uid_determines L p P \<Longrightarrow> other \<in> P \<Longrightarrow> PodNamespace other = PodNamespace p \<Longrightarrow>
   PodController other = Some ref \<Longrightarrow> sib_ok L p h P (sib(RefUID ref \<mapsto> holder_for L other = Some h))"
  unfolding sib_ok_def
proof (intro ballI allI impI)
  fix x ref' s
  assume old: "\<forall>other \<in> P. \<forall>ref s. PodNamespace other = PodNamespace p \<and> PodController other = Some ref
        \<and> sib (RefUID ref) = Some s \<longrightarrow> s = (holder_for L other = Some h)"
    and det: "uid_determines L p P"
    and o1: "other \<in> P" "PodNamespace other = PodNamespace p" "PodController other = Some ref"
    and x: "x \<in> P" "PodNamespace x = PodNamespace p \<and> PodController x = Some ref'
        \<and> (sib(RefUID ref \<mapsto> holder_for L other = Some h)) (RefUID ref') = Some s"
  show "s = (holder_for L x = Some h)"
  proof (cases "RefUID ref' = RefUID ref")
    case True
    then have "holder_for L x = holder_for L other"
      using det o1 x unfolding uid_determines_def by blast
    then show ?thesis using x True by simp
  qed (use old x in auto)
qed

lemma occupied_iff:
  assumes "uid_determines L p P"
  shows "set pods \<subseteq> P \<Longrightarrow> sib_ok L p h P sib \<Longrightarrow>
    fst (occupied L p h pods sib) = list_ex (live_sibling L p h) pods \<and> sib_ok L p h P (snd (occupied L p h pods sib))"
proof (induction pods arbitrary: sib)
  case (Cons other pods)
  show ?case
  proof (cases "PodNamespace other \<noteq> PodNamespace p \<or> PodUID other = PodUID p \<or> PodDeleting other")
    case True
    then show ?thesis using Cons by (auto simp: live_sibling_def)
  next
    case False
    show ?thesis
    proof (cases "PodController other")
      case None
      then have "holder_for L other \<noteq> Some h" using holder_for_controller by blast
      then show ?thesis using Cons None False by (auto simp: live_sibling_def)
    next
      case (Some ref)
      let ?b = "holder_for L other = Some h"
      have same: "live_sibling L p h other = ?b" using False by (simp add: live_sibling_def)
      have upd: "sib_ok L p h P (sib(RefUID ref \<mapsto> ?b))"
        using Cons.prems False Some assms by (intro sib_ok_upd) auto
      have old: "sib (RefUID ref) = Some s \<Longrightarrow> s = ?b" for s
        using Cons.prems False Some by (auto simp: sib_ok_def)
      show ?thesis
      proof (cases "sib (RefUID ref)")
        case None
        then show ?thesis using Cons.IH [of "sib(RefUID ref \<mapsto> ?b)"] Cons.prems False Some same upd
          by (cases ?b) (simp_all add: Let_def del: fun_upd_apply)
      next
        case (Some s)
        then show ?thesis using Cons.IH [of sib] Cons.prems False \<open>PodController other = Some ref\<close> same old
          by simp
      qed
    qed
  qed
qed simp

lemma busy_nodes_mem:
  assumes "uid_determines L p P"
  shows "(\<And>ni. ni \<in> set nodes \<Longrightarrow> set (GetPods ni) \<subseteq> P) \<Longrightarrow> sib_ok L p h P sib \<Longrightarrow>
    n \<in> set (busy_nodes L p h wanted nodes sib) \<longleftrightarrow>
      n \<in> set wanted \<and> (\<exists>ni \<in> set nodes. NodeOf ni = Some n \<and> list_ex (live_sibling L p h) (GetPods ni))"
proof (induction nodes arbitrary: sib)
  case (Cons ni nodes)
  have occ: "fst (occupied L p h (GetPods ni) sib) = list_ex (live_sibling L p h) (GetPods ni)"
    and ok: "sib_ok L p h P (snd (occupied L p h (GetPods ni) sib))"
    using occupied_iff [OF assms, of "GetPods ni" h sib] Cons.prems by auto
  show ?case
  proof (cases "NodeOf ni")
    case None
    then show ?thesis using Cons by simp
  next
    case (Some name)
    then show ?thesis
      using Cons.IH [of sib] Cons.IH [OF _ ok] Cons.prems occ by (auto simp: case_prod_beta)
  qed
qed simp

lemma homes_sound:
  assumes "uid_determines L p P" and "\<And>ni. ni \<in> set nodes \<Longrightarrow> set (GetPods ni) \<subseteq> P"
    and "map_of (homes L p h remembered nodes) n = Some s" and "length remembered < 2 ^ 60"
  shows "50 \<le> s \<and> s \<le> 100 \<and> n \<in> set remembered
    \<and> (\<forall>ni \<in> set nodes. NodeOf ni = Some n \<longrightarrow> \<not> list_ex (live_sibling L p h) (GetPods ni))"
proof -
  let ?busy = "busy_nodes L p h remembered nodes (\<lambda>_. None)"
  have m: "map_of (Scores remembered ?busy) n = Some s"
    using assms(3) by (auto simp: homes_def split: if_splits)
  have r: "n \<in> set remembered \<and> n \<notin> set ?busy \<and> 50 \<le> s \<and> s \<le> 100"
    using Scores_range [OF m assms(4)] .
  moreover have "sib_ok L p h P (\<lambda>_. None)" by (simp add: sib_ok_def)
  ultimately show ?thesis using busy_nodes_mem [OF assms(1,2), where sib = "\<lambda>_. None"] by blast
qed

section \<open>Lemmas: running pods\<close>

definition runs_at :: "running \<Rightarrow> string \<Rightarrow> int \<Rightarrow> bool" where
  "runs_at run n i \<longleftrightarrow> (\<exists>os. (n, os) \<in> set run \<and> i \<in> set os)"

lemma runs_at_add: "runs_at (add_ordinal node i run) n j \<longleftrightarrow> runs_at run n j \<or> n = node \<and> j = i"
  unfolding runs_at_def by (induction node i run rule: add_ordinal.induct) (auto; blast)+

lemma good_run_add: "good_run run \<Longrightarrow> node_name n \<Longrightarrow> in_i64 i \<Longrightarrow> good_run (add_ordinal n i run)"
  unfolding good_run_def by (induction n i run rule: add_ordinal.induct) auto

lemma pod_ordinal_range: "pod_ordinal h p = Some i \<Longrightarrow> in_i64 i"
  by (auto simp: pod_ordinal_def Ordinal_def Let_def in_i64_def
      dest: parse_int_range split: if_splits option.splits prod.splits)

definition counted :: "listers \<Rightarrow> holder \<Rightarrow> pod \<Rightarrow> int \<Rightarrow> bool" where
  "counted L h p i \<longleftrightarrow> running_pod p \<and> holder_for L p = Some h \<and> pod_ordinal h p = Some i"

lemma runs_at_foldl:
  "runs_at (foldl (add_running L h) out pods) n i \<longleftrightarrow>
     runs_at out n i \<or> (\<exists>p \<in> set pods. counted L h p i \<and> NodeName p = n)"
proof (induction pods arbitrary: out)
  case (Cons p pods)
  have "runs_at (add_running L h out p) n i \<longleftrightarrow> runs_at out n i \<or> counted L h p i \<and> NodeName p = n"
    by (auto simp: add_running_def counted_def runs_at_add split: option.splits)
  then show ?case using Cons by auto
qed simp

lemma runs_at_runningPods:
  "runs_at (runningPods L h pods) n i \<longleftrightarrow> (\<exists>p \<in> set pods. counted L h p i \<and> NodeName p = n)"
  by (simp add: runningPods_def runs_at_foldl) (simp add: runs_at_def)

lemma runningPods_good:
  "(\<And>p. p \<in> set pods \<Longrightarrow> CHR '','' \<notin> set (NodeName p)) \<Longrightarrow> good_run (runningPods L h pods)"
proof -
  have "good_run out \<Longrightarrow> (\<And>p. p \<in> set pods \<Longrightarrow> CHR '','' \<notin> set (NodeName p)) \<Longrightarrow>
    good_run (foldl (add_running L h) out pods)" for out
  proof (induction pods arbitrary: out)
    case (Cons p pods)
    have "good_run (add_running L h out p)"
      using Cons.prems by (auto simp: add_running_def running_pod_def node_name_def
          intro!: good_run_add dest: pod_ordinal_range split: option.splits)
    then show ?case using Cons by simp
  qed simp
  moreover have "good_run []" by (simp add: good_run_def)
  ultimately show "(\<And>p. p \<in> set pods \<Longrightarrow> CHR '','' \<notin> set (NodeName p)) \<Longrightarrow> good_run (runningPods L h pods)"
    by (simp add: runningPods_def)
qed

lemma recorded_remembers:
  assumes "runs_at run (NodeName p) i" and "pod_ordinal h p = Some i"
    and "good_run run" and "length run \<le> MaxRememberedNodes"
    and "Kind h = StatefulSet \<longrightarrow> distinct (current_ords run)"
    and "lookup_str ann RememberedNodesAnnotation = Recall (Kind h) previous run"
  shows "remembers h ann p"
proof -
  obtain os where os: "(NodeName p, os) \<in> set run" "i \<in> set os" using assms(1) by (auto simp: runs_at_def)
  show ?thesis
  proof (cases "Kind h = StatefulSet")
    case True
    then show ?thesis
      using recall_home_ordinal [OF assms(3,4) os] assms(2,5,6)
      by (simp add: remembers_def DecodeOrdinals_def pod_ordinal_def)
  next
    case False
    then show ?thesis
      using recall_home_node [OF assms(3,4), of "NodeName p" "Kind h" previous] os assms(6)
      by (force simp: remembers_def Decode_def)
  qed
qed

section \<open>Lemmas: optimistic locking\<close>

text \<open>
  What the API server documents of versions: a version stands for one content, a patch made
  against a version succeeds only on that content, and a live read returns the content of the
  version it reports. \<open>replaced s\<close> lists what this client's successful patches replaced.
\<close>

type_synonym 's replaced = "'s \<Rightarrow> (holder \<times> strmap \<times> string option) list"

definition locking :: "'s client \<Rightarrow> (holder \<Rightarrow> string \<Rightarrow> strmap) \<Rightarrow> 's replaced \<Rightarrow> bool" where
  "locking C content replaced \<longleftrightarrow>
     (\<forall>h rv v s. replaced (snd (patch_memory C h rv v s)) =
        (if fst (patch_memory C h rv v s) = None then replaced s @ [(h, content h rv, v)] else replaced s))
     \<and> (\<forall>h s. replaced (snd (get_holder C h s)) = replaced s
        \<and> (\<forall>live. fst (get_holder C h s) = Inr live \<longrightarrow> content h (ResourceVersion live) = HolderAnnotations live))"

definition wrote :: "holder \<Rightarrow> running \<Rightarrow> strmap \<Rightarrow> string option" where
  "wrote h pods old =
     (let want = Recall (Kind h) (lookup_str old RememberedNodesAnnotation) pods
      in if want = [] then None else Some want)"

definition one_fresh_write :: "holder \<Rightarrow> running \<Rightarrow> api_error option
     \<Rightarrow> (holder \<times> strmap \<times> string option) list \<Rightarrow> (holder \<times> strmap \<times> string option) list \<Rightarrow> bool" where
  "one_fresh_write h pods r before after \<longleftrightarrow>
     after = before
     \<or> (\<exists>old. after = before @ [(h, old, wrote h pods old)] \<and> r = None
          \<and> Recall (Kind h) (lookup_str old RememberedNodesAnnotation) pods
              \<noteq> lookup_str old RememberedNodesAnnotation)"

lemma sync_attempts_fresh:
  assumes "locking C content replaced"
  shows "content h (ResourceVersion current) = HolderAnnotations current \<Longrightarrow>
    one_fresh_write h pods (fst (sync_attempts C h pods n current s)) (replaced s)
      (replaced (snd (sync_attempts C h pods n current s)))"
proof (induction n arbitrary: current s)
  case 0
  then show ?case by (simp add: one_fresh_write_def)
next
  case (Suc n)
  let ?prev = "lookup_str (HolderAnnotations current) RememberedNodesAnnotation"
  let ?want = "Recall (Kind h) ?prev pods"
  obtain err s1 where w: "write_memory C h (ResourceVersion current) ?want s = (err, s1)" by fastforce
  obtain r s2 where g: "get_holder C h s1 = (r, s2)" by fastforce
  have rep1: "replaced s1 = (if err = None
      then replaced s @ [(h, HolderAnnotations current, wrote h pods (HolderAnnotations current))] else replaced s)"
    using assms [unfolded locking_def, THEN conjunct1, rule_format, of h "ResourceVersion current"
        "if ?want = [] then None else Some ?want" s] w Suc.prems
    unfolding write_memory_def wrote_def Let_def by simp
  have rep2: "replaced s2 = replaced s1"
    and live: "r = Inr x \<Longrightarrow> content h (ResourceVersion x) = HolderAnnotations x" for x
    using assms [unfolded locking_def, THEN conjunct2, rule_format, of h s1] g by auto
  show ?case
  proof (cases "?want = ?prev")
    case True
    then show ?thesis by (simp add: one_fresh_write_def Let_def)
  next
    case False
    have ih: "one_fresh_write h pods (fst (sync_attempts C h pods n x s2)) (replaced s2)
        (replaced (snd (sync_attempts C h pods n x s2)))" if "r = Inr x" for x
      using Suc.IH [of x s2] live [OF that] by simp
    show ?thesis
    proof (cases "err = Some Conflict")
      case True
      then show ?thesis using False w g rep1 rep2 ih
        by (cases r) (simp_all add: Let_def, simp add: one_fresh_write_def)
    next
      case not_conflict: False
      then show ?thesis using False w rep1 by (auto simp: Let_def one_fresh_write_def)
    qed
  qed
qed

section \<open>Properties\<close>

text \<open>Annotations in the cache are far shorter than \<open>2^60\<close> entries.\<close>

definition sized_memories :: "listers \<Rightarrow> bool" where
  "sized_memories L \<longleftrightarrow>
     (\<forall>ns name ann. deploy_annotations L ns name = Inr ann \<or> rs_annotations L ns name = Inr ann
        \<longrightarrow> length (Decode ann) < 2 ^ 60)"

text \<open>
  Claim C34. Where the scheduler is drawn to: every score the plugin gives is between 50 and 100.
  For a Deployment or a ReplicaSet the node it is for holds no other live pod of the same
  workload, when pods with the same controller have the same holder. For a StatefulSet, where
  each ordinal has a home of its own and live replicas are not looked at, the score is 100 and
  the node is the one remembered for the pod's own ordinal.
\<close>

theorem placement_respects_spreading:
  assumes "map_of (place_scores L p nodes) n = Some s" and "holder_for L p = Some h"
    and "uid_determines L p (\<Union> ((\<lambda>ni. set (GetPods ni)) ` set nodes))"
    and "sized_memories L"
  shows "50 \<le> s \<and> s \<le> 100 \<and>
    (if Kind h = StatefulSet
     then s = 100 \<and> n \<noteq> [] \<and> (\<exists>ann ord. sts_annotations L (Namespace h) (Name h) = Inr ann
       \<and> Ordinal p (Name h) = Some ord \<and> home_of (DecodeOrdinals ann) ord = n)
     else \<forall>ni \<in> set nodes. NodeOf ni = Some n \<longrightarrow> \<not> list_ex (live_sibling L p h) (GetPods ni))"
proof (cases "Kind h = StatefulSet")
  case True
  then obtain ann ord where "sts_annotations L (Namespace h) (Name h) = Inr ann" "Ordinal p (Name h) = Some ord"
    using assms(1,2) by (cases "sts_annotations L (Namespace h) (Name h)"; cases "Ordinal p (Name h)") (auto simp: place_scores_def)
  then show ?thesis using assms(1,2) True
    by (auto simp: place_scores_def Let_def split: if_splits)
next
  case False
  then obtain ann where h: "map_of (homes L p h (Decode ann) nodes) n = Some s" and len: "length (Decode ann) < 2 ^ 60"
    using assms(1,2,4) by (auto simp: place_scores_def sized_memories_def split: sum.splits if_splits)
  have "set (GetPods ni) \<subseteq> (\<Union> ((\<lambda>ni. set (GetPods ni)) ` set nodes))" if "ni \<in> set nodes" for ni using that by blast
  then show ?thesis using homes_sound [OF assms(3) _ h len] False by simp
qed

text \<open>A cluster with one Deployment, and one StatefulSet, that remember nodes.\<close>

definition test_pod :: "string \<Rightarrow> string \<Rightarrow> string \<Rightarrow> string \<Rightarrow> pod" where
  "test_pod kind owner name node =
     \<lparr>PodNamespace = ''ns'', PodName = name, PodUID = name, PodLabels = (\<lambda>_. None),
      PodController = Some \<lparr>APIVersion = ''apps/v1'', RefKind = kind, RefName = owner, RefUID = owner\<rparr>,
      NodeName = node, PodPhase = PodRunning, PodDeleting = False\<rparr>"

definition test_listers :: "string \<Rightarrow> listers" where
  "test_listers memory =
     \<lparr>groups = (\<lambda>v. if v = ''apps/v1'' then Some ''apps'' else None), rs_owners = None,
      rs_annotations = (\<lambda>_ _. Inr [RememberedNodesAnnotation \<mapsto> memory]),
      deploy_annotations = (\<lambda>_ _. Inl NotFound),
      sts_annotations = (\<lambda>_ _. Inr [RememberedNodesAnnotation \<mapsto> memory])\<rparr>"

theorem placement_respects_spreading_witness:
  "map_of (place_scores (test_listers ''a,b'') (test_pod ReplicaSet ''web'' ''new'' [])
     [\<lparr>NodeOf = Some ''a'', GetPods = [test_pod ReplicaSet ''web'' ''old'' ''a'']\<rparr>,
      \<lparr>NodeOf = Some ''b'', GetPods = []\<rparr>]) ''b'' = Some 95
   \<and> \<not> list_ex (live_sibling (test_listers ''a,b'') (test_pod ReplicaSet ''web'' ''new'' [])
          \<lparr>Kind = ReplicaSet, Namespace = ''ns'', Name = ''web''\<rparr>) []"
proof -
  let ?L = "test_listers ''a,b''" and ?p = "test_pod ReplicaSet ''web'' ''new'' []"
  let ?ns = "[\<lparr>NodeOf = Some ''a'', GetPods = [test_pod ReplicaSet ''web'' ''old'' ''a'']\<rparr>,
      \<lparr>NodeOf = Some ''b'', GetPods = []\<rparr>]"
  let ?h = "\<lparr>Kind = ReplicaSet, Namespace = ''ns'', Name = ''web''\<rparr>"
  have h: "holder_for ?L ?p = Some ?h" by code_simp
  have s: "map_of (place_scores ?L ?p ?ns) ''b'' = Some 95" by code_simp
  have "uid_determines ?L ?p (\<Union> ((\<lambda>ni. set (GetPods ni)) ` set ?ns))"
    by (simp add: uid_determines_def)
  moreover have "Decode [RememberedNodesAnnotation \<mapsto> ''a,b''] = [''a'', ''b'']" by code_simp
  then have "sized_memories ?L"
    by (auto simp: sized_memories_def test_listers_def)
  ultimately show ?thesis
    using placement_respects_spreading [OF s h] s
    by (simp add: ReplicaSet_def StatefulSet_def)
qed

text \<open>
  Claim C33. A replaced StatefulSet pod goes home: after the controller recorded the running
  pods, a new pod with the ordinal of a pod that ran on \<open>node\<close> is scored exactly on that
  node, with the full 100 points, whatever the annotation held before.
\<close>

theorem replacement_goes_home:
  assumes "holder_for L p = Some h" and "Kind h = StatefulSet" and "Ordinal p (Name h) = Some ord"
    and "sts_annotations L (Namespace h) (Name h) = Inr ann"
    and "lookup_str ann RememberedNodesAnnotation = Recall StatefulSet previous (runningPods L h pods)"
    and "\<And>q. q \<in> set pods \<Longrightarrow> CHR '','' \<notin> set (NodeName q)"
    and "length (runningPods L h pods) \<le> MaxRememberedNodes" and "distinct (current_ords (runningPods L h pods))"
    and "q \<in> set pods" and "running_pod q" and "holder_for L q = Some h" and "Ordinal q (Name h) = Some ord"
  shows "place_scores L p nodes = [(NodeName q, 100)]"
proof -
  have "counted L h q ord" using assms(2,10-12) by (simp add: counted_def pod_ordinal_def)
  then have "runs_at (runningPods L h pods) (NodeName q) ord"
    using assms(9) runs_at_runningPods by blast
  then have "remembers h ann q"
    using assms(2,5,7,8,12) runningPods_good [OF assms(6)]
    by (intro recorded_remembers) (simp_all add: pod_ordinal_def)
  then have "home_of (DecodeOrdinals ann) ord = NodeName q"
    using assms(2,12) by (simp add: remembers_def)
  moreover have "NodeName q \<noteq> []" using assms(10) by (simp add: running_pod_def)
  ultimately show ?thesis using assms(1-4) by (simp add: place_scores_def Let_def)
qed

theorem replacement_goes_home_witness:
  "place_scores (test_listers ''0=n7'') (test_pod StatefulSet ''db'' ''db-0'' []) [] = [(''n7'', 100)]"
proof -
  let ?L = "test_listers ''0=n7''" and ?h = "\<lparr>Kind = StatefulSet, Namespace = ''ns'', Name = ''db''\<rparr>"
  let ?q = "test_pod StatefulSet ''db'' ''db-0'' ''n7''"
  have run: "runningPods ?L ?h [?q] = [(''n7'', [0])]" by code_simp
  have mem: "Recall StatefulSet [] [(''n7'', [0])] = ''0=n7''" by code_simp
  have "holder_for ?L (test_pod StatefulSet ''db'' ''db-0'' []) = Some ?h" "holder_for ?L ?q = Some ?h"
    "Ordinal (test_pod StatefulSet ''db'' ''db-0'' []) ''db'' = Some 0" "Ordinal ?q ''db'' = Some 0"
    "running_pod ?q" by code_simp+
  then have "place_scores ?L (test_pod StatefulSet ''db'' ''db-0'' []) [] = [(NodeName ?q, 100)]"
    using mem by (intro replacement_goes_home [where h = ?h and ord = 0 and previous = "[]" and pods = "[?q]"
          and ann = "[RememberedNodesAnnotation \<mapsto> ''0=n7'']"])
      (simp_all add: run MaxRememberedNodes_def current_ords_def, simp_all add: test_listers_def lookup_str_def test_pod_def)
  then show ?thesis by (simp add: test_pod_def)
qed

text \<open>
  Recorded pods are quiet: once the memory was recomputed from the listed pods, no
  event of a running pod of the workload queues it again, as long as it runs on at most 16
  nodes (and, for a StatefulSet, no ordinal runs twice).
\<close>

theorem recorded_pods_are_quiet:
  assumes "q \<in> set pods" and "running_pod q" and "holder_for L q = Some h" and "pod_ordinal h q = Some i"
    and "\<And>q. q \<in> set pods \<Longrightarrow> CHR '','' \<notin> set (NodeName q)"
    and "length (runningPods L h pods) \<le> MaxRememberedNodes"
    and "Kind h = StatefulSet \<longrightarrow> distinct (current_ords (runningPods L h pods))"
    and "cached_holder L h = Inr ann"
    and "lookup_str ann RememberedNodesAnnotation = Recall (Kind h) previous (runningPods L h pods)"
  shows "enqueuePod L q = None"
proof -
  have "runs_at (runningPods L h pods) (NodeName q) i"
    using assms(1-4) runs_at_runningPods by (auto simp: counted_def)
  then have "remembers h ann q"
    using assms runningPods_good [OF assms(5)] by (intro recorded_remembers) simp_all
  then show ?thesis using assms(2,3,8) by (simp add: enqueuePod_def)
qed

theorem recorded_pods_are_quiet_witness:
  "enqueuePod (test_listers ''n7,n1'') (test_pod ReplicaSet ''web'' ''w1'' ''n7'') = None"
proof -
  let ?L = "test_listers ''n7,n1''" and ?h = "\<lparr>Kind = ReplicaSet, Namespace = ''ns'', Name = ''web''\<rparr>"
  let ?q = "test_pod ReplicaSet ''web'' ''w1'' ''n7''"
  have run: "runningPods ?L ?h [?q] = [(''n7'', [-1])]" by code_simp
  have mem: "Recall ReplicaSet ''n1'' [(''n7'', [-1])] = ''n7,n1''" by code_simp
  have "holder_for ?L ?q = Some ?h" "running_pod ?q" "pod_ordinal ?h ?q = Some (-1)" by code_simp+
  moreover have "cached_holder ?L ?h = Inr [RememberedNodesAnnotation \<mapsto> ''n7,n1'']"
    by (simp add: cached_holder_def test_listers_def ReplicaSet_def Deployment_def StatefulSet_def)
  moreover have "CHR '','' \<notin> set (NodeName ?q)" "Kind ?h \<noteq> StatefulSet" "Kind ?h = ReplicaSet"
    by (simp_all add: test_pod_def ReplicaSet_def StatefulSet_def)
  moreover have "lookup_str [RememberedNodesAnnotation \<mapsto> ''n7,n1''] RememberedNodesAnnotation = ''n7,n1''"
    by (simp add: lookup_str_def)
  ultimately show ?thesis
    using recorded_pods_are_quiet [of ?q "[?q]" ?L ?h "-1" "[RememberedNodesAnnotation \<mapsto> ''n7,n1'']" "''n1''"]
    by (simp add: run mem MaxRememberedNodes_def)
qed

text \<open>
  Nobody's change is overwritten: against an API server with optimistic locking, one
  \<open>sync\<close> replaces the holder's annotation at most once, by exactly the memory recalled
  from the content it replaced, and only when that differs; whoever else changes the holder
  between its steps, and whatever calls fail.
\<close>

theorem sync_never_overwrites:
  assumes "locking C content replaced"
    and "\<And>h obj. cached h = Inr obj \<Longrightarrow> content h (ResourceVersion obj) = HolderAnnotations obj"
  shows "replaced (snd (sync C L cached list_pods key s)) = replaced s
    \<or> (\<exists>h pods old. ParseHolder key = Some h \<and> list_pods (Namespace h) = Inr pods
         \<and> replaced (snd (sync C L cached list_pods key s))
             = replaced s @ [(h, old, wrote h (runningPods L h pods) old)]
         \<and> fst (sync C L cached list_pods key s) = None
         \<and> Recall (Kind h) (lookup_str old RememberedNodesAnnotation) (runningPods L h pods)
             \<noteq> lookup_str old RememberedNodesAnnotation)"
proof (cases "ParseHolder key")
  case (Some h)
  show ?thesis
  proof (cases "cached h")
    case (Inr obj)
    show ?thesis
    proof (cases "list_pods (Namespace h)")
      case pods: (Inr pods)
      have "one_fresh_write h (runningPods L h pods) (fst (sync C L cached list_pods key s)) (replaced s)
          (replaced (snd (sync C L cached list_pods key s)))"
        using sync_attempts_fresh [OF assms(1) assms(2) [OF Inr], of "runningPods L h pods" 5 s] Some Inr pods
        by (simp add: sync_def)
      then show ?thesis using Some pods by (auto simp: one_fresh_write_def)
    qed (simp add: sync_def Some Inr)
  qed (simp add: sync_def Some)
qed (simp add: sync_def)

text \<open>A server on which someone else changed the holder from version 1 to version 2.\<close>

type_synonym test_log = "(holder \<times> strmap \<times> string option) list"

definition test_content :: "holder \<Rightarrow> string \<Rightarrow> strmap" where
  "test_content h rv = [RememberedNodesAnnotation \<mapsto> (if rv = ''1'' then ''a'' else ''b'')]"

definition test_client :: "test_log client" where
  "test_client =
     \<lparr>patch_memory = (\<lambda>h rv v s. if rv = ''2'' then (None, s @ [(h, test_content h rv, v)]) else (Some Conflict, s)),
      get_holder = (\<lambda>h s. (Inr \<lparr>HolderAnnotations = test_content h ''2'', ResourceVersion = ''2''\<rparr>, s))\<rparr>"

definition test_cached :: "holder \<Rightarrow> live_holder api" where
  "test_cached h = Inr \<lparr>HolderAnnotations = test_content h ''1'', ResourceVersion = ''1''\<rparr>"

lemma test_sync:
  "map (\<lambda>(h, old, new). new) (snd (sync test_client (test_listers []) test_cached
     (\<lambda>_. Inr [test_pod ReplicaSet ''web'' ''w1'' ''c'']) ''ReplicaSet/ns/web'' [])) = [Some ''c,b'']"
  by code_simp

theorem sync_never_overwrites_witness:
  "\<exists>h old. snd (sync test_client (test_listers []) test_cached
     (\<lambda>_. Inr [test_pod ReplicaSet ''web'' ''w1'' ''c'']) ''ReplicaSet/ns/web'' []) = [(h, old, Some ''c,b'')]"
proof -
  have 1: "locking test_client test_content (\<lambda>s. s)"
    by (simp add: locking_def test_client_def)
  have 2: "test_cached h = Inr obj \<Longrightarrow> test_content h (ResourceVersion obj) = HolderAnnotations obj" for h obj
    by (auto simp: test_cached_def)
  show ?thesis
    using sync_never_overwrites [where replaced = "\<lambda>s. s", OF 1, of test_cached "test_listers []"
        "\<lambda>_. Inr [test_pod ReplicaSet ''web'' ''w1'' ''c'']" "''ReplicaSet/ns/web''" "[]", OF 2] test_sync
    by auto
qed

end
