(* ===== verification/Admission.thy ===== *)
theory Admission
  imports Kube
begin

text \<open>
  What the four admission plugins of \<open>pkg/kyvernetria/admission\<close> share: the request
  attributes they look at, the outcome of \<open>Validate\<close>, and the namespace lookup that
  three of them make (the informer's cache first, the API server for a namespace the cache
  does not know). The cache, the API server and \<open>WaitForReady\<close> are parameters.
\<close>

datatype operation = OpCreate | OpUpdate | OpDelete | OpConnect

record attributes =
  GroupResource :: string
  Subresource :: string
  Operation :: operation
  AttrNamespace :: string
  AttrName :: string

definition pods_resource :: string where "pods_resource = ''pods''"

type_synonym 'a ns_get = "string \<Rightarrow> 'a api"

text \<open>\<open>namespaceLister.Get\<close>, then the client for a namespace the cache does not know.\<close>

definition find_namespace :: "'a ns_get \<Rightarrow> 'a ns_get option \<Rightarrow> 'a ns_get" where
  "find_namespace cache client ns =
     (case cache ns of
        Inr x \<Rightarrow> Inr x
      | Inl e \<Rightarrow>
          if e = NotFound then (case client of None \<Rightarrow> Inl e | Some get \<Rightarrow> get ns) else Inl e)"

lemma find_namespace_cached: "cache ns = Inr x \<Longrightarrow> find_namespace cache client ns = Inr x"
  by (simp add: find_namespace_def)

lemma find_namespace_new: "cache ns = Inl NotFound \<Longrightarrow> find_namespace cache (Some get) ns = get ns"
  by (simp add: find_namespace_def)

end
