(* ===== verification/NoBruteForce.thy ===== *)
theory NoBruteForce
  imports Admission
begin

text \<open>
  \<open>admission/nobruteforce/admission.go\<close>: the NoBruteForce plugin, which refuses to cut
  off a running pod (a delete or an eviction with grace period 0) until the pod is marked as
  discussed. \<open>nbf_validate\<close> is \<open>Validate\<close> with its branches in order;
  \<open>evictedPod\<close> reads the pod of an eviction from the informer's cache, a parameter, as is
  the readiness of the informer. The user names of the control plane and of the pod garbage
  collector are those of the Kubernetes API.
\<close>

text \<open>The options of a delete: nil, or options with an optional grace period.\<close>

datatype delete_options = NilOptions | DeleteOptions "int option"

definition immediate :: "delete_options \<Rightarrow> bool" where
  "immediate opts = (case opts of NilOptions \<Rightarrow> False | DeleteOptions g \<Rightarrow> g = Some 0)"

definition forceDeleters :: "string list" where
  "forceDeleters = [''system:serviceaccount:kube-system:pod-garbage-collector'']"

definition control_plane_users :: "string list" where
  "control_plane_users = [''system:kube-controller-manager'', ''system:kube-scheduler'', ''system:apiserver'']"

definition isClusterComponent :: "string option \<Rightarrow> bool" where
  "isClusterComponent u =
     (case u of
        None \<Rightarrow> False
      | Some name \<Rightarrow>
          if has_prefix name ''system:node:'' \<or> name \<in> set forceDeleters then True
          else name \<in> set control_plane_users)"

definition isRunning :: "annotated_pod \<Rightarrow> bool" where
  "isRunning p \<longleftrightarrow> NodeName p \<noteq> [] \<and> PodPhase p \<noteq> PodSucceeded \<and> PodPhase p \<noteq> PodFailed"

text \<open>
  The objects of a request: the options of a delete and the pod it deletes, the options of an
  eviction, or something else.
\<close>

datatype request =
    DeleteReq "delete_options option" "annotated_pod option"
  | EvictReq delete_options
  | OtherReq

datatype nbf_verdict = NbfAllowed | NbfNotReady | NbfInternal api_error | LetsTalk

type_synonym pod_cache = "string \<Rightarrow> string \<Rightarrow> annotated_pod api"

definition evictedPod :: "bool \<Rightarrow> pod_cache \<Rightarrow> attributes \<Rightarrow> nbf_verdict + annotated_pod" where
  "evictedPod ready cache a =
     (if \<not> ready then Inl NbfNotReady
      else case cache (AttrNamespace a) (AttrName a) of
        Inl e \<Rightarrow> if e = NotFound then Inl NbfAllowed else Inl (NbfInternal e)
      | Inr p \<Rightarrow> Inr p)"

definition talk_first :: "annotated_pod \<Rightarrow> nbf_verdict" where
  "talk_first p =
     (if \<not> isRunning p \<or> PodDeleting p \<or> lookup_str (PodAnnotations p) DiscussedAnnotation = ''true''
      then NbfAllowed else LetsTalk)"

definition nbf_validate ::
    "bool \<Rightarrow> pod_cache \<Rightarrow> string option \<Rightarrow> attributes \<Rightarrow> request \<Rightarrow> nbf_verdict" where
  "nbf_validate ready cache u a req =
     (if GroupResource a \<noteq> pods_resource then NbfAllowed
      else if Operation a = OpDelete \<and> Subresource a = []
      then (case req of
              DeleteReq (Some opts) obj \<Rightarrow>
                if \<not> immediate opts \<or> isClusterComponent u then NbfAllowed
                else (case obj of None \<Rightarrow> NbfAllowed | Some p \<Rightarrow> talk_first p)
            | _ \<Rightarrow> NbfAllowed)
      else if Operation a = OpCreate \<and> Subresource a = ''eviction''
      then (case req of
              EvictReq opts \<Rightarrow>
                if \<not> immediate opts \<or> isClusterComponent u then NbfAllowed
                else (case evictedPod ready cache a of Inl v \<Rightarrow> v | Inr p \<Rightarrow> talk_first p)
            | _ \<Rightarrow> NbfAllowed)
      else NbfAllowed)"

section \<open>Properties\<close>

text \<open>
  A request that cuts off: a delete with grace period 0 of a pod, or an eviction with it, by
  someone who is not a component of the cluster.
\<close>

definition spared_user :: "string option \<Rightarrow> bool" where
  "spared_user u \<longleftrightarrow> (\<exists>name. u = Some name \<and> (has_prefix name ''system:node:''
     \<or> name \<in> set forceDeleters \<or> name \<in> set control_plane_users))"

definition cuts_off_pod :: "string option \<Rightarrow> attributes \<Rightarrow> request \<Rightarrow> annotated_pod \<Rightarrow> bool" where
  "cuts_off_pod u a req p \<longleftrightarrow> \<not> spared_user u \<and> GroupResource a = pods_resource
     \<and> Operation a = OpDelete \<and> Subresource a = [] \<and> req = DeleteReq (Some (DeleteOptions (Some 0))) (Some p)"

definition cuts_off_evicted :: "string option \<Rightarrow> attributes \<Rightarrow> request \<Rightarrow> bool" where
  "cuts_off_evicted u a req \<longleftrightarrow> \<not> spared_user u \<and> GroupResource a = pods_resource
     \<and> Operation a = OpCreate \<and> Subresource a = ''eviction'' \<and> req = EvictReq (DeleteOptions (Some 0))"

text \<open>A pod that would lose its chance to finish: running, not terminating, not discussed.\<close>

definition undiscussed :: "annotated_pod \<Rightarrow> bool" where
  "undiscussed p \<longleftrightarrow> isRunning p \<and> \<not> PodDeleting p \<and> PodAnnotations p DiscussedAnnotation \<noteq> Some ''true''"

lemma isClusterComponent_iff: "isClusterComponent u \<longleftrightarrow> spared_user u"
  by (cases u) (auto simp: isClusterComponent_def spared_user_def)

lemma talk_first_cases: "talk_first p = (if undiscussed p then LetsTalk else NbfAllowed)"
  by (simp add: talk_first_def undiscussed_def lookup_str_def split: option.splits)

lemma validate_delete:
  assumes "cuts_off_pod u a req p"
  shows "nbf_validate ready cache u a req = talk_first p"
  using assms by (simp add: cuts_off_pod_def nbf_validate_def isClusterComponent_iff immediate_def)

lemma validate_evict:
  assumes "cuts_off_evicted u a req"
  shows "nbf_validate ready cache u a req = (case evictedPod ready cache a of Inl v \<Rightarrow> v | Inr p \<Rightarrow> talk_first p)"
  using assms by (simp add: cuts_off_evicted_def nbf_validate_def isClusterComponent_iff immediate_def)

lemma validate_other:
  assumes "\<And>p. \<not> cuts_off_pod u a req p" and "\<not> cuts_off_evicted u a req"
  shows "nbf_validate ready cache u a req = NbfAllowed"
proof (cases req)
  case (DeleteReq opts obj)
  then show ?thesis using assms(1)
    by (auto simp: nbf_validate_def cuts_off_pod_def isClusterComponent_iff immediate_def
        split: option.splits delete_options.splits)
next
  case (EvictReq opts)
  then show ?thesis using assms(2)
    by (auto simp: nbf_validate_def cuts_off_evicted_def isClusterComponent_iff immediate_def split: delete_options.splits)
qed (simp add: nbf_validate_def)

text \<open>
  Claim C2. No brute force: a request is answered with \<open>let's talk first\<close> exactly when it
  deletes or evicts with grace period 0 a pod that runs, is not terminating and is not marked
  as discussed, and its user is not a node, the pod garbage collector or the control plane
  itself; the pod of an eviction is the one the synced cache knows. The only other refusals are
  of such an eviction: while the cache is not synced, and, with the cache's error, when the
  cache cannot be read, where a pod it does not know is let through. Everything else is allowed,
  every other grace period in particular.
\<close>

theorem force_delete_refused_exactly:
  "nbf_validate ready cache u a req =
     (if \<exists>p. cuts_off_pod u a req p \<and> undiscussed p then LetsTalk
      else if \<not> cuts_off_evicted u a req then NbfAllowed
      else if \<not> ready then NbfNotReady
      else case cache (AttrNamespace a) (AttrName a) of
        Inl e \<Rightarrow> if e = NotFound then NbfAllowed else NbfInternal e
      | Inr p \<Rightarrow> if undiscussed p then LetsTalk else NbfAllowed)"
proof (cases "cuts_off_evicted u a req")
  case True
  then have "\<not> cuts_off_pod u a req p" for p by (simp add: cuts_off_pod_def cuts_off_evicted_def)
  then show ?thesis using validate_evict [OF True, of ready cache] True
    by (simp add: evictedPod_def talk_first_cases split: sum.splits)
next
  case False
  show ?thesis
  proof (cases "\<exists>p. cuts_off_pod u a req p")
    case True
    then obtain p where p: "cuts_off_pod u a req p" by blast
    then have "cuts_off_pod u a req q \<longleftrightarrow> q = p" for q by (auto simp: cuts_off_pod_def)
    then show ?thesis using validate_delete [OF p, of ready cache] False by (simp add: talk_first_cases)
  next
    case none: False
    then show ?thesis using validate_other [of u a req ready cache] False by auto
  qed
qed

end
