(* ===== verification/StartingDose.thy ===== *)
theory StartingDose
  imports Admission
begin

text \<open>
  \<open>admission/startingdose/admission.go\<close>: the StartingDose plugin. Quantities are an
  arbitrary type \<open>'q\<close> with the parser \<open>parse_quantity\<close> as a parameter
  (\<open>resource.MustParse\<close>); a resource list is a map from resource names, a nil list the
  empty one. \<open>visit\<close> goes over init containers, then containers, so a pod's record is the
  concatenation of both. The lemmas show that a dose only ever adds what a container says
  nothing about, and that a dosed pod needs no dose.
\<close>

section \<open>Pods\<close>

type_synonym 'q resources = "string \<Rightarrow> 'q option"

record 'q dcontainer =
  DName :: string
  Requests :: "'q resources"
  Limits :: "'q resources"

record 'q dpod =
  DAnnotations :: strmap
  HasPodResources :: bool
  DInitContainers :: "'q dcontainer list"
  DContainers :: "'q dcontainer list"

definition MirrorPodAnnotationKey :: string where
  "MirrorPodAnnotationKey = ''kubernetes.io/config.mirror''"

section \<open>Doses\<close>

definition Doses :: "(string \<Rightarrow> 'q) \<Rightarrow> (string \<times> 'q) list" where
  "Doses parse_quantity = [(''cpu'', parse_quantity StartingDoseCPU), (''memory'', parse_quantity StartingDoseMemory)]"

definition missing :: "(string \<Rightarrow> 'q) \<Rightarrow> 'q dcontainer \<Rightarrow> string list" where
  "missing pq c = sort (filter (\<lambda>n. Requests c n = None \<and> Limits c n = None) (map fst (Doses pq)))"

definition undosable :: "'q dpod \<Rightarrow> bool" where
  "undosable p \<longleftrightarrow> HasPodResources p \<or> lookup_str (DAnnotations p) MirrorPodAnnotationKey \<noteq> []"

definition NeedsDose :: "(string \<Rightarrow> 'q) \<Rightarrow> 'q dpod \<Rightarrow> bool" where
  "NeedsDose pq p =
     (if undosable p then False
      else list_ex (\<lambda>c. missing pq c \<noteq> []) (DInitContainers p @ DContainers p))"

definition dose_container :: "(string \<Rightarrow> 'q) \<Rightarrow> 'q dcontainer \<Rightarrow> 'q dcontainer" where
  "dose_container pq c =
     c\<lparr>Requests := foldl (\<lambda>r n. r(n := map_of (Doses pq) n)) (Requests c) (missing pq c)\<rparr>"

definition dose_record :: "(string \<Rightarrow> 'q) \<Rightarrow> 'q dcontainer \<Rightarrow> string list" where
  "dose_record pq c =
     (if missing pq c = [] then [] else [DName c @ ''='' @ join '','' (missing pq c)])"

definition Dose :: "(string \<Rightarrow> 'q) \<Rightarrow> 'q dpod \<Rightarrow> bool \<times> 'q dpod" where
  "Dose pq p =
     (if undosable p then (False, p)
      else let record = concat (map (dose_record pq) (DInitContainers p @ DContainers p));
               dosed = p\<lparr>DInitContainers := map (dose_container pq) (DInitContainers p),
                         DContainers := map (dose_container pq) (DContainers p)\<rparr>
           in if record = [] then (False, dosed)
              else (True, dosed\<lparr>DAnnotations := (DAnnotations p)(StartingDoseAnnotation \<mapsto> join '';'' record)\<rparr>))"

section \<open>The handler\<close>

definition optedIn :: "strmap ns_get \<Rightarrow> strmap ns_get \<Rightarrow> string \<Rightarrow> api_error + bool" where
  "optedIn cache client ns =
     (case find_namespace cache (Some client) ns of
        Inl e \<Rightarrow> if e = NotFound then Inr False else Inl e
      | Inr labels \<Rightarrow> Inr (lookup_str labels DosingLabel = DosingStartLow))"

datatype dose_error = DoseNotReady | LabelsUnreadable api_error

text \<open>\<open>Admit\<close>: an error that forbids the pod, or the pod as it is stored.\<close>

definition Admit :: "(string \<Rightarrow> 'q) \<Rightarrow> bool \<Rightarrow> strmap ns_get \<Rightarrow> strmap ns_get \<Rightarrow> attributes \<Rightarrow> 'q dpod
     \<Rightarrow> dose_error + 'q dpod" where
  "Admit pq ready cache client a p =
     (if GroupResource a \<noteq> pods_resource \<or> Subresource a \<noteq> [] then Inr p
      else if \<not> NeedsDose pq p then Inr p
      else if \<not> ready then Inl DoseNotReady
      else case optedIn cache client (AttrNamespace a) of
        Inl e \<Rightarrow> Inl (LabelsUnreadable e)
      | Inr True \<Rightarrow> Inr (snd (Dose pq p))
      | Inr False \<Rightarrow> Inr p)"

section \<open>Lemmas\<close>

lemma set_missing: "n \<in> set (missing pq c) \<longleftrightarrow>
    (n = ''cpu'' \<or> n = ''memory'') \<and> Requests c n = None \<and> Limits c n = None"
  by (auto simp: missing_def Doses_def)

lemma foldl_fun_upd: "foldl (\<lambda>r n. r(n := f n)) r ns = (\<lambda>n. if n \<in> set ns then f n else r n)"
  by (induction ns arbitrary: r) (auto simp: fun_eq_iff)

lemma dose_container_simps [simp]:
  "DName (dose_container pq c) = DName c" "Limits (dose_container pq c) = Limits c"
  "Requests (dose_container pq c) n = (if n \<in> set (missing pq c) then map_of (Doses pq) n else Requests c n)"
  by (simp_all add: dose_container_def foldl_fun_upd)

lemma missing_dosed [simp]: "missing pq (dose_container pq c) = []"
proof -
  have "n \<notin> set (missing pq (dose_container pq c))" for n
    by (auto simp: set_missing [of n pq "dose_container pq c"]) (auto simp: set_missing Doses_def)
  then show ?thesis by (metis list.set_intros(1) list.exhaust)
qed

lemma dose_container_none: "missing pq c = [] \<Longrightarrow> dose_container pq c = c"
  by (simp add: dose_container_def)

lemma dose_container_id [simp]: "dose_container pq (dose_container pq c) = dose_container pq c"
  by (simp add: dose_container_none)

lemma records_Nil: "concat (map (dose_record pq) cs) = [] \<longleftrightarrow> \<not> list_ex (\<lambda>c. missing pq c \<noteq> []) cs"
  by (induction cs) (auto simp: dose_record_def)

lemma dosed_records [simp]: "concat (map (dose_record pq) (map (dose_container pq) cs)) = []"
  by (induction cs) (auto simp: dose_record_def)

lemma Dose_containers:
  "\<not> undosable p \<Longrightarrow> DInitContainers (snd (Dose pq p)) = map (dose_container pq) (DInitContainers p)
    \<and> DContainers (snd (Dose pq p)) = map (dose_container pq) (DContainers p)"
  by (simp add: Dose_def Let_def)

lemma Dose_pod_resources: "HasPodResources (snd (Dose pq p)) = HasPodResources p"
  by (simp add: Dose_def Let_def split: if_split)

lemma Dose_undosable: "undosable (snd (Dose pq p)) = undosable p"
  by (simp add: Dose_def Let_def undosable_def StartingDoseAnnotation_def MirrorPodAnnotationKey_def kyv_prefix_def)

lemma Dose_changed: "fst (Dose pq p) = NeedsDose pq p"
  using records_Nil [of pq "DInitContainers p @ DContainers p"] by (simp add: Dose_def NeedsDose_def Let_def)

lemma Dose_unchanged: "\<not> NeedsDose pq p \<Longrightarrow> snd (Dose pq p) = p"
proof -
  assume n: "\<not> NeedsDose pq p"
  show ?thesis
  proof (cases "undosable p")
    case False
    then have m: "missing pq c = []" if "c \<in> set (DInitContainers p @ DContainers p)" for c
      using n that by (auto simp: NeedsDose_def list_ex_iff)
    then have "map (dose_container pq) (DInitContainers p) = DInitContainers p"
      "map (dose_container pq) (DContainers p) = DContainers p"
      by (auto intro!: map_idI dose_container_none)
    then show ?thesis using False n Dose_changed [of pq p] by (auto simp: Dose_def Let_def split: if_splits)
  qed (simp add: Dose_def)
qed

section \<open>Properties\<close>

text \<open>A container of the pod before and after a dose.\<close>

definition conservative :: "(string \<Rightarrow> 'q) \<Rightarrow> 'q dcontainer \<Rightarrow> 'q dcontainer \<Rightarrow> bool" where
  "conservative pq c c' \<longleftrightarrow>
     DName c' = DName c \<and> Limits c' = Limits c
     \<and> (\<forall>n. Requests c' n \<noteq> Requests c n \<longrightarrow>
          Requests c n = None \<and> Limits c n = None \<and>
          (n = ''cpu'' \<and> Requests c' n = Some (pq StartingDoseCPU)
           \<or> n = ''memory'' \<and> Requests c' n = Some (pq StartingDoseMemory)))
     \<and> (\<forall>n \<in> {''cpu'', ''memory''}. Requests c' n \<noteq> None \<or> Limits c' n \<noteq> None)"

text \<open>
  A dose never changes a value someone set: on a pod that can be dosed, names and
  limits stay, a request changes only from nothing, for a resource the container has no limit
  for either, and then to the starting dose; and afterwards every init and regular container
  states something about both cpu and memory. Other pods are untouched.
\<close>

theorem dose_is_conservative:
  "if undosable p then Dose pq p = (False, p)
   else list_all2 (conservative pq) (DInitContainers p) (DInitContainers (snd (Dose pq p)))
      \<and> list_all2 (conservative pq) (DContainers p) (DContainers (snd (Dose pq p)))
      \<and> HasPodResources (snd (Dose pq p)) = HasPodResources p"
proof -
  have one: "conservative pq c (dose_container pq c)" for c
    unfolding conservative_def by (auto simp: set_missing Doses_def split: if_splits)
  have "list_all2 (conservative pq) cs (map (dose_container pq) cs)" for cs
    by (simp add: list.rel_map list_all2_refl one)
  moreover have "undosable p \<Longrightarrow> Dose pq p = (False, p)" by (simp add: Dose_def)
  ultimately show ?thesis by (simp add: Dose_containers Dose_pod_resources)
qed

text \<open>
  Dosing settles and is announced: \<open>Dose\<close> reports a change exactly when
  \<open>NeedsDose\<close> says a container is undosed, changes nothing otherwise, and a dosed pod
  needs no dose, so a second dose would do nothing.
\<close>

theorem dose_settles:
  "fst (Dose pq p) = NeedsDose pq p \<and> (\<not> NeedsDose pq p \<longrightarrow> snd (Dose pq p) = p)
   \<and> \<not> NeedsDose pq (snd (Dose pq p)) \<and> Dose pq (snd (Dose pq p)) = (False, snd (Dose pq p))"
proof -
  have none: "\<not> NeedsDose pq (snd (Dose pq p))"
    by (cases "undosable p") (auto simp: NeedsDose_def Dose_undosable Dose_containers list_ex_iff)
  then have "Dose pq (snd (Dose pq p)) = (False, snd (Dose pq p))"
    using Dose_changed [of pq "snd (Dose pq p)"] Dose_unchanged [OF none] by (metis prod.collapse)
  then show ?thesis using none Dose_changed Dose_unchanged by blast
qed

definition bare_pod :: "string dpod" where
  "bare_pod = \<lparr>DAnnotations = (\<lambda>_. None), HasPodResources = False, DInitContainers = [],
     DContainers = [\<lparr>DName = ''app'', Requests = [''memory'' \<mapsto> ''1Gi''], Limits = (\<lambda>_. None)\<rparr>]\<rparr>"

theorem dose_settles_witness:
  "NeedsDose (\<lambda>q. q) bare_pod \<and> \<not> NeedsDose (\<lambda>q. q) (snd (Dose (\<lambda>q. q) bare_pod))"
proof -
  have "NeedsDose (\<lambda>q. q) bare_pod" by code_simp
  then show ?thesis using dose_settles [of "\<lambda>q. q" bare_pod] by simp
qed

end
