(* ===== verification/Worry.thy ===== *)
theory Worry
  imports Kube "HOL-Library.AList"
begin

text \<open>
  \<open>controller/worry/worry.go\<close>: the controller that warns about a node's requests before
  it is full. \<open>Requested\<close> sums the requests, \<open>Percent\<close> turns them into a
  percentage of what is allocatable, \<open>feel\<close> turns a percentage into at most one event per
  change of state, \<open>persist\<close> mirrors the state into the node's annotation and
  \<open>check\<close> is one round over all nodes. A set of resource names is a sorted list without
  repetitions, so equal sets are equal lists. \<open>resource.Quantity\<close> is an arbitrary type
  with its operations as parameters (\<open>quantities\<close>), \<open>PodRequests\<close> and the API
  patch are parameters too. \<open>None\<close> is the panic of an integer division by zero.
\<close>

section \<open>Requests and percentages\<close>

record 'q quantities =
  MilliValue :: "'q \<Rightarrow> int"
  IsZero :: "'q \<Rightarrow> bool"
  AddQ :: "'q \<Rightarrow> 'q \<Rightarrow> 'q"
  ZeroQ :: 'q

definition Percent :: "'q quantities \<Rightarrow> 'q \<Rightarrow> 'q \<Rightarrow> int option" where
  "Percent Q used whole =
     (if IsZero Q whole then Some 0
      else if MilliValue Q whole = 0 then None
      else Some (i64 (go_div (i64 (MilliValue Q used * 100)) (MilliValue Q whole))))"

type_synonym 'q sums = "string \<Rightarrow> (string \<Rightarrow> 'q option) option"

definition add_request :: "'q quantities \<Rightarrow> (string \<Rightarrow> 'q option) \<Rightarrow> string \<times> 'q \<Rightarrow> string \<Rightarrow> 'q option" where
  "add_request Q acc nq =
     acc(fst nq \<mapsto> AddQ Q (case acc (fst nq) of None \<Rightarrow> ZeroQ Q | Some t \<Rightarrow> t) (snd nq))"

definition add_pod :: "'q quantities \<Rightarrow> (pod \<Rightarrow> (string \<times> 'q) list) \<Rightarrow> 'q sums \<Rightarrow> pod \<Rightarrow> 'q sums" where
  "add_pod Q pod_requests out p =
     (if NodeName p = [] \<or> PodPhase p = PodSucceeded \<or> PodPhase p = PodFailed then out
      else let acc = (case out (NodeName p) of None \<Rightarrow> (\<lambda>_. None) | Some s \<Rightarrow> s)
           in out(NodeName p \<mapsto> foldl (add_request Q) acc (pod_requests p)))"

definition Requested :: "'q quantities \<Rightarrow> (pod \<Rightarrow> (string \<times> 'q) list) \<Rightarrow> pod list \<Rightarrow> 'q sums" where
  "Requested Q pod_requests pods = foldl (add_pod Q pod_requests) (\<lambda>_. None) pods"

definition requested_of :: "'q quantities \<Rightarrow> 'q sums \<Rightarrow> string \<Rightarrow> string \<Rightarrow> 'q" where
  "requested_of Q sums node res =
     (case sums node of
        None \<Rightarrow> ZeroQ Q
      | Some s \<Rightarrow> (case s res of None \<Rightarrow> ZeroQ Q | Some q \<Rightarrow> q))"

section \<open>Worries\<close>

definition hysteresis :: int where "hysteresis = 5"

definition ResourceCPU :: string where "ResourceCPU = ''cpu''"
definition ResourceMemory :: string where "ResourceMemory = ''memory''"

type_synonym worries = "string list"

definition set_insert :: "string \<Rightarrow> worries \<Rightarrow> worries" where
  "set_insert x xs = (if x \<in> set xs then xs else sort (x # xs))"

definition set_delete :: "string \<Rightarrow> worries \<Rightarrow> worries" where
  "set_delete x xs = filter (\<lambda>y. y \<noteq> x) xs"

definition decodeWorried :: "string \<Rightarrow> worries" where
  "decodeWorried raw =
     foldl (\<lambda>st r. if r \<noteq> [] then set_insert r st else st) [] (split_on (CHR '','') raw)"

definition encodeWorried :: "worries \<Rightarrow> string" where
  "encodeWorried st = join '','' (sort st)"

text \<open>An event: worried or relieved, the resource and the percentage.\<close>

datatype event = Worried string int | Relieved string int

definition feel :: "string \<Rightarrow> int \<Rightarrow> worries \<Rightarrow> worries \<times> event list" where
  "feel res pct st =
     (if res \<notin> set st \<and> pct \<ge> WorryThresholdPercent then (set_insert res st, [Worried res pct])
      else if res \<in> set st \<and> pct < WorryThresholdPercent - hysteresis
      then (set_delete res st, [Relieved res pct])
      else (st, []))"

definition feel_both :: "int \<times> int \<Rightarrow> worries \<Rightarrow> worries \<times> event list" where
  "feel_both pcts st =
     (let (st, e1) = feel ResourceCPU (fst pcts) st; (st, e2) = feel ResourceMemory (snd pcts) st
      in (st, e1 @ e2))"

section \<open>The controller\<close>

record 'q node =
  NName :: string
  NAnnotations :: strmap
  Allocatable :: "string \<Rightarrow> 'q"

text \<open>
  The patch \<open>persist\<close> makes, if any: \<open>Some None\<close> removes the annotation. A node
  that is gone is no error.
\<close>

definition persist_patch :: "string \<Rightarrow> worries \<Rightarrow> string option option" where
  "persist_patch annotation st =
     (let want = encodeWorried st
      in if annotation = want then None else Some (if want = [] then None else Some want))"

definition persist :: "(string \<Rightarrow> string option \<Rightarrow> api_error option) \<Rightarrow> string \<Rightarrow> string \<Rightarrow> worries
     \<Rightarrow> api_error option \<times> (string \<times> string option) list" where
  "persist patch_node name annotation st =
     (case persist_patch annotation st of
        None \<Rightarrow> (None, [])
      | Some v \<Rightarrow>
          (case patch_node name v of
             None \<Rightarrow> (None, [(name, v)])
           | Some e \<Rightarrow> ((if e = NotFound then None else Some e), [])))"

record round =
  worried :: "(string \<times> worries) list"
  events :: "(string \<times> event) list"
  patched :: "(string \<times> string option) list"
  errors :: "api_error list"

definition percents :: "'q quantities \<Rightarrow> 'q sums \<Rightarrow> 'q node \<Rightarrow> (int \<times> int) option" where
  "percents Q sums n =
     (case Percent Q (requested_of Q sums (NName n) ResourceCPU) (Allocatable n ResourceCPU) of
        None \<Rightarrow> None
      | Some c \<Rightarrow>
          (case Percent Q (requested_of Q sums (NName n) ResourceMemory) (Allocatable n ResourceMemory) of
             None \<Rightarrow> None | Some m \<Rightarrow> Some (c, m)))"

definition known_worries :: "(string \<times> worries) list \<Rightarrow> 'q node \<Rightarrow> worries" where
  "known_worries known n =
     (case map_of known (NName n) of
        Some st \<Rightarrow> st | None \<Rightarrow> decodeWorried (lookup_str (NAnnotations n) WorriedAnnotation))"

definition check_node :: "'q quantities \<Rightarrow> (string \<Rightarrow> string option \<Rightarrow> api_error option) \<Rightarrow> 'q sums \<Rightarrow> round option
     \<Rightarrow> 'q node \<Rightarrow> round option" where
  "check_node Q patch_node sums r n =
     (case r of None \<Rightarrow> None
      | Some r \<Rightarrow>
          (case percents Q sums n of None \<Rightarrow> None
           | Some pcts \<Rightarrow>
               (let (st, es) = feel_both pcts (known_worries (worried r) n);
                    (err, ps) = persist patch_node (NName n) (lookup_str (NAnnotations n) WorriedAnnotation) st
                in Some (r\<lparr>worried := AList.update (NName n) st (worried r),
                           events := events r @ map (Pair (NName n)) es,
                           patched := patched r @ ps,
                           errors := errors r @ (case err of None \<Rightarrow> [] | Some e \<Rightarrow> [e])\<rparr>))))"

definition check :: "'q quantities \<Rightarrow> (pod \<Rightarrow> (string \<times> 'q) list) \<Rightarrow> (string \<Rightarrow> string option \<Rightarrow> api_error option)
     \<Rightarrow> 'q node list \<Rightarrow> pod list \<Rightarrow> (string \<times> worries) list \<Rightarrow> round option" where
  "check Q pod_requests patch_node nodes pods known =
     (let sums = Requested Q pod_requests pods;
          r = foldl (check_node Q patch_node sums)
                (Some \<lparr>worried = known, events = [], patched = [], errors = []\<rparr>) nodes
      in map_option (\<lambda>r. r\<lparr>worried := filter (\<lambda>p. fst p \<in> set (map NName nodes)) (worried r)\<rparr>) r)"

section \<open>Lemmas: the annotation\<close>

definition worries_ok :: "worries \<Rightarrow> bool" where
  "worries_ok st \<longleftrightarrow> sorted st \<and> distinct st \<and> (\<forall>x \<in> set st. x \<noteq> [] \<and> CHR '','' \<notin> set x)"

lemma set_insert_ok: "worries_ok st \<Longrightarrow> x \<noteq> [] \<Longrightarrow> CHR '','' \<notin> set x \<Longrightarrow> worries_ok (set_insert x st)"
  by (auto simp: worries_ok_def set_insert_def distinct_insort sorted_insort set_insort_key)

lemma set_delete_ok: "worries_ok st \<Longrightarrow> worries_ok (set_delete x st)"
  by (auto simp: worries_ok_def set_delete_def sorted_wrt_filter)

lemma set_set_insert [simp]: "set (set_insert x st) = insert x (set st)"
  by (auto simp: set_insert_def set_insort_key)

lemma set_set_delete [simp]: "set (set_delete x st) = set st - {x}"
  by (auto simp: set_delete_def)

lemma foldl_insert:
  "worries_ok st \<Longrightarrow> (\<And>x. x \<in> set xs \<Longrightarrow> CHR '','' \<notin> set x) \<Longrightarrow>
   worries_ok (foldl (\<lambda>st r. if r \<noteq> [] then set_insert r st else st) st xs)
   \<and> set (foldl (\<lambda>st r. if r \<noteq> [] then set_insert r st else st) st xs) = set st \<union> {x \<in> set xs. x \<noteq> []}"
proof (induction xs arbitrary: st)
  case (Cons x xs)
  let ?st = "if x \<noteq> [] then set_insert x st else st"
  have ok: "worries_ok ?st" using Cons.prems set_insert_ok by auto
  then show ?case using Cons.IH [OF ok] Cons.prems(2) by auto
qed simp

lemma decodeWorried_spec:
  "worries_ok (decodeWorried raw) \<and> set (decodeWorried raw) = {x \<in> set (split_on (CHR '','') raw). x \<noteq> []}"
proof -
  have "worries_ok []" by (simp add: worries_ok_def)
  moreover have "CHR '','' \<notin> set x" if "x \<in> set (split_on (CHR '','') raw)" for x
    using split_on_parts [OF that] .
  ultimately show ?thesis
    using foldl_insert [of "[]" "split_on (CHR '','') raw"] by (simp add: decodeWorried_def)
qed

lemmas decodeWorried_ok = decodeWorried_spec [THEN conjunct1]
lemmas set_decodeWorried = decodeWorried_spec [THEN conjunct2]

lemma worries_eqI: "worries_ok a \<Longrightarrow> worries_ok b \<Longrightarrow> set a = set b \<Longrightarrow> a = b"
  by (simp add: worries_ok_def sorted_distinct_set_unique)

lemma decode_encodeWorried: "worries_ok st \<Longrightarrow> decodeWorried (encodeWorried st) = st"
proof -
  assume ok: "worries_ok st"
  have "set (decodeWorried (encodeWorried st)) = set st"
  proof (cases "st = []")
    case False
    then have "split_on (CHR '','') (join '','' st) = st"
      using ok by (intro split_join) (auto simp: worries_ok_def)
    then show ?thesis using ok by (auto simp: set_decodeWorried encodeWorried_def worries_ok_def sorted_sort_id)
  qed (simp add: set_decodeWorried encodeWorried_def)
  then show ?thesis using ok decodeWorried_ok by (intro worries_eqI)
qed

lemma resource_names: "worries_ok [ResourceCPU]" "worries_ok [ResourceMemory]" "ResourceCPU \<noteq> ResourceMemory"
  by (simp_all add: worries_ok_def ResourceCPU_def ResourceMemory_def)

lemma feel_ok: "worries_ok st \<Longrightarrow> worries_ok [res] \<Longrightarrow> worries_ok (fst (feel res pct st))"
  by (auto simp: feel_def set_insert_ok set_delete_ok worries_ok_def [of "[res]"])

lemma feel_again: "feel res pct (fst (feel res pct st)) = (fst (feel res pct st), [])"
  by (auto simp: feel_def hysteresis_def)

lemma feel_other: "res' \<noteq> res \<Longrightarrow> res' \<in> set (fst (feel res pct st)) \<longleftrightarrow> res' \<in> set st"
  by (auto simp: feel_def)

lemma feel_quiet: "snd (feel res pct st) = [] \<Longrightarrow> fst (feel res pct st) = st"
  by (auto simp: feel_def split: if_splits)

lemma feel_quiet_iff:
  "snd (feel res pct st) = [] \<longleftrightarrow> \<not> (res \<notin> set st \<and> pct \<ge> 70) \<and> \<not> (res \<in> set st \<and> pct < 65)"
  by (auto simp: feel_def WorryThresholdPercent_def hysteresis_def)

lemma feel_both_ok: "worries_ok st \<Longrightarrow> worries_ok (fst (feel_both pcts st))"
  using resource_names by (simp add: feel_both_def case_prod_beta Let_def feel_ok)

lemma feel_both_again: "feel_both pcts (fst (feel_both pcts st)) = (fst (feel_both pcts st), [])"
proof -
  let ?s1 = "fst (feel ResourceCPU (fst pcts) st)"
  let ?s2 = "fst (feel ResourceMemory (snd pcts) ?s1)"
  have "snd (feel ResourceCPU (fst pcts) ?s2) = []"
    using feel_again [of ResourceCPU "fst pcts" st] feel_other [OF resource_names(3), of "snd pcts" ?s1]
    by (simp add: feel_quiet_iff) (metis feel_quiet_iff snd_conv)
  then have "fst (feel ResourceCPU (fst pcts) ?s2) = ?s2" "snd (feel ResourceCPU (fst pcts) ?s2) = []"
    using feel_quiet by auto
  moreover have "feel ResourceMemory (snd pcts) ?s2 = (?s2, [])" by (rule feel_again)
  ultimately show ?thesis by (simp add: feel_both_def case_prod_beta Let_def)
qed

interpretation worry_memory: settling encodeWorried decodeWorried "\<lambda>pcts st. fst (feel_both pcts st)" "\<lambda>_. True"
  by unfold_locales (simp_all add: decode_encodeWorried decodeWorried_ok feel_both_ok feel_both_again)

section \<open>Lemmas: rounds\<close>

definition pct_range :: "'q quantities \<Rightarrow> 'q \<Rightarrow> 'q \<Rightarrow> bool" where
  "pct_range Q used whole \<longleftrightarrow>
     0 \<le> MilliValue Q used \<and> MilliValue Q used \<le> (2 ^ 63 - 1) div 100
     \<and> 0 < MilliValue Q whole \<and> \<not> IsZero Q whole"

lemma Percent_exact: "pct_range Q used whole \<Longrightarrow>
    Percent Q used whole = Some (MilliValue Q used * 100 div MilliValue Q whole)"
proof -
  assume r: "pct_range Q used whole"
  let ?u = "MilliValue Q used * 100" and ?t = "MilliValue Q whole"
  have u: "0 \<le> ?u" "?u < 2 ^ 63" "0 < ?t" using r by (auto simp: pct_range_def)
  then have le: "?u div ?t \<le> ?u" using zdiv_mono2 [of ?u 1 ?t] by simp
  have "in_i64 ?u" using u by (simp add: in_i64_def)
  moreover have "in_i64 (?u div ?t)"
    using u le pos_imp_zdiv_nonneg_iff [of ?t ?u] by (simp add: in_i64_def)
  ultimately show ?thesis using u r by (simp add: Percent_def pct_range_def i64_id go_div_nonneg)
qed

lemma check_node_Some:
  "check_node Q P sums (Some r0) n = Some r1 \<Longrightarrow>
   \<exists>pcts. percents Q sums n = Some pcts
     \<and> worried r1 = AList.update (NName n) (fst (feel_both pcts (known_worries (worried r0) n))) (worried r0)
     \<and> events r1 = events r0 @ map (Pair (NName n)) (snd (feel_both pcts (known_worries (worried r0) n)))
     \<and> patched r1 = patched r0 @ snd (persist P (NName n) (lookup_str (NAnnotations n) WorriedAnnotation)
          (fst (feel_both pcts (known_worries (worried r0) n))))"
  by (auto simp: check_node_def Let_def case_prod_beta split: option.splits)

lemma foldl_check_None: "foldl (check_node Q P sums) None nodes = None"
  by (induction nodes) (simp_all add: check_node_def)

lemma foldl_check_Cons:
  "foldl (check_node Q P sums) (Some r0) (n # nodes) = Some r \<Longrightarrow>
   \<exists>r1. check_node Q P sums (Some r0) n = Some r1 \<and> foldl (check_node Q P sums) (Some r1) nodes = Some r"
  by (cases "check_node Q P sums (Some r0) n") (simp_all add: foldl_check_None)

abbreviation accepts :: "string \<Rightarrow> string option \<Rightarrow> api_error option" where
  "accepts \<equiv> \<lambda>_ _. None"

lemma persist_accepts:
  "snd (persist accepts name ann st) = (case persist_patch ann st of None \<Rightarrow> [] | Some v \<Rightarrow> [(name, v)])"
  by (simp add: persist_def split: option.splits)

lemma foldl_check_other:
  "foldl (check_node Q accepts sums) (Some r0) nodes = Some r \<Longrightarrow> name \<notin> NName ` set nodes \<Longrightarrow>
   map_of (patched r) name = map_of (patched r0) name"
proof (induction nodes arbitrary: r0)
  case (Cons n nodes)
  then obtain r1 where r1: "check_node Q accepts sums (Some r0) n = Some r1"
      "foldl (check_node Q accepts sums) (Some r1) nodes = Some r" using foldl_check_Cons by blast
  then show ?case
    using Cons.IH [OF r1(2)] Cons.prems(2) check_node_Some [OF r1(1)]
    by (auto simp: persist_accepts map_add_def split: option.splits)
qed simp

lemma known_worries_other:
  "NName n \<noteq> NName m \<Longrightarrow> worried r1 = AList.update (NName m) st (worried r0) \<Longrightarrow>
   known_worries (worried r1) n = known_worries (worried r0) n"
  by (simp add: known_worries_def update_conv')

lemma foldl_check_patched:
  "foldl (check_node Q accepts sums) (Some r0) nodes = Some r \<Longrightarrow> distinct (map NName nodes) \<Longrightarrow>
   n \<in> set nodes \<Longrightarrow> (\<And>m. m \<in> set nodes \<Longrightarrow> map_of (patched r0) (NName m) = None) \<Longrightarrow>
   \<exists>pcts. percents Q sums n = Some pcts
     \<and> map_of (patched r) (NName n) = persist_patch (lookup_str (NAnnotations n) WorriedAnnotation)
          (fst (feel_both pcts (known_worries (worried r0) n)))"
proof (induction nodes arbitrary: r0)
  case (Cons m nodes)
  then obtain r1 where r1: "check_node Q accepts sums (Some r0) m = Some r1"
      "foldl (check_node Q accepts sums) (Some r1) nodes = Some r" using foldl_check_Cons by blast
  obtain pcts where p: "percents Q sums m = Some pcts"
    "worried r1 = AList.update (NName m) (fst (feel_both pcts (known_worries (worried r0) m))) (worried r0)"
    "patched r1 = patched r0 @ snd (persist accepts (NName m) (lookup_str (NAnnotations m) WorriedAnnotation)
          (fst (feel_both pcts (known_worries (worried r0) m))))"
    using check_node_Some [OF r1(1)] by blast
  show ?case
  proof (cases "n = m")
    case True
    have "NName m \<notin> NName ` set nodes" using Cons.prems(2) by simp
    then show ?thesis
      using True p foldl_check_other [OF r1(2)] Cons.prems(4) [of m]
      by (auto simp: persist_accepts map_add_def split: option.splits)
  next
    case False
    then have n: "n \<in> set nodes" using Cons.prems(3) by simp
    then have "NName n \<in> NName ` set nodes" by simp
    then have ne: "NName n \<noteq> NName m" using Cons.prems(2) by auto
    have "map_of (patched r1) (NName k) = None" if k: "k \<in> set nodes" for k
    proof -
      have "NName k \<in> NName ` set nodes" using k by simp
      then have "NName k \<noteq> NName m" using Cons.prems(2) by auto
      then show ?thesis using Cons.prems(4) [of k] k p(3)
        by (auto simp: persist_accepts map_add_def split: option.splits)
    qed
    then show ?thesis
      using Cons.IH [OF r1(2) _ n] Cons.prems(2) known_worries_other [OF ne p(2)] by simp
  qed
qed simp

text \<open>A node whose annotation already says what its percentages give.\<close>

definition quiet_node :: "'q quantities \<Rightarrow> 'q sums \<Rightarrow> (string \<times> worries) list \<Rightarrow> 'q node \<Rightarrow> bool" where
  "quiet_node Q sums known n \<longleftrightarrow>
     (\<exists>pcts st. percents Q sums n = Some pcts \<and> feel_both pcts (known_worries known n) = (st, [])
        \<and> lookup_str (NAnnotations n) WorriedAnnotation = encodeWorried st)"

lemma foldl_check_quiet:
  "(\<And>n. n \<in> set nodes \<Longrightarrow> quiet_node Q sums (worried r0) n) \<Longrightarrow> distinct (map NName nodes) \<Longrightarrow>
   \<exists>r. foldl (check_node Q P sums) (Some r0) nodes = Some r \<and> events r = events r0 \<and> patched r = patched r0
     \<and> errors r = errors r0"
proof (induction nodes arbitrary: r0)
  case (Cons m nodes)
  obtain pcts st where q: "percents Q sums m = Some pcts" "feel_both pcts (known_worries (worried r0) m) = (st, [])"
      "lookup_str (NAnnotations m) WorriedAnnotation = encodeWorried st"
    using Cons.prems(1) [of m] by (auto simp: quiet_node_def)
  let ?r1 = "r0\<lparr>worried := AList.update (NName m) st (worried r0)\<rparr>"
  have step: "check_node Q P sums (Some r0) m = Some ?r1"
    using q by (simp add: check_node_def persist_def persist_patch_def)
  have "quiet_node Q sums (worried ?r1) n" if "n \<in> set nodes" for n
  proof -
    have "NName n \<in> NName ` set nodes" using that by simp
    then have ne: "NName n \<noteq> NName m" using Cons.prems(2) by auto
    have "known_worries (worried ?r1) n = known_worries (worried r0) n"
      by (rule known_worries_other [OF ne]) simp
    then show ?thesis using Cons.prems(1) [of n] that by (simp add: quiet_node_def)
  qed
  then show ?case using Cons.IH [of ?r1] Cons.prems(2) step by auto
qed simp

section \<open>Properties\<close>

fun feel_seq :: "string \<Rightarrow> int list \<Rightarrow> worries \<Rightarrow> worries \<times> event list" where
  "feel_seq res [] st = (st, [])"
| "feel_seq res (p # ps) st =
     (let (st1, es1) = feel res p st; (st2, es2) = feel_seq res ps st1 in (st2, es1 @ es2))"

text \<open>Events alternate from a state: worried at 70 percent or more, relieved below 65.\<close>

fun alternates :: "string \<Rightarrow> bool \<Rightarrow> event list \<Rightarrow> bool \<Rightarrow> bool" where
  "alternates res w [] v = (w = v)"
| "alternates res w (Worried r p # es) v = (r = res \<and> \<not> w \<and> 70 \<le> p \<and> alternates res True es v)"
| "alternates res w (Relieved r p # es) v = (r = res \<and> w \<and> p < 65 \<and> alternates res False es v)"

text \<open>
  Claim C3. Hysteresis: whatever the percentages over time, the events of a resource alternate
  between worried (only at 70 percent or more) and relieved (only below 65), starting from the
  state before and ending in the state after; so between 65 and 69 nothing is said and no state
  is announced twice. Other resources keep their state.
\<close>

theorem worries_alternate:
  "alternates res (res \<in> set st) (snd (feel_seq res pcts st)) (res \<in> set (fst (feel_seq res pcts st)))
   \<and> set (fst (feel_seq res pcts st)) - {res} = set st - {res}"
proof (induction pcts arbitrary: st)
  case (Cons p ps)
  consider "res \<notin> set st" "70 \<le> p" | "res \<in> set st" "p < 65"
    | "\<not> (res \<notin> set st \<and> 70 \<le> p)" "\<not> (res \<in> set st \<and> p < 65)" by blast
  then show ?case
  proof cases
    case 1
    then have "feel res p st = (set_insert res st, [Worried res p])"
      by (simp add: feel_def WorryThresholdPercent_def)
    then show ?thesis using 1 Cons.IH [of "set_insert res st"] by (simp add: case_prod_beta)
  next
    case 2
    then have "feel res p st = (set_delete res st, [Relieved res p])"
      by (simp add: feel_def WorryThresholdPercent_def hysteresis_def)
    then show ?thesis using 2 Cons.IH [of "set_delete res st"] by (simp add: case_prod_beta)
  next
    case 3
    then have "feel res p st = (st, [])"
      using feel_quiet_iff [of res p st] feel_quiet [of res p st] by (metis prod.collapse)
    then show ?thesis using Cons.IH [of st] by (simp add: case_prod_beta)
  qed
qed simp

text \<open>The nodes after the API server applied a round's patches.\<close>

definition apply_patch :: "(string \<times> string option) list \<Rightarrow> 'q node \<Rightarrow> 'q node" where
  "apply_patch ps n =
     (case map_of ps (NName n) of
        None \<Rightarrow> n
      | Some v \<Rightarrow> n\<lparr>NAnnotations := (NAnnotations n)(WorriedAnnotation := v)\<rparr>)"

definition known_ok :: "(string \<times> worries) list \<Rightarrow> bool" where
  "known_ok known \<longleftrightarrow> (\<forall>(n, st) \<in> set known. worries_ok st)"

lemma known_worries_ok: "known_ok known \<Longrightarrow> worries_ok (known_worries known n)"
  by (auto simp: known_worries_def known_ok_def decodeWorried_ok dest: map_of_SomeD split: option.splits)

lemma patched_annotation:
  "map_of ps (NName n) = persist_patch (lookup_str (NAnnotations n) WorriedAnnotation) st \<Longrightarrow>
   lookup_str (NAnnotations (apply_patch ps n)) WorriedAnnotation = encodeWorried st"
  by (auto simp: apply_patch_def persist_patch_def Let_def lookup_str_def split: option.splits if_splits)

text \<open>
  Claim C4. A new leader does not repeat itself: after a round whose patches the API server
  accepted, a controller that starts with no memory of its own reads the annotations, and on
  the same pods says nothing and writes nothing.
\<close>

theorem new_leader_is_quiet:
  assumes "check Q pod_requests accepts nodes pods known = Some r"
    and "distinct (map NName nodes)" and "known_ok known"
  shows "\<exists>r'. check Q pod_requests P (map (apply_patch (patched r)) nodes) pods [] = Some r'
      \<and> events r' = [] \<and> patched r' = [] \<and> errors r' = []"
proof -
  let ?sums = "Requested Q pod_requests pods"
  let ?r0 = "\<lparr>worried = known, events = [], patched = [], errors = []\<rparr>"
  let ?r1 = "\<lparr>worried = [], events = [], patched = [], errors = []\<rparr>"
  obtain s where s: "foldl (check_node Q accepts ?sums) (Some ?r0) nodes = Some s" "patched r = patched s"
    using assms(1) by (auto simp: check_def Let_def)
  have quiet: "quiet_node Q ?sums [] (apply_patch (patched r) n)" if n: "n \<in> set nodes" for n
  proof -
    obtain pcts where p: "percents Q ?sums n = Some pcts"
      and m: "map_of (patched r) (NName n) = persist_patch (lookup_str (NAnnotations n) WorriedAnnotation)
          (fst (feel_both pcts (known_worries known n)))"
      using foldl_check_patched [OF s(1) assms(2) n] s(2) by auto
    let ?st = "fst (feel_both pcts (known_worries known n))"
    have ann: "lookup_str (NAnnotations (apply_patch (patched r) n)) WorriedAnnotation = encodeWorried ?st"
      using m by (rule patched_annotation)
    have "worries_ok ?st" using assms(3) by (intro feel_both_ok known_worries_ok)
    then have "known_worries [] (apply_patch (patched r) n) = ?st"
      by (simp add: known_worries_def ann decode_encodeWorried)
    moreover have "percents Q ?sums (apply_patch (patched r) n) = Some pcts"
      using p by (simp add: percents_def apply_patch_def split: option.splits)
    ultimately show ?thesis using ann feel_both_again [of pcts "known_worries known n"]
      by (auto simp: quiet_node_def)
  qed
  have "NName (apply_patch (patched r) n) = NName n" for n :: "'a node"
    by (simp add: apply_patch_def split: option.splits)
  then have names: "distinct (map NName (map (apply_patch (patched r)) nodes))" using assms(2) by (simp add: comp_def)
  have "quiet_node Q ?sums (worried ?r1) n" if "n \<in> set (map (apply_patch (patched r)) nodes)" for n
    using that quiet by auto
  from foldl_check_quiet [OF this names, of P]
  obtain r' where "foldl (check_node Q P ?sums) (Some ?r1) (map (apply_patch (patched r)) nodes) = Some r'"
      "events r' = []" "patched r' = []" "errors r' = []" by auto
  then show ?thesis by (simp add: check_def Let_def)
qed

text \<open>Quantities as their milli-value, and a node with most of its cpu requested.\<close>

definition milli :: "int quantities" where
  "milli = \<lparr>MilliValue = (\<lambda>q. q), IsZero = (\<lambda>q. q = 0), AddQ = (+), ZeroQ = 0\<rparr>"

definition full_node :: "int node" where
  "full_node = \<lparr>NName = ''n1'', NAnnotations = (\<lambda>_. None), Allocatable = (\<lambda>_. 4000)\<rparr>"

definition busy_pod :: pod where
  "busy_pod = \<lparr>PodNamespace = ''ns'', PodName = ''p'', PodUID = ''u'', PodLabels = (\<lambda>_. None),
     PodController = None, NodeName = ''n1'', PodPhase = PodRunning, PodDeleting = False\<rparr>"

theorem new_leader_is_quiet_witness:
  "\<exists>r r'. check milli (\<lambda>_. [(ResourceCPU, 3000)]) accepts [full_node] [busy_pod] [] = Some r
     \<and> events r = [(''n1'', Worried ResourceCPU 75)]
     \<and> check milli (\<lambda>_. [(ResourceCPU, 3000)]) accepts (map (apply_patch (patched r)) [full_node]) [busy_pod] [] = Some r'
     \<and> events r' = []"
proof -
  have "map_option events (check milli (\<lambda>_. [(ResourceCPU, 3000)]) accepts [full_node] [busy_pod] [])
      = Some [(''n1'', Worried ResourceCPU 75)]" by code_simp
  then obtain r where r: "check milli (\<lambda>_. [(ResourceCPU, 3000)]) accepts [full_node] [busy_pod] [] = Some r"
      "events r = [(''n1'', Worried ResourceCPU 75)]" by auto
  show ?thesis using new_leader_is_quiet [OF r(1), of accepts] r by (auto simp: known_ok_def)
qed

text \<open>A node with more than 92 terabytes requested: the percentage wraps.\<close>

lemma percent_wraps_beyond_92TB:
  "Percent milli (93000000000000000) (100000000000000000) = Some (-91)"
  by (simp add: Percent_def milli_def go_div_def i64_def signed_take_bit_eq_if_negative)

end
