(* ===== verification/Pregnancy.thy ===== *)
theory Pregnancy
  imports Kube
begin

text \<open>
  \<open>gestation/types.go\<close> and \<open>gestation/pregnancy.go\<close>: the phases and the
  specification of a gestation, the trimester of a moment, how many placeholder pods hold room
  in it, the placeholder Deployment and the priority classes. Durations saturate and
  \<open>int32\<close> arithmetic wraps as in the code. Pod templates are an abstract type
  \<open>'t\<close> of which only the scheduling part is copied, quantities an abstract type
  \<open>'q\<close> with their parser as a parameter.
\<close>

section \<open>Phases and specification\<close>

datatype phase =
    NoPhase | PhaseExpecting | PhaseDue | PhaseDelivering | PhaseNewbornCare
  | PhaseNeedsCaregivers | PhaseGrown | PhaseRolledBack | PhaseDeparted

record size =
  SizeCPU :: string
  SizeMemory :: string

record spec =
  SpecDeployment :: string
  Due :: string
  Size :: size
  SpecReplicas :: int
  ScreenRequested :: "gotime option"
  SpecDelivery :: int
  AutoRollback :: "bool option"

definition RollbackEnabled :: "spec \<Rightarrow> bool" where
  "RollbackEnabled s \<longleftrightarrow> AutoRollback s = None \<or> AutoRollback s = Some True"

text \<open>\<open>time.Parse(DateOnly, s)\<close> is the parameter \<open>parse_date\<close>.\<close>

definition DueTime :: "(string \<Rightarrow> gotime option) \<Rightarrow> spec \<Rightarrow> gotime option" where
  "DueTime parse_date s = parse_date (Due s)"

section \<open>Trimesters and room\<close>

definition Trimester :: "gotime \<Rightarrow> gotime \<Rightarrow> gotime \<Rightarrow> int" where
  "Trimester conceived due now =
     (if \<not> now < due then 0
      else let whole = t_sub due conceived
           in if whole \<le> 0 then 3
              else let elapsed = t_sub now conceived
                   in if elapsed < 0 then 1
                      else let t = i32 (1 + i32 (go_div (i64 (3 * elapsed)) whole))
                           in if t > 3 then 3 else t)"

definition Reserved :: "int \<Rightarrow> int \<Rightarrow> int" where
  "Reserved trimester replicas =
     (let term = i32 (replicas + 1)
      in if trimester = 1 then i32 (go_div (i32 (term + 3)) 4)
         else if trimester = 2 then i32 (go_div (i32 (i32 (2 * term) + 2)) 3)
         else term)"

section \<open>The placenta and the priority classes\<close>

definition PlacentaPriorityClass :: string where "PlacentaPriorityClass = ''kyvernetria-placenta''"
definition PlacentaPriority :: int where "PlacentaPriority = -1"

definition PlacentaName :: "string \<Rightarrow> string" where
  "PlacentaName deployment = deployment @ ''-placenta''"

definition ParseSize :: "(string \<Rightarrow> 'q option) \<Rightarrow> ('q \<Rightarrow> int) \<Rightarrow> size \<Rightarrow> (string + 'q \<times> 'q)" where
  "ParseSize parse_quantity sign_of s =
     (case parse_quantity (SizeCPU s) of
        None \<Rightarrow> Inl ''cpu''
      | Some cpu \<Rightarrow>
          (case parse_quantity (SizeMemory s) of
             None \<Rightarrow> Inl ''memory''
           | Some mem \<Rightarrow>
               if sign_of cpu \<le> 0 \<or> sign_of mem \<le> 0 then Inl ''size must be positive'' else Inr (cpu, mem)))"

text \<open>Where pods may run; only the node part of an affinity is copied.\<close>

record ('sel, 'tol, 'aff) scheduling =
  NodeSelector :: 'sel
  Tolerations :: 'tol
  NodeAffinity :: "'aff option"

record ('q, 'sel, 'tol, 'aff) placenta =
  PlName :: string
  PlNamespace :: string
  PlLabel :: string
  PlOwnerUID :: string
  PlReplicas :: int
  PlPriorityClass :: string
  PlGraceSeconds :: int
  PlRequests :: "'q \<times> 'q"
  PlScheduling :: "('sel, 'tol, 'aff) scheduling option"

definition Placenta ::
    "string \<Rightarrow> string \<Rightarrow> string \<Rightarrow> string \<Rightarrow> int \<Rightarrow> 'q \<times> 'q \<Rightarrow> ('sel, 'tol, 'aff) scheduling option
     \<Rightarrow> ('q, 'sel, 'tol, 'aff) placenta" where
  "Placenta name ns deployment uid reserved sz template =
     \<lparr>PlName = PlacentaName deployment, PlNamespace = ns, PlLabel = name, PlOwnerUID = uid,
      PlReplicas = reserved, PlPriorityClass = PlacentaPriorityClass, PlGraceSeconds = 1,
      PlRequests = sz, PlScheduling = template\<rparr>"

section \<open>Lemmas\<close>

lemma thirds: "0 \<le> e \<Longrightarrow> e < w \<Longrightarrow> 0 \<le> (3 * e) div w \<and> (3 * e) div w < (3 :: int)"
proof -
  assume a: "0 \<le> e" "e < w"
  have "w * ((3 * e) div w) \<le> 3 * e"
    using a mult_div_mod_eq [of w "3 * e"] pos_mod_sign [of w "3 * e"] by linarith
  also have "\<dots> < w * 3" using a by simp
  finally have "(3 * e) div w < 3" using a by (simp only: mult_less_cancel_left_pos)
  then show ?thesis using a by (simp add: pos_imp_zdiv_nonneg_iff)
qed

lemma trimester_inside:
  assumes "conceived \<le> now" and "now < due" and "3 * (due - conceived) < 2 ^ 63"
  shows "Trimester conceived due now = 1 + (3 * (now - conceived)) div (due - conceived)"
proof -
  let ?e = "now - conceived" and ?w = "due - conceived"
  have w: "t_sub due conceived = ?w" and e: "t_sub now conceived = ?e" and pos: "0 < ?w" "0 \<le> ?e" "?e < ?w"
    using assms by (auto simp: t_sub_def)
  have q: "0 \<le> (3 * ?e) div ?w" "(3 * ?e) div ?w < 3"
    using thirds pos by blast+
  have "i64 (3 * ?e) = 3 * ?e" using pos assms(3) by (intro i64_id) (simp add: in_i64_def)
  then have d: "go_div (i64 (3 * ?e)) ?w = (3 * ?e) div ?w" using pos by (simp add: go_div_nonneg)
  have "i32 ((3 * ?e) div ?w) = (3 * ?e) div ?w" "i32 (1 + (3 * ?e) div ?w) = 1 + (3 * ?e) div ?w"
    using q by (auto intro!: i32_id simp: in_i32_def)
  then show ?thesis using assms(2) pos q
    by (simp add: Trimester_def w e d Let_def del: right_diff_distrib_numeral)
qed

lemma trimester_before: "now < conceived \<Longrightarrow> now < due \<Longrightarrow> conceived < due \<Longrightarrow> Trimester conceived due now = 1"
  by (auto simp: Trimester_def t_sub_def Let_def)

lemma trimester_after: "due \<le> now \<Longrightarrow> Trimester conceived due now = 0"
  by (simp add: Trimester_def)

lemma trimester_no_time: "due \<le> conceived \<Longrightarrow> now < due \<Longrightarrow> Trimester conceived due now = 3"
  by (auto simp: Trimester_def t_sub_def Let_def)

lemma trimester_range:
  assumes "now < due" and "3 * (due - conceived) < 2 ^ 63"
  shows "1 \<le> Trimester conceived due now \<and> Trimester conceived due now \<le> 3"
proof (cases "due \<le> conceived \<or> now < conceived")
  case True
  then show ?thesis using assms trimester_no_time trimester_before by (cases "due \<le> conceived") auto
next
  case False
  then have "0 \<le> (3 * (now - conceived)) div (due - conceived) \<and> (3 * (now - conceived)) div (due - conceived) < 3"
    using assms by (intro thirds) auto
  then show ?thesis using trimester_inside [of conceived now due] False assms by simp
qed

lemma trimester_mono:
  assumes "now \<le> later" and "later < due" and "3 * (due - conceived) < 2 ^ 63"
  shows "Trimester conceived due now \<le> Trimester conceived due later"
proof (cases "due \<le> conceived")
  case True
  then show ?thesis using assms trimester_no_time [of due conceived] by simp
next
  case False
  show ?thesis
  proof (cases "now < conceived")
    case True
    then show ?thesis
      using False assms trimester_before [of now conceived due] trimester_range [of later due conceived] by simp
  next
    case c: False
    have "(3 * (now - conceived)) div (due - conceived) \<le> (3 * (later - conceived)) div (due - conceived)"
      using assms False by (intro zdiv_mono1) simp_all
    then show ?thesis
      using c assms trimester_inside [of conceived now due] trimester_inside [of conceived later due] by simp
  qed
qed

lemma reserved_values:
  assumes "0 \<le> replicas" and "replicas < 2 ^ 30 - 2"
  shows "Reserved 1 replicas = (replicas + 4) div 4" and "Reserved 2 replicas = (2 * replicas + 4) div 3"
    and "trimester \<noteq> 1 \<Longrightarrow> trimester \<noteq> 2 \<Longrightarrow> Reserved trimester replicas = replicas + 1"
proof -
  have t: "i32 (replicas + 1) = replicas + 1" "i32 (replicas + 4) = replicas + 4"
    "i32 (2 * replicas + 2) = 2 * replicas + 2" "i32 (2 * replicas + 4) = 2 * replicas + 4"
    using assms by (auto intro!: i32_id simp: in_i32_def)
  have d: "i32 ((replicas + 4) div 4) = (replicas + 4) div 4" "i32 ((2 * replicas + 4) div 3) = (2 * replicas + 4) div 3"
    using assms by (auto intro!: i32_id simp: in_i32_def)
  show "Reserved 1 replicas = (replicas + 4) div 4"
    using assms t d by (simp add: Reserved_def go_div_nonneg Let_def add.commute)
  show "Reserved 2 replicas = (2 * replicas + 4) div 3"
    using assms t d by (simp add: Reserved_def go_div_nonneg Let_def distrib_left add.commute)
  show "trimester \<noteq> 1 \<Longrightarrow> trimester \<noteq> 2 \<Longrightarrow> Reserved trimester replicas = replicas + 1"
    using t by (simp add: Reserved_def Let_def)
qed

section \<open>Properties\<close>

text \<open>
  Claim C13. Room only grows: for a due date less than 97 years after the conception and a
  launch of any sane number of replicas, the placeholders reserved at a later moment are never
  fewer than before, in every trimester at least one and at most a place for every replica
  plus one, and from the due date on exactly that.
\<close>

theorem reservation_grows_to_term:
  assumes "3 * (due - conceived) < 2 ^ 63" and "0 \<le> replicas" and "replicas < 2 ^ 30 - 2" and "now \<le> later"
  shows "1 \<le> Reserved (Trimester conceived due now) replicas
    \<and> Reserved (Trimester conceived due now) replicas \<le> Reserved (Trimester conceived due later) replicas
    \<and> Reserved (Trimester conceived due later) replicas \<le> replicas + 1
    \<and> (due \<le> later \<longrightarrow> Reserved (Trimester conceived due later) replicas = replicas + 1)"
proof -
  have steps: "1 \<le> Reserved 1 replicas" "Reserved 1 replicas \<le> Reserved 2 replicas"
    "Reserved 2 replicas \<le> Reserved 3 replicas" "Reserved 3 replicas = replicas + 1" "Reserved 0 replicas = replicas + 1"
    using reserved_values [OF assms(2,3)] assms(2) by simp_all
  have range: "Trimester conceived due t = 1 \<or> Trimester conceived due t = 2 \<or> Trimester conceived due t = 3" if "t < due" for t
    using trimester_range [OF that assms(1)] by auto
  show ?thesis
  proof (cases "later < due")
    case True
    then show ?thesis
      using steps assms(4) range [of now] range [of later] trimester_mono [OF assms(4) True assms(1)] by auto
  next
    case False
    then show ?thesis
      using steps range [of now] trimester_after [of due now conceived] trimester_after [of due later conceived]
      by (cases "now < due") auto
  qed
qed

theorem reservation_grows_to_term_witness:
  "Reserved (Trimester 0 (90 * hour) (40 * hour)) 3 = 3 \<and> Reserved (Trimester 0 (90 * hour) (10 * hour)) 3 = 1
   \<and> Reserved (Trimester 0 (90 * hour) (10 * hour)) 3 \<le> Reserved (Trimester 0 (90 * hour) (40 * hour)) 3"
proof -
  have "Reserved (Trimester 0 (90 * hour) (40 * hour)) 3 = 3" "Reserved (Trimester 0 (90 * hour) (10 * hour)) 3 = 1"
    by code_simp+
  then show ?thesis
    using reservation_grows_to_term [of "90 * hour" 0 3 "10 * hour" "40 * hour"] by simp
qed

text \<open>The bound on the replicas matters: the largest \<open>int32\<close>, which the schema of
  the resource (at most 1000 replicas) keeps out, would wrap.\<close>

lemma reservation_wraps: "Reserved 3 (2 ^ 31 - 1) = - (2 ^ 31)"
  by code_simp

end
