(* ===== verification/Care.thy ===== *)
theory Care
  imports Pregnancy Admission
begin

text \<open>
  Newborn care. The first part is \<open>gestation/care.go\<close>: the tiers of protection, the two
  caregivers, and the namespace annotation that lists the newborn workloads. The second part
  is \<open>admission/newborncare/admission.go\<close>, the plugin that reads it. JSON, label
  selectors, case folding and the priority-class lister are parameters.
\<close>

section \<open>Tiers\<close>

record care_tier =
  TierClass :: string
  TierPriority :: int
  TierFrom :: duration
  TierUntil :: duration

definition careTiers :: "care_tier list" where
  "careTiers =
     [\<lparr>TierClass = ''kyvernetria-newborn-1'', TierPriority = 1000, TierFrom = 0, TierUntil = 24 * hour\<rparr>,
      \<lparr>TierClass = ''kyvernetria-newborn-2'', TierPriority = 500, TierFrom = 24 * hour, TierUntil = 48 * hour\<rparr>,
      \<lparr>TierClass = ''kyvernetria-newborn-3'', TierPriority = 250, TierFrom = 48 * hour, TierUntil = NewbornCareDuration\<rparr>]"

fun tier_from :: "int \<Rightarrow> care_tier list \<Rightarrow> duration \<Rightarrow> int \<times> string" where
  "tier_from i [] since = (0, [])"
| "tier_from i (t # ts) since = (if since < TierUntil t then (i + 1, TierClass t) else tier_from (i + 1) ts since)"

definition CareTier :: "duration \<Rightarrow> int \<times> string" where
  "CareTier sinceBirth = tier_from 0 careTiers sinceBirth"

definition LastTierClass :: "int \<times> string" where
  "LastTierClass = (int (length careTiers), TierClass (last careTiers))"

definition IsNewbornClass :: "string \<Rightarrow> bool" where
  "IsNewbornClass name \<longleftrightarrow> list_ex (\<lambda>t. TierClass t = name) careTiers"

text \<open>The priority classes the controller installs: the placeholders' and one per tier.\<close>

definition PriorityClasses :: "(string \<times> int) list" where
  "PriorityClasses = (PlacentaPriorityClass, PlacentaPriority) # map (\<lambda>t. (TierClass t, TierPriority t)) careTiers"

section \<open>Caregivers\<close>

record caregivers =
  Primary :: string
  Secondary :: string

datatype missing_caregiver = NothingMissing | NobodyNamed | NoPrimary | NoSecondary | NamedTwice string

text \<open>\<open>strings.EqualFold\<close> is the parameter \<open>equal_fold\<close>.\<close>

definition CaregiversOf :: "(string \<Rightarrow> string \<Rightarrow> bool) \<Rightarrow> strmap \<Rightarrow> caregivers \<times> bool \<times> missing_caregiver" where
  "CaregiversOf equal_fold annotations =
     (let p = trim_space (lookup_str annotations PrimaryCaregiverAnnotation);
          s = trim_space (lookup_str annotations SecondaryCaregiverAnnotation);
          c = \<lparr>Primary = p, Secondary = s\<rparr>
      in if p = [] \<and> s = [] then (c, False, NobodyNamed)
         else if p = [] then (c, False, NoPrimary)
         else if s = [] then (c, False, NoSecondary)
         else if equal_fold p s then (c, False, NamedTwice p)
         else (c, True, NothingMissing))"

section \<open>The namespace annotation\<close>

record newborn_entry =
  Selector :: string
  EntryClass :: string

definition EncodeNewborns :: "(newborn_entry list \<Rightarrow> string) \<Rightarrow> newborn_entry list \<Rightarrow> string" where
  "EncodeNewborns marshal es = (if es = [] then [] else marshal (sort_key Selector es))"

definition DecodeNewborns :: "(string \<Rightarrow> newborn_entry list option) \<Rightarrow> string \<Rightarrow> newborn_entry list option" where
  "DecodeNewborns unmarshal raw = (if trim_space raw = [] then Some [] else unmarshal raw)"

section \<open>The NewbornCare admission plugin\<close>

record ('cls) npod =
  NLabels :: strmap
  NAnn :: strmap
  PriorityClassName :: string
  HasPriority :: bool

text \<open>\<open>labels.Parse\<close>: a selector that may be empty and that matches label sets.\<close>

record selector =
  SelEmpty :: bool
  SelMatches :: "strmap \<Rightarrow> bool"

record priority_class =
  PCName :: string
  PCValue :: int
  GlobalDefault :: bool

definition mirror_key :: string where "mirror_key = ''kubernetes.io/config.mirror''"

fun class_of ::
    "(string \<Rightarrow> selector option) \<Rightarrow> (string \<Rightarrow> priority_class api) \<Rightarrow> priority_class list api
     \<Rightarrow> strmap \<Rightarrow> newborn_entry list \<Rightarrow> string" where
  "class_of parse_sel get_class classes labels [] = []"
| "class_of parse_sel get_class classes labels (e # es) =
     (if \<not> IsNewbornClass (EntryClass e) then class_of parse_sel get_class classes labels es
      else case parse_sel (Selector e) of
        None \<Rightarrow> class_of parse_sel get_class classes labels es
      | Some sel \<Rightarrow>
          if SelEmpty sel \<or> \<not> SelMatches sel labels then class_of parse_sel get_class classes labels es
          else (case get_class (EntryClass e) of
             Inl _ \<Rightarrow> []
           | Inr pc \<Rightarrow>
               (case classes of
                  Inl _ \<Rightarrow> []
                | Inr cs \<Rightarrow>
                    if list_ex (\<lambda>c. GlobalDefault c \<and> PCValue c \<ge> PCValue pc) cs then [] else PCName pc)))"

definition classFor ::
    "(string \<Rightarrow> newborn_entry list option) \<Rightarrow> (string \<Rightarrow> selector option) \<Rightarrow> (string \<Rightarrow> priority_class api)
     \<Rightarrow> priority_class list api \<Rightarrow> string \<Rightarrow> strmap \<Rightarrow> string" where
  "classFor unmarshal parse_sel get_class classes raw labels =
     (case DecodeNewborns unmarshal raw of
        None \<Rightarrow> [] | Some es \<Rightarrow> class_of parse_sel get_class classes labels es)"

definition care_annotation :: "strmap ns_get \<Rightarrow> strmap ns_get \<Rightarrow> string \<Rightarrow> api_error + string" where
  "care_annotation cache client ns =
     (case find_namespace cache (Some client) ns of
        Inl e \<Rightarrow> Inl e | Inr ann \<Rightarrow> Inr (lookup_str ann NewbornCareAnnotation))"

definition care_admit ::
    "(string \<Rightarrow> newborn_entry list option) \<Rightarrow> (string \<Rightarrow> selector option) \<Rightarrow> (string \<Rightarrow> priority_class api)
     \<Rightarrow> priority_class list api \<Rightarrow> bool \<Rightarrow> strmap ns_get \<Rightarrow> strmap ns_get \<Rightarrow> attributes \<Rightarrow> 'c npod \<Rightarrow> 'c npod" where
  "care_admit unmarshal parse_sel get_class classes ready cache client a p =
     (if GroupResource a \<noteq> pods_resource \<or> Subresource a \<noteq> [] then p
      else if PriorityClassName p \<noteq> [] \<or> HasPriority p \<or> lookup_str (NAnn p) mirror_key \<noteq> [] then p
      else if \<not> ready then p
      else case care_annotation cache client (AttrNamespace a) of
        Inl _ \<Rightarrow> p
      | Inr raw \<Rightarrow>
          if raw = [] then p
          else let class = classFor unmarshal parse_sel get_class classes raw (NLabels p)
               in if class = [] then p
                  else p\<lparr>PriorityClassName := class, NAnn := (NAnn p)(NewbornCareAnnotation \<mapsto> class)\<rparr>)"

section \<open>Lemmas\<close>

lemmas tiers = careTiers_def NewbornCareDuration_def

lemma CareTier_cases:
  "CareTier d = (if d < 24 * hour then (1, ''kyvernetria-newborn-1'')
     else if d < 48 * hour then (2, ''kyvernetria-newborn-2'')
     else if d < 72 * hour then (3, ''kyvernetria-newborn-3'') else (0, []))"
  by (simp add: CareTier_def tiers)

lemma IsNewbornClass_iff:
  "IsNewbornClass c \<longleftrightarrow> c = ''kyvernetria-newborn-1'' \<or> c = ''kyvernetria-newborn-2'' \<or> c = ''kyvernetria-newborn-3''"
  by (auto simp: IsNewbornClass_def tiers)

lemma class_of_spec:
  "class_of parse_sel get_class classes labels es = c \<Longrightarrow> c \<noteq> [] \<Longrightarrow>
   \<exists>e \<in> set es. \<exists>sel pc cs. IsNewbornClass (EntryClass e) \<and> parse_sel (Selector e) = Some sel
     \<and> \<not> SelEmpty sel \<and> SelMatches sel labels \<and> get_class (EntryClass e) = Inr pc \<and> PCName pc = c
     \<and> classes = Inr cs \<and> (\<forall>d \<in> set cs. GlobalDefault d \<longrightarrow> PCValue d < PCValue pc)"
  by (induction es) (auto simp: list_ex_iff not_le split: if_splits option.splits sum.splits)

section \<open>Properties\<close>

text \<open>
  The protection tapers: as a service gets older its care tier only rises from 1 to 3
  and its priority only falls, each tier's class is one the controller installs and the
  plugin accepts, and the protection is over exactly from 72 hours on.
\<close>

theorem care_tapers:
  assumes "d \<le> d'" and "d' < NewbornCareDuration"
  shows "1 \<le> fst (CareTier d) \<and> fst (CareTier d) \<le> fst (CareTier d') \<and> fst (CareTier d') \<le> 3
    \<and> IsNewbornClass (snd (CareTier d))
    \<and> (\<exists>p p'. map_of PriorityClasses (snd (CareTier d)) = Some p
         \<and> map_of PriorityClasses (snd (CareTier d')) = Some p' \<and> 0 < p' \<and> p' \<le> p)
    \<and> (\<forall>e. NewbornCareDuration \<le> e \<longrightarrow> CareTier e = (0, []))"
  using assms
  by (auto simp: CareTier_cases IsNewbornClass_iff PriorityClasses_def tiers PlacentaPriorityClass_def)

theorem care_tapers_witness:
  "fst (CareTier (30 * hour)) = 2 \<and> fst (CareTier (50 * hour)) = 3 \<and> fst (CareTier (30 * hour)) \<le> fst (CareTier (50 * hour))"
proof -
  have "fst (CareTier (30 * hour)) = 2" "fst (CareTier (50 * hour)) = 3" by code_simp+
  then show ?thesis using care_tapers [of "30 * hour" "50 * hour"] by (simp add: NewbornCareDuration_def)
qed

text \<open>
  The NewbornCare plugin is a kindness, never a gate or an override: it returns
  either the pod as it came, or a pod that had no priority class or priority of its own and now
  has a care tier's class, recorded in its annotation, that belongs to a newborn entry of the
  namespace whose non-empty selector matches the pod and lies above every global default. The
  priority-class lister returns the class it was asked for.
\<close>

theorem newborn_class_is_safe:
  assumes "\<And>name pc. get_class name = Inr pc \<Longrightarrow> PCName pc = name"
  shows "care_admit unmarshal parse_sel get_class classes ready cache client a p = p
    \<or> (PriorityClassName p = [] \<and> \<not> HasPriority p \<and> lookup_str (NAnn p) mirror_key = [] \<and> ready
       \<and> (\<exists>raw es e sel pc cs. care_annotation cache client (AttrNamespace a) = Inr raw
            \<and> DecodeNewborns unmarshal raw = Some es \<and> e \<in> set es
            \<and> IsNewbornClass (EntryClass e) \<and> parse_sel (Selector e) = Some sel \<and> \<not> SelEmpty sel
            \<and> SelMatches sel (NLabels p) \<and> get_class (EntryClass e) = Inr pc
            \<and> classes = Inr cs \<and> (\<forall>d \<in> set cs. GlobalDefault d \<longrightarrow> PCValue d < PCValue pc)
            \<and> care_admit unmarshal parse_sel get_class classes ready cache client a p
                = p\<lparr>PriorityClassName := EntryClass e, NAnn := (NAnn p)(NewbornCareAnnotation \<mapsto> EntryClass e)\<rparr>))"
proof (cases "care_admit unmarshal parse_sel get_class classes ready cache client a p = p")
  case False
  then obtain raw where own: "PriorityClassName p = []" "\<not> HasPriority p" "lookup_str (NAnn p) mirror_key = []" ready
      and raw: "care_annotation cache client (AttrNamespace a) = Inr raw"
      and cls: "classFor unmarshal parse_sel get_class classes raw (NLabels p) \<noteq> []"
      and res: "care_admit unmarshal parse_sel get_class classes ready cache client a p
        = p\<lparr>PriorityClassName := classFor unmarshal parse_sel get_class classes raw (NLabels p),
            NAnn := (NAnn p)(NewbornCareAnnotation \<mapsto> classFor unmarshal parse_sel get_class classes raw (NLabels p))\<rparr>"
    by (auto simp: care_admit_def Let_def split: if_splits sum.splits)
  obtain es where es: "DecodeNewborns unmarshal raw = Some es"
      "class_of parse_sel get_class classes (NLabels p) es = classFor unmarshal parse_sel get_class classes raw (NLabels p)"
    using cls by (auto simp: classFor_def split: option.splits)
  obtain e sel pc cs where e: "e \<in> set es" "IsNewbornClass (EntryClass e)" "parse_sel (Selector e) = Some sel"
      "\<not> SelEmpty sel" "SelMatches sel (NLabels p)" "get_class (EntryClass e) = Inr pc"
      "PCName pc = classFor unmarshal parse_sel get_class classes raw (NLabels p)" "classes = Inr cs"
      "\<forall>d \<in> set cs. GlobalDefault d \<longrightarrow> PCValue d < PCValue pc"
    using class_of_spec [OF es(2) cls] by blast
  have "EntryClass e = classFor unmarshal parse_sel get_class classes raw (NLabels p)"
    using assms [OF e(6)] e(7) by simp
  then show ?thesis using own raw es(1) e res by (intro disjI2) auto
qed simp

text \<open>A namespace with one newborn workload, selected by a label.\<close>

definition newborn_pod :: "unit npod" where
  "newborn_pod = \<lparr>NLabels = [''app'' \<mapsto> ''web''], NAnn = (\<lambda>_. None), PriorityClassName = [], HasPriority = False\<rparr>"

definition app_selector :: "string \<Rightarrow> selector option" where
  "app_selector s = Some \<lparr>SelEmpty = (s = []), SelMatches = (\<lambda>l. l ''app'' = Some s)\<rparr>"

definition test_class :: "string \<Rightarrow> priority_class api" where
  "test_class name = Inr \<lparr>PCName = name, PCValue = 500, GlobalDefault = False\<rparr>"

definition web_entry :: "string \<Rightarrow> newborn_entry list option" where
  "web_entry raw = Some [\<lparr>Selector = ''web'', EntryClass = raw\<rparr>]"

theorem newborn_class_is_safe_witness:
  "PriorityClassName (care_admit web_entry app_selector test_class (Inr []) True
     (\<lambda>_. Inr [NewbornCareAnnotation \<mapsto> ''kyvernetria-newborn-2'']) (\<lambda>_. Inl NotFound)
     \<lparr>GroupResource = pods_resource, Subresource = [], Operation = OpCreate, AttrNamespace = ''ns'', AttrName = ''p''\<rparr>
     newborn_pod) = ''kyvernetria-newborn-2''
   \<and> IsNewbornClass ''kyvernetria-newborn-2''"
proof -
  let ?a = "\<lparr>GroupResource = pods_resource, Subresource = [], Operation = OpCreate, AttrNamespace = ''ns'', AttrName = ''p''\<rparr>"
  let ?c = "\<lambda>_. Inr [NewbornCareAnnotation \<mapsto> ''kyvernetria-newborn-2''] :: api_error + strmap"
  let ?r = "care_admit web_entry app_selector test_class (Inr []) True ?c (\<lambda>_. Inl NotFound) ?a newborn_pod"
  have v: "PriorityClassName ?r = ''kyvernetria-newborn-2''" by code_simp
  have "?r \<noteq> newborn_pod" using v by (auto simp: newborn_pod_def)
  moreover have "test_class name = Inr pc \<Longrightarrow> PCName pc = name" for name pc by (auto simp: test_class_def)
  ultimately show ?thesis
    using newborn_class_is_safe [of test_class web_entry app_selector "Inr []" True ?c "\<lambda>_. Inl NotFound" ?a newborn_pod] v
    by auto
qed

end
