(* ===== verification/Screening.thy ===== *)
theory Screening
  imports Care
begin

text \<open>
  \<open>gestation/screening.go\<close>: prenatal screening. A pod template is the record
  \<open>template\<close> with the fields the checks read; optional references are \<open>ref\<close>
  options. Resource quantities are a type \<open>'q\<close> whose operations are the record
  \<open>qops\<close> (parameter \<open>Q\<close>); label selectors \<open>'ls\<close> are turned into
  selectors by the parameter \<open>as_selector\<close>; the cluster is the record
  \<open>lookup_api\<close>, the interface \<open>Lookup\<close> of the code. The code ranges over
  the map \<open>need\<close> in any order and sorts what it finds; the model takes one fixed order.
\<close>

section \<open>Data\<close>

datatype screen_result = ResultClear | ResultInfo | ResultWarn | ResultFail

record finding =
  Check :: string
  Result :: screen_result
  Message :: string

definition CheckDeployment :: string where "CheckDeployment = ''deployment''"
definition CheckReservation :: string where "CheckReservation = ''reservation''"
definition CheckImage :: string where "CheckImage = ''image''"
definition CheckReferences :: string where "CheckReferences = ''references''"
definition CheckVolumes :: string where "CheckVolumes = ''volumes''"
definition CheckQuota :: string where "CheckQuota = ''quota''"
definition CheckProbes :: string where "CheckProbes = ''probes''"
definition CheckRequests :: string where "CheckRequests = ''requests''"
definition CheckPDB :: string where "CheckPDB = ''disruption-budget''"

definition ResourceCPU :: string where "ResourceCPU = ''cpu''"
definition ResourceMemory :: string where "ResourceMemory = ''memory''"
definition ResourcePods :: string where "ResourcePods = ''pods''"
definition ResourceStorage :: string where "ResourceStorage = ''storage''"

text \<open>\<open>resource.Quantity\<close> and \<open>v1.ResourceList\<close>.\<close>

record 'q qops =
  QZero :: 'q
  QAdd :: "'q \<Rightarrow> 'q \<Rightarrow> 'q"
  QSub :: "'q \<Rightarrow> 'q \<Rightarrow> 'q"
  QCmp :: "'q \<Rightarrow> 'q \<Rightarrow> int"
  QSign :: "'q \<Rightarrow> int"
  QShow :: "'q \<Rightarrow> string"
  QNew :: "int \<Rightarrow> 'q"
  QMustParse :: "string \<Rightarrow> 'q"

type_synonym 'q rlist = "string \<Rightarrow> 'q option"

definition q_at :: "'q qops \<Rightarrow> 'q rlist \<Rightarrow> string \<Rightarrow> 'q" where
  "q_at Q l r = (case l r of None \<Rightarrow> QZero Q | Some q \<Rightarrow> q)"

text \<open>References to Secrets and ConfigMaps.\<close>

record ref =
  RefName :: string
  RefOptional :: "bool option"

record source =
  SrcSecret :: "ref option"
  SrcConfigMap :: "ref option"

record 'q claim_spec =
  StorageClassName :: "string option"
  ClaimRequests :: "'q rlist"

record 'q volume =
  VolName :: string
  VolSource :: source
  VolProjected :: "source list option"
  VolPVC :: "string option"
  VolEphemeral :: "'q claim_spec option option"

record 'q container =
  CtrName :: string
  CtrImage :: string
  EnvFrom :: "source list"
  Env :: "source option list"
  CtrRequests :: "'q rlist"
  HasReadiness :: bool
  HasLiveness :: bool

record 'q template =
  TmplLabels :: strmap
  ImagePullSecrets :: "string list"
  Volumes :: "'q volume list"
  InitContainers :: "'q container list"
  Containers :: "'q container list"

record 'q claim =
  ClaimPhase :: string
  ClaimSpec :: "'q claim_spec"

record 'q quota =
  QuotaName :: string
  StatusHard :: "'q rlist"
  StatusUsed :: "'q rlist"
  SpecHard :: "'q rlist"

record 'ls pdb =
  PDBName :: string
  PDBSelector :: "'ls option"

text \<open>The interface \<open>Lookup\<close>. The left of a sum is the text of an error.\<close>

record ('q, 'ls) lookup_api =
  SecretExists :: "string \<Rightarrow> string \<Rightarrow> string + bool"
  ConfigMapExists :: "string \<Rightarrow> string \<Rightarrow> string + bool"
  PVC :: "string \<Rightarrow> string \<Rightarrow> string + 'q claim option"
  StorageClass :: "string \<Rightarrow> string + string option"
  ResourceQuotas :: "string \<Rightarrow> string + 'q quota list"
  PDBs :: "string \<Rightarrow> string + 'ls pdb list"
  ImageCheck :: "string \<Rightarrow> screen_result \<times> string"

section \<open>References\<close>

definition allContainers :: "'q template \<Rightarrow> 'q container list" where
  "allContainers t = InitContainers t @ Containers t"

text \<open>The name of a reference that is there and not optional.\<close>

definition needed :: "ref option \<Rightarrow> string list" where
  "needed r = (case r of None \<Rightarrow> [] | Some v \<Rightarrow> if RefOptional v = Some True then [] else [RefName v])"

definition vol_sources :: "'q volume \<Rightarrow> source list" where
  "vol_sources v = VolSource v # (case VolProjected v of None \<Rightarrow> [] | Some ss \<Rightarrow> ss)"

definition env_sources :: "'q container \<Rightarrow> source list" where
  "env_sources c = EnvFrom c @ List.map_filter id (Env c)"

definition sources :: "'q template \<Rightarrow> source list" where
  "sources t = concat (map vol_sources (Volumes t)) @ concat (map env_sources (allContainers t))"

definition sortedKeys :: "string list \<Rightarrow> string list" where
  "sortedKeys ks = sort (remdups (filter (\<lambda>k. k \<noteq> []) ks))"

definition References :: "'q template \<Rightarrow> string list \<times> string list" where
  "References t =
     (sortedKeys (filter (\<lambda>n. n \<noteq> []) (ImagePullSecrets t) @ concat (map (needed \<circ> SrcSecret) (sources t))),
      sortedKeys (concat (map (needed \<circ> SrcConfigMap) (sources t))))"

fun look_up_names :: "(string \<Rightarrow> string + bool) \<Rightarrow> string \<Rightarrow> string \<Rightarrow> string list \<Rightarrow> string list \<times> string list" where
  "look_up_names exists_at Kind kind [] = ([], [])"
| "look_up_names exists_at Kind kind (n # ns) =
     (let (missing, errs) = look_up_names exists_at Kind kind ns
      in case exists_at n of
           Inl _ \<Rightarrow> (missing, (kind @ n) # errs)
         | Inr ok \<Rightarrow> if ok then (missing, errs) else ((Kind @ n) # missing, errs))"

definition screenReferences :: "string \<Rightarrow> 'q template \<Rightarrow> ('q, 'ls) lookup_api \<Rightarrow> finding list" where
  "screenReferences ns t l =
     (let (secrets, configMaps) = References t;
          (m1, e1) = look_up_names (SecretExists l ns) ''Secret '' ''secret '' secrets;
          (m2, e2) = look_up_names (ConfigMapExists l ns) ''ConfigMap '' ''configmap '' configMaps;
          missing = m1 @ m2; errs = e1 @ e2; n = length secrets + length configMaps
      in [if missing \<noteq> [] then
            \<lparr>Check = CheckReferences, Result = ResultFail,
             Message = ''it needs what isn't there yet: '' @ join '', '' missing\<rparr>
          else if errs \<noteq> [] then
            \<lparr>Check = CheckReferences, Result = ResultInfo, Message = ''couldn't look up '' @ join '', '' errs\<rparr>
          else if n = 0 then
            \<lparr>Check = CheckReferences, Result = ResultClear, Message = ''it refers to no Secrets or ConfigMaps''\<rparr>
          else
            \<lparr>Check = CheckReferences, Result = ResultClear,
             Message = ''all '' @ show_nat n @ '' Secrets and ConfigMaps it needs exist (names checked, never contents)''\<rparr>])"

section \<open>Volumes\<close>

definition volume_finding :: "screen_result \<Rightarrow> string \<Rightarrow> finding list" where
  "volume_finding r msg = [\<lparr>Check = CheckVolumes, Result = r, Message = msg\<rparr>]"

definition bindable :: "'q qops \<Rightarrow> string \<Rightarrow> 'q claim_spec \<Rightarrow> ('q, 'ls) lookup_api \<Rightarrow> finding list" where
  "bindable Q what cs l =
     (case ClaimRequests cs ResourceStorage of
        None \<Rightarrow> volume_finding ResultFail (what @ '' asks for no storage size'')
      | Some sz \<Rightarrow>
          if QSign Q sz \<le> 0 then volume_finding ResultFail (what @ '' asks for no storage size'')
          else if QCmp Q sz (QMustParse Q ''64Ti'') > 0 then
            volume_finding ResultWarn (what @ '' asks for '' @ QShow Q sz @ ''; is that the size you meant?'')
          else if StorageClassName cs = Some [] then
            volume_finding ResultInfo
              (what @ '' asks for no storage class, so it binds only to a matching PersistentVolume made by hand'')
          else
            let name = (case StorageClassName cs of None \<Rightarrow> [] | Some c \<Rightarrow> c)
            in (case StorageClass l name of
                  Inl err \<Rightarrow> volume_finding ResultInfo (''couldn't look up the storage class of '' @ what @ '': '' @ err)
                | Inr None \<Rightarrow>
                    if name = [] then
                      volume_finding ResultFail (what @ '' relies on a default storage class, and the cluster has none'')
                    else
                      volume_finding ResultFail (what @ '' wants storage class '' @ name @ '', which doesn't exist'')
                | Inr (Some sc) \<Rightarrow>
                    volume_finding ResultClear
                      (what @ '' can be provisioned by storage class '' @ sc @ '' ('' @ QShow Q sz @ '')'')))"

definition ClaimBound :: string where "ClaimBound = ''Bound''"

definition screen_volume :: "'q qops \<Rightarrow> string \<Rightarrow> ('q, 'ls) lookup_api \<Rightarrow> 'q volume \<Rightarrow> finding list" where
  "screen_volume Q ns l v =
     (case VolPVC v of
        Some name \<Rightarrow>
          (case PVC l ns name of
             Inl err \<Rightarrow> volume_finding ResultInfo (''couldn't look up PersistentVolumeClaim '' @ name @ '': '' @ err)
           | Inr None \<Rightarrow> volume_finding ResultFail (''PersistentVolumeClaim '' @ name @ '' doesn't exist'')
           | Inr (Some c) \<Rightarrow>
               if ClaimPhase c = ClaimBound then
                 volume_finding ResultClear (''PersistentVolumeClaim '' @ name @ '' is bound'')
               else bindable Q (''PersistentVolumeClaim '' @ name) (ClaimSpec c) l)
      | None \<Rightarrow>
          (case VolEphemeral v of
             Some (Some cs) \<Rightarrow> bindable Q (''ephemeral volume '' @ VolName v) cs l
           | _ \<Rightarrow> []))"

definition screenVolumes :: "'q qops \<Rightarrow> string \<Rightarrow> 'q template \<Rightarrow> ('q, 'ls) lookup_api \<Rightarrow> finding list" where
  "screenVolumes Q ns t l =
     (let out = concat (map (screen_volume Q ns l) (Volumes t))
      in if out = [] then volume_finding ResultClear ''it claims no persistent storage'' else out)"

section \<open>Requests, probes and the reservation\<close>

definition add_requests :: "'q qops \<Rightarrow> 'q rlist \<Rightarrow> 'q container \<Rightarrow> 'q rlist" where
  "add_requests Q out c =
     (\<lambda>r. case CtrRequests c r of None \<Rightarrow> out r | Some q \<Rightarrow> Some (QAdd Q (q_at Q out r) q))"

definition podRequests :: "'q qops \<Rightarrow> 'q template \<Rightarrow> 'q rlist" where
  "podRequests Q t = foldl (add_requests Q) (\<lambda>_. None) (Containers t)"

text \<open>The resource list \<open>ParseSize\<close> returns.\<close>

definition size_list :: "'q \<times> 'q \<Rightarrow> 'q rlist" where
  "size_list sz = [ResourceCPU \<mapsto> fst sz, ResourceMemory \<mapsto> snd sz]"

definition too_big :: "'q qops \<Rightarrow> 'q rlist \<Rightarrow> 'q rlist \<Rightarrow> string \<Rightarrow> string option" where
  "too_big Q pod sz r =
     (if QCmp Q (q_at Q pod r) (q_at Q sz r) > 0
      then Some (r @ '' '' @ QShow Q (q_at Q pod r) @ '' (room reserved: '' @ QShow Q (q_at Q sz r) @ '')'')
      else None)"

definition screenReservation :: "'q qops \<Rightarrow> 'q template \<Rightarrow> 'q rlist \<Rightarrow> finding list" where
  "screenReservation Q t sz =
     (let short = List.map_filter (too_big Q (podRequests Q t) sz) [ResourceCPU, ResourceMemory]
      in if short \<noteq> [] then
           [\<lparr>Check = CheckReservation, Result = ResultWarn,
             Message = ''each pod asks for more than the room reserved for it: '' @ join '', '' short
               @ ''. Conceive it again with a larger --size''\<rparr>]
         else [\<lparr>Check = CheckReservation, Result = ResultClear, Message = ''each pod fits in the room reserved for it''\<rparr>])"

definition screenProbes :: "'q template \<Rightarrow> finding list" where
  "screenProbes t =
     (let noReady = map CtrName (filter (\<lambda>c. \<not> HasReadiness c) (Containers t));
          noLive = map CtrName (filter (\<lambda>c. \<not> HasLiveness c) (Containers t));
          out = (if noReady \<noteq> [] then
                   [\<lparr>Check = CheckProbes, Result = ResultWarn,
                     Message = ''no readiness probe on '' @ join '', '' noReady
                       @ '': it would get traffic before it can answer, and its Apgar score can't tell''\<rparr>]
                 else [])
              @ (if noLive \<noteq> [] then
                   [\<lparr>Check = CheckProbes, Result = ResultInfo,
                     Message = ''no liveness probe on '' @ join '', '' noLive @ ''; fine if it exits when it is stuck''\<rparr>]
                 else [])
      in if out = [] then
           [\<lparr>Check = CheckProbes, Result = ResultClear, Message = ''every container has readiness and liveness probes''\<rparr>]
         else out)"

definition unset_requests :: "'q container \<Rightarrow> string list" where
  "unset_requests c = filter (\<lambda>r. CtrRequests c r = None) [ResourceCPU, ResourceMemory]"

definition screenRequests :: "'q template \<Rightarrow> finding list" where
  "screenRequests t =
     (let missing = map (\<lambda>c. CtrName c @ '' ('' @ join '', '' (unset_requests c) @ '')'')
                      (filter (\<lambda>c. unset_requests c \<noteq> []) (Containers t))
      in if missing \<noteq> [] then
           [\<lparr>Check = CheckRequests, Result = ResultWarn,
             Message = ''requests not set on '' @ join '', '' missing @ '': the scheduler can't count what it will need''\<rparr>]
         else [\<lparr>Check = CheckRequests, Result = ResultClear, Message = ''every container states its CPU and memory requests''\<rparr>])"


section \<open>Quotas\<close>

primrec add_times :: "'q qops \<Rightarrow> nat \<Rightarrow> 'q \<Rightarrow> 'q" where
  "add_times Q 0 q = QZero Q"
| "add_times Q (Suc n) q = QAdd Q (add_times Q n q) q"

text \<open>What the launch needs: newborn care adds a replica.\<close>

definition launch_need :: "'q qops \<Rightarrow> int \<Rightarrow> 'q rlist \<Rightarrow> (string \<times> 'q) list" where
  "launch_need Q pods sz =
     (ResourcePods, QNew Q pods)
     # concat (map (\<lambda>r. let v = add_times Q (nat pods) (q_at Q sz r) in [(r, v), (''requests.'' @ r, v)])
                [ResourceCPU, ResourceMemory])"

definition quota_hard :: "'q quota \<Rightarrow> string \<Rightarrow> 'q option" where
  "quota_hard quota r = (case StatusHard quota r of Some h \<Rightarrow> Some h | None \<Rightarrow> SpecHard quota r)"

text \<open>What the quota would still give, counting the placeholders' room as free.\<close>

definition quota_avail :: "'q qops \<Rightarrow> 'q rlist \<Rightarrow> 'q quota \<Rightarrow> string \<Rightarrow> 'q \<Rightarrow> 'q" where
  "quota_avail Q placenta quota r hard =
     QAdd Q (QSub Q hard (q_at Q (StatusUsed quota) r)) (q_at Q placenta (trim_prefix r ''requests.''))"

definition quota_short :: "'q qops \<Rightarrow> 'q rlist \<Rightarrow> 'q quota \<Rightarrow> string \<times> 'q \<Rightarrow> string option" where
  "quota_short Q placenta quota nw =
     (case quota_hard quota (fst nw) of
        None \<Rightarrow> None
      | Some hard \<Rightarrow>
          let avail = quota_avail Q placenta quota (fst nw) hard
          in if QCmp Q avail (snd nw) < 0
             then Some (QuotaName quota @ '' allows '' @ QShow Q avail @ '' more '' @ fst nw
                          @ '', the launch needs '' @ QShow Q (snd nw))
             else None)"

definition quota_shorts :: "'q qops \<Rightarrow> 'q rlist \<Rightarrow> 'q quota list \<Rightarrow> (string \<times> 'q) list \<Rightarrow> string list" where
  "quota_shorts Q placenta quotas need =
     sort (concat (map (\<lambda>quota. List.map_filter (quota_short Q placenta quota) need) quotas))"

definition screenQuota ::
    "'q qops \<Rightarrow> string \<Rightarrow> spec \<Rightarrow> 'q rlist \<Rightarrow> 'q rlist \<Rightarrow> ('q, 'ls) lookup_api \<Rightarrow> finding list" where
  "screenQuota Q ns s sz placenta l =
     (case ResourceQuotas l ns of
        Inl err \<Rightarrow> [\<lparr>Check = CheckQuota, Result = ResultInfo, Message = ''couldn't read quotas: '' @ err\<rparr>]
      | Inr quotas \<Rightarrow>
          if quotas = [] then
            [\<lparr>Check = CheckQuota, Result = ResultClear, Message = ''no ResourceQuota limits the namespace''\<rparr>]
          else
            let short = quota_shorts Q placenta quotas (launch_need Q (i32 (SpecReplicas s + 1)) sz)
            in if short \<noteq> [] then
                 [\<lparr>Check = CheckQuota, Result = ResultFail,
                   Message = join ''; '' short @ '' ('' @ show_int (SpecReplicas s) @ '' replicas plus one for newborn care)''\<rparr>]
               else
                 [\<lparr>Check = CheckQuota, Result = ResultClear,
                   Message = ''the quota has room for '' @ show_int (SpecReplicas s)
                     @ '' replicas plus one for newborn care''\<rparr>])"

section \<open>Disruption budgets\<close>

fun CoveringPDB :: "('ls \<Rightarrow> selector option) \<Rightarrow> 'ls pdb list \<Rightarrow> strmap \<Rightarrow> string \<Rightarrow> string" where
  "CoveringPDB as_selector [] podLabels skip = []"
| "CoveringPDB as_selector (b # bs) podLabels skip =
     (if PDBName b = skip then CoveringPDB as_selector bs podLabels skip
      else case PDBSelector b of
        None \<Rightarrow> CoveringPDB as_selector bs podLabels skip
      | Some ls \<Rightarrow>
          (case as_selector ls of
             None \<Rightarrow> CoveringPDB as_selector bs podLabels skip
           | Some sel \<Rightarrow>
               if SelEmpty sel then CoveringPDB as_selector bs podLabels skip
               else if SelMatches sel podLabels then PDBName b
               else CoveringPDB as_selector bs podLabels skip))"

definition screenPDB ::
    "('ls \<Rightarrow> selector option) \<Rightarrow> string \<Rightarrow> 'q template \<Rightarrow> ('q, 'ls) lookup_api \<Rightarrow> finding list" where
  "screenPDB as_selector ns t l =
     (case PDBs l ns of
        Inl err \<Rightarrow> [\<lparr>Check = CheckPDB, Result = ResultInfo, Message = ''couldn't read PodDisruptionBudgets: '' @ err\<rparr>]
      | Inr pdbs \<Rightarrow>
          let b = CoveringPDB as_selector pdbs (TmplLabels t) []
          in if b \<noteq> [] then
               [\<lparr>Check = CheckPDB, Result = ResultClear, Message = ''PodDisruptionBudget '' @ b @ '' covers it''\<rparr>]
             else
               [\<lparr>Check = CheckPDB, Result = ResultInfo,
                 Message = ''no PodDisruptionBudget covers it. Newborn care adds one for its first 72 hours; ''
                   @ ''after that a node drain may take all its pods at once. Consider adding your own''\<rparr>])"

section \<open>The whole screening\<close>

record 'q screened =
  ScName :: string
  ScNamespace :: string
  ScTemplate :: "'q template"

record 'q screen_input =
  InNamespace :: string
  InSpec :: spec
  InDeployment :: "'q screened option"
  InPlacenta :: "'q rlist"

definition screenImage :: "('q, 'ls) lookup_api \<Rightarrow> 'q container \<Rightarrow> finding" where
  "screenImage l c =
     (let (r, msg) = ImageCheck l (CtrImage c)
      in \<lparr>Check = CheckImage, Result = r, Message = CtrName c @ '': '' @ msg\<rparr>)"

definition Screen ::
    "'q qops \<Rightarrow> (string \<Rightarrow> 'q option) \<Rightarrow> ('ls \<Rightarrow> selector option) \<Rightarrow> 'q screen_input \<Rightarrow> ('q, 'ls) lookup_api
     \<Rightarrow> finding list" where
  "Screen Q parse_quantity as_selector inp l =
     (let sz = ParseSize parse_quantity (QSign Q) (Size (InSpec inp));
          sized = (case sz of
                     Inl err \<Rightarrow> [\<lparr>Check = CheckReservation, Result = ResultFail,
                                  Message = ''the size can't be read: '' @ err\<rparr>]
                   | Inr p \<Rightarrow> screenQuota Q (InNamespace inp) (InSpec inp) (size_list p) (InPlacenta inp) l)
      in case InDeployment inp of
           None \<Rightarrow>
             sized @ [\<lparr>Check = CheckDeployment, Result = ResultInfo,
                       Message = ''Deployment '' @ SpecDeployment (InSpec inp)
                         @ '' doesn't exist yet, so there is nothing more to look at. ''
                         @ ''Create it paused or with 0 replicas, and the next screening will look at its pods.''\<rparr>]
         | Some d \<Rightarrow>
             sized
             @ [\<lparr>Check = CheckDeployment, Result = ResultClear, Message = ''Deployment '' @ ScName d @ '' exists''\<rparr>]
             @ (case sz of Inl _ \<Rightarrow> [] | Inr p \<Rightarrow> screenReservation Q (ScTemplate d) (size_list p))
             @ map (screenImage l) (allContainers (ScTemplate d))
             @ screenReferences (ScNamespace d) (ScTemplate d) l
             @ screenVolumes Q (ScNamespace d) (ScTemplate d) l
             @ screenProbes (ScTemplate d)
             @ screenRequests (ScTemplate d)
             @ screenPDB as_selector (ScNamespace d) (ScTemplate d) l)"

definition concerns :: "finding list \<Rightarrow> string list" where
  "concerns fs = map Message (filter (\<lambda>f. Result f = ResultFail \<or> Result f = ResultWarn) fs)"

definition Summarize :: "string \<Rightarrow> finding list \<Rightarrow> bool \<times> string" where
  "Summarize reason fs =
     (let cs = concerns fs;
          what = ''Prenatal screening''
            @ (if has_prefix reason ''trimester-'' then '', trimester '' @ trim_prefix reason ''trimester-'' else [])
      in if cs = [] then (False, what @ '': all clear ('' @ show_nat (length fs) @ '' checks).'')
         else (True, what @ '': '' @ show_nat (length cs) @ '' to look at before the due date. '' @ hd cs @ ''.''))"


section \<open>Lemmas\<close>

definition alarm :: "finding \<Rightarrow> bool" where
  "alarm f \<longleftrightarrow> Result f = ResultFail \<or> Result f = ResultWarn"

definition alarms :: "finding list \<Rightarrow> bool" where
  "alarms fs \<longleftrightarrow> list_ex alarm fs"

named_theorems screen_alarm

lemma alarms_simps [screen_alarm, simp]:
  "alarms [] \<longleftrightarrow> False"
  "alarms (f # fs) \<longleftrightarrow> alarm f \<or> alarms fs"
  "alarms (fs @ gs) \<longleftrightarrow> alarms fs \<or> alarms gs"
  by (auto simp: alarms_def)

lemma alarm_eq [simp, screen_alarm]:
  "alarm \<lparr>Check = c, Result = r, Message = msg\<rparr> \<longleftrightarrow> r = ResultFail \<or> r = ResultWarn"
  by (simp add: alarm_def)

lemma alarms_concat [simp]: "alarms (concat fss) \<longleftrightarrow> (\<exists>fs \<in> set fss. alarms fs)"
  by (induction fss) auto

lemma alarms_map [simp]: "alarms (map g xs) \<longleftrightarrow> (\<exists>x \<in> set xs. alarm (g x))"
  by (induction xs) auto

lemma alarms_volume [simp]: "alarms (volume_finding r msg) \<longleftrightarrow> r = ResultFail \<or> r = ResultWarn"
  by (simp add: volume_finding_def)

lemma summarize_alarms: "fst (Summarize reason fs) \<longleftrightarrow> alarms fs"
proof -
  have "concerns fs = [] \<longleftrightarrow> \<not> alarms fs"
    by (induction fs) (auto simp: concerns_def alarm_def)
  then show ?thesis by (simp add: Summarize_def Let_def)
qed

lemma look_up_names_missing:
  "fst (look_up_names ex K k ns) \<noteq> [] \<longleftrightarrow> (\<exists>n \<in> set ns. ex n = Inr False)"
  by (induction ex K k ns rule: look_up_names.induct)
    (auto simp: Let_def split: prod.splits sum.splits if_splits)

lemma references_alarm:
  "alarms (screenReferences ns t l) \<longleftrightarrow>
     (\<exists>n \<in> set (fst (References t)). SecretExists l ns n = Inr False)
     \<or> (\<exists>n \<in> set (snd (References t)). ConfigMapExists l ns n = Inr False)"
proof -
  have "alarms (screenReferences ns t l) \<longleftrightarrow>
      fst (look_up_names (SecretExists l ns) ''Secret '' ''secret '' (fst (References t))) \<noteq> []
      \<or> fst (look_up_names (ConfigMapExists l ns) ''ConfigMap '' ''configmap '' (snd (References t))) \<noteq> []"
    by (auto simp: screenReferences_def Let_def split: prod.splits)
  then show ?thesis by (simp only: look_up_names_missing)
qed

lemma quota_alarm:
  "alarms (screenQuota Q ns s sz placenta l) \<longleftrightarrow>
     (\<exists>quotas quota r want hard. ResourceQuotas l ns = Inr quotas \<and> quota \<in> set quotas
        \<and> (r, want) \<in> set (launch_need Q (i32 (SpecReplicas s + 1)) sz)
        \<and> quota_hard quota r = Some hard \<and> QCmp Q (quota_avail Q placenta quota r hard) want < 0)"
proof -
  have short: "(\<exists>x. quota_short Q placenta quota nw = Some x) \<longleftrightarrow>
      (\<exists>hard. quota_hard quota (fst nw) = Some hard \<and> QCmp Q (quota_avail Q placenta quota (fst nw) hard) (snd nw) < 0)"
    for quota nw by (auto simp: quota_short_def Let_def split: option.splits)
  have shorts: "quota_shorts Q placenta quotas need \<noteq> [] \<longleftrightarrow>
      (\<exists>quota \<in> set quotas. \<exists>nw \<in> set need. \<exists>x. quota_short Q placenta quota nw = Some x)" for quotas need
  proof -
    have "quota_shorts Q placenta quotas need \<noteq> [] \<longleftrightarrow> set (quota_shorts Q placenta quotas need) \<noteq> {}"
      by simp
    also have "\<dots> \<longleftrightarrow> (\<exists>quota \<in> set quotas. \<exists>nw \<in> set need. \<exists>x. quota_short Q placenta quota nw = Some x)"
      by (auto simp: quota_shorts_def map_filter_Nil)
    finally show ?thesis .
  qed
  show ?thesis
  proof (cases "ResourceQuotas l ns")
    case (Inr quotas)
    have "alarms (screenQuota Q ns s sz placenta l) \<longleftrightarrow>
        quota_shorts Q placenta quotas (launch_need Q (i32 (SpecReplicas s + 1)) sz) \<noteq> []"
    proof (cases "quotas = []")
      case True
      then show ?thesis using Inr by (simp add: screenQuota_def quota_shorts_def)
    next
      case False
      then show ?thesis using Inr by (simp add: screenQuota_def Let_def)
    qed
    then show ?thesis using Inr by (simp add: shorts short) force
  qed (simp add: screenQuota_def)
qed

lemma probes_alarm: "alarms (screenProbes t) \<longleftrightarrow> (\<exists>c \<in> set (Containers t). \<not> HasReadiness c)"
  by (auto simp: screenProbes_def Let_def filter_empty_conv)

lemma requests_alarm:
  "alarms (screenRequests t) \<longleftrightarrow>
     (\<exists>c \<in> set (Containers t). CtrRequests c ResourceCPU = None \<or> CtrRequests c ResourceMemory = None)"
  by (auto simp: screenRequests_def Let_def filter_empty_conv unset_requests_def)

lemma reservation_alarm:
  "alarms (screenReservation Q t sz) \<longleftrightarrow>
     QCmp Q (q_at Q (podRequests Q t) ResourceCPU) (q_at Q sz ResourceCPU) > 0
     \<or> QCmp Q (q_at Q (podRequests Q t) ResourceMemory) (q_at Q sz ResourceMemory) > 0"
  by (auto simp: screenReservation_def Let_def map_filter_Nil too_big_def)

lemma pdb_alarm: "\<not> alarms (screenPDB as_selector ns t l)"
  by (simp add: screenPDB_def Let_def split: sum.splits)

text \<open>When a claim cannot be provisioned, and when a volume is one.\<close>

definition claim_problem :: "'q qops \<Rightarrow> 'q claim_spec \<Rightarrow> ('q, 'ls) lookup_api \<Rightarrow> bool" where
  "claim_problem Q cs l \<longleftrightarrow>
     (case ClaimRequests cs ResourceStorage of
        None \<Rightarrow> True
      | Some sz \<Rightarrow>
          QSign Q sz \<le> 0 \<or> QCmp Q sz (QMustParse Q ''64Ti'') > 0
          \<or> (StorageClassName cs \<noteq> Some []
             \<and> StorageClass l (case StorageClassName cs of None \<Rightarrow> [] | Some c \<Rightarrow> c) = Inr None))"

definition volume_problem :: "'q qops \<Rightarrow> string \<Rightarrow> ('q, 'ls) lookup_api \<Rightarrow> 'q volume \<Rightarrow> bool" where
  "volume_problem Q ns l v \<longleftrightarrow>
     (case VolPVC v of
        Some name \<Rightarrow>
          (case PVC l ns name of
             Inl _ \<Rightarrow> False
           | Inr None \<Rightarrow> True
           | Inr (Some c) \<Rightarrow> ClaimPhase c \<noteq> ClaimBound \<and> claim_problem Q (ClaimSpec c) l)
      | None \<Rightarrow> (case VolEphemeral v of Some (Some cs) \<Rightarrow> claim_problem Q cs l | _ \<Rightarrow> False))"

lemma bindable_alarm: "alarms (bindable Q what cs l) \<longleftrightarrow> claim_problem Q cs l"
  by (auto simp: bindable_def claim_problem_def Let_def split: option.splits sum.splits if_splits)

lemma volumes_alarm: "alarms (screenVolumes Q ns t l) \<longleftrightarrow> (\<exists>v \<in> set (Volumes t). volume_problem Q ns l v)"
proof -
  have v: "alarms (screen_volume Q ns l v) \<longleftrightarrow> volume_problem Q ns l v" for v
    by (auto simp: screen_volume_def volume_problem_def bindable_alarm split: option.splits sum.splits)
  have "alarms (screenVolumes Q ns t l) \<longleftrightarrow> alarms (concat (map (screen_volume Q ns l) (Volumes t)))"
    by (simp add: screenVolumes_def Let_def del: alarms_concat concat_eq_Nil_conv)
  then show ?thesis by (simp add: v)
qed


lemma needed_mem:
  "n \<in> set (needed x) \<longleftrightarrow> (\<exists>r. x = Some r \<and> RefOptional r \<noteq> Some True \<and> RefName r = n)"
  by (cases x) (auto simp: needed_def)

lemma vol_sources_mem:
  "s \<in> set (vol_sources v) \<longleftrightarrow> s = VolSource v \<or> (\<exists>ss. VolProjected v = Some ss \<and> s \<in> set ss)"
  by (cases "VolProjected v") (auto simp: vol_sources_def)

lemma env_sources_mem: "s \<in> set (env_sources c) \<longleftrightarrow> s \<in> set (EnvFrom c) \<or> Some s \<in> set (Env c)"
  by (simp add: env_sources_def set_map_filter)

lemma sources_mem:
  "s \<in> set (sources t) \<longleftrightarrow>
      (\<exists>v. v \<in> set (Volumes t) \<and> (s = VolSource v \<or> (\<exists>ss. VolProjected v = Some ss \<and> s \<in> set ss)))
      \<or> (\<exists>c. c \<in> set (InitContainers t) \<union> set (Containers t) \<and> (s \<in> set (EnvFrom c) \<or> Some s \<in> set (Env c)))"
  by (simp only: sources_def set_append set_concat set_map UN_iff image_image Un_iff vol_sources_mem
      env_sources_mem allContainers_def Bex_def)

lemma secrets_mem:
  "n \<in> set (fst (References t)) \<longleftrightarrow>
     n \<noteq> [] \<and> (n \<in> set (ImagePullSecrets t) \<or> (\<exists>s. s \<in> set (sources t) \<and> n \<in> set (needed (SrcSecret s))))"
  by (auto simp: References_def sortedKeys_def)

lemma config_maps_mem:
  "n \<in> set (snd (References t)) \<longleftrightarrow>
     n \<noteq> [] \<and> (\<exists>s. s \<in> set (sources t) \<and> n \<in> set (needed (SrcConfigMap s)))"
  by (auto simp: References_def sortedKeys_def)

section \<open>Properties\<close>

text \<open>
  Screening names exactly what the pods need: the Secrets \<open>References\<close> lists
  are sorted and without repetition, and a name is among them exactly when it is not empty and
  is an image pull secret or the name of a Secret reference that is not optional, in a volume,
  in a part of a projected volume, or in the environment of an init or app container; and the
  same for ConfigMaps.
\<close>

theorem references_exact:
  "sorted (fst (References t)) \<and> distinct (fst (References t))
   \<and> sorted (snd (References t)) \<and> distinct (snd (References t))
   \<and> (n \<in> set (fst (References t)) \<longleftrightarrow>
        n \<noteq> [] \<and> (n \<in> set (ImagePullSecrets t)
          \<or> (\<exists>s r. SrcSecret s = Some r \<and> RefOptional r \<noteq> Some True \<and> RefName r = n
               \<and> ((\<exists>v. v \<in> set (Volumes t) \<and> (s = VolSource v \<or> (\<exists>ss. VolProjected v = Some ss \<and> s \<in> set ss)))
                  \<or> (\<exists>c. c \<in> set (InitContainers t) \<union> set (Containers t)
                       \<and> (s \<in> set (EnvFrom c) \<or> Some s \<in> set (Env c)))))))
   \<and> (n \<in> set (snd (References t)) \<longleftrightarrow>
        n \<noteq> [] \<and> (\<exists>s r. SrcConfigMap s = Some r \<and> RefOptional r \<noteq> Some True \<and> RefName r = n
               \<and> ((\<exists>v. v \<in> set (Volumes t) \<and> (s = VolSource v \<or> (\<exists>ss. VolProjected v = Some ss \<and> s \<in> set ss)))
                  \<or> (\<exists>c. c \<in> set (InitContainers t) \<union> set (Containers t)
                       \<and> (s \<in> set (EnvFrom c) \<or> Some s \<in> set (Env c))))))"
proof -
  have ex: "(\<exists>s. s \<in> set (sources t) \<and> n \<in> set (needed (g s))) \<longleftrightarrow>
      (\<exists>s r. g s = Some r \<and> RefOptional r \<noteq> Some True \<and> RefName r = n \<and> s \<in> set (sources t))"
    for g :: "source \<Rightarrow> ref option" unfolding needed_mem by blast
  show ?thesis
    unfolding secrets_mem config_maps_mem unfolding ex unfolding sources_mem
    by (intro conjI refl) (simp_all add: References_def sortedKeys_def)
qed

text \<open>
  Screening warns of what it found and of nothing else: the event is a warning
  exactly when the size cannot be read, a quota that limits a needed resource has less left
  (the placeholders' room counted as free) than the launch needs, or the Deployment exists and
  asks for more than its reservation, has an image the registry check objects to, needs a
  Secret or ConfigMap that is known to be missing, has a volume that cannot be provisioned,
  or has a container without a readiness probe or without CPU or memory requests. A lookup
  that fails never warns.
\<close>

theorem screening_warns_exactly:
  "fst (Summarize reason (Screen Q parse_quantity as_selector inp l)) \<longleftrightarrow>
     (case ParseSize parse_quantity (QSign Q) (Size (InSpec inp)) of
        Inl _ \<Rightarrow> True
      | Inr sz \<Rightarrow>
          (\<exists>quotas quota r want hard. ResourceQuotas l (InNamespace inp) = Inr quotas \<and> quota \<in> set quotas
             \<and> (r, want) \<in> set (launch_need Q (i32 (SpecReplicas (InSpec inp) + 1)) (size_list sz))
             \<and> quota_hard quota r = Some hard \<and> QCmp Q (quota_avail Q (InPlacenta inp) quota r hard) want < 0)
          \<or> (\<exists>d r. InDeployment inp = Some d \<and> (r = ResourceCPU \<or> r = ResourceMemory)
             \<and> QCmp Q (q_at Q (podRequests Q (ScTemplate d)) r) (q_at Q (size_list sz) r) > 0))
     \<or> (\<exists>d. InDeployment inp = Some d
         \<and> ((\<exists>c. c \<in> set (InitContainers (ScTemplate d)) \<union> set (Containers (ScTemplate d))
               \<and> fst (ImageCheck l (CtrImage c)) \<in> {ResultFail, ResultWarn})
          \<or> (\<exists>n. n \<in> set (fst (References (ScTemplate d))) \<and> SecretExists l (ScNamespace d) n = Inr False)
          \<or> (\<exists>n. n \<in> set (snd (References (ScTemplate d))) \<and> ConfigMapExists l (ScNamespace d) n = Inr False)
          \<or> (\<exists>v. v \<in> set (Volumes (ScTemplate d)) \<and> volume_problem Q (ScNamespace d) l v)
          \<or> (\<exists>c. c \<in> set (Containers (ScTemplate d))
               \<and> (\<not> HasReadiness c \<or> CtrRequests c ResourceCPU = None \<or> CtrRequests c ResourceMemory = None))))"
proof -
  have img: "alarm (screenImage l c) \<longleftrightarrow> fst (ImageCheck l (CtrImage c)) \<in> {ResultFail, ResultWarn}" for c :: "'a container"
    by (simp add: screenImage_def split: prod.splits)
  note checks = quota_alarm [symmetric] references_alarm volumes_alarm probes_alarm requests_alarm pdb_alarm
  show ?thesis
  proof (cases "InDeployment inp")
    case None
    then show ?thesis
      by (simp add: summarize_alarms Screen_def Let_def quota_alarm split: sum.splits)
  next
    case (Some d)
    let ?t = "ScTemplate d"
    have rest: "alarms (map (screenImage l) (allContainers ?t) @ screenReferences (ScNamespace d) ?t l
        @ screenVolumes Q (ScNamespace d) ?t l @ screenProbes ?t @ screenRequests ?t @ screenPDB as_selector (ScNamespace d) ?t l)
      \<longleftrightarrow> (\<exists>c. c \<in> set (InitContainers ?t) \<union> set (Containers ?t) \<and> fst (ImageCheck l (CtrImage c)) \<in> {ResultFail, ResultWarn})
        \<or> (\<exists>n. n \<in> set (fst (References ?t)) \<and> SecretExists l (ScNamespace d) n = Inr False)
        \<or> (\<exists>n. n \<in> set (snd (References ?t)) \<and> ConfigMapExists l (ScNamespace d) n = Inr False)
        \<or> (\<exists>v. v \<in> set (Volumes ?t) \<and> volume_problem Q (ScNamespace d) l v)
        \<or> (\<exists>c. c \<in> set (Containers ?t)
            \<and> (\<not> HasReadiness c \<or> CtrRequests c ResourceCPU = None \<or> CtrRequests c ResourceMemory = None))"
      by (simp only: alarms_simps alarms_map img checks allContainers_def set_append Bex_def) blast
    show ?thesis
    proof (cases "ParseSize parse_quantity (QSign Q) (Size (InSpec inp))")
      case (Inl err)
      then show ?thesis using Some by (simp add: summarize_alarms Screen_def Let_def)
    next
      case (Inr p)
      have "(\<exists>d' r. InDeployment inp = Some d' \<and> (r = ResourceCPU \<or> r = ResourceMemory)
             \<and> QCmp Q (q_at Q (podRequests Q (ScTemplate d')) r) (q_at Q (size_list p) r) > 0)
          \<longleftrightarrow> alarms (screenReservation Q ?t (size_list p))"
        using Some by (auto simp: reservation_alarm)
      then show ?thesis
        using Some Inr rest
        unfolding summarize_alarms Screen_def Let_def by (simp add: quota_alarm)
    qed
  qed
qed


text \<open>
  What \<open>resource.Quantity\<close> promises: quantities are numbers, here in units of
  \<open>10^-9\<close>, and its operations compute on them.
\<close>

definition quantity_laws :: "'q qops \<Rightarrow> ('q \<Rightarrow> int) \<Rightarrow> bool" where
  "quantity_laws Q val \<longleftrightarrow>
     val (QZero Q) = 0 \<and> (\<forall>a b. val (QAdd Q a b) = val a + val b) \<and> (\<forall>a b. val (QSub Q a b) = val a - val b)
     \<and> (\<forall>n. val (QNew Q n) = 10 ^ 9 * n) \<and> (\<forall>a b. (QCmp Q a b < 0) = (val a < val b))"

lemma val_add_times: "quantity_laws Q val \<Longrightarrow> val (add_times Q n q) = int n * val q"
  by (induction n) (simp_all add: quantity_laws_def algebra_simps)

text \<open>The demand of a launch on the resource a quota names, in numbers.\<close>

definition launch_demand :: "int \<Rightarrow> int \<Rightarrow> int \<Rightarrow> string \<Rightarrow> int option" where
  "launch_demand replicas cpu mem =
     [''pods'' \<mapsto> 10 ^ 9 * (replicas + 1),
      ''cpu'' \<mapsto> (replicas + 1) * cpu, ''requests.cpu'' \<mapsto> (replicas + 1) * cpu,
      ''memory'' \<mapsto> (replicas + 1) * mem, ''requests.memory'' \<mapsto> (replicas + 1) * mem]"

lemma launch_need_demand:
  assumes "quantity_laws Q val" and "0 \<le> replicas"
  shows "(\<exists>want. (r, want) \<in> set (launch_need Q (replicas + 1) (size_list (cpu, mem))) \<and> P (val want))
    \<longleftrightarrow> (\<exists>demand. launch_demand replicas (val cpu) (val mem) r = Some demand \<and> P demand)"
proof -
  have n: "int (nat (replicas + 1)) = replicas + 1" using assms(2) by simp
  have v: "val (add_times Q (nat (replicas + 1)) q) = (replicas + 1) * val q" for q
    using val_add_times [OF assms(1), of "nat (replicas + 1)" q] n by simp
  have p: "val (QNew Q (replicas + 1)) = 10 ^ 9 * (replicas + 1)" using assms(1) by (simp add: quantity_laws_def)
  show ?thesis
    by (simp add: launch_need_def Let_def launch_demand_def size_list_def q_at_def ResourceCPU_def ResourceMemory_def
        ResourcePods_def conj_disj_distribR ex_disj_distrib v p del: power_numeral)
qed

text \<open>
  The quota check is exact: for a launch of any number of replicas the API accepts,
  it objects precisely when some quota of the namespace limits pods, CPU or memory (under
  either name) to less than one pod for each replica and one more, once what others use is
  taken off and the placeholders' share is counted back.
\<close>

theorem quota_check_exact:
  assumes "quantity_laws Q val" and "0 \<le> SpecReplicas s" and "SpecReplicas s < 2 ^ 31 - 1"
    and "ResourceQuotas l ns = Inr quotas"
  shows "alarms (screenQuota Q ns s (size_list (cpu, mem)) placenta l) \<longleftrightarrow>
    (\<exists>quota r hard demand. quota \<in> set quotas \<and> quota_hard quota r = Some hard
       \<and> launch_demand (SpecReplicas s) (val cpu) (val mem) r = Some demand
       \<and> val hard - val (q_at Q (StatusUsed quota) r) + val (q_at Q placenta (trim_prefix r ''requests.'')) < demand)"
proof -
  have i: "i32 (SpecReplicas s + 1) = SpecReplicas s + 1"
    using assms(2,3) by (intro i32_id) (simp add: in_i32_def)
  have c: "QCmp Q (quota_avail Q placenta quota r hard) want < 0 \<longleftrightarrow>
      val hard - val (q_at Q (StatusUsed quota) r) + val (q_at Q placenta (trim_prefix r ''requests.'')) < val want"
    for quota r hard want using assms(1) by (simp add: quantity_laws_def quota_avail_def)
  have "alarms (screenQuota Q ns s (size_list (cpu, mem)) placenta l) \<longleftrightarrow>
      (\<exists>quota r hard. quota \<in> set quotas \<and> quota_hard quota r = Some hard
        \<and> (\<exists>want. (r, want) \<in> set (launch_need Q (SpecReplicas s + 1) (size_list (cpu, mem)))
            \<and> val hard - val (q_at Q (StatusUsed quota) r) + val (q_at Q placenta (trim_prefix r ''requests.'')) < val want))"
    unfolding quota_alarm i c using assms(4) by auto
  then show ?thesis unfolding launch_need_demand [OF assms(1,2)] by blast
qed

definition int_q :: "int qops" where
  "int_q = \<lparr>QZero = 0, QAdd = (+), QSub = (-), QCmp = (\<lambda>a b. sgn (a - b)), QSign = sgn, QShow = show_int,
            QNew = (\<lambda>n. 10 ^ 9 * n), QMustParse = (\<lambda>_. 10 ^ 30)\<rparr>"

definition one_quota :: "int quota" where
  "one_quota = \<lparr>QuotaName = ''q'', StatusHard = [''requests.cpu'' \<mapsto> 2000000000], StatusUsed = (\<lambda>_. None),
                SpecHard = (\<lambda>_. None)\<rparr>"

definition quota_lookup :: "(int, unit) lookup_api" where
  "quota_lookup = \<lparr>SecretExists = (\<lambda>_ _. Inr True), ConfigMapExists = (\<lambda>_ _. Inr True), PVC = (\<lambda>_ _. Inr None),
                   StorageClass = (\<lambda>_. Inr None), ResourceQuotas = (\<lambda>_. Inr [one_quota]), PDBs = (\<lambda>_. Inr []),
                   ImageCheck = (\<lambda>_. (ResultInfo, []))\<rparr>"

definition three_replicas :: spec where
  "three_replicas = \<lparr>SpecDeployment = ''web'', Due = [], Size = \<lparr>SizeCPU = [], SizeMemory = []\<rparr>, SpecReplicas = 3,
                     ScreenRequested = None, SpecDelivery = 0, AutoRollback = None\<rparr>"

theorem quota_check_exact_witness:
  "alarms (screenQuota int_q ''prod'' three_replicas (size_list (600000000, 1)) (\<lambda>_. None) quota_lookup)"
proof -
  have laws: "quantity_laws int_q id"
    by (auto simp: quantity_laws_def int_q_def sgn_if)
  have r: "0 \<le> SpecReplicas three_replicas" "SpecReplicas three_replicas < 2 ^ 31 - 1"
    by (simp_all add: three_replicas_def)
  have q: "ResourceQuotas quota_lookup ''prod'' = Inr [one_quota]" by (simp add: quota_lookup_def)
  show ?thesis
    unfolding quota_check_exact [OF laws r q]
    by (rule exI [of _ one_quota], rule exI [of _ "''requests.cpu''"], rule exI [of _ 2000000000], rule exI [of _ 2400000000])
      (simp add: one_quota_def quota_hard_def launch_demand_def three_replicas_def q_at_def int_q_def)
qed


definition bare_container :: "int container" where
  "bare_container = \<lparr>CtrName = ''web'', CtrImage = ''web:1'', EnvFrom = [], Env = [],
     CtrRequests = [''cpu'' \<mapsto> 1, ''memory'' \<mapsto> 1], HasReadiness = False, HasLiveness = True\<rparr>"

definition bare_input :: "int screen_input" where
  "bare_input = \<lparr>InNamespace = ''prod'', InSpec = three_replicas,
     InDeployment = Some \<lparr>ScName = ''web'', ScNamespace = ''prod'',
       ScTemplate = \<lparr>TmplLabels = (\<lambda>_. None), ImagePullSecrets = [], Volumes = [], InitContainers = [],
                     Containers = [bare_container]\<rparr>\<rparr>,
     InPlacenta = (\<lambda>_. None)\<rparr>"

theorem screening_warns_exactly_witness:
  "fst (Summarize ''requested'' (Screen int_q (\<lambda>_. Some 5) (\<lambda>_. None) bare_input quota_lookup))"
  unfolding screening_warns_exactly [of "''requested''" int_q "\<lambda>_. Some 5" "\<lambda>_. None" bare_input quota_lookup]
  by (rule disjI2) (simp add: bare_input_def bare_container_def)


end
