(* ===== verification/Apgar.thy ===== *)
theory Apgar
  imports Pregnancy
begin

text \<open>
  \<open>gestation/apgar.go\<close>: the score of a launch (\<open>ApgarScore\<close>), when the next one is
  due (\<open>NextMinute\<close>), whether a score rolls the launch back (\<open>Rollback\<close>), and the
  sentences about it. Counts are \<open>int32\<close> values. The lemmas bound the score, show that a
  run of scores always ends at 1, 5, 10, 15, 20 minutes or earlier, and that it rolls back at
  most once.
\<close>

definition Reassuring :: int where "Reassuring = 7"
definition LastApgarMinute :: int where "LastApgarMinute = 20"

record apgar =
  Minute :: int
  Appearance :: int
  Pulse :: int
  Grimace :: int
  Activity :: int
  Respiration :: int
  TotalScore :: int
  Notes :: "string list"

record signs =
  Desired :: int
  Ready :: int
  Running :: int
  Restarts :: int
  CrashLooping :: bool
  LivenessFailures :: int
  Warnings :: int
  Services :: int
  ReadyEndpoint :: int
  OOMKills :: int
  Evictions :: int

definition plural :: "int \<Rightarrow> string \<Rightarrow> string" where
  "plural n noun =
     (if n = 1 then ''1 '' @ noun
      else if n = 0 then ''no '' @ noun @ ''s''
      else show_int n @ '' '' @ noun @ ''s'')"

definition appearance :: "signs \<Rightarrow> int" where
  "appearance s =
     (if Desired s > 0 \<and> Ready s \<ge> Desired s then 2
      else if Ready s > 0 \<and> i32 (2 * Ready s) \<ge> Desired s then 1 else 0)"

definition pulse :: "signs \<Rightarrow> int" where
  "pulse s =
     (if CrashLooping s \<or> Restarts s > Desired s then 0
      else if Restarts s > 0 \<or> LivenessFailures s > 0 then 1 else 2)"

definition grimace :: "signs \<Rightarrow> int" where
  "grimace s = (if Warnings s = 0 then 2 else if Warnings s \<le> 5 then 1 else 0)"

definition serving :: "signs \<Rightarrow> int" where
  "serving s = (if Services s = 0 then Running s else ReadyEndpoint s)"

definition activity :: "signs \<Rightarrow> int" where
  "activity s = (if Desired s > 0 \<and> serving s \<ge> Desired s then 2 else if serving s > 0 then 1 else 0)"

definition respiration :: "signs \<Rightarrow> int" where
  "respiration s =
     (if OOMKills s \<ge> 2 then 0 else if OOMKills s = 1 \<or> Evictions s > 0 then 1 else 2)"

definition sign_notes :: "signs \<Rightarrow> string list" where
  "sign_notes s =
     [''ready '' @ show_int (Ready s) @ ''/'' @ show_int (Desired s),
      plural (Restarts s) ''restart'' @ '', '' @ plural (LivenessFailures s) ''liveness failure''
        @ (if CrashLooping s then '', crash-looping'' else []),
      plural (Warnings s) ''warning event'',
      (if Services s = 0
       then ''no Service selects it; '' @ show_int (Running s) @ ''/'' @ show_int (Desired s) @ '' pods running''
       else plural (ReadyEndpoint s) ''ready endpoint'' @ '' serving behind '' @ plural (Services s) ''Service''),
      plural (OOMKills s) ''OOM kill'' @ '', '' @ plural (Evictions s) ''eviction'']"

definition ApgarScore :: "int \<Rightarrow> signs \<Rightarrow> apgar" where
  "ApgarScore at_minute s =
     \<lparr>Minute = at_minute, Appearance = appearance s, Pulse = pulse s, Grimace = grimace s,
      Activity = activity s, Respiration = respiration s,
      TotalScore = i32 (appearance s + pulse s + grimace s + activity s + respiration s),
      Notes = sign_notes s\<rparr>"

definition NextMinute :: "apgar list \<Rightarrow> int" where
  "NextMinute scores =
     (if scores = [] then 1
      else let l = last scores
           in if Minute l < 5 then 5
              else if TotalScore l < Reassuring \<and> Minute l < LastApgarMinute then i32 (Minute l + 5)
              else 0)"

datatype rollback_reason = NoRollbackNeeded | RollbackOff | NoEarlierRevision | ReturningTo string

definition Rollback :: "apgar \<Rightarrow> bool \<Rightarrow> string \<Rightarrow> bool \<times> rollback_reason" where
  "Rollback score enabled previousRevision =
     (if Minute score \<noteq> 5 \<or> TotalScore score \<ge> Reassuring then (False, NoRollbackNeeded)
      else if \<not> enabled then (False, RollbackOff)
      else if previousRevision = [] then (False, NoEarlierRevision)
      else (True, ReturningTo previousRevision))"

definition sign_names :: "string list" where
  "sign_names = [''appearance'', ''pulse'', ''grimace'', ''activity'', ''respiration'']"

definition Weakest :: "apgar \<Rightarrow> string" where
  "Weakest a =
     (let values = [Appearance a, Pulse a, Grimace a, Activity a, Respiration a];
          part = (\<lambda>i. sign_names ! i @ '' '' @ show_int (values ! i)
                     @ (if i < length (Notes a) then '': '' @ Notes a ! i else []))
      in join ''; '' (map part (filter (\<lambda>i. values ! i < 2) [0..<5])))"

definition MinuteWords :: "int \<Rightarrow> string" where
  "MinuteWords m =
     (if m = 1 then ''one minute'' else if m = 5 then ''five minutes'' else show_int m @ '' minutes'')"

section \<open>Runs of scores\<close>

text \<open>The controller's loop over time: each observation is scored when a score is still due.\<close>

fun score_run :: "signs list \<Rightarrow> apgar list \<Rightarrow> apgar list" where
  "score_run [] scores = scores"
| "score_run (s # ss) scores =
     (if NextMinute scores = 0 then scores else score_run ss (scores @ [ApgarScore (NextMinute scores) s]))"

lemma sign_ranges:
  "0 \<le> appearance s \<and> appearance s \<le> 2" "0 \<le> pulse s \<and> pulse s \<le> 2" "0 \<le> grimace s \<and> grimace s \<le> 2"
  "0 \<le> activity s \<and> activity s \<le> 2" "0 \<le> respiration s \<and> respiration s \<le> 2"
  by (simp_all add: appearance_def pulse_def grimace_def activity_def respiration_def)

lemma score_range:
  "TotalScore (ApgarScore m s) = appearance s + pulse s + grimace s + activity s + respiration s
   \<and> 0 \<le> TotalScore (ApgarScore m s) \<and> TotalScore (ApgarScore m s) \<le> 10"
proof -
  let ?t = "appearance s + pulse s + grimace s + activity s + respiration s"
  have r: "0 \<le> ?t" "?t \<le> 10" using sign_ranges [of s] by linarith+
  then have "i32 ?t = ?t" by (intro i32_id) (simp add: in_i32_def)
  then show ?thesis using r by (simp add: ApgarScore_def)
qed

definition schedule :: "int list" where "schedule = [1, 5, 10, 15, 20]"

definition on_schedule :: "apgar list \<Rightarrow> bool" where
  "on_schedule scores \<longleftrightarrow> length scores \<le> 5 \<and> map Minute scores = take (length scores) schedule"

lemma length_cases_5: "n \<le> 5 \<Longrightarrow> n = 0 \<or> n = 1 \<or> n = 2 \<or> n = 3 \<or> n = 4 \<or> n = (5::nat)"
  by arith

lemma on_schedule_last:
  "on_schedule scores \<Longrightarrow> scores \<noteq> [] \<Longrightarrow> Minute (last scores) = schedule ! (length scores - 1)"
proof -
  assume a: "on_schedule scores" "scores \<noteq> []"
  have "Minute (last scores) = map Minute scores ! (length scores - 1)"
    using a(2) by (simp add: last_conv_nth)
  also have "\<dots> = schedule ! (length scores - 1)" using a by (simp add: on_schedule_def)
  finally show ?thesis .
qed

lemma NextMinute_on_schedule:
  "on_schedule scores \<Longrightarrow> NextMinute scores \<noteq> 0 \<Longrightarrow>
   length scores < 5 \<and> NextMinute scores = schedule ! length scores"
proof -
  assume a: "on_schedule scores" "NextMinute scores \<noteq> 0"
  have i: "i32 10 = 10" "i32 15 = 15" "i32 20 = 20" by (auto intro!: i32_id simp: in_i32_def)
  have "length scores \<le> 5" using a(1) by (simp add: on_schedule_def)
  then consider "scores = []" | "length scores = 1" | "length scores = 2" | "length scores = 3"
    | "length scores = 4" | "length scores = 5" using length_cases_5 by auto
  then show ?thesis
    using a(2) on_schedule_last [OF a(1)] i
    by cases (auto simp: NextMinute_def schedule_def Let_def LastApgarMinute_def split: if_splits)
qed

lemma on_schedule_snoc:
  "on_schedule scores \<Longrightarrow> NextMinute scores \<noteq> 0 \<Longrightarrow> on_schedule (scores @ [ApgarScore (NextMinute scores) s])"
proof -
  assume a: "on_schedule scores" "NextMinute scores \<noteq> 0"
  have "length schedule = 5" by (simp add: schedule_def)
  then show ?thesis using a NextMinute_on_schedule [OF a]
    by (simp add: on_schedule_def ApgarScore_def take_Suc_conv_app_nth)
qed

lemma score_run_schedule: "on_schedule scores \<Longrightarrow> on_schedule (score_run ss scores)"
  by (induction ss arbitrary: scores) (auto simp: on_schedule_snoc)

lemma score_run_done:
  "on_schedule scores \<Longrightarrow> 5 \<le> length ss + length scores \<Longrightarrow> NextMinute (score_run ss scores) = 0"
proof (induction ss arbitrary: scores)
  case Nil
  then have "length scores = 5" by (simp add: on_schedule_def)
  then show ?case using NextMinute_on_schedule [OF Nil(1)] by fastforce
next
  case (Cons s ss)
  then show ?case using on_schedule_snoc [of scores s] by auto
qed

lemma filter_implies_length: "(\<And>x. P x \<Longrightarrow> Q x) \<Longrightarrow> length (filter P xs) \<le> length (filter Q xs)"
  by (induction xs) (auto intro: le_SucI)

lemma rolls_back_at_five: "fst (Rollback a e p) \<Longrightarrow> Minute a = 5 \<and> TotalScore a < 7 \<and> e \<and> p \<noteq> []"
  by (auto simp: Rollback_def Reassuring_def split: if_splits)

section \<open>Properties\<close>

text \<open>
  Claim C17. A launch is scored at most five times, at 1, 5, 10, 15 and 20 minutes in that
  order, whatever is observed; five observations are enough for the scoring to be over; every
  score is between 0 and 10; and of all the scores at most one, the five-minute score below
  7, rolls the launch back.
\<close>

theorem apgar_schedule_ends:
  "map Minute (score_run ss []) = take (length (score_run ss [])) [1, 5, 10, 15, 20]
   \<and> (5 \<le> length ss \<longrightarrow> NextMinute (score_run ss []) = 0)
   \<and> (\<forall>m s. 0 \<le> TotalScore (ApgarScore m s) \<and> TotalScore (ApgarScore m s) \<le> 10)
   \<and> length (filter (\<lambda>a. fst (Rollback a enabled previous)) (score_run ss [])) \<le> 1"
proof -
  have on: "on_schedule (score_run ss [])"
    by (rule score_run_schedule) (simp add: on_schedule_def)
  have "length (filter (\<lambda>a. fst (Rollback a enabled previous)) (score_run ss []))
      \<le> length (filter (\<lambda>a. Minute a = 5) (score_run ss []))"
    using rolls_back_at_five by (intro filter_implies_length) blast
  also have "\<dots> = length (filter (\<lambda>m. m = 5) (map Minute (score_run ss [])))"
    by (simp add: filter_map comp_def)
  also have "\<dots> \<le> length (filter (\<lambda>m. m = 5) schedule)"
    using on by (simp add: on_schedule_def) (metis append_take_drop_id filter_append le_add1 length_append)
  also have "\<dots> = 1" by (simp add: schedule_def)
  finally have rb: "length (filter (\<lambda>a. fst (Rollback a enabled previous)) (score_run ss [])) \<le> 1" .
  have bounds: "\<forall>m s. 0 \<le> TotalScore (ApgarScore m s) \<and> TotalScore (ApgarScore m s) \<le> 10"
    using score_range by blast
  have finished: "5 \<le> length ss \<longrightarrow> NextMinute (score_run ss []) = 0"
    using score_run_done [of "[]" ss] by (simp add: on_schedule_def)
  have "map Minute (score_run ss []) = take (length (score_run ss [])) [1, 5, 10, 15, 20]"
    using on by (simp add: on_schedule_def schedule_def)
  then show ?thesis using rb bounds finished by blast
qed

text \<open>Signs of a launch that never gets ready, and of a healthy one.\<close>

definition signs_of :: "int \<Rightarrow> int \<Rightarrow> signs" where
  "signs_of ready restarts = \<lparr>Desired = 2, Ready = ready, Running = ready, Restarts = restarts, CrashLooping = False,
     LivenessFailures = 0, Warnings = 0, Services = 0, ReadyEndpoint = 0, OOMKills = 0, Evictions = 0\<rparr>"

theorem apgar_schedule_ends_witness:
  "map Minute (score_run (replicate 6 (signs_of 0 3)) []) = [1, 5, 10, 15, 20]
   \<and> map Minute (score_run (replicate 6 (signs_of 2 0)) []) = [1, 5]
   \<and> NextMinute (score_run (replicate 6 (signs_of 0 3)) []) = 0"
proof -
  have "map Minute (score_run (replicate 6 (signs_of 0 3)) []) = [1, 5, 10, 15, 20]"
    "map Minute (score_run (replicate 6 (signs_of 2 0)) []) = [1, 5]" by code_simp+
  then show ?thesis using apgar_schedule_ends [of "replicate 6 (signs_of 0 3)" True "[]"] by simp
qed

end
