(* ===== verification/Growth.thy ===== *)
theory Growth
  imports Pregnancy
begin

text \<open>
  \<open>gestation/growth.go\<close>: the trajectory of a service's average use per pod
  (\<open>AppendSample\<close>, \<open>SampleDue\<close>) and its chart (\<open>AssessGrowth\<close>). The hint of
  an assessment is a value of \<open>hint\<close>, one constructor per sentence. The nearest-rank
  percentile is computed in \<open>float64\<close> in the code,
  \<open>ceil(p / 100 * n)\<close> with \<open>p\<close> one of 3, 15, 50, 85 and 97; for every history
  of up to 100000 samples (a status keeps at most 336) that is the exact ceiling of
  \<open>p * n / 100\<close>, which is what \<open>percentile\<close> computes.
\<close>

definition MinSamples :: nat where "MinSamples = 6"
definition MaxSamples :: nat where "MaxSamples = 14 * 24"
definition SampleInterval :: duration where "SampleInterval = hour"
definition NewbornSampleInterval :: duration where "NewbornSampleInterval = 10 * minute"

record sample =
  SampleTime :: gotime
  CPUMilli :: int
  MemoryBytes :: int
  SamplePods :: int

record bands =
  P3 :: int
  P15 :: int
  P50 :: int
  P85 :: int
  P97 :: int

datatype hint =
    Outgrowing int
  | OutgrowingMostly
  | TooEarly nat
  | FallingBehind
  | AboveCurve
  | PlentyOfRoom
  | OnCurve

record assessment =
  AssessedResource :: string
  Samples :: nat
  Current :: int
  RequestOf :: int
  BandsOf :: bands
  HintOf :: hint

definition AppendSample :: "sample list \<Rightarrow> sample \<Rightarrow> sample list" where
  "AppendSample samples s =
     (let samples = samples @ [s]
      in if length samples > MaxSamples then drop (length samples - MaxSamples) samples else samples)"

definition SampleDue :: "sample list \<Rightarrow> bool \<Rightarrow> gotime \<Rightarrow> bool" where
  "SampleDue samples newborn now =
     (if samples = [] then True
      else let interval = (if newborn then NewbornSampleInterval else SampleInterval)
           in \<not> now < t_add (SampleTime (last samples)) interval)"

definition percentile :: "int list \<Rightarrow> nat \<Rightarrow> int" where
  "percentile xs p =
     (if xs = [] then 0
      else let rank = (p * length xs + 99) div 100
           in xs ! ((if rank < 1 then 1 else rank) - 1))"

definition percentOf :: "int \<Rightarrow> int \<Rightarrow> int" where
  "percentOf v whole = (if whole = 0 then 0 else i64 (go_div (i64 (v * 100)) whole))"

definition chart_bands :: "int list \<Rightarrow> bands" where
  "chart_bands xs = \<lparr>P3 = percentile xs 3, P15 = percentile xs 15, P50 = percentile xs 50,
     P85 = percentile xs 85, P97 = percentile xs 97\<rparr>"

definition assess :: "string \<Rightarrow> int list \<Rightarrow> int \<Rightarrow> int \<Rightarrow> assessment" where
  "assess res history current request =
     (let b = chart_bands (sort history);
          enough = length history \<ge> MinSamples;
          h = (if request > 0 \<and> current \<ge> request then Outgrowing (percentOf current request)
               else if enough \<and> request > 0 \<and> i64 (10 * P85 b) \<ge> i64 (9 * request) then OutgrowingMostly
               else if \<not> enough then TooEarly (length history)
               else if current < P3 b then FallingBehind
               else if current > P97 b then AboveCurve
               else if request > 0 \<and> i64 (4 * P97 b) \<le> request then PlentyOfRoom
               else OnCurve)
      in \<lparr>AssessedResource = res, Samples = length history, Current = current, RequestOf = request,
          BandsOf = b, HintOf = h\<rparr>)"

definition AssessGrowth :: "sample list \<Rightarrow> int \<Rightarrow> int \<Rightarrow> sample option \<Rightarrow> assessment list" where
  "AssessGrowth samples requestCPU requestMemory current =
     (let (current, samples) =
            (if current = None \<and> samples \<noteq> [] then (Some (last samples), butlast samples) else (current, samples));
          (curCPU, curMem) = (case current of None \<Rightarrow> (0, 0) | Some c \<Rightarrow> (CPUMilli c, MemoryBytes c))
      in [assess ''cpu'' (map CPUMilli samples) curCPU requestCPU,
          assess ''memory'' (map MemoryBytes samples) curMem requestMemory])"

section \<open>Lemmas\<close>

lemma rank_bounds: "xs \<noteq> [] \<Longrightarrow> 0 < p \<Longrightarrow> p \<le> 100 \<Longrightarrow>
    1 \<le> (p * length xs + 99) div 100 \<and> (p * length xs + 99) div 100 \<le> length xs"
proof -
  assume a: "xs \<noteq> []" "0 < p" "p \<le> 100"
  have "100 \<le> p * length xs + 99"
    using a by (simp add: Suc_leI mult_pos_pos)
  moreover have "(p * length xs + 99) div 100 \<le> (100 * length xs + 99) div 100"
    using a by (intro div_le_mono) (simp add: mult_le_mono1)
  moreover have "(100 * length xs + 99) div 100 = length xs" by simp
  ultimately show ?thesis by (simp add: less_eq_div_iff_mult_less_eq)
qed

lemma percentile_index: "xs \<noteq> [] \<Longrightarrow> 0 < p \<Longrightarrow> p \<le> 100 \<Longrightarrow>
    percentile xs p = xs ! ((p * length xs + 99) div 100 - 1) \<and> (p * length xs + 99) div 100 - 1 < length xs"
  using rank_bounds [of xs p] by (auto simp: percentile_def Let_def)

lemma percentile_mem: "xs \<noteq> [] \<Longrightarrow> 0 < p \<Longrightarrow> p \<le> 100 \<Longrightarrow> percentile xs p \<in> set xs"
  using percentile_index [of xs p] by (metis nth_mem)

lemma percentile_mono:
  "sorted xs \<Longrightarrow> xs \<noteq> [] \<Longrightarrow> 0 < p \<Longrightarrow> p \<le> q \<Longrightarrow> q \<le> 100 \<Longrightarrow> percentile xs p \<le> percentile xs q"
proof -
  assume a: "sorted xs" "xs \<noteq> []" "0 < p" "p \<le> q" "q \<le> 100"
  have "(p * length xs + 99) div 100 - 1 \<le> (q * length xs + 99) div 100 - 1"
    using a by (intro diff_le_mono div_le_mono) (simp add: mult_le_mono1)
  then show ?thesis
    using a percentile_index [of xs p] percentile_index [of xs q] sorted_nth_mono [of xs] by auto
qed

section \<open>Properties\<close>

text \<open>
  Growth charts: the trajectory never keeps more than 336 measurements and is always
  the newest ones in order; and the bands of a chart are measurements of the history, in rising
  order, so a value judged "on its curve" after enough measurements lies between the lowest and
  the highest of them.
\<close>

theorem growth_chart_sound:
  assumes "length samples \<le> MaxSamples" and "history \<noteq> []"
  shows "length (AppendSample samples s) \<le> MaxSamples
    \<and> (\<exists>old. samples @ [s] = old @ AppendSample samples s) \<and> last (AppendSample samples s) = s
    \<and> (let b = BandsOf (assess res history current request)
       in P3 b \<le> P15 b \<and> P15 b \<le> P50 b \<and> P50 b \<le> P85 b \<and> P85 b \<le> P97 b
          \<and> {P3 b, P15 b, P50 b, P85 b, P97 b} \<subseteq> set history
          \<and> (HintOf (assess res history current request) = OnCurve \<longrightarrow>
               Min (set history) \<le> current \<and> current \<le> Max (set history)))"
proof -
  let ?h = "sort history"
  have h: "sorted ?h" "?h \<noteq> []" "set ?h = set history" using assms(2) by (auto simp flip: set_empty)
  have mono: "percentile ?h 3 \<le> percentile ?h 15" "percentile ?h 15 \<le> percentile ?h 50"
    "percentile ?h 50 \<le> percentile ?h 85" "percentile ?h 85 \<le> percentile ?h 97"
    by (intro percentile_mono h; simp)+
  have mem: "percentile ?h p \<in> set history" if "0 < p" "p \<le> 100" for p
    using percentile_mem [OF h(2) that] h(3) by simp
  have ends: "Min (set history) \<le> percentile ?h 3" "percentile ?h 97 \<le> Max (set history)"
    using mem [of 3] mem [of 97] by simp_all
  have b: "BandsOf (assess res history current request) = chart_bands ?h"
    by (simp add: assess_def Let_def)
  have "HintOf (assess res history current request) = OnCurve \<Longrightarrow>
      percentile ?h 3 \<le> current \<and> current \<le> percentile ?h 97"
    by (auto simp: assess_def chart_bands_def Let_def split: if_splits)
  then have "HintOf (assess res history current request) = OnCurve \<Longrightarrow>
      Min (set history) \<le> current \<and> current \<le> Max (set history)"
    using ends by linarith
  then have chart: "let b = BandsOf (assess res history current request)
       in P3 b \<le> P15 b \<and> P15 b \<le> P50 b \<and> P50 b \<le> P85 b \<and> P85 b \<le> P97 b
          \<and> {P3 b, P15 b, P50 b, P85 b, P97 b} \<subseteq> set history
          \<and> (HintOf (assess res history current request) = OnCurve \<longrightarrow>
               Min (set history) \<le> current \<and> current \<le> Max (set history))"
    using mono mem unfolding b Let_def by (simp add: chart_bands_def)
  have old: "\<exists>old. samples @ [s] = old @ AppendSample samples s"
  proof (cases "length (samples @ [s]) > MaxSamples")
    case True
    then have "AppendSample samples s = drop (length (samples @ [s]) - MaxSamples) (samples @ [s])"
      unfolding AppendSample_def Let_def by (rule if_P)
    then show ?thesis by (metis append_take_drop_id)
  qed (simp add: AppendSample_def Let_def)
  have len: "length (AppendSample samples s) \<le> MaxSamples" "AppendSample samples s \<noteq> []"
    by (auto simp: AppendSample_def Let_def MaxSamples_def)
  have "last (AppendSample samples s) = s"
    using old len(2) by (metis last_appendR last_snoc)
  then show ?thesis using len(1) old chart by blast
qed

theorem growth_chart_sound_witness:
  "P50 (BandsOf (assess ''cpu'' [40, 10, 30, 20] 25 0)) = 20
   \<and> P50 (BandsOf (assess ''cpu'' [40, 10, 30, 20] 25 0)) \<le> P85 (BandsOf (assess ''cpu'' [40, 10, 30, 20] 25 0))"
proof -
  have v: "P50 (BandsOf (assess ''cpu'' [40, 10, 30, 20] 25 0)) = 20" by code_simp
  show ?thesis
    using growth_chart_sound [of "[]" "[40, 10, 30, 20]" s "''cpu''" 25 0] v by (simp add: Let_def)
qed

end
