(* ===== verification/ServiceMemory.thy ===== *)
theory ServiceMemory
  imports Pregnancy "HOL-Library.AList"
begin

text \<open>
  \<open>gestation/memory.go\<close>: the bounded memory of the services a cluster gave birth to. The
  ConfigMap data is an association list with distinct keys, in one iteration order. JSON is a
  pair of parameters, \<open>marshal\<close> and \<open>unmarshal\<close>. The code's two comparison
  functions are stable sorts by their criteria, the last criterion first. The lemmas follow a
  \<open>Put\<close> through its pruning: what is let go, in which order, and when.
\<close>

definition MaxRecords :: nat where "MaxRecords = 256"
definition maxListed :: nat where "maxListed = 16"
definition maxField :: nat where "maxField = 253"

record life =
  LifeNamespace :: string
  LifeName :: string
  LifeUID :: string
  Born :: string
  Left :: string
  Owners :: "string list"
  Dependencies :: "string list"
  ConfigDigest :: string

definition Key :: "life \<Rightarrow> string" where
  "Key r = LifeNamespace r @ ''.'' @ LifeName r @ ''.'' @ take 8 (LifeUID r)"

definition Departed :: "life \<Rightarrow> bool" where
  "Departed r \<longleftrightarrow> Left r \<noteq> []"

definition trim_field :: "string \<Rightarrow> string" where
  "trim_field s = (if length s > maxField then take maxField s else s)"

fun bounded_list :: "string list \<Rightarrow> string list \<Rightarrow> string list" where
  "bounded_list [] out = out"
| "bounded_list (s # ss) out =
     (let s = trim_field (trim_space s)
      in bounded_list ss (if s \<noteq> [] \<and> s \<notin> set out then out @ [s] else out))"

definition bounded_strings :: "string list \<Rightarrow> string list" where
  "bounded_strings ss =
     (let out = sort (bounded_list ss [])
      in if length out > maxListed then take maxListed out else out)"

definition Bounded :: "life \<Rightarrow> life" where
  "Bounded r = r\<lparr>LifeNamespace := trim_field (LifeNamespace r), LifeName := trim_field (LifeName r),
     LifeUID := trim_field (LifeUID r), Owners := bounded_strings (Owners r),
     Dependencies := bounded_strings (Dependencies r)\<rparr>"

type_synonym data = "(string \<times> string) list"

definition decoded :: "(string \<Rightarrow> life option) \<Rightarrow> string \<Rightarrow> life option" where
  "decoded unmarshal raw =
     (case unmarshal raw of None \<Rightarrow> None | Some r \<Rightarrow> if LifeName r \<noteq> [] then Some r else None)"

definition Records :: "(string \<Rightarrow> life option) \<Rightarrow> data \<Rightarrow> life list" where
  "Records unmarshal data =
     sort_key Born (sort_key Key (List.map_filter (\<lambda>(k, raw). decoded unmarshal raw) data))"

definition prune_order :: "life list \<Rightarrow> life list" where
  "prune_order rs = sort_key (\<lambda>r. \<not> Departed r) (sort_key (\<lambda>r. if Departed r then Left r else Born r) rs)"

fun let_go :: "string \<Rightarrow> life list \<Rightarrow> data \<Rightarrow> data" where
  "let_go keep [] data = data"
| "let_go keep (r # rs) data =
     (if length data \<le> MaxRecords then data
      else let_go keep rs (if Key r \<noteq> keep then AList.delete (Key r) data else data))"

definition prune :: "(string \<Rightarrow> life option) \<Rightarrow> data \<Rightarrow> string \<Rightarrow> data" where
  "prune unmarshal data keep =
     (if length data \<le> MaxRecords then data
      else let_go keep (prune_order (Records unmarshal data)) data)"

definition Put :: "(life \<Rightarrow> string) \<Rightarrow> (string \<Rightarrow> life option) \<Rightarrow> data \<Rightarrow> life \<Rightarrow> bool \<times> data" where
  "Put marshal unmarshal data r =
     (let r = Bounded r; raw = marshal r; key = Key r
      in if (case map_of data key of None \<Rightarrow> [] | Some v \<Rightarrow> v) = raw then (False, data)
         else (True, prune unmarshal (AList.update key raw data) key))"

section \<open>Lemmas: fields\<close>

lemma trim_field_length [simp]: "length (trim_field s) \<le> maxField"
  by (simp add: trim_field_def)

lemma trim_field_id: "trim_field (trim_field s) = trim_field s"
  by (simp add: trim_field_def)

lemma bounded_list_spec:
  "distinct out \<Longrightarrow> (\<forall>s \<in> set out. s \<noteq> [] \<and> length s \<le> maxField) \<Longrightarrow>
   distinct (bounded_list ss out) \<and> (\<forall>s \<in> set (bounded_list ss out). s \<noteq> [] \<and> length s \<le> maxField)"
proof (induction ss arbitrary: out)
  case (Cons s ss)
  define t where "t = trim_field (trim_space s)"
  let ?out = "if t \<noteq> [] \<and> t \<notin> set out then out @ [t] else out"
  have "length t \<le> maxField" by (simp add: t_def)
  then have "distinct ?out" "\<forall>s \<in> set ?out. s \<noteq> [] \<and> length s \<le> maxField" using Cons.prems by auto
  from Cons.IH [OF this] show ?case unfolding bounded_list.simps Let_def t_def by blast
qed simp

lemma bounded_strings_spec:
  "sorted (bounded_strings ss) \<and> distinct (bounded_strings ss) \<and> length (bounded_strings ss) \<le> maxListed
   \<and> (\<forall>s \<in> set (bounded_strings ss). s \<noteq> [] \<and> length s \<le> maxField)"
proof -
  have sub: "set (bounded_strings ss) \<subseteq> set (bounded_list ss [])"
    using set_take_subset [of maxListed "sort (bounded_list ss [])"] by (simp add: bounded_strings_def Let_def)
  have "distinct (bounded_list ss [])" "\<forall>s \<in> set (bounded_list ss []). s \<noteq> [] \<and> length s \<le> maxField"
    using bounded_list_spec [of "[]" ss] by simp_all
  then show ?thesis using sub
    by (auto simp: bounded_strings_def Let_def sorted_wrt_take)
qed

section \<open>Lemmas: pruning\<close>

text \<open>Every entry is a record under its own key.\<close>

definition well_kept :: "(string \<Rightarrow> life option) \<Rightarrow> data \<Rightarrow> bool" where
  "well_kept unmarshal data \<longleftrightarrow>
     distinct (map fst data) \<and> (\<forall>(k, raw) \<in> set data. \<exists>r. decoded unmarshal raw = Some r \<and> Key r = k)"

lemma set_Records: "r \<in> set (Records unmarshal data) \<longleftrightarrow> (\<exists>(k, raw) \<in> set data. decoded unmarshal raw = Some r)"
  by (force simp: Records_def set_map_filter)

lemma set_prune_order [simp]: "set (prune_order rs) = set rs"
  by (simp add: prune_order_def)

lemma let_go_subset: "set (let_go keep rs data) \<subseteq> set data"
proof (induction keep rs data rule: let_go.induct)
  case (2 keep r rs data)
  then show ?case by (auto simp: AList.delete_eq split: if_splits)
qed simp

lemma let_go_distinct: "distinct (map fst data) \<Longrightarrow> distinct (map fst (let_go keep rs data))"
  by (induction keep rs data rule: let_go.induct) (auto simp: distinct_delete)

lemma let_go_keeps: "map_of (let_go keep rs data) keep = map_of data keep"
  by (induction keep rs data rule: let_go.induct) (auto simp: delete_conv')

text \<open>One tl_rs record than fits: pruning lets go of exactly the first one in its order.\<close>

lemma delete_one_length:
  "distinct (map fst data) \<Longrightarrow> k \<in> set (map fst data) \<Longrightarrow> Suc (length (AList.delete k data)) = length data"
proof (induction data)
  case (Cons p data)
  then show ?case
  proof (cases "fst p = k")
    case True
    then have "k \<notin> fst ` set data" using Cons.prems(1) by auto
    then show ?thesis using True by (cases p) auto
  next
    case False
    then show ?thesis using Cons by (cases p) auto
  qed
qed simp

lemma let_go_one:
  assumes "length data = Suc MaxRecords" and "distinct (map fst data)"
    and "\<And>r. r \<in> set rs \<Longrightarrow> Key r \<in> set (map fst data)"
  shows "let_go keep rs data =
    (case filter (\<lambda>r. Key r \<noteq> keep) rs of [] \<Rightarrow> data | r # _ \<Rightarrow> AList.delete (Key r) data)"
  using assms
proof (induction rs)
  case (Cons r rs)
  show ?case
  proof (cases "Key r = keep")
    case True
    then show ?thesis using Cons by simp
  next
    case False
    have "length (AList.delete (Key r) data) = MaxRecords"
      using delete_one_length [OF Cons.prems(2), of "Key r"] Cons.prems(1,3) by simp
    then show ?thesis using False Cons.prems(1) by (cases rs) simp_all
  qed
qed simp

lemma prune_order_class:
  "filter (\<lambda>r. Departed r = b) (prune_order rs)
   = filter (\<lambda>r. Departed r = b) (sort_key (\<lambda>r. if Departed r then Left r else Born r) rs)"
proof -
  have "filter (\<lambda>r. (\<not> Departed r) = (\<not> b)) (prune_order rs)
      = filter (\<lambda>r. (\<not> Departed r) = (\<not> b)) (sort_key (\<lambda>r. if Departed r then Left r else Born r) rs)"
    unfolding prune_order_def by (rule sort_key_stable)
  then show ?thesis by simp
qed

lemma sorted_head: "sorted (map f (r # tl_rs)) \<Longrightarrow> q \<in> set (r # tl_rs) \<Longrightarrow> f r \<le> f q"
  by auto

lemma prune_order_first:
  assumes "filter P (prune_order rs) = r # tl_rs" and "q \<in> set rs" and "P q"
  shows "(Departed q \<longrightarrow> Departed r \<and> Left r \<le> Left q) \<and> (\<not> Departed q \<and> \<not> Departed r \<longrightarrow> Born r \<le> Born q)"
proof -
  let ?g = "\<lambda>r. if Departed r then Left r else Born r"
  have q: "q \<in> set (r # tl_rs)" using assms(2,3) by (simp flip: assms(1))
  have "sorted (map (\<lambda>r. \<not> Departed r) (filter P (prune_order rs)))"
    unfolding prune_order_def by (rule sorted_filter) simp
  then have first: "Departed q \<Longrightarrow> Departed r"
    using sorted_head [of "\<lambda>r. \<not> Departed r" r tl_rs q] q assms(1) by auto
  have same: "?g r \<le> ?g q" if b: "Departed r = Departed q"
  proof -
    let ?b = "Departed q"
    have "filter (\<lambda>r. Departed r = ?b) (r # tl_rs) = filter P (filter (\<lambda>r. Departed r = ?b) (prune_order rs))"
      unfolding assms(1) [symmetric] by (simp add: conj_commute)
    also have "\<dots> = filter P (filter (\<lambda>r. Departed r = ?b) (sort_key ?g rs))" by (simp only: prune_order_class)
    finally have "sorted (map ?g (filter (\<lambda>r. Departed r = ?b) (r # tl_rs)))"
      using sorted_filter [of ?g "sort_key ?g rs"] by (simp only: sorted_filter sorted_sort_key filter_filter)
    then have "sorted (map ?g (r # filter (\<lambda>r. Departed r = ?b) tl_rs))" using b by simp
    then show ?thesis by (rule sorted_head) (use q in auto)
  qed
  show ?thesis using first same by auto
qed

section \<open>Lemmas: Put\<close>

lemma well_kept_record:
  "well_kept unmarshal data \<Longrightarrow> map_of data k = Some raw \<Longrightarrow> \<exists>r. decoded unmarshal raw = Some r \<and> Key r = k"
  by (auto simp: well_kept_def dest!: map_of_SomeD)

lemma well_kept_subset: "well_kept unmarshal data \<Longrightarrow> set d \<subseteq> set data \<Longrightarrow> distinct (map fst d) \<Longrightarrow> well_kept unmarshal d"
  by (fastforce simp: well_kept_def)

lemma update_mem: "(k, v) \<in> set (AList.update key raw data) \<Longrightarrow> distinct (map fst data) \<Longrightarrow>
    (k, v) = (key, raw) \<or> (k, v) \<in> set data"
  by (induction data) (auto split: if_splits)

lemma well_kept_update:
  "well_kept unmarshal data \<Longrightarrow> decoded unmarshal raw = Some r \<Longrightarrow> Key r = key \<Longrightarrow>
   well_kept unmarshal (AList.update key raw data)"
  by (fastforce simp: well_kept_def distinct_update dest: update_mem)

lemma length_update: "length (AList.update k v data) = (if k \<in> fst ` set data then length data else Suc (length data))"
  using update_keys [of k v data] by (metis length_append_singleton length_map set_map)

lemma Records_keys: "well_kept unmarshal data \<Longrightarrow> r \<in> set (Records unmarshal data) \<Longrightarrow> Key r \<in> set (map fst data)"
  by (auto simp: well_kept_def set_Records image_iff) force

text \<open>The record that a full memory lets go of.\<close>

definition first_to_go :: "(string \<Rightarrow> life option) \<Rightarrow> data \<Rightarrow> string \<Rightarrow> life \<Rightarrow> bool" where
  "first_to_go unmarshal data keep gone \<longleftrightarrow>
     Key gone \<noteq> keep \<and> gone \<in> set (Records unmarshal data)
     \<and> (\<forall>q \<in> set (Records unmarshal data). Key q \<noteq> keep \<longrightarrow>
          (Departed q \<longrightarrow> Departed gone \<and> Left gone \<le> Left q)
          \<and> (\<not> Departed q \<and> \<not> Departed gone \<longrightarrow> Born gone \<le> Born q))"

lemma prune_full:
  assumes "well_kept unmarshal data" and "length data = Suc MaxRecords"
  shows "\<exists>gone. first_to_go unmarshal data keep gone \<and> prune unmarshal data keep = AList.delete (Key gone) data
     \<and> length (prune unmarshal data keep) = MaxRecords"
proof -
  let ?rs = "prune_order (Records unmarshal data)" and ?P = "\<lambda>r. Key r \<noteq> keep"
  have d: "distinct (map fst data)" using assms(1) by (simp add: well_kept_def)
  have keys: "Key r \<in> set (map fst data)" if "r \<in> set ?rs" for r
    using that Records_keys [OF assms(1)] by simp
  have "card (set (map fst data)) = Suc MaxRecords" using d assms(2) by (metis distinct_card length_map)
  then have "\<not> set (map fst data) \<subseteq> {keep}"
    using card_mono [of "{keep}" "set (map fst data)"] by (auto simp: MaxRecords_def)
  then obtain k where "k \<in> set (map fst data)" "k \<noteq> keep" by blast
  then obtain raw where kr: "(k, raw) \<in> set data" "k \<noteq> keep" by fastforce
  then obtain q where "q \<in> set (Records unmarshal data)" "Key q = k"
    using assms(1) by (fastforce simp: well_kept_def set_Records)
  then have "filter ?P ?rs \<noteq> []" using kr(2) by (auto simp: filter_empty_conv)
  then obtain gone tl_rs where f: "filter ?P ?rs = gone # tl_rs" by (meson neq_Nil_conv)
  then have "gone \<in> set (filter ?P ?rs)" by simp
  then have g: "?P gone" "gone \<in> set (Records unmarshal data)" by simp_all
  have p: "prune unmarshal data keep = AList.delete (Key gone) data"
    using let_go_one [OF assms(2) d keys, of ?rs keep] f assms(2) by (simp add: prune_def)
  moreover have "length (AList.delete (Key gone) data) = MaxRecords"
    using delete_one_length [OF d, of "Key gone"] keys [of gone] g(2) assms(2) by simp
  ultimately show ?thesis
    using g prune_order_first [OF f] unfolding first_to_go_def by (intro exI [of _ gone]) auto
qed

section \<open>Properties\<close>

text \<open>
  The cluster keeps a little of every service, within bounds: storing a record into a
  memory of at most 256 well-kept records leaves at most 256 well-kept records, among them the
  one just stored, every other one kept unchanged except at most one; that one is let go only
  from a full memory, and it is the departure of longest ago, or, when nobody has departed, the
  oldest birth. JSON gives back the stored record.
\<close>

theorem memory_lets_go_in_order:
  assumes "well_kept unmarshal data" and "length data \<le> MaxRecords"
    and "LifeName (Bounded r) \<noteq> []" and "unmarshal (marshal (Bounded r)) = Some (Bounded r)"
    and "marshal (Bounded r) \<noteq> []"
  shows "\<exists>ch data'. Put marshal unmarshal data r = (ch, data')
    \<and> map_of data' (Key (Bounded r)) = Some (marshal (Bounded r))
    \<and> length data' \<le> MaxRecords \<and> well_kept unmarshal data'
    \<and> ((\<forall>k. k \<noteq> Key (Bounded r) \<longrightarrow> map_of data' k = map_of data k)
       \<or> (length data = MaxRecords
          \<and> (\<exists>gone. first_to_go unmarshal (AList.update (Key (Bounded r)) (marshal (Bounded r)) data) (Key (Bounded r)) gone
               \<and> (\<forall>k. k \<noteq> Key (Bounded r) \<longrightarrow> map_of data' k = (if k = Key gone then None else map_of data k)))))"
proof -
  let ?k = "Key (Bounded r)" and ?raw = "marshal (Bounded r)"
  let ?d = "AList.update ?k ?raw data"
  have dec: "decoded unmarshal ?raw = Some (Bounded r)" using assms(3,4) by (simp add: decoded_def)
  have wk: "well_kept unmarshal ?d" using assms(1) dec by (intro well_kept_update) simp_all
  show ?thesis
  proof (cases "map_of data ?k = Some ?raw")
    case True
    then have "Put marshal unmarshal data r = (False, data)" by (simp add: Put_def Let_def)
    then show ?thesis using True assms(1,2) by blast
  next
    case False
    then have put: "Put marshal unmarshal data r = (True, prune unmarshal ?d ?k)"
      using assms(5) by (auto simp: Put_def Let_def split: option.splits)
    show ?thesis
    proof (cases "length ?d \<le> MaxRecords")
      case True
      then show ?thesis using put wk by (simp add: prune_def update_conv' ex_bool_eq)
    next
      case over: False
      then have len: "length ?d = Suc MaxRecords" "length data = MaxRecords"
        using assms(2) by (auto simp: length_update split: if_splits)
      obtain gone where g: "first_to_go unmarshal ?d ?k gone" "prune unmarshal ?d ?k = AList.delete (Key gone) ?d"
          "length (prune unmarshal ?d ?k) = MaxRecords"
        using prune_full [OF wk len(1)] by blast
      have "set (prune unmarshal ?d ?k) \<subseteq> set ?d" "distinct (map fst (prune unmarshal ?d ?k))"
        using wk unfolding g(2) by (auto simp: well_kept_def AList.delete_eq) (simp add: distinct_delete flip: AList.delete_eq)
      then have "well_kept unmarshal (prune unmarshal ?d ?k)" using well_kept_subset [OF wk] by blast
      moreover have "Key gone \<noteq> ?k" using g(1) by (simp add: first_to_go_def)
      ultimately show ?thesis using put len(2) g by (auto simp: delete_conv' update_conv')
    qed
  qed
qed

text \<open>A JSON stand-in whose decoder knows one record.\<close>

definition one_life :: life where
  "one_life = \<lparr>LifeNamespace = ''shop'', LifeName = ''cart'', LifeUID = ''0123456789'', Born = ''2026'', Left = [],
     Owners = [''team''], Dependencies = [], ConfigDigest = []\<rparr>"

definition toy_marshal :: "life \<Rightarrow> string" where
  "toy_marshal r = LifeName r"

definition toy_unmarshal :: "string \<Rightarrow> life option" where
  "toy_unmarshal raw = (if raw = ''cart'' then Some one_life else None)"

theorem memory_lets_go_in_order_witness:
  "\<exists>ch data'. Put toy_marshal toy_unmarshal [] one_life = (ch, data')
     \<and> map_of data' ''shop.cart.01234567'' = Some ''cart''"
proof -
  have b: "Bounded one_life = one_life" by code_simp
  have k: "Key one_life = ''shop.cart.01234567''" by code_simp
  have m: "toy_marshal one_life = ''cart''" by code_simp
  have n: "LifeName one_life \<noteq> []" by code_simp
  show ?thesis
    using memory_lets_go_in_order [of toy_unmarshal "[]" one_life toy_marshal]
    by (auto simp: b k m n well_kept_def toy_unmarshal_def)
qed

end
