(* ===== verification/Gestation_Types.thy ===== *)
theory Gestation_Types
  imports Screening Apgar Growth ServiceMemory
begin

text \<open>
  The status of a gestation (\<open>gestation/types.go\<close>) and the API objects its controller
  reads and writes. A message of the code is a constructor with the values the code formats
  into it. API values the code only copies or hands on (label selectors, tolerations,
  affinities, the rest of a pod template) are one opaque type \<open>'x\<close>.
\<close>

section \<open>Status\<close>

datatype message =
    NoMessage
  | ErrorText string
  | DueSince string string string
  | TrimesterOf int string int int
  | Releasing string int
  | WaitingFor string
  | NoSelector string
  | BeingBorn string
  | WentBack int string string string string
  | ApgarLowAt int int string rollback_reason
  | Arrived string int int
  | NewbornHour int int "missing_caregiver + caregivers"
  | ReadyBut string missing_caregiver
  | WentHome string caregivers
  | LeftOn string string

datatype care_note = AutoscalerNote | CoveredNote string | DrainWaitsNote

record birth =
  BirthTime :: gotime
  BirthUID :: string
  Revision :: string
  PreviousRevision :: string
  BirthSelector :: string
  AddedReplica :: bool
  BirthPDB :: string
  RolledBackTo :: string

record care =
  Tier :: int
  CareClass :: string
  CareUntil :: gotime
  Discharged :: "gotime option"
  LastNag :: "gotime option"
  CareNotes :: "care_note list"

record screening =
  ScreenTime :: gotime
  ScreenReason :: string
  Findings :: "finding list"

record status =
  Phase :: phase
  Msg :: message
  StTrimester :: int
  StReserved :: int
  Delivery :: int
  DeliveryStarted :: "gotime option"
  StScreening :: "screening option"
  ScreenedTrimester :: int
  ScreenedRequest :: "gotime option"
  Birth :: "birth option"
  Scores :: "(gotime \<times> apgar) list"
  Care :: "care option"
  Caregivers :: "caregivers option"
  StGrowth :: "sample list"
  GrowthNote :: bool

definition new_status :: status where
  "new_status = \<lparr>Phase = NoPhase, Msg = NoMessage, StTrimester = 0, StReserved = 0, Delivery = 0,
     DeliveryStarted = None, StScreening = None, ScreenedTrimester = 0, ScreenedRequest = None, Birth = None,
     Scores = [], Care = None, Caregivers = None, StGrowth = [], GrowthNote = False\<rparr>"

text \<open>
  A status as its JSON keeps it: \<open>metav1.Time\<close> is written in whole seconds.
\<close>

definition to_second :: "gotime \<Rightarrow> gotime" where
  "to_second t = t div second * second"

definition stored_birth :: "birth \<Rightarrow> birth" where
  "stored_birth b = b\<lparr>BirthTime := to_second (BirthTime b)\<rparr>"

definition stored_care :: "care \<Rightarrow> care" where
  "stored_care x = x\<lparr>CareUntil := to_second (CareUntil x), Discharged := map_option to_second (Discharged x),
     LastNag := map_option to_second (LastNag x)\<rparr>"

definition stored :: "status \<Rightarrow> status" where
  "stored s = s\<lparr>DeliveryStarted := map_option to_second (DeliveryStarted s),
     StScreening := map_option (\<lambda>x. x\<lparr>ScreenTime := to_second (ScreenTime x)\<rparr>) (StScreening s),
     ScreenedRequest := map_option to_second (ScreenedRequest s),
     Birth := map_option stored_birth (Birth s),
     Scores := map (\<lambda>(t, a). (to_second t, a)) (Scores s),
     Care := map_option stored_care (Care s),
     StGrowth := map (\<lambda>x. x\<lparr>SampleTime := to_second (SampleTime x)\<rparr>) (StGrowth s)\<rparr>"

text \<open>The part of a \<open>Gestation\<close> the controller only reads.\<close>

record gestation =
  GName :: string
  GNamespace :: string
  GUID :: string
  GCreated :: gotime
  GSpec :: spec

section \<open>Objects\<close>

record ('q, 'x) pod_template =
  PTView :: "'q template"
  PTSched :: "(strmap, 'x, 'x) scheduling"
  PTRest :: 'x

record ('q, 'x) deployment =
  DepName :: string
  DepNamespace :: string
  DepUID :: string
  DepController :: "string option"
  DepLabels :: strmap
  DepAnnotations :: strmap
  DepReplicas :: "int option"
  DepPaused :: bool
  DepSelector :: 'x
  DepTemplate :: "('q, 'x) pod_template"
  Generation :: int
  ObservedGeneration :: int

record ('q, 'x) replica_set =
  RSName :: string
  RSUID :: string
  RSController :: "string option"
  RSAnnotations :: strmap
  RSTemplate :: "('q, 'x) pod_template"

record pdb_object =
  PobName :: string
  PobUID :: string
  PobLabels :: strmap

record 'q placeholder =
  HoldPhase :: string
  HoldRequests :: "'q rlist list"

type_synonym ('q, 'x) room = "('q, strmap, 'x, 'x) placenta"

definition ptr_deref :: "int option \<Rightarrow> int \<Rightarrow> int" where
  "ptr_deref p d = (case p of None \<Rightarrow> d | Some v \<Rightarrow> v)"

definition owned_by :: "string \<Rightarrow> ('q, 'x) replica_set list \<Rightarrow> ('q, 'x) replica_set list" where
  "owned_by uid all = filter (\<lambda>rs. RSController rs = Some uid) all"

text \<open>\<open>revisionAnnotation\<close>, where the deployment controller numbers revisions.\<close>

definition revisionAnnotation :: string where
  "revisionAnnotation = ''deployment.kubernetes.io/revision''"

definition revision_of :: "('q, 'x) replica_set \<Rightarrow> string" where
  "revision_of rs = lookup_str (RSAnnotations rs) revisionAnnotation"

definition replicaSetAt ::
    "('q, 'x) replica_set list api \<Rightarrow> string \<Rightarrow> string \<Rightarrow> ('q, 'x) replica_set option api" where
  "replicaSetAt rss uid r =
     (case rss of Inl e \<Rightarrow> Inl e
      | Inr all \<Rightarrow> Inr (find (\<lambda>rs. revision_of rs = r) (owned_by uid all)))"

end
