(* ===== verification/Signs.thy ===== *)
theory Signs
  imports Gestation_Types
begin

text \<open>
  \<open>signs\<close> of \<open>controller/gestation/birth.go\<close>: what the Apgar score sees of a
  newborn. The reads (ReplicaSets, pods, pages of warning events, Services, endpoint slices)
  are the fields of the record \<open>observation\<close>, each with its own error; the selector of
  a Service is a \<open>selector\<close>, empty when the code's map is. Counters are
  \<open>int32\<close>.
\<close>

section \<open>What is observed\<close>

record container_status =
  RestartCount :: int
  StateRunning :: bool
  WaitingReason :: "string option"
  TerminatedReason :: "string option"
  LastTerminatedReason :: "string option"

record born_pod =
  BornName :: string
  BornController :: "string option"
  BornPhase :: string
  BornReason :: string
  BornConditions :: "(string \<times> string) list"
  BornStatuses :: "container_status list"

record kube_event =
  EvType :: string
  EvKind :: string
  EvName :: string
  LastTimestamp :: gotime
  EventTime :: gotime
  FirstTimestamp :: gotime
  EvSource :: string
  EvReporter :: string
  EvCount :: int
  EvReason :: string
  EvMessage :: string

record endpoint =
  EpTarget :: "(string \<times> string) option"
  EpReady :: "bool option"

record service =
  SvcName :: string
  SvcSelector :: selector

record ('q, 'x) observation =
  ObsReplicaSets :: "('q, 'x) replica_set list api"
  ObsPods :: "born_pod list api"
  ObsEvents :: "kube_event list api"
  ObsServices :: "service list api"
  ObsSlices :: "string \<Rightarrow> endpoint list api"

section \<open>Pods\<close>

fun podReady_in :: "(string \<times> string) list \<Rightarrow> bool" where
  "podReady_in [] = False"
| "podReady_in ((t, st) # cs) = (if t = ''Ready'' then st = ''True'' else podReady_in cs)"

definition podReady :: "born_pod \<Rightarrow> bool" where
  "podReady p = podReady_in (BornConditions p)"

definition no_signs :: "int \<Rightarrow> signs" where
  "no_signs desired = \<lparr>Desired = desired, Ready = 0, Running = 0, Restarts = 0, CrashLooping = False,
     LivenessFailures = 0, Warnings = 0, Services = 0, ReadyEndpoint = 0, OOMKills = 0, Evictions = 0\<rparr>"

definition oom_killed :: "container_status \<Rightarrow> bool" where
  "oom_killed cs \<longleftrightarrow> LastTerminatedReason cs = Some ''OOMKilled'' \<or> TerminatedReason cs = Some ''OOMKilled''"

definition count_container :: "signs \<Rightarrow> container_status \<Rightarrow> signs" where
  "count_container s cs =
     (let s = s\<lparr>Restarts := i32 (Restarts s + RestartCount cs)\<rparr>;
          s = (if WaitingReason cs = Some ''CrashLoopBackOff'' then s\<lparr>CrashLooping := True\<rparr> else s)
      in if oom_killed cs then s\<lparr>OOMKills := i32 (OOMKills s + 1)\<rparr> else s)"

definition count_pod :: "signs \<Rightarrow> born_pod \<Rightarrow> signs" where
  "count_pod s p =
     (if BornPhase p = PodFailed \<and> BornReason p = ''Evicted'' then s\<lparr>Evictions := i32 (Evictions s + 1)\<rparr>
      else
        let s = (if podReady p then s\<lparr>Ready := i32 (Ready s + 1)\<rparr> else s);
            s = foldl count_container s (BornStatuses p);
            running = (BornPhase p = PodRunning \<and> BornStatuses p \<noteq> [] \<and> list_all StateRunning (BornStatuses p))
        in if running then s\<lparr>Running := i32 (Running s + 1)\<rparr> else s)"

section \<open>Events\<close>

definition EventSource :: string where "EventSource = ''kyvernetria-gestation''"

definition about :: "string list \<Rightarrow> string \<Rightarrow> string \<Rightarrow> kube_event \<Rightarrow> bool" where
  "about names rs d e \<longleftrightarrow>
     (if EvKind e = ''Pod'' then EvName e \<in> set names \<or> has_prefix (EvName e) (rs @ ''-'')
      else if EvKind e = ''ReplicaSet'' then EvName e = rs
      else if EvKind e = ''Deployment'' then EvName e = d
      else False)"

definition eventTime :: "kube_event \<Rightarrow> gotime" where
  "eventTime e =
     (if LastTimestamp e \<noteq> zero_time then LastTimestamp e
      else if EventTime e \<noteq> zero_time then EventTime e
      else FirstTimestamp e)"

definition counts_event :: "string list \<Rightarrow> string \<Rightarrow> string \<Rightarrow> gotime \<Rightarrow> kube_event \<Rightarrow> bool" where
  "counts_event names rs d born e \<longleftrightarrow>
     EvType e = ''Warning'' \<and> about names rs d e \<and> \<not> eventTime e < born
     \<and> EvSource e \<noteq> EventSource \<and> EvReporter e \<noteq> EventSource"

definition count_event :: "signs \<Rightarrow> kube_event \<Rightarrow> signs" where
  "count_event s e =
     (let n = (if EvCount e < 1 then 1 else EvCount e)
      in if EvReason e = ''Unhealthy'' \<and> contains (EvMessage e) ''Liveness probe'' then
           s\<lparr>LivenessFailures := i32 (LivenessFailures s + n)\<rparr>
         else if EvReason e = ''Unhealthy''
                 \<and> (contains (EvMessage e) ''Readiness probe'' \<or> contains (EvMessage e) ''Startup probe'') then s
         else if EvReason e = ''BackOff'' then s
         else s\<lparr>Warnings := i32 (Warnings s + n)\<rparr>)"

section \<open>Endpoints\<close>

definition serves :: "string list \<Rightarrow> endpoint \<Rightarrow> string option" where
  "serves names ep =
     (case EpTarget ep of
        None \<Rightarrow> None
      | Some (kind, name) \<Rightarrow>
          if kind = ''Pod'' \<and> name \<in> set names \<and> (EpReady ep = None \<or> EpReady ep = Some True) then Some name else None)"

definition selects :: "strmap \<Rightarrow> service \<Rightarrow> bool" where
  "selects labels svc \<longleftrightarrow> \<not> SelEmpty (SvcSelector svc) \<and> SelMatches (SvcSelector svc) labels"

fun serving_pods ::
    "(string \<Rightarrow> endpoint list api) \<Rightarrow> string list \<Rightarrow> service list \<Rightarrow> string list api" where
  "serving_pods slices names [] = Inr []"
| "serving_pods slices names (svc # svcs) =
     (case slices (SvcName svc) of
        Inl e \<Rightarrow> Inl e
      | Inr eps \<Rightarrow>
          (case serving_pods slices names svcs of
             Inl e \<Rightarrow> Inl e | Inr ps \<Rightarrow> Inr (List.map_filter (serves names) eps @ ps)))"

section \<open>The signs\<close>

definition signs_of_pods ::
    "('q, 'x) observation \<Rightarrow> ('q, 'x) deployment \<Rightarrow> gotime \<Rightarrow> ('q, 'x) replica_set \<Rightarrow> born_pod list \<Rightarrow> signs \<Rightarrow> signs api" where
  "signs_of_pods obs d born rs pods s =
     (let names = map BornName pods; s = foldl count_pod s pods
      in case ObsEvents obs of
           Inl e \<Rightarrow> Inl e
         | Inr evs \<Rightarrow>
             let s = foldl count_event s (filter (counts_event names (RSName rs) (DepName d) born) evs)
             in (case ObsServices obs of
                   Inl e \<Rightarrow> Inl e
                 | Inr svcs \<Rightarrow>
                     let selecting = filter (selects (TmplLabels (PTView (RSTemplate rs)))) svcs
                     in (case serving_pods (ObsSlices obs) names selecting of
                           Inl e \<Rightarrow> Inl e
                         | Inr ps \<Rightarrow> Inr (s\<lparr>Services := i32 (int (length selecting)),
                                             ReadyEndpoint := i32 (int (card (set ps)))\<rparr>))))"

definition observe_signs :: "('q, 'x) observation \<Rightarrow> ('q, 'x) deployment \<Rightarrow> birth \<Rightarrow> signs api" where
  "observe_signs obs d b =
     (let s = no_signs (ptr_deref (DepReplicas d) 1)
      in case replicaSetAt (ObsReplicaSets obs) (DepUID d) (Revision b) of
           Inl e \<Rightarrow> Inl e
         | Inr None \<Rightarrow> Inr s
         | Inr (Some rs) \<Rightarrow>
             (case ObsPods obs of
                Inl e \<Rightarrow> Inl e
              | Inr all \<Rightarrow> signs_of_pods obs d (BirthTime b) rs (filter (\<lambda>p. BornController p = Some (RSUID rs)) all) s))"

end
