(* ===== verification/Gestation_World.thy ===== *)
theory Gestation_World
  imports Signs
begin

text \<open>
  What the gestation controller talks to: its calls to the API and the library. The cluster is the record \<open>cluster\<close>: every answer is a function of the number of the
  call, so a theorem for all clusters covers every answer at every moment, failures and
  concurrent changes included. Writes and events are logged, a write with whether the API
  confirmed it. The library functions on quantities, selectors, dates, JSON and hashes are the
  record \<open>library\<close>.
\<close>

section \<open>The API and the library\<close>

datatype ('q, 'x) effect =
    CreatePlacenta "('q, 'x) room" string
  | UpdatePlacenta "('q, 'x) deployment" "('q, 'x) room option"
  | DeletePlacenta string string
  | PatchNewborns string "string option"
  | CreatePDB string string string int 'x
  | DeletePDB string string
  | UpdateDeployment "('q, 'x) deployment"
  | DeployEvent string bool string
  | GestationEvent string bool string
  | UpdateStatus string status
  | CreatePriorityClass string int
  | CreateSystemNamespace
  | CreateMemory data
  | UpdateMemory data

record pod_usage =
  UsageCPU :: int
  UsageMemory :: int

record ('q, 'x) cluster =
  GetDeployment :: "nat \<Rightarrow> string \<Rightarrow> ('q, 'x) deployment api"
  PlacentaPods :: "nat \<Rightarrow> 'q placeholder list api"
  ListHPAs :: "nat \<Rightarrow> (string \<times> string) list api"
  ListPDBs :: "nat \<Rightarrow> 'x pdb list api"
  GetPDB :: "nat \<Rightarrow> string \<Rightarrow> pdb_object api"
  GetNamespace :: "nat \<Rightarrow> string \<Rightarrow> strmap api"
  ListNamespaces :: "nat \<Rightarrow> (string \<times> strmap) list api"
  ListReplicaSets :: "nat \<Rightarrow> ('q, 'x) replica_set list api"
  Observe :: "nat \<Rightarrow> ('q, 'x) observation"
  ListMetrics :: "nat \<Rightarrow> pod_usage list list api"
  ListDependencies :: "nat \<Rightarrow> ('q, 'x) deployment \<Rightarrow> string list"
  LookupAt :: "nat \<Rightarrow> ('q, 'x) lookup_api"
  GetPriorityClass :: "nat \<Rightarrow> string \<Rightarrow> unit api"
  FindDeployment :: "nat \<Rightarrow> string \<Rightarrow> string \<Rightarrow> string api"
  GetMemory :: "nat \<Rightarrow> data api"
  Now :: "nat \<Rightarrow> gotime"
  Write :: "nat \<Rightarrow> api_error option"
  HasMetrics :: bool

record ('q, 'x) library =
  Quantities :: "'q qops"
  ParseQuantity :: "string \<Rightarrow> 'q option"
  ParseDate :: "string \<Rightarrow> gotime option"
  AsSelector :: "'x \<Rightarrow> selector option"
  ShowSelector :: "'x \<Rightarrow> string"
  EqualFold :: "string \<Rightarrow> string \<Rightarrow> bool"
  MarshalNewborns :: "newborn_entry list \<Rightarrow> string"
  UnmarshalNewborns :: "string \<Rightarrow> newborn_entry list option"
  MarshalLife :: "life \<Rightarrow> string"
  UnmarshalLife :: "string \<Rightarrow> life option"
  RoomHash :: "('q, 'x) room \<Rightarrow> string"
  DeepEqual :: "('q, 'x) pod_template \<Rightarrow> ('q, 'x) pod_template \<Rightarrow> bool"
  Digest :: "('q, 'x) pod_template \<Rightarrow> string"
  Stamp :: "gotime \<Rightarrow> string"
  DateOnly :: "gotime \<Rightarrow> string"

section \<open>The state of a pass\<close>

text \<open>
  \<open>memory\<close> of \<open>controller/gestation/memory.go\<close>: whether the ConfigMap exists, its
  data, whether they changed, and the time of the pass.
\<close>

record memory =
  MemExists :: bool
  MemData :: data
  MemChanged :: bool
  MemNow :: gotime

record ('q, 'x) ctl =
  St :: status
  Mem :: "memory option"
  Calls :: nat
  Log :: "(('q, 'x) effect \<times> bool) list"

text \<open>A read, a write and an event.\<close>

definition ask :: "(nat \<Rightarrow> 'a) \<Rightarrow> ('q, 'x) ctl \<Rightarrow> 'a \<times> ('q, 'x) ctl" where
  "ask f c = (f (Calls c), c\<lparr>Calls := Suc (Calls c)\<rparr>)"

definition do_write ::
    "('q, 'x) cluster \<Rightarrow> ('q, 'x) effect \<Rightarrow> ('q, 'x) ctl \<Rightarrow> api_error option \<times> ('q, 'x) ctl" where
  "do_write k e c =
     (let r = Write k (Calls c)
      in (r, c\<lparr>Calls := Suc (Calls c), Log := Log c @ [(e, r = None)]\<rparr>))"

definition emit :: "('q, 'x) effect \<Rightarrow> ('q, 'x) ctl \<Rightarrow> ('q, 'x) ctl" where
  "emit e c = c\<lparr>Log := Log c @ [(e, True)]\<rparr>"

definition upd :: "(status \<Rightarrow> status) \<Rightarrow> ('q, 'x) ctl \<Rightarrow> ('q, 'x) ctl" where
  "upd f c = c\<lparr>St := f (St c)\<rparr>"

lemmas ctl_ops = ask_def do_write_def emit_def upd_def

end
