(* ===== verification/Delivery.thy ===== *)
theory Delivery
  imports Gestation_World
begin

text \<open>
  The gestation controller before and at birth: \<open>controller/gestation/pregnancy.go\<close>
  (placeholders, screening, the steps of a pregnancy), \<open>birth.go\<close> (delivery, the
  disruption budget, revisions, scores, rollback) and the parts of \<open>care.go\<close> and
  \<open>memory.go\<close> a delivery uses. Each operation takes the library \<open>L\<close>, the
  cluster \<open>k\<close>, the gestation \<open>g\<close> and the state of the pass, and returns the
  Go error, if any, with the new state.
\<close>

section \<open>Constants\<close>

definition placentaHashAnnotation :: string where
  "placentaHashAnnotation = kyv_prefix @ ''placenta-hash''"
definition bornAnnotation :: string where "bornAnnotation = kyv_prefix @ ''born''"
definition placentaGrace :: duration where "placentaGrace = 2 * minute"
definition ManagedByLabel :: string where "ManagedByLabel = kyv_prefix @ ''managed-by''"
definition ManagedBy :: string where "ManagedBy = ''gestation-controller''"
definition pod_template_hash :: string where "pod_template_hash = ''pod-template-hash''"
definition ReasonScreened :: string where "ReasonScreened = ''PrenatalScreening''"
definition ReasonDelivered :: string where "ReasonDelivered = ''Delivered''"
definition ReasonApgar :: string where "ReasonApgar = ''Apgar''"
definition ReasonApgarLow :: string where "ReasonApgarLow = ''ApgarLow''"
definition ReasonRolledBack :: string where "ReasonRolledBack = ''RolledBack''"

section \<open>The placenta\<close>

definition ensurePlacenta ::
    "('q, 'x) library \<Rightarrow> ('q, 'x) cluster \<Rightarrow> gestation \<Rightarrow> int \<Rightarrow> 'q \<times> 'q \<Rightarrow> ('q, 'x) pod_template option
     \<Rightarrow> ('q, 'x) ctl \<Rightarrow> api_error option \<times> ('q, 'x) ctl" where
  "ensurePlacenta L k g reserved sz tmpl c =
     (let want = Placenta (GName g) (GNamespace g) (SpecDeployment (GSpec g)) (GUID g) reserved sz (map_option PTSched tmpl);
          hash = RoomHash L (want\<lparr>PlReplicas := 0\<rparr>);
          (existing, c) = ask (\<lambda>n. GetDeployment k n (PlName want)) c
      in case existing of
           Inl NotFound \<Rightarrow> do_write k (CreatePlacenta want hash) c
         | Inl e \<Rightarrow> (Some e, c)
         | Inr p \<Rightarrow>
             if DepController p \<noteq> Some (GUID g) then (Some (OtherError (PlName want)), c)
             else if ptr_deref (DepReplicas p) 1 = reserved
                     \<and> lookup_str (DepAnnotations p) placentaHashAnnotation = hash then (None, c)
             else
               let u = p\<lparr>DepReplicas := Some reserved\<rparr>
               in if lookup_str (DepAnnotations p) placentaHashAnnotation \<noteq> hash then
                    do_write k (UpdatePlacenta
                      (u\<lparr>DepAnnotations := (DepAnnotations p)(placentaHashAnnotation \<mapsto> hash)\<rparr>) (Some want)) c
                  else do_write k (UpdatePlacenta u None) c)"

definition placentaPods :: "('q, 'x) cluster \<Rightarrow> ('q, 'x) ctl \<Rightarrow> 'q placeholder list \<times> ('q, 'x) ctl" where
  "placentaPods k c =
     (let (r, c) = ask (PlacentaPods k) c
      in (case r of Inl _ \<Rightarrow> [] | Inr ps \<Rightarrow> filter (\<lambda>p. HoldPhase p \<noteq> PodSucceeded \<and> HoldPhase p \<noteq> PodFailed) ps, c))"

definition releasePlacenta ::
    "('q, 'x) cluster \<Rightarrow> gestation \<Rightarrow> ('q, 'x) ctl \<Rightarrow> (api_error + int) \<times> ('q, 'x) ctl" where
  "releasePlacenta k g c =
     (let count = (\<lambda>c. let (ps, c) = placentaPods k c in (Inr (int (length ps)), c));
          (existing, c) = ask (\<lambda>n. GetDeployment k n (PlacentaName (SpecDeployment (GSpec g)))) c
      in case existing of
           Inl NotFound \<Rightarrow> count c
         | Inl e \<Rightarrow> (Inl e, c)
         | Inr p \<Rightarrow>
             if DepController p \<noteq> Some (GUID g) then count c
             else
               let (r, c) = do_write k (DeletePlacenta (DepName p) (DepUID p)) c
               in (case r of
                     Some e \<Rightarrow> if e = NotFound then count c else (Inl e, c)
                   | None \<Rightarrow> count c))"

definition add_list :: "'q qops \<Rightarrow> 'q rlist \<Rightarrow> 'q rlist \<Rightarrow> 'q rlist" where
  "add_list Q out l = (\<lambda>r. case l r of None \<Rightarrow> out r | Some q \<Rightarrow> Some (QAdd Q (q_at Q out r) q))"

definition placentaUsage :: "'q qops \<Rightarrow> 'q placeholder list \<Rightarrow> 'q rlist" where
  "placentaUsage Q ps =
     foldl (add_list Q) [ResourcePods \<mapsto> QNew Q (int (length ps))] (concat (map HoldRequests ps))"

definition screened_of :: "('q, 'x) deployment \<Rightarrow> 'q screened" where
  "screened_of d = \<lparr>ScName = DepName d, ScNamespace = DepNamespace d, ScTemplate = PTView (DepTemplate d)\<rparr>"

definition screen ::
    "('q, 'x) library \<Rightarrow> ('q, 'x) cluster \<Rightarrow> gestation \<Rightarrow> ('q, 'x) deployment option \<Rightarrow> string \<Rightarrow> gotime
     \<Rightarrow> ('q, 'x) ctl \<Rightarrow> ('q, 'x) ctl" where
  "screen L k g d reason now c =
     (let (ps, c) = placentaPods k c;
          (l, c) = ask (LookupAt k) c;
          findings = Screen (Quantities L) (ParseQuantity L) (AsSelector L)
            \<lparr>InNamespace = GNamespace g, InSpec = GSpec g, InDeployment = map_option screened_of d,
             InPlacenta = placentaUsage (Quantities L) ps\<rparr> l;
          c = upd (\<lambda>s. s\<lparr>StScreening := Some \<lparr>ScreenTime = now, ScreenReason = reason, Findings = findings\<rparr>\<rparr>) c;
          (warning, msg) = Summarize reason findings
      in emit (GestationEvent (GName g) warning ReasonScreened) c)"

section \<open>Pregnancy\<close>

definition pregnancy ::
    "('q, 'x) library \<Rightarrow> ('q, 'x) cluster \<Rightarrow> gestation \<Rightarrow> ('q, 'x) deployment option \<Rightarrow> gotime
     \<Rightarrow> ('q, 'x) ctl \<Rightarrow> api_error option \<times> ('q, 'x) ctl" where
  "pregnancy L k g d now c =
     (case DueTime (ParseDate L) (GSpec g) of
        None \<Rightarrow> (None, upd (\<lambda>s. s\<lparr>Phase := PhaseExpecting, Msg := ErrorText (Due (GSpec g))\<rparr>) c)
      | Some due \<Rightarrow>
          (case ParseSize (ParseQuantity L) (QSign (Quantities L)) (Size (GSpec g)) of
             Inl e \<Rightarrow> (None, upd (\<lambda>s. s\<lparr>Phase := PhaseExpecting, Msg := ErrorText e\<rparr>) c)
           | Inr sz \<Rightarrow>
               let tri = Trimester (GCreated g) due now;
                   reserved = Reserved tri (SpecReplicas (GSpec g));
                   (placeErr, c) = ensurePlacenta L k g reserved sz (map_option DepTemplate d) c;
                   c = upd (\<lambda>s. s\<lparr>StTrimester := tri, StReserved := reserved\<rparr>) c;
                   c = (if tri = 0 then
                          upd (\<lambda>s. s\<lparr>Phase := PhaseDue, Msg := DueSince (Due (GSpec g)) (GName g) (GNamespace g)\<rparr>) c
                        else
                          upd (\<lambda>s. s\<lparr>Phase := PhaseExpecting,
                            Msg := TrimesterOf tri (Due (GSpec g)) reserved (i32 (SpecReplicas (GSpec g) + 1))\<rparr>) c);
                   c = (if tri > ScreenedTrimester (St c) then
                          upd (\<lambda>s. s\<lparr>ScreenedTrimester := tri\<rparr>) (screen L k g d (''trimester-'' @ show_int tri) now c)
                        else c)
               in (placeErr, c)))"

section \<open>The newborn annotation of a namespace\<close>

definition patchNewborns ::
    "('q, 'x) cluster \<Rightarrow> string \<Rightarrow> strmap \<Rightarrow> string \<Rightarrow> ('q, 'x) ctl \<Rightarrow> api_error option \<times> ('q, 'x) ctl" where
  "patchNewborns k ns ann v c =
     (if lookup_str ann NewbornCareAnnotation = v then (None, c)
      else do_write k (PatchNewborns ns (if v = [] then None else Some v)) c)"

definition newborn_entries ::
    "('q, 'x) library \<Rightarrow> strmap \<Rightarrow> string \<Rightarrow> string \<Rightarrow> newborn_entry list" where
  "newborn_entries L ann sel class =
     filter (\<lambda>e. Selector e \<noteq> sel)
       (case DecodeNewborns (UnmarshalNewborns L) (lookup_str ann NewbornCareAnnotation) of None \<Rightarrow> [] | Some es \<Rightarrow> es)
     @ (if class = [] then [] else [\<lparr>Selector = sel, EntryClass = class\<rparr>])"

definition setNewborn ::
    "('q, 'x) library \<Rightarrow> ('q, 'x) cluster \<Rightarrow> string \<Rightarrow> string \<Rightarrow> string
     \<Rightarrow> ('q, 'x) ctl \<Rightarrow> api_error option \<times> ('q, 'x) ctl" where
  "setNewborn L k ns sel class c =
     (let (r, c) = ask (\<lambda>n. GetNamespace k n ns) c
      in case r of
           Inl e \<Rightarrow> (Some e, c)
         | Inr ann \<Rightarrow>
             patchNewborns k ns ann (EncodeNewborns (MarshalNewborns L) (newborn_entries L ann sel class)) c)"

section \<open>The memory of services\<close>

definition mem_put :: "('q, 'x) library \<Rightarrow> life \<Rightarrow> memory \<Rightarrow> memory" where
  "mem_put L r m =
     (let r = (case map_of (MemData m) (Key r) of
                 None \<Rightarrow> r
               | Some raw \<Rightarrow>
                   (case UnmarshalLife L raw of
                      None \<Rightarrow> r
                    | Some old \<Rightarrow>
                        let r = (if Born old \<noteq> [] then r\<lparr>Born := Born old\<rparr> else r)
                        in if Left r = [] then r\<lparr>Left := Left old\<rparr> else r));
          (changed, data) = Put (MarshalLife L) (UnmarshalLife L) (MemData m) r
      in m\<lparr>MemData := data, MemChanged := MemChanged m \<or> changed\<rparr>)"

definition on_mem :: "(memory \<Rightarrow> memory) \<Rightarrow> ('q, 'x) ctl \<Rightarrow> ('q, 'x) ctl" where
  "on_mem f c = c\<lparr>Mem := map_option f (Mem c)\<rparr>"

definition birth_record :: "('q, 'x) library \<Rightarrow> ('q, 'x) deployment \<Rightarrow> gotime \<Rightarrow> life" where
  "birth_record L d now =
     \<lparr>LifeNamespace = DepNamespace d, LifeName = DepName d, LifeUID = DepUID d, Born = Stamp L now, Left = [],
      Owners = [], Dependencies = [], ConfigDigest = Digest L (DepTemplate d)\<rparr>"

section \<open>Disruption budgets\<close>

definition autoscaled :: "(string \<times> string) list \<Rightarrow> string \<Rightarrow> bool" where
  "autoscaled hpas name = list_ex (\<lambda>(kind, n). kind = ''Deployment'' \<and> n = name) hpas"

definition pdb_name :: "('q, 'x) deployment \<Rightarrow> string" where
  "pdb_name d = DepName d @ ''-newborn''"

definition createPDB ::
    "('q, 'x) cluster \<Rightarrow> gestation \<Rightarrow> ('q, 'x) deployment \<Rightarrow> int \<Rightarrow> ('q, 'x) ctl \<Rightarrow> api_error option \<times> ('q, 'x) ctl" where
  "createPDB k g d replicas c =
     (let minAvailable = i32 (replicas - 1);
          minAvailable = (if minAvailable < 1 then 1 else minAvailable);
          (r, c) = do_write k (CreatePDB (DepNamespace d) (pdb_name d) (GUID g) minAvailable (DepSelector d)) c
      in (if r = Some AlreadyExists then None else r, c))"

definition deletePDB :: "('q, 'x) cluster \<Rightarrow> ('q, 'x) ctl \<Rightarrow> api_error option \<times> ('q, 'x) ctl" where
  "deletePDB k c =
     (case Birth (St c) of
        None \<Rightarrow> (None, c)
      | Some b \<Rightarrow>
          if BirthPDB b = [] then (None, c)
          else
            let (r, c) = ask (\<lambda>n. GetPDB k n (BirthPDB b)) c
            in (case r of
                  Inl e \<Rightarrow> (if e = NotFound then None else Some e, c)
                | Inr p \<Rightarrow>
                    if lookup_str (PobLabels p) ManagedByLabel \<noteq> ManagedBy then (None, c)
                    else
                      let (r, c) = do_write k (DeletePDB (PobName p) (PobUID p)) c
                      in (if r = Some NotFound then None else r, c)))"

section \<open>Delivery\<close>

text \<open>
  The steps before the Deployment is changed: the newborn annotation, which has to be in place
  before the first pods exist, the replicas wanted, whether an autoscaler rules them, and the
  disruption budget. A plan is the number of replicas, whether one was added, and the budget
  that covers the service already.
\<close>

definition birth_selector :: "('q, 'x) library \<Rightarrow> ('q, 'x) deployment \<Rightarrow> string" where
  "birth_selector L d = ShowSelector L (DepSelector d)"

definition launch_replicas :: "gestation \<Rightarrow> ('q, 'x) deployment \<Rightarrow> int" where
  "launch_replicas g d = (let want = ptr_deref (DepReplicas d) 1 in if want = 0 then SpecReplicas (GSpec g) else want)"

definition budget ::
    "('q, 'x) library \<Rightarrow> ('q, 'x) cluster \<Rightarrow> gestation \<Rightarrow> ('q, 'x) deployment \<Rightarrow> int \<Rightarrow> ('q, 'x) ctl
     \<Rightarrow> (api_error + string) \<times> ('q, 'x) ctl" where
  "budget L k g d want c =
     (let (pdbs, c) = ask (ListPDBs k) c
      in case pdbs of Inl e \<Rightarrow> (Inl e, c) | Inr pdbs \<Rightarrow>
         let covering = CoveringPDB (AsSelector L) pdbs (TmplLabels (PTView (DepTemplate d))) []
         in if covering \<noteq> [] then (Inr covering, c)
            else let (r, c) = createPDB k g d want c
                 in (case r of Some e \<Rightarrow> Inl e | None \<Rightarrow> Inr [], c))"

definition prepareBirth ::
    "('q, 'x) library \<Rightarrow> ('q, 'x) cluster \<Rightarrow> gestation \<Rightarrow> ('q, 'x) deployment \<Rightarrow> ('q, 'x) ctl
     \<Rightarrow> (api_error + int \<times> bool \<times> string) \<times> ('q, 'x) ctl" where
  "prepareBirth L k g d c =
     (let (r, c) = setNewborn L k (DepNamespace d) (birth_selector L d) (snd (CareTier 0)) c
      in case r of Some e \<Rightarrow> (Inl e, c) | None \<Rightarrow>
         let (hpas, c) = ask (ListHPAs k) c
         in case hpas of Inl e \<Rightarrow> (Inl e, c) | Inr hpas \<Rightarrow>
            let added = (\<not> autoscaled hpas (DepName d));
                want = (if added then i32 (launch_replicas g d + 1) else launch_replicas g d);
                (covering, c) = budget L k g d want c
            in (case covering of Inl e \<Rightarrow> Inl e | Inr covering \<Rightarrow> Inr (want, added, covering), c))"

definition care_notes :: "int \<Rightarrow> bool \<Rightarrow> string \<Rightarrow> care_note list" where
  "care_notes want added covering =
     (if added then [] else [AutoscalerNote])
     @ (if covering \<noteq> [] then [CoveredNote covering] else if want \<le> 1 then [DrainWaitsNote] else [])"

definition new_birth :: "('q, 'x) library \<Rightarrow> ('q, 'x) deployment \<Rightarrow> gotime \<Rightarrow> bool \<Rightarrow> string \<Rightarrow> birth" where
  "new_birth L d now added covering =
     \<lparr>BirthTime = now, BirthUID = DepUID d, Revision = [], PreviousRevision = [], BirthSelector = birth_selector L d,
      AddedReplica = added, BirthPDB = (if covering \<noteq> [] then [] else pdb_name d), RolledBackTo = []\<rparr>"

definition new_care :: "gotime \<Rightarrow> care_note list \<Rightarrow> care" where
  "new_care now notes =
     \<lparr>Tier = fst (CareTier 0), CareClass = snd (CareTier 0), CareUntil = t_add now NewbornCareDuration,
      Discharged = None, LastNag = None, CareNotes = notes\<rparr>"

definition born_deployment ::
    "('q, 'x) library \<Rightarrow> ('q, 'x) deployment \<Rightarrow> gotime \<Rightarrow> int \<Rightarrow> ('q, 'x) deployment" where
  "born_deployment L d now want =
     d\<lparr>DepReplicas := Some want, DepPaused := False, DepLabels := (DepLabels d)(CareLabel \<mapsto> CareNewborn),
       DepAnnotations := (DepAnnotations d)(bornAnnotation \<mapsto> Stamp L now)\<rparr>"

definition commitBirth ::
    "('q, 'x) library \<Rightarrow> ('q, 'x) cluster \<Rightarrow> ('q, 'x) deployment \<Rightarrow> gotime \<Rightarrow> int \<times> bool \<times> string \<Rightarrow> ('q, 'x) ctl
     \<Rightarrow> api_error option \<times> ('q, 'x) ctl" where
  "commitBirth L k d now plan c =
     (let (want, added, covering) = plan;
          (r, c) = do_write k (UpdateDeployment (born_deployment L d now want)) c
      in case r of Some e \<Rightarrow> (Some e, c) | None \<Rightarrow>
         (None, on_mem (mem_put L (birth_record L d now))
           (emit (DeployEvent (DepName d) False ReasonDelivered)
             (upd (\<lambda>s. s\<lparr>Birth := Some (new_birth L d now added covering),
                          Care := Some (new_care now (care_notes want added covering)), Scores := [],
                          Phase := PhaseNewbornCare, Msg := BeingBorn (DepName d)\<rparr>) c))))"

definition giveBirth ::
    "('q, 'x) library \<Rightarrow> ('q, 'x) cluster \<Rightarrow> gestation \<Rightarrow> ('q, 'x) deployment \<Rightarrow> gotime
     \<Rightarrow> ('q, 'x) ctl \<Rightarrow> api_error option \<times> ('q, 'x) ctl" where
  "giveBirth L k g d now c =
     (let (plan, c) = prepareBirth L k g d c
      in case plan of Inl e \<Rightarrow> (Some e, c) | Inr plan \<Rightarrow> commitBirth L k d now plan c)"

definition deliver ::
    "('q, 'x) library \<Rightarrow> ('q, 'x) cluster \<Rightarrow> gestation \<Rightarrow> ('q, 'x) deployment option \<Rightarrow> gotime
     \<Rightarrow> ('q, 'x) ctl \<Rightarrow> api_error option \<times> ('q, 'x) ctl" where
  "deliver L k g d now c =
     (let (held, c) = releasePlacenta k g c
      in case held of Inl e \<Rightarrow> (Some e, c) | Inr held \<Rightarrow>
         let c = upd (\<lambda>s. s\<lparr>StReserved := i32 held, StTrimester := 0\<rparr>) c;
             started = (case DeliveryStarted (St c) of None \<Rightarrow> now | Some t \<Rightarrow> t)
         in if held > 0 \<and> t_sub now started < placentaGrace then
              (None, upd (\<lambda>s. s\<lparr>Msg := Releasing (SpecDeployment (GSpec g)) held\<rparr>) c)
            else case d of
              None \<Rightarrow> (None, upd (\<lambda>s. s\<lparr>Msg := WaitingFor (SpecDeployment (GSpec g))\<rparr>) c)
            | Some d \<Rightarrow>
                (case AsSelector L (DepSelector d) of
                   None \<Rightarrow> (None, upd (\<lambda>s. s\<lparr>Msg := NoSelector (DepName d)\<rparr>) c)
                 | Some sel \<Rightarrow>
                     if SelEmpty sel then (None, upd (\<lambda>s. s\<lparr>Msg := NoSelector (DepName d)\<rparr>) c)
                     else giveBirth L k g d now c))"

section \<open>Revisions\<close>

text \<open>\<open>ParseInt\<close> returns the nearest \<open>int64\<close> with its range error.\<close>

definition rev_number :: "string \<Rightarrow> int" where
  "rev_number s =
     (case parse_int s of
        Some n \<Rightarrow> n
      | None \<Rightarrow>
          if all_digits s \<or> (s \<noteq> [] \<and> hd s = CHR ''+'' \<and> all_digits (tl s)) then 2 ^ 63 - 1
          else if s \<noteq> [] \<and> hd s = CHR ''-'' \<and> all_digits (tl s) then - (2 ^ 63)
          else 0)"

definition revisionNumber :: "('q, 'x) replica_set \<Rightarrow> int" where
  "revisionNumber rs = rev_number (revision_of rs)"

definition drop_hash :: "('q, 'x) pod_template \<Rightarrow> ('q, 'x) pod_template" where
  "drop_hash t = t\<lparr>PTView := (PTView t)\<lparr>TmplLabels := (TmplLabels (PTView t))(pod_template_hash := None)\<rparr>\<rparr>"

definition sameTemplate ::
    "('q, 'x) library \<Rightarrow> ('q, 'x) pod_template \<Rightarrow> ('q, 'x) pod_template \<Rightarrow> bool" where
  "sameTemplate L a b \<longleftrightarrow> DeepEqual L (drop_hash a) (drop_hash b)"

definition newReplicaSet ::
    "('q, 'x) library \<Rightarrow> ('q, 'x) deployment \<Rightarrow> ('q, 'x) replica_set list \<Rightarrow> ('q, 'x) replica_set option" where
  "newReplicaSet L d rss = find (\<lambda>rs. sameTemplate L (RSTemplate rs) (DepTemplate d)) rss"

definition previous_revision :: "int \<Rightarrow> ('q, 'x) replica_set list \<Rightarrow> int" where
  "previous_revision born rss =
     foldl (\<lambda>prev rs. if revisionNumber rs < born \<and> revisionNumber rs > prev then revisionNumber rs else prev) 0 rss"

definition resolved ::
    "('q, 'x) library \<Rightarrow> ('q, 'x) deployment \<Rightarrow> ('q, 'x) replica_set list \<Rightarrow> birth \<Rightarrow> birth" where
  "resolved L d rss b =
     (case newReplicaSet L d rss of
        None \<Rightarrow> b
      | Some newest \<Rightarrow>
          let b = b\<lparr>Revision := revision_of newest\<rparr>;
              prev = previous_revision (revisionNumber newest) rss
          in if prev > 0 then b\<lparr>PreviousRevision := show_int prev\<rparr> else b)"

definition resolveRevisions ::
    "('q, 'x) library \<Rightarrow> ('q, 'x) cluster \<Rightarrow> ('q, 'x) deployment \<Rightarrow> birth \<Rightarrow> ('q, 'x) ctl
     \<Rightarrow> api_error option \<times> ('q, 'x) ctl" where
  "resolveRevisions L k d b c =
     (if Revision b \<noteq> [] \<or> ObservedGeneration d < Generation d then (None, c)
      else
        let (rss, c) = ask (ListReplicaSets k) c
        in case rss of
             Inl e \<Rightarrow> (Some e, c)
           | Inr all \<Rightarrow> (None, upd (\<lambda>s. s\<lparr>Birth := Some (resolved L d (owned_by (DepUID d) all) b)\<rparr>) c))"

section \<open>Scores and rollback\<close>

definition endCare :: "birth \<Rightarrow> ('q, 'x) deployment \<Rightarrow> ('q, 'x) deployment" where
  "endCare b d =
     (let d = (if AddedReplica b \<and> ptr_deref (DepReplicas d) 1 > 1
               then d\<lparr>DepReplicas := Some (i32 (ptr_deref (DepReplicas d) 1 - 1))\<rparr> else d)
      in d\<lparr>DepLabels := (DepLabels d)(CareLabel := None)\<rparr>)"

definition rollback ::
    "('q, 'x) cluster \<Rightarrow> ('q, 'x) deployment \<Rightarrow> birth \<Rightarrow> ('q, 'x) ctl \<Rightarrow> api_error option \<times> ('q, 'x) ctl" where
  "rollback k d b c =
     (let (rss, c) = ask (ListReplicaSets k) c
      in case replicaSetAt rss (DepUID d) (PreviousRevision b) of
           Inl e \<Rightarrow> (Some e, c)
         | Inr None \<Rightarrow> (Some (OtherError ''revision is gone''), c)
         | Inr (Some rs) \<Rightarrow>
             let (r, c) = do_write k (UpdateDeployment (endCare b (d\<lparr>DepTemplate := drop_hash (RSTemplate rs)\<rparr>))) c
             in (case r of
                   Some e \<Rightarrow> (Some e, c)
                 | None \<Rightarrow>
                     deletePDB k (upd (\<lambda>s. s\<lparr>Birth := Some (b\<lparr>RolledBackTo := PreviousRevision b\<rparr>), Care := None\<rparr>) c)))"

definition tell_score ::
    "('q, 'x) deployment \<Rightarrow> apgar \<Rightarrow> rollback_reason \<Rightarrow> ('q, 'x) ctl \<Rightarrow> ('q, 'x) ctl" where
  "tell_score d score why c =
     (if TotalScore score < Reassuring then
        upd (\<lambda>s. s\<lparr>Msg := ApgarLowAt (TotalScore score) (Minute score) (Weakest score) why\<rparr>)
          (emit (DeployEvent (DepName d) True ReasonApgarLow) c)
      else if Minute score = 1 then emit (DeployEvent (DepName d) False ReasonApgar) c
      else
        upd (\<lambda>s. s\<lparr>Msg := Arrived (DepName d) (TotalScore score) (Minute score)\<rparr>)
          (emit (DeployEvent (DepName d) False ReasonApgar) c))"

definition apgar_step ::
    "('q, 'x) cluster \<Rightarrow> gestation \<Rightarrow> ('q, 'x) deployment \<Rightarrow> birth \<Rightarrow> gotime \<Rightarrow> ('q, 'x) ctl
     \<Rightarrow> api_error option \<times> ('q, 'x) ctl" where
  "apgar_step k g d b now c =
     (let next = NextMinute (map snd (Scores (St c)))
      in if next = 0 \<or> Revision b = [] \<or> now < t_add (BirthTime b) (next * minute) then (None, c)
         else
           let (obs, c) = ask (Observe k) c
           in case observe_signs obs d b of Inl e \<Rightarrow> (Some e, c) | Inr signs \<Rightarrow>
              let score = ApgarScore next signs;
                  (roll, why) = Rollback score (RollbackEnabled (GSpec g)) (PreviousRevision b);
                  (r, c) = (if roll then rollback k d b c else (None, c))
              in case r of Some e \<Rightarrow> (Some e, c) | None \<Rightarrow>
                 let c = upd (\<lambda>s. s\<lparr>Scores := Scores s @ [(now, score)]\<rparr>) c
                 in if roll then
                      (None, emit (DeployEvent (DepName d) True ReasonRolledBack)
                        (upd (\<lambda>s. s\<lparr>Phase := PhaseRolledBack,
                           Msg := WentBack (TotalScore score) (DepName d) (PreviousRevision b) (GName g) (GNamespace g)\<rparr>) c))
                    else (None, tell_score d score why c))"


end
