(* ===== verification/Gestations.thy ===== *)
theory Gestations
  imports Delivery
begin

text \<open>
  The gestation controller from birth on (\<open>controller/gestation/care.go\<close>), its memory
  (\<open>memory.go\<close>) and a whole pass over one gestation (\<open>reconcile\<close> of
  \<open>controller.go\<close>). Errors a Go function aggregates are a list, empty for nil.
\<close>

section \<open>Care\<close>

definition nagInterval :: duration where "nagInterval = 12 * hour"
definition ReasonDischarged :: string where "ReasonDischarged = ''Discharged''"
definition ReasonNeedsCaregive :: string where "ReasonNeedsCaregive = ''NeedsCaregivers''"
definition ReasonDeparted :: string where "ReasonDeparted = ''Departed''"

definition inCare :: "status \<Rightarrow> bool" where
  "inCare s \<longleftrightarrow> Care s \<noteq> None \<and> (Phase s = PhaseNewbornCare \<or> Phase s = PhaseNeedsCaregivers)"

definition set_care :: "(care \<Rightarrow> care) \<Rightarrow> status \<Rightarrow> status" where
  "set_care f s = s\<lparr>Care := map_option f (Care s)\<rparr>"

definition discharge ::
    "('q, 'x) library \<Rightarrow> ('q, 'x) cluster \<Rightarrow> ('q, 'x) deployment \<Rightarrow> birth \<Rightarrow> gotime \<Rightarrow> caregivers \<Rightarrow> ('q, 'x) ctl
     \<Rightarrow> api_error option \<times> ('q, 'x) ctl" where
  "discharge L k d b now cg c =
     (let (r, c) = do_write k (UpdateDeployment (endCare b d)) c
      in case r of Some e \<Rightarrow> (Some e, c) | None \<Rightarrow>
         let (r, c) = deletePDB k c
         in case r of Some e \<Rightarrow> (Some e, c) | None \<Rightarrow>
            (None, emit (DeployEvent (DepName d) False ReasonDischarged)
              (upd (\<lambda>s. (set_care (\<lambda>x. x\<lparr>Tier := 0, CareClass := [], Discharged := Some now\<rparr>) s)
                 \<lparr>Phase := PhaseGrown, Msg := WentHome (DateOnly L now) cg\<rparr>) c)))"

definition named :: "caregivers \<Rightarrow> caregivers option" where
  "named cg = (if Primary cg \<noteq> [] \<or> Secondary cg \<noteq> [] then Some cg else None)"

definition care_step ::
    "('q, 'x) library \<Rightarrow> ('q, 'x) cluster \<Rightarrow> ('q, 'x) deployment \<Rightarrow> birth \<Rightarrow> gotime \<Rightarrow> ('q, 'x) ctl
     \<Rightarrow> api_error option \<times> ('q, 'x) ctl" where
  "care_step L k d b now c =
     (let since = t_sub now (BirthTime b);
          (cg, ok, missing) = CaregiversOf (EqualFold L) (DepAnnotations d);
          c = upd (\<lambda>s. s\<lparr>Caregivers := named cg\<rparr>) c;
          (tier, class) = CareTier since
      in if tier > 0 then
           (None, upd (\<lambda>s. (set_care (\<lambda>x. x\<lparr>Tier := tier, CareClass := class\<rparr>) s)
             \<lparr>Phase := PhaseNewbornCare,
              Msg := NewbornHour (go_div since hour + 1) (go_div NewbornCareDuration hour)
                       (if ok then Inr cg else Inl missing)\<rparr>) c)
         else if ok then discharge L k d b now cg c
         else
           let c = upd (\<lambda>s. (set_care (\<lambda>x. x\<lparr>Tier := fst LastTierClass, CareClass := snd LastTierClass\<rparr>) s)
                     \<lparr>Phase := PhaseNeedsCaregivers, Msg := ReadyBut (DepName d) missing\<rparr>) c
           in if (case Care (St c) of None \<Rightarrow> False
                    | Some x \<Rightarrow> (case LastNag x of None \<Rightarrow> True | Some t \<Rightarrow> t_sub now t \<ge> nagInterval)) then
                (None, upd (set_care (\<lambda>x. x\<lparr>LastNag := Some now\<rparr>))
                  (emit (DeployEvent (DepName d) True ReasonNeedsCaregive) c))
              else (None, c))"

section \<open>Memory\<close>

definition mem_depart :: "('q, 'x) library \<Rightarrow> string \<Rightarrow> string \<Rightarrow> string \<Rightarrow> gotime \<Rightarrow> memory \<Rightarrow> memory" where
  "mem_depart L ns name uid at_time m =
     (let key = Key \<lparr>LifeNamespace = ns, LifeName = name, LifeUID = uid, Born = [], Left = [], Owners = [],
                     Dependencies = [], ConfigDigest = []\<rparr>
      in case map_of (MemData m) key of
           None \<Rightarrow> m
         | Some raw \<Rightarrow>
             (case UnmarshalLife L raw of
                None \<Rightarrow> m
              | Some r \<Rightarrow>
                  if ServiceMemory.Departed r then m
                  else
                    let (changed, data) = Put (MarshalLife L) (UnmarshalLife L) (MemData m) (r\<lparr>Left := Stamp L at_time\<rparr>)
                    in m\<lparr>MemData := data, MemChanged := MemChanged m \<or> changed\<rparr>))"

definition remember ::
    "('q, 'x) library \<Rightarrow> ('q, 'x) cluster \<Rightarrow> ('q, 'x) deployment \<Rightarrow> ('q, 'x) ctl \<Rightarrow> ('q, 'x) ctl" where
  "remember L k d c =
     (let (deps, c) = ask (\<lambda>n. ListDependencies k n d) c;
          r = \<lparr>LifeNamespace = DepNamespace d, LifeName = DepName d, LifeUID = DepUID d,
               Born = (case Birth (St c) of None \<Rightarrow> [] | Some b \<Rightarrow> Stamp L (BirthTime b)), Left = [],
               Owners = (case Caregivers (St c) of None \<Rightarrow> [] | Some cg \<Rightarrow> [Primary cg, Secondary cg]),
               Dependencies = deps, ConfigDigest = Digest L (DepTemplate d)\<rparr>
      in on_mem (mem_put L r) c)"

section \<open>Growth\<close>

definition average_usage :: "gotime \<Rightarrow> pod_usage list list \<Rightarrow> sample" where
  "average_usage now ps =
     (let n = int (length ps);
          cpu = foldl (\<lambda>s u. i64 (s + UsageCPU u)) 0 (concat ps);
          mem = foldl (\<lambda>s u. i64 (s + UsageMemory u)) 0 (concat ps)
      in \<lparr>SampleTime = now, CPUMilli = go_div cpu n, MemoryBytes = go_div mem n, SamplePods = i32 n\<rparr>)"

definition measure_step ::
    "('q, 'x) cluster \<Rightarrow> bool \<Rightarrow> gotime \<Rightarrow> ('q, 'x) ctl \<Rightarrow> ('q, 'x) ctl" where
  "measure_step k newborn now c =
     (if \<not> HasMetrics k \<or> \<not> SampleDue (StGrowth (St c)) newborn now then c
      else
        let (r, c) = ask (ListMetrics k) c
        in case r of
             Inl _ \<Rightarrow> upd (\<lambda>s. s\<lparr>GrowthNote := True\<rparr>) c
           | Inr ps \<Rightarrow>
               if ps = [] then c
               else upd (\<lambda>s. s\<lparr>StGrowth := AppendSample (StGrowth s) (average_usage now ps), GrowthNote := False\<rparr>) c)"

section \<open>After birth\<close>

definition depart ::
    "('q, 'x) library \<Rightarrow> ('q, 'x) cluster \<Rightarrow> gestation \<Rightarrow> birth \<Rightarrow> gotime \<Rightarrow> ('q, 'x) ctl
     \<Rightarrow> api_error option \<times> ('q, 'x) ctl" where
  "depart L k g b now c =
     (if Phase (St c) = PhaseDeparted then (None, c)
      else
        let (r, c) = deletePDB k c;
            c = upd (\<lambda>s. s\<lparr>Phase := PhaseDeparted, Care := None, Msg := LeftOn (SpecDeployment (GSpec g)) (DateOnly L now)\<rparr>) c;
            c = on_mem (mem_depart L (GNamespace g) (SpecDeployment (GSpec g)) (BirthUID b) now) c
        in (r, emit (GestationEvent (GName g) False ReasonDeparted) c))"

definition errs :: "api_error option \<Rightarrow> api_error list" where
  "errs r = (case r of None \<Rightarrow> [] | Some e \<Rightarrow> [e])"

text \<open>The birth is re-read from the status: \<open>b\<close> is a pointer into it.\<close>

definition birth_now :: "birth \<Rightarrow> ('q, 'x) ctl \<Rightarrow> birth" where
  "birth_now b c = (case Birth (St c) of None \<Rightarrow> b | Some b' \<Rightarrow> b')"

definition tend ::
    "('q, 'x) library \<Rightarrow> ('q, 'x) cluster \<Rightarrow> gestation \<Rightarrow> ('q, 'x) deployment \<Rightarrow> birth \<Rightarrow> gotime \<Rightarrow> ('q, 'x) ctl
     \<Rightarrow> api_error list \<times> ('q, 'x) ctl" where
  "tend L k g d b now c =
     (let (r1, c) = resolveRevisions L k d b c;
          (r2, c) = (if inCare (St c) then apgar_step k g d (birth_now b c) now c else (None, c));
          (r3, c) = (if inCare (St c) then care_step L k d (birth_now b c) now c else (None, c))
      in (errs r1 @ errs r2 @ errs r3, c))"

definition look_after ::
    "('q, 'x) library \<Rightarrow> ('q, 'x) cluster \<Rightarrow> gestation \<Rightarrow> ('q, 'x) deployment \<Rightarrow> birth \<Rightarrow> gotime \<Rightarrow> ('q, 'x) ctl
     \<Rightarrow> api_error list \<times> ('q, 'x) ctl" where
  "look_after L k g d b now c =
     (let (es, c) = tend L k g d b now c;
          c = measure_step k (inCare (St c)) now c;
          c = (if Mem c \<noteq> None then remember L k d c else c)
      in (es, c))"

definition afterBirth ::
    "('q, 'x) library \<Rightarrow> ('q, 'x) cluster \<Rightarrow> gestation \<Rightarrow> ('q, 'x) deployment option \<Rightarrow> birth \<Rightarrow> gotime \<Rightarrow> ('q, 'x) ctl
     \<Rightarrow> api_error list \<times> ('q, 'x) ctl" where
  "afterBirth L k g d b now c =
     (case d of
        None \<Rightarrow> (let (r, c) = depart L k g b now c in (errs r, c))
      | Some d \<Rightarrow>
          if DepUID d \<noteq> BirthUID b then (let (r, c) = depart L k g b now c in (errs r, c))
          else look_after L k g d b now c)"

section \<open>A pass\<close>

definition redelivery :: "gestation \<Rightarrow> gotime \<Rightarrow> status \<Rightarrow> status" where
  "redelivery g now s =
     (if SpecDelivery (GSpec g) > Delivery s \<and> (Birth s = None \<or> Phase s = PhaseRolledBack)
      then s\<lparr>Delivery := SpecDelivery (GSpec g), DeliveryStarted := Some now, Birth := None, Scores := [], Care := None,
             Phase := PhaseDelivering\<rparr>
      else s)"

definition advance ::
    "('q, 'x) library \<Rightarrow> ('q, 'x) cluster \<Rightarrow> gestation \<Rightarrow> ('q, 'x) deployment option \<Rightarrow> gotime \<Rightarrow> ('q, 'x) ctl
     \<Rightarrow> api_error list \<times> ('q, 'x) ctl" where
  "advance L k g d now c =
     (if Phase (St c) = PhaseDelivering then (let (r, c) = deliver L k g d now c in (errs r, c))
      else case Birth (St c) of
        None \<Rightarrow> (let (r, c) = pregnancy L k g d now c in (errs r, c))
      | Some b \<Rightarrow> afterBirth L k g d b now c)"

definition screen_requested ::
    "('q, 'x) library \<Rightarrow> ('q, 'x) cluster \<Rightarrow> gestation \<Rightarrow> ('q, 'x) deployment option \<Rightarrow> gotime \<Rightarrow> ('q, 'x) ctl
     \<Rightarrow> ('q, 'x) ctl" where
  "screen_requested L k g d now c =
     (case ScreenRequested (GSpec g) of
        None \<Rightarrow> c
      | Some r \<Rightarrow>
          if ScreenedRequest (St c) = Some r then c
          else upd (\<lambda>s. s\<lparr>ScreenedRequest := Some r\<rparr>) (screen L k g d ''requested'' now c))"

definition reconcile ::
    "('q, 'x) library \<Rightarrow> ('q, 'x) cluster \<Rightarrow> gestation \<Rightarrow> gotime \<Rightarrow> ('q, 'x) ctl
     \<Rightarrow> api_error list \<times> ('q, 'x) ctl" where
  "reconcile L k g now c =
     (let before = St c;
          (r, c) = ask (\<lambda>n. GetDeployment k n (SpecDeployment (GSpec g))) c;
          d = (case r of Inl _ \<Rightarrow> None | Inr d \<Rightarrow> Some d)
      in case r of
           Inl (Conflict) \<Rightarrow> ([Conflict], c)
         | Inl (AlreadyExists) \<Rightarrow> ([AlreadyExists], c)
         | Inl (OtherError m) \<Rightarrow> ([OtherError m], c)
         | _ \<Rightarrow>
             let c = upd (redelivery g now) c;
                 (es, c) = advance L k g d now c;
                 c = screen_requested L k g d now c
             in if stored (St c) = stored before then (es, c)
                else (let (r, c) = do_write k (UpdateStatus (GName g) (stored (St c))) c in (es @ errs r, c)))"

section \<open>Every namespace's newborns\<close>

definition newborns_in :: "string \<Rightarrow> (gestation \<times> status) list \<Rightarrow> newborn_entry list" where
  "newborns_in ns all =
     List.map_filter (\<lambda>(g, s).
       case (Birth s, Care s) of
         (Some b, Some x) \<Rightarrow>
           if GNamespace g = ns \<and> inCare s \<and> CareClass x \<noteq> []
           then Some \<lparr>Selector = BirthSelector b, EntryClass = CareClass x\<rparr> else None
       | _ \<Rightarrow> None) all"

fun patch_namespaces ::
    "('q, 'x) library \<Rightarrow> ('q, 'x) cluster \<Rightarrow> (gestation \<times> status) list \<Rightarrow> (string \<times> strmap) list
     \<Rightarrow> ('q, 'x) ctl \<Rightarrow> api_error list \<times> ('q, 'x) ctl" where
  "patch_namespaces L k all [] c = ([], c)"
| "patch_namespaces L k all ((ns, ann) # nss) c =
     (let (r, c) = patchNewborns k ns ann (EncodeNewborns (MarshalNewborns L) (newborns_in ns all)) c;
          (es, c) = patch_namespaces L k all nss c
      in (errs r @ es, c))"

definition syncNewborns ::
    "('q, 'x) library \<Rightarrow> ('q, 'x) cluster \<Rightarrow> (gestation \<times> status) list \<Rightarrow> ('q, 'x) ctl
     \<Rightarrow> api_error list \<times> ('q, 'x) ctl" where
  "syncNewborns L k all c =
     (let (nss, c) = ask (ListNamespaces k) c
      in case nss of Inl e \<Rightarrow> ([e], c) | Inr nss \<Rightarrow> patch_namespaces L k all nss c)"

section \<open>The memory over a pass\<close>

definition loadMemory :: "('q, 'x) cluster \<Rightarrow> gotime \<Rightarrow> ('q, 'x) ctl \<Rightarrow> api_error option \<times> ('q, 'x) ctl" where
  "loadMemory k now c =
     (let (r, c) = ask (GetMemory k) c
      in case r of
           Inr d \<Rightarrow> (None, c\<lparr>Mem := Some \<lparr>MemExists = True, MemData = d, MemChanged = False, MemNow = now\<rparr>\<rparr>)
         | Inl e \<Rightarrow>
             if e = NotFound
             then (None, c\<lparr>Mem := Some \<lparr>MemExists = False, MemData = [], MemChanged = False, MemNow = now\<rparr>\<rparr>)
             else (Some e, c\<lparr>Mem := None\<rparr>))"

fun close_all ::
    "('q, 'x) library \<Rightarrow> ('q, 'x) cluster \<Rightarrow> life list \<Rightarrow> ('q, 'x) ctl \<Rightarrow> ('q, 'x) ctl" where
  "close_all L k [] c = c"
| "close_all L k (r # rs) c =
     (if ServiceMemory.Departed r then close_all L k rs c
      else
        let (d, c) = ask (\<lambda>n. FindDeployment k n (LifeNamespace r) (LifeName r)) c;
            gone = (case d of Inl e \<Rightarrow> e = NotFound | Inr uid \<Rightarrow> uid \<noteq> LifeUID r)
        in close_all L k rs
             (if gone then on_mem (\<lambda>m. mem_depart L (LifeNamespace r) (LifeName r) (LifeUID r) (MemNow m) m) c else c))"

definition closeDeparted ::
    "('q, 'x) library \<Rightarrow> ('q, 'x) cluster \<Rightarrow> ('q, 'x) ctl \<Rightarrow> ('q, 'x) ctl" where
  "closeDeparted L k c =
     (case Mem c of None \<Rightarrow> c | Some m \<Rightarrow> close_all L k (Records (UnmarshalLife L) (MemData m)) c)"

definition saveMemory :: "('q, 'x) cluster \<Rightarrow> memory \<Rightarrow> ('q, 'x) ctl \<Rightarrow> api_error option \<times> ('q, 'x) ctl" where
  "saveMemory k m c =
     (if \<not> MemChanged m then (None, c)
      else if MemExists m then do_write k (UpdateMemory (MemData m)) c
      else
        let (r, c) = do_write k CreateSystemNamespace c
        in if r \<noteq> None \<and> r \<noteq> Some AlreadyExists then (r, c)
           else do_write k (CreateMemory (MemData m)) c)"

section \<open>A sync\<close>

fun ensure_classes ::
    "('q, 'x) cluster \<Rightarrow> (string \<times> int) list \<Rightarrow> ('q, 'x) ctl \<Rightarrow> api_error list \<times> ('q, 'x) ctl" where
  "ensure_classes k [] c = ([], c)"
| "ensure_classes k ((name, v) # pcs) c =
     (let (r, c) = ask (\<lambda>n. GetPriorityClass k n name) c;
          (r, c) = (if r = Inl NotFound then
                      (let (r, c) = do_write k (CreatePriorityClass name v) c
                       in (if r = Some AlreadyExists then None else r, c))
                    else (case r of Inl e \<Rightarrow> Some e | Inr _ \<Rightarrow> None, c));
          (es, c) = ensure_classes k pcs c
      in (errs r @ es, c))"

definition ensurePriorityClasses :: "('q, 'x) cluster \<Rightarrow> ('q, 'x) ctl \<Rightarrow> api_error list \<times> ('q, 'x) ctl" where
  "ensurePriorityClasses k c = ensure_classes k PriorityClasses c"

text \<open>Every gestation in the order of the list, each with the status that was read.\<close>

fun reconcile_all ::
    "('q, 'x) library \<Rightarrow> ('q, 'x) cluster \<Rightarrow> (gestation \<times> status) list \<Rightarrow> ('q, 'x) ctl
     \<Rightarrow> api_error list \<times> (gestation \<times> status) list \<times> ('q, 'x) ctl" where
  "reconcile_all L k [] c = ([], [], c)"
| "reconcile_all L k ((g, s) # gs) c =
     (let (now, c) = ask (Now k) (c\<lparr>St := s\<rparr>);
          (es, c) = reconcile L k g now c;
          s' = St c;
          (es', all, c) = reconcile_all L k gs c
      in (es @ es', (g, s') # all, c))"

text \<open>\<open>Sync\<close> once the custom resource is served and the gestations are listed.\<close>

definition Sync ::
    "('q, 'x) library \<Rightarrow> ('q, 'x) cluster \<Rightarrow> (gestation \<times> status) list \<Rightarrow> ('q, 'x) ctl
     \<Rightarrow> api_error list \<times> (gestation \<times> status) list \<times> ('q, 'x) ctl" where
  "Sync L k gs c =
     (let (es1, c) = ensurePriorityClasses k c;
          (now, c) = ask (Now k) c;
          (r, c) = loadMemory k now c;
          (es2, all, c) = reconcile_all L k gs c;
          (es3, c) = syncNewborns L k all c
      in case Mem c of
           None \<Rightarrow> (es1 @ errs r @ es2 @ es3, all, c)
         | Some _ \<Rightarrow>
             let c = closeDeparted L k c;
                 (r', c) = (case Mem c of None \<Rightarrow> (None, c) | Some m \<Rightarrow> saveMemory k m c)
             in (es1 @ errs r @ es2 @ es3 @ errs r', all, c))"


end
