(* ===== verification/Lifecycle.thy ===== *)
theory Lifecycle
  imports Gestations
begin

text \<open>
  The life of a gestation over the passes of its controller: what each operation does to the
  status, the invariant \<open>consistent\<close> of the status, the phases a pass may lead to, and
  the reachable statuses when passes follow one another with any specification, clock and
  cluster and any status write may be lost.
\<close>

section \<open>What the operations leave alone\<close>

named_theorems ctl_simps

lemma ask_simps [ctl_simps, simp]:
  "fst (ask f c) = f (Calls c)" "St (snd (ask f c)) = St c" "Log (snd (ask f c)) = Log c" "Mem (snd (ask f c)) = Mem c"
  "Calls (snd (ask f c)) = Suc (Calls c)"
  by (simp_all add: ask_def)

lemma do_write_simps [ctl_simps, simp]:
  "fst (do_write k e c) = Write k (Calls c)" "St (snd (do_write k e c)) = St c" "Mem (snd (do_write k e c)) = Mem c"
  "Log (snd (do_write k e c)) = Log c @ [(e, Write k (Calls c) = None)]" "Calls (snd (do_write k e c)) = Suc (Calls c)"
  by (simp_all add: do_write_def Let_def)

lemma emit_simps [ctl_simps, simp]:
  "St (emit e c) = St c" "Mem (emit e c) = Mem c" "Log (emit e c) = Log c @ [(e, True)]" "Calls (emit e c) = Calls c"
  by (simp_all add: emit_def)

lemma upd_simps [ctl_simps, simp]:
  "St (upd f c) = f (St c)" "Mem (upd f c) = Mem c" "Log (upd f c) = Log c" "Calls (upd f c) = Calls c"
  by (simp_all add: upd_def)

lemma on_mem_simps [ctl_simps, simp]:
  "St (on_mem f c) = St c" "Log (on_mem f c) = Log c" "Calls (on_mem f c) = Calls c"
  by (simp_all add: on_mem_def)

lemma St_placentaPods [simp]: "St (snd (placentaPods k c)) = St c"
  by (simp add: placentaPods_def case_prod_beta)

lemma St_ensurePlacenta [simp]: "St (snd (ensurePlacenta L k g r sz t c)) = St c"
  by (simp add: ensurePlacenta_def Let_def case_prod_beta split: sum.splits api_error.splits)

lemma St_releasePlacenta [simp]: "St (snd (releasePlacenta k g c)) = St c"
  by (simp add: releasePlacenta_def Let_def case_prod_beta split: sum.splits api_error.splits option.splits)

lemma St_patchNewborns [simp]: "St (snd (patchNewborns k ns ann v c)) = St c"
  by (simp add: patchNewborns_def)

lemma St_setNewborn [simp]: "St (snd (setNewborn L k ns sel class c)) = St c"
  by (simp add: setNewborn_def Let_def case_prod_beta split: sum.splits)

lemma St_createPDB [simp]: "St (snd (createPDB k g d r c)) = St c"
  by (simp add: createPDB_def Let_def case_prod_beta)

lemma St_deletePDB [simp]: "St (snd (deletePDB k c)) = St c"
  by (simp add: deletePDB_def Let_def case_prod_beta split: sum.splits option.splits)

lemma St_remember [simp]: "St (remember L k d c) = St c"
  by (simp add: remember_def Let_def case_prod_beta)

lemma screen_keeps [simp]:
  "Phase (St (screen L k g d reason now c)) = Phase (St c)"
  "Birth (St (screen L k g d reason now c)) = Birth (St c)"
  "Care (St (screen L k g d reason now c)) = Care (St c)"
  "Scores (St (screen L k g d reason now c)) = Scores (St c)"
  by (simp_all add: screen_def Let_def case_prod_beta)

lemma screen_requested_keeps [simp]:
  "Phase (St (screen_requested L k g d now c)) = Phase (St c)"
  "Birth (St (screen_requested L k g d now c)) = Birth (St c)"
  "Care (St (screen_requested L k g d now c)) = Care (St c)"
  "Scores (St (screen_requested L k g d now c)) = Scores (St c)"
  by (simp_all add: screen_requested_def split: option.splits)

lemma measure_keeps [simp]:
  "Phase (St (measure_step k nb now c)) = Phase (St c)"
  "Birth (St (measure_step k nb now c)) = Birth (St c)"
  "Care (St (measure_step k nb now c)) = Care (St c)"
  "Scores (St (measure_step k nb now c)) = Scores (St c)"
  by (simp_all add: measure_step_def Let_def case_prod_beta split: sum.splits)

section \<open>Consistency and the phases that may follow\<close>

definition consistent :: "status \<Rightarrow> bool" where
  "consistent s \<longleftrightarrow>
     (case Phase s of
        PhaseGrown \<Rightarrow>
          Birth s \<noteq> None
          \<and> (case Care s of None \<Rightarrow> False | Some x \<Rightarrow> Tier x = 0 \<and> CareClass x = [] \<and> Discharged x \<noteq> None)
      | PhaseDeparted \<Rightarrow> Birth s \<noteq> None \<and> Care s = None
      | PhaseRolledBack \<Rightarrow> Care s = None \<and> (case Birth s of None \<Rightarrow> False | Some b \<Rightarrow> RolledBackTo b \<noteq> [])
      | PhaseNewbornCare \<Rightarrow> (case Birth s of None \<Rightarrow> False | Some b \<Rightarrow> Care s = None \<longleftrightarrow> RolledBackTo b \<noteq> [])
      | PhaseNeedsCaregivers \<Rightarrow> (case Birth s of None \<Rightarrow> False | Some b \<Rightarrow> Care s = None \<longleftrightarrow> RolledBackTo b \<noteq> [])
      | _ \<Rightarrow> Birth s = None \<and> Care s = None)"

definition next_phases :: "phase \<Rightarrow> phase list" where
  "next_phases p =
     (if p = PhaseDeparted then [PhaseDeparted]
      else if p = PhaseGrown then [PhaseGrown, PhaseDeparted]
      else if p = PhaseNewbornCare \<or> p = PhaseNeedsCaregivers then
        [PhaseNewbornCare, PhaseNeedsCaregivers, PhaseGrown, PhaseRolledBack, PhaseDeparted]
      else if p = PhaseRolledBack then [PhaseRolledBack, PhaseDelivering, PhaseNewbornCare, PhaseDeparted]
      else if p = PhaseDelivering then [PhaseDelivering, PhaseNewbornCare]
      else [p, PhaseExpecting, PhaseDue, PhaseDelivering, PhaseNewbornCare])"

text \<open>Both speak of three fields only.\<close>

lemma consistent_cong:
  "Phase s = Phase s' \<Longrightarrow> Birth s = Birth s' \<Longrightarrow> Care s = Care s' \<Longrightarrow> consistent s = consistent s'"
  unfolding consistent_def by metis

lemma St_budget [simp]: "St (snd (budget L k g d want c)) = St c"
  by (simp add: budget_def Let_def case_prod_beta split: sum.splits)

lemma St_prepareBirth [simp]: "St (snd (prepareBirth L k g d c)) = St c"
  by (simp add: prepareBirth_def Let_def case_prod_beta split: sum.splits option.splits)

text \<open>
  What a step does to the three fields: nothing, or the phase, birth and care are as \<open>P\<close>
  says.
\<close>

definition same_life :: "status \<Rightarrow> status \<Rightarrow> bool" where
  "same_life s s' \<longleftrightarrow> Phase s' = Phase s \<and> Birth s' = Birth s \<and> Care s' = Care s"

lemma same_life_refl [simp]: "same_life s s"
  by (simp add: same_life_def)

definition newborn :: "status \<Rightarrow> bool" where
  "newborn s \<longleftrightarrow> Phase s = PhaseNewbornCare \<and> Care s \<noteq> None
     \<and> (case Birth s of None \<Rightarrow> False | Some b \<Rightarrow> RolledBackTo b = [])"

lemma commitBirth_life:
  "St (snd (commitBirth L k d now plan c)) = St c \<or> newborn (St (snd (commitBirth L k d now plan c)))"
  by (cases plan) (simp add: commitBirth_def newborn_def new_birth_def case_prod_beta split: option.splits)

lemma giveBirth_life:
  "St (snd (giveBirth L k g d now c)) = St c \<or> newborn (St (snd (giveBirth L k g d now c)))"
  using commitBirth_life [of L k d now _ "snd (prepareBirth L k g d c)"]
  by (cases "fst (prepareBirth L k g d c)") (simp_all add: giveBirth_def case_prod_beta)

lemma deliver_life:
  "same_life (St c) (St (snd (deliver L k g d now c))) \<or> newborn (St (snd (deliver L k g d now c)))"
proof (cases "fst (releasePlacenta k g c)")
  case (Inr held)
  let ?c = "upd (\<lambda>s. s\<lparr>StReserved := i32 held, StTrimester := 0\<rparr>) (snd (releasePlacenta k g c))"
  show ?thesis
  proof (cases d)
    case (Some d')
    have "same_life (St c) (St (snd (giveBirth L k g d' now ?c))) \<or> newborn (St (snd (giveBirth L k g d' now ?c)))"
      using giveBirth_life [of L k g d' now ?c] by (auto simp: same_life_def)
    then show ?thesis
      using Inr Some by (simp add: deliver_def Let_def case_prod_beta same_life_def split: option.splits)
  qed (use Inr in \<open>simp add: deliver_def Let_def case_prod_beta same_life_def\<close>)
qed (simp add: deliver_def case_prod_beta)

lemma pregnancy_life:
  "Birth (St (snd (pregnancy L k g d now c))) = Birth (St c)"
  "Care (St (snd (pregnancy L k g d now c))) = Care (St c)"
  "Phase (St (snd (pregnancy L k g d now c))) \<in> {PhaseExpecting, PhaseDue}"
  by (simp_all add: pregnancy_def Let_def case_prod_beta split: option.splits sum.splits)

section \<open>After birth\<close>

text \<open>Looking after a newborn changes its birth record only in the revisions and the rollback.\<close>

definition same_birth :: "birth \<Rightarrow> birth \<Rightarrow> bool" where
  "same_birth b b' \<longleftrightarrow> BirthTime b' = BirthTime b \<and> BirthUID b' = BirthUID b \<and> BirthSelector b' = BirthSelector b
     \<and> AddedReplica b' = AddedReplica b \<and> BirthPDB b' = BirthPDB b"

lemma same_birth_refl [simp]: "same_birth b b"
  by (simp add: same_birth_def)

lemma same_birth_trans: "same_birth a b \<Longrightarrow> same_birth b c \<Longrightarrow> same_birth a c"
  by (simp add: same_birth_def)

lemma resolved_keeps [simp]: "same_birth b (resolved L d rss b)" "RolledBackTo (resolved L d rss b) = RolledBackTo b"
  by (simp_all add: resolved_def same_birth_def Let_def split: option.splits)

lemma resolve_life:
  assumes "Birth (St c) = Some b"
  shows "\<exists>b'. Birth (St (snd (resolveRevisions L k d b c))) = Some b' \<and> same_birth b b' \<and> RolledBackTo b' = RolledBackTo b \<and> Phase (St (snd (resolveRevisions L k d b c))) = Phase (St c)
    \<and> Care (St (snd (resolveRevisions L k d b c))) = Care (St c) \<and> Scores (St (snd (resolveRevisions L k d b c))) = Scores (St c)"
  using assms by (auto simp: resolveRevisions_def case_prod_beta split: sum.splits)

text \<open>The three ways a score can end: nothing happened to life and care, or the rollback went
  through, or it went through but its disruption budget could not be deleted.\<close>

definition rolled :: "birth \<Rightarrow> status \<Rightarrow> bool" where
  "rolled b s \<longleftrightarrow> Care s = None \<and> Birth s = Some (b\<lparr>RolledBackTo := PreviousRevision b\<rparr>) \<and> PreviousRevision b \<noteq> []"

lemma rollback_life:
  "same_life (St c) (St (snd (rollback k d b c))) \<and> fst (rollback k d b c) \<noteq> None
   \<or> (Care (St (snd (rollback k d b c))) = None
      \<and> Birth (St (snd (rollback k d b c))) = Some (b\<lparr>RolledBackTo := PreviousRevision b\<rparr>)
      \<and> Phase (St (snd (rollback k d b c))) = Phase (St c))"
  by (auto simp: rollback_def Let_def case_prod_beta split: sum.splits option.splits)

lemma Rollback_previous: "fst (Rollback sc en p) \<Longrightarrow> p \<noteq> []"
  by (simp add: Rollback_def split: if_splits)

lemma tell_score_life [simp]: "same_life (St c) (St (tell_score d sc why c))"
  by (simp add: tell_score_def same_life_def)

lemma apgar_step_life:
  "same_life (St c) (St (snd (apgar_step k g d b now c)))
   \<or> (rolled b (St (snd (apgar_step k g d b now c)))
      \<and> Phase (St (snd (apgar_step k g d b now c))) \<in> {Phase (St c), PhaseRolledBack})"
proof -
  let ?next = "NextMinute (map snd (Scores (St c)))"
  let ?c = "snd (ask (Observe k) c)"
  show ?thesis
  proof (cases "?next = 0 \<or> Revision b = [] \<or> now < t_add (BirthTime b) (?next * minute)")
    case True
    then show ?thesis by (auto simp: apgar_step_def Let_def)
  next
    case False
    show ?thesis
    proof (cases "observe_signs (Observe k (Calls c)) d b")
      case (Inl e)
      then show ?thesis using False by (simp add: apgar_step_def Let_def case_prod_beta)
    next
      case (Inr sg)
      let ?score = "ApgarScore ?next sg"
      let ?r = "Rollback ?score (RollbackEnabled (GSpec g)) (PreviousRevision b)"
      show ?thesis
      proof (cases "fst ?r")
        case True
        then show ?thesis
          using False Inr rollback_life [of ?c k d b] Rollback_previous [OF True]
          by (auto simp: apgar_step_def Let_def case_prod_beta rolled_def same_life_def split: option.splits)
      next
        case no: False
        have "same_life (St c) (St (tell_score d ?score (snd ?r) (upd (\<lambda>s. s\<lparr>Scores := Scores s @ [(now, ?score)]\<rparr>) ?c)))"
          using tell_score_life [of "upd (\<lambda>s. s\<lparr>Scores := Scores s @ [(now, ?score)]\<rparr>) ?c" d ?score "snd ?r"]
          by (simp add: same_life_def)
        then show ?thesis
          using False Inr no by (simp add: apgar_step_def Let_def case_prod_beta)
      qed
    qed
  qed
qed


definition home :: "status \<Rightarrow> bool" where
  "home s \<longleftrightarrow> Phase s = PhaseGrown
     \<and> (case Care s of None \<Rightarrow> False | Some x \<Rightarrow> Tier x = 0 \<and> CareClass x = [] \<and> Discharged x \<noteq> None)"

lemma discharge_life:
  assumes "Care (St c) \<noteq> None"
  shows "Birth (St (snd (discharge L k d b now cg c))) = Birth (St c)
    \<and> (same_life (St c) (St (snd (discharge L k d b now cg c))) \<or> home (St (snd (discharge L k d b now cg c))))"
  using assms
  by (auto simp: discharge_def Let_def case_prod_beta same_life_def home_def set_care_def split: option.splits)

lemma care_step_life:
  assumes "inCare (St c)"
  shows "Birth (St (snd (care_step L k d b now c))) = Birth (St c)
    \<and> (inCare (St (snd (care_step L k d b now c))) \<or> home (St (snd (care_step L k d b now c))))"
proof -
  obtain cg ok missing where cg: "CaregiversOf (EqualFold L) (DepAnnotations d) = (cg, ok, missing)"
    by (metis prod_cases3)
  obtain tier cls where t: "CareTier (t_sub now (BirthTime b)) = (tier, cls)"
    by (metis prod.exhaust)
  let ?c = "upd (\<lambda>s. s\<lparr>Caregivers := named cg\<rparr>) c"
  have care: "Care (St ?c) \<noteq> None" using assms by (simp add: inCare_def)
  show ?thesis
  proof (cases "tier > 0 \<or> \<not> ok")
    case True
    then show ?thesis
      using assms by (auto simp: care_step_def cg t Let_def inCare_def set_care_def split: option.splits)
  next
    case False
    then show ?thesis
      using assms discharge_life [OF care, of L k d b now cg]
      by (auto simp: care_step_def cg t Let_def inCare_def same_life_def)
  qed
qed

lemma deletePDB_log: "\<exists>l. Log (snd (deletePDB k c)) = Log c @ l"
  by (auto simp: deletePDB_def Let_def case_prod_beta split: option.splits sum.splits)

lemma depart_life:
  "Birth (St (snd (depart L k g b now c))) = Birth (St c)
   \<and> (Phase (St c) = PhaseDeparted \<and> St (snd (depart L k g b now c)) = St c
      \<or> Phase (St (snd (depart L k g b now c))) = PhaseDeparted \<and> Care (St (snd (depart L k g b now c))) = None)"
  by (simp add: depart_def Let_def case_prod_beta)

lemma look_after_fields:
  "Phase (St (snd (look_after L k g d b now c))) = Phase (St (snd (tend L k g d b now c)))"
  "Birth (St (snd (look_after L k g d b now c))) = Birth (St (snd (tend L k g d b now c)))"
  "Care (St (snd (look_after L k g d b now c))) = Care (St (snd (tend L k g d b now c)))"
  "Scores (St (snd (look_after L k g d b now c))) = Scores (St (snd (tend L k g d b now c)))"
  by (simp_all add: look_after_def Let_def case_prod_beta)

text \<open>A born service that is looked after: untouched outside care; inside, it stays, is rolled
  back or goes home.\<close>

lemma look_after_life:
  assumes "Birth (St c) = Some b"
  shows "\<exists>b'. same_birth b b' \<and>
    (RolledBackTo b' = RolledBackTo b \<and> Birth (St (snd (look_after L k g d b now c))) = Some b'
        \<and> (\<not> inCare (St c) \<and> Phase (St (snd (look_after L k g d b now c))) = Phase (St c)
             \<and> Care (St (snd (look_after L k g d b now c))) = Care (St c)
           \<or> inCare (St c) \<and> (inCare (St (snd (look_after L k g d b now c)))
                              \<or> home (St (snd (look_after L k g d b now c)))))
     \<or> inCare (St c) \<and> rolled b' (St (snd (look_after L k g d b now c)))
        \<and> Phase (St (snd (look_after L k g d b now c))) \<in> {Phase (St c), PhaseRolledBack})"
proof -
  let ?c1 = "snd (resolveRevisions L k d b c)"
  obtain b1 where b1: "Birth (St ?c1) = Some b1" "same_birth b b1" "RolledBackTo b1 = RolledBackTo b"
    "Phase (St ?c1) = Phase (St c)" "Care (St ?c1) = Care (St c)"
    using resolve_life [OF assms, of L k d] by blast
  have care1: "inCare (St ?c1) = inCare (St c)" using b1 by (simp add: inCare_def)
  let ?c2 = "if inCare (St ?c1) then snd (apgar_step k g d (birth_now b ?c1) now ?c1) else ?c1"
  let ?c3 = "if inCare (St ?c2) then snd (care_step L k d (birth_now b ?c2) now ?c2) else ?c2"
  have "?c3 = snd (tend L k g d b now c)"
    by (simp add: tend_def Let_def case_prod_beta)
  then have final: "Phase (St (snd (look_after L k g d b now c))) = Phase (St ?c3)
      \<and> Birth (St (snd (look_after L k g d b now c))) = Birth (St ?c3)
      \<and> Care (St (snd (look_after L k g d b now c))) = Care (St ?c3)"
    by (simp add: look_after_fields)
  have now1: "birth_now b ?c1 = b1" using b1 by (simp add: birth_now_def)
  show ?thesis
  proof (cases "inCare (St c)")
    case False
    then show ?thesis using final b1 care1 by auto
  next
    case True
    then have c2: "?c2 = snd (apgar_step k g d b1 now ?c1)" using care1 now1 by simp
    consider (same) "same_life (St ?c1) (St ?c2)" | (rolled) "rolled b1 (St ?c2)" "Phase (St ?c2) \<in> {Phase (St c), PhaseRolledBack}"
      using apgar_step_life [of ?c1 k g d b1 now] c2 b1(4) by auto
    then show ?thesis
    proof cases
      case same
      then have in2: "inCare (St ?c2)" "Birth (St ?c2) = Some b1"
        using True b1 by (simp_all add: same_life_def inCare_def)
      then have "Birth (St ?c3) = Some b1 \<and> (inCare (St ?c3) \<or> home (St ?c3))"
        using care_step_life [OF in2(1), of L k d "birth_now b ?c2" now] by simp
      then show ?thesis using True final b1 by (auto simp: inCare_def home_def)
    next
      case rolled
      then have "\<not> inCare (St ?c2)" by (simp add: rolled_def inCare_def)
      then have "?c3 = ?c2" by simp
      then show ?thesis using True final b1 rolled by (auto simp: rolled_def)
    qed
  qed
qed


section \<open>A pass\<close>

lemma afterBirth_life:
  assumes "Birth (St c) = Some b" and "consistent (St c)"
    and "Phase (St c) \<noteq> PhaseDelivering"
  shows "consistent (St (snd (afterBirth L k g d b now c)))
    \<and> Phase (St (snd (afterBirth L k g d b now c))) \<in> set (next_phases (Phase (St c)))"
proof -
  have born: "Phase (St c) \<in> {PhaseNewbornCare, PhaseNeedsCaregivers, PhaseGrown, PhaseRolledBack, PhaseDeparted}"
    using assms by (cases "Phase (St c)") (simp_all add: consistent_def)
  show ?thesis
  proof (cases "\<exists>d'. d = Some d' \<and> DepUID d' = BirthUID b")
    case False
    have "Phase (St (snd (depart L k g b now c))) = PhaseDeparted \<and> Birth (St (snd (depart L k g b now c))) \<noteq> None
        \<and> Care (St (snd (depart L k g b now c))) = None"
      using depart_life [of L k g b now c] assms by (auto simp: consistent_def)
    then show ?thesis
      using False born by (auto simp: afterBirth_def case_prod_beta consistent_def next_phases_def split: option.splits)
  next
    case True
    then obtain d' where d: "d = Some d'" "DepUID d' = BirthUID b" by blast
    have e: "snd (afterBirth L k g d b now c) = snd (look_after L k g d' b now c)"
      using d by (simp add: afterBirth_def)
    show ?thesis
      unfolding e using look_after_life [OF assms(1), of L k g d' now] born assms
      by (auto simp: consistent_def next_phases_def inCare_def home_def rolled_def split: option.splits)
  qed
qed

lemma advance_life:
  assumes "consistent (St c)"
  shows "consistent (St (snd (advance L k g d now c)))
    \<and> Phase (St (snd (advance L k g d now c))) \<in> set (next_phases (Phase (St c)))"
proof (cases "Phase (St c) = PhaseDelivering")
  case True
  then show ?thesis
    using deliver_life [of c L k g d now] assms
    by (auto simp: advance_def case_prod_beta same_life_def newborn_def consistent_def next_phases_def split: option.splits)
next
  case False
  show ?thesis
  proof (cases "Birth (St c)")
    case None
    then have "Phase (St c) \<in> {NoPhase, PhaseExpecting, PhaseDue}" "Care (St c) = None"
      using False assms by (cases "Phase (St c)"; simp add: consistent_def)+
    then show ?thesis
      using None False pregnancy_life [of L k g d now c]
      by (auto simp: advance_def case_prod_beta consistent_def next_phases_def)
  next
    case (Some b)
    then show ?thesis
      using afterBirth_life [OF Some assms False] False by (simp add: advance_def)
  qed
qed

lemma redelivery_life:
  assumes "consistent s"
  shows "redelivery g now s = s
    \<or> (Phase (redelivery g now s) = PhaseDelivering \<and> consistent (redelivery g now s)
       \<and> set (next_phases PhaseDelivering) \<subseteq> set (next_phases (Phase s)))"
  using assms
  by (cases "Phase s") (auto simp: redelivery_def consistent_def next_phases_def split: option.splits)

lemma reconcile_St:
  "\<exists>d. St (snd (reconcile L k g now c)) = St c
    \<or> (let c' = snd (advance L k g d now (upd (redelivery g now) (snd (ask (\<lambda>n. GetDeployment k n (SpecDeployment (GSpec g))) c))))
        in St (snd (reconcile L k g now c)) = St (screen_requested L k g d now c'))"
  by (rule exI [of _ "case GetDeployment k (Calls c) (SpecDeployment (GSpec g)) of Inl _ \<Rightarrow> None | Inr d \<Rightarrow> Some d"])
    (simp add: reconcile_def Let_def case_prod_beta split: sum.splits api_error.splits)

lemma self_phase: "p \<in> set (next_phases p)"
  by (cases p) (simp_all add: next_phases_def)

lemma reconcile_life:
  assumes "consistent (St c)"
  shows "consistent (St (snd (reconcile L k g now c)))
    \<and> Phase (St (snd (reconcile L k g now c))) \<in> set (next_phases (Phase (St c)))"
proof -
  let ?c0 = "upd (redelivery g now) (snd (ask (\<lambda>n. GetDeployment k n (SpecDeployment (GSpec g))) c))"
  have c0: "consistent (St ?c0) \<and> set (next_phases (Phase (St ?c0))) \<subseteq> set (next_phases (Phase (St c)))"
    using redelivery_life [OF assms, of g now] assms by auto
  obtain d where "St (snd (reconcile L k g now c)) = St c
      \<or> St (snd (reconcile L k g now c)) = St (screen_requested L k g d now (snd (advance L k g d now ?c0)))"
    using reconcile_St [of L k g now c] by (auto simp: Let_def)
  then show ?thesis
  proof
    assume "St (snd (reconcile L k g now c)) = St c"
    then show ?thesis using assms self_phase by simp
  next
    assume e: "St (snd (reconcile L k g now c)) = St (screen_requested L k g d now (snd (advance L k g d now ?c0)))"
    have "consistent (St (snd (reconcile L k g now c))) = consistent (St (snd (advance L k g d now ?c0)))"
      unfolding e by (rule consistent_cong) simp_all
    then show ?thesis
      using advance_life [of ?c0 L k g d now] c0 unfolding e by auto
  qed
qed


section \<open>Passes after passes\<close>

lemma stored_keeps [simp]:
  "Phase (stored s) = Phase s" "Birth (stored s) = map_option stored_birth (Birth s)"
  "Care (stored s) = map_option stored_care (Care s)"
  by (simp_all add: stored_def)

lemma consistent_stored [simp]: "consistent (stored s) = consistent s"
  by (cases "Phase s"; cases "Birth s"; cases "Care s") (simp_all add: consistent_def stored_birth_def stored_care_def)

text \<open>
  The statuses the API may hold: at first none, and after a pass from any of them, with any
  specification, time, memory and answers of the cluster, what the pass stores. A pass that
  fails to store leaves a status that is reached already.
\<close>

inductive reached :: "('q, 'x) library \<Rightarrow> status \<Rightarrow> bool" for L :: "('q, 'x) library" where
  first: "reached L new_status"
| pass: "reached L (St c) \<Longrightarrow> reached L (stored (St (snd (reconcile L k g now c))))"

inductive_cases reached_cases: "reached L s"

lemma reached_consistent: "reached L s \<Longrightarrow> consistent s"
proof (induction rule: reached.induct)
  case first
  show ?case by (simp add: consistent_def new_status_def)
next
  case (pass c k g now)
  then show ?case using reconcile_life [of c L k g now] by simp
qed

text \<open>
  A rollback whose disruption budget could not be deleted leaves the phase NewbornCare without
  care. No later pass scores, discharges, rolls back or delivers such a gestation again: until
  its Deployment is deleted the phase stays.
\<close>

lemma stranded_rollback_stays:
  assumes "Phase (St c) = PhaseNewbornCare" and "Care (St c) = None" and "Birth (St c) = Some b"
  shows "Care (St (snd (reconcile L k g now c))) = None
    \<and> Phase (St (snd (reconcile L k g now c))) \<in> {PhaseNewbornCare, PhaseDeparted}"
proof -
  let ?c0 = "upd (redelivery g now) (snd (ask (\<lambda>n. GetDeployment k n (SpecDeployment (GSpec g))) c))"
  have c0: "St ?c0 = St c" using assms by (simp add: redelivery_def)
  have adv: "Care (St (snd (advance L k g d now ?c0))) = None
      \<and> Phase (St (snd (advance L k g d now ?c0))) \<in> {PhaseNewbornCare, PhaseDeparted}" for d
  proof -
    have e: "snd (advance L k g d now ?c0) = snd (afterBirth L k g d b now ?c0)"
      using assms c0 by (simp add: advance_def)
    have no: "\<not> inCare (St ?c0)" using assms c0 by (simp add: inCare_def)
    have "Birth (St ?c0) = Some b" using assms c0 by simp
    note la = look_after_life [OF this, of L k g _ now] and dep = depart_life [of L k g b now ?c0]
    show ?thesis
      unfolding e using la dep no c0 assms
      by (cases d) (auto simp: afterBirth_def case_prod_beta)
  qed
  obtain d where "St (snd (reconcile L k g now c)) = St c
      \<or> St (snd (reconcile L k g now c)) = St (screen_requested L k g d now (snd (advance L k g d now ?c0)))"
    using reconcile_St [of L k g now c] by (auto simp: Let_def)
  then show ?thesis using adv [of d] assms by auto
qed


section \<open>The class of a newborn\<close>

definition protected :: "status \<Rightarrow> bool" where
  "protected s \<longleftrightarrow> (case Care s of None \<Rightarrow> True | Some x \<Rightarrow> CareClass x = [] \<or> IsNewbornClass (CareClass x))"

lemma protected_cong: "Care s' = Care s \<or> Care s' = None \<Longrightarrow> protected s \<Longrightarrow> protected s'"
  by (auto simp: protected_def)

lemma tier_classes: "CareTier t = (n, cls) \<Longrightarrow> n > 0 \<Longrightarrow> IsNewbornClass cls"
  by (auto simp: CareTier_cases IsNewbornClass_iff split: if_splits)

lemma last_tier: "IsNewbornClass (snd LastTierClass)"
  by (simp add: LastTierClass_def IsNewbornClass_def careTiers_def)

lemma commitBirth_protected: "protected (St c) \<Longrightarrow> protected (St (snd (commitBirth L k d now plan c)))"
  using tier_classes [of 0 "fst (CareTier 0)" "snd (CareTier 0)"]
  by (cases plan) (simp add: commitBirth_def protected_def new_care_def case_prod_beta CareTier_cases split: option.splits)

lemma deliver_protected: "protected (St c) \<Longrightarrow> protected (St (snd (deliver L k g d now c)))"
proof -
  assume p: "protected (St c)"
  have g: "protected (St (snd (giveBirth L k g d' now c')))" if "protected (St c')" for d' c'
    using that commitBirth_protected [of "snd (prepareBirth L k g d' c')" L k d' now]
    by (cases "fst (prepareBirth L k g d' c')") (simp_all add: giveBirth_def case_prod_beta)
  have u: "protected (s\<lparr>StReserved := x, StTrimester := y\<rparr>) = protected s" "protected (s\<lparr>Msg := m\<rparr>) = protected s" for s x y m
    by (simp_all add: protected_def)
  show ?thesis
    by (cases "fst (releasePlacenta k g c)")
      (simp_all add: deliver_def Let_def case_prod_beta p g u split: option.splits)
qed

lemma care_step_protected: "protected (St c) \<Longrightarrow> protected (St (snd (care_step L k d b now c)))"
proof -
  assume p: "protected (St c)"
  obtain cg ok missing where cg: "CaregiversOf (EqualFold L) (DepAnnotations d) = (cg, ok, missing)"
    by (metis prod_cases3)
  obtain tier cls where t: "CareTier (t_sub now (BirthTime b)) = (tier, cls)"
    by (metis prod.exhaust)
  let ?c = "upd (\<lambda>s. s\<lparr>Caregivers := named cg\<rparr>) c"
  have p': "protected (St ?c)" using p by (simp add: protected_def)
  have dis: "protected (St (snd (discharge L k d b now cg ?c)))"
    using p' by (auto simp: discharge_def Let_def case_prod_beta protected_def set_care_def split: option.splits)
  show ?thesis
    using p' dis tier_classes [OF t] last_tier
    by (auto simp: care_step_def cg t Let_def protected_def set_care_def split: option.splits)
qed

lemma apgar_step_protected: "protected (St c) \<Longrightarrow> protected (St (snd (apgar_step k g d b now c)))"
  using apgar_step_life [of c k g d b now] by (auto simp: same_life_def rolled_def intro: protected_cong)

lemma tend_protected:
  assumes "Birth (St c) = Some b" and "protected (St c)"
  shows "protected (St (snd (tend L k g d b now c)))"
proof -
  let ?c1 = "snd (resolveRevisions L k d b c)"
  let ?c2 = "if inCare (St ?c1) then snd (apgar_step k g d (birth_now b ?c1) now ?c1) else ?c1"
  have p1: "protected (St ?c1)" using resolve_life [OF assms(1), of L k d] assms(2) by (auto intro: protected_cong)
  then have p2: "protected (St ?c2)" by (simp add: apgar_step_protected)
  have "snd (tend L k g d b now c) = (if inCare (St ?c2) then snd (care_step L k d (birth_now b ?c2) now ?c2) else ?c2)"
    by (simp add: tend_def Let_def case_prod_beta)
  then show ?thesis using p2 care_step_protected [OF p2] by simp
qed

lemma advance_protected: "protected (St c) \<Longrightarrow> protected (St (snd (advance L k g d now c)))"
proof -
  assume p: "protected (St c)"
  have la: "protected (St (snd (look_after L k g d' b now c)))" if "Birth (St c) = Some b" for b d'
    using tend_protected [OF that p, of L k g d' now] by (rule protected_cong [rotated]) (simp add: look_after_fields)
  have dep: "protected (St (snd (depart L k g b now c)))" for b
    using depart_life [of L k g b now c] p by (auto simp: protected_def)
  have pre: "protected (St (snd (pregnancy L k g d now c)))"
    using p by (rule protected_cong [rotated]) (simp add: pregnancy_life)
  show ?thesis
    using deliver_protected [OF p] la dep pre
    by (auto simp: advance_def afterBirth_def case_prod_beta split: option.splits)
qed

lemma reached_protected: "reached L s \<Longrightarrow> protected s"
proof (induction rule: reached.induct)
  case first
  show ?case by (simp add: protected_def new_status_def)
next
  case (pass c k g now)
  let ?c0 = "upd (redelivery g now) (snd (ask (\<lambda>n. GetDeployment k n (SpecDeployment (GSpec g))) c))"
  have p0: "protected (St ?c0)" using pass.IH by (auto simp: redelivery_def protected_def)
  obtain d where "St (snd (reconcile L k g now c)) = St c
      \<or> St (snd (reconcile L k g now c)) = St (screen_requested L k g d now (snd (advance L k g d now ?c0)))"
    using reconcile_St [of L k g now c] by (auto simp: Let_def)
  then have "protected (St (snd (reconcile L k g now c)))"
    using pass.IH advance_protected [OF p0, of L k g d now]
    by (metis protected_cong screen_requested_keeps(3))
  then show ?case by (auto simp: protected_def stored_care_def split: option.splits)
qed

section \<open>The revisions of a birth\<close>

text \<open>
  The previous revision of a birth, which a rollback goes back to, has a smaller number than
  the revision that was born.
\<close>

definition in_order :: "birth \<Rightarrow> bool" where
  "in_order b \<longleftrightarrow> PreviousRevision b = []
     \<or> 0 < rev_number (PreviousRevision b) \<and> rev_number (PreviousRevision b) < rev_number (Revision b)"

definition ordered :: "status \<Rightarrow> bool" where
  "ordered s \<longleftrightarrow> (case Birth s of None \<Rightarrow> True | Some b \<Rightarrow> in_order b)"

lemma ordered_cong: "Birth s' = Birth s \<Longrightarrow> ordered s \<Longrightarrow> ordered s'"
  by (simp add: ordered_def)

lemma in_order_rolled [simp]: "in_order (b\<lparr>RolledBackTo := r\<rparr>) = in_order b"
  by (simp add: in_order_def)

lemma in_order_new [simp]: "in_order (new_birth L d now added covering)"
  by (simp add: in_order_def new_birth_def)

lemma rev_number_range: "rev_number s < 2 ^ 63"
  by (cases "parse_int s") (use parse_int_range [of s] in \<open>auto simp: rev_number_def in_i64_def\<close>)

lemma rev_number_show: "0 < n \<Longrightarrow> n < 2 ^ 63 \<Longrightarrow> rev_number (show_int n) = n"
  by (simp add: rev_number_def parse_show in_i64_def)

lemma rev_number_none: "rev_number [] = 0"
  by (simp add: rev_number_def parse_int_def all_digits_def)

lemma foldl_previous:
  "foldl (\<lambda>prev rs. if revisionNumber rs < born \<and> revisionNumber rs > prev then revisionNumber rs else prev) a rss
     \<in> insert a {n. n < born \<and> n \<in> revisionNumber ` set rss}"
proof (induction rss arbitrary: a)
  case (Cons r rss)
  show ?case using Cons [of "if revisionNumber r < born \<and> revisionNumber r > a then revisionNumber r else a"] by auto
qed simp

lemma previous_revision_smaller:
  assumes "0 < previous_revision born rss"
  shows "previous_revision born rss < born" and "previous_revision born rss < 2 ^ 63"
  using assms foldl_previous [of born 0 rss] rev_number_range by (auto simp: previous_revision_def revisionNumber_def)

lemma resolved_in_order:
  assumes "in_order b" and "Revision b = []"
  shows "in_order (resolved L d rss b)"
proof -
  have no: "PreviousRevision b = []"
    using assms rev_number_none by (auto simp: in_order_def)
  show ?thesis
  proof (cases "newReplicaSet L d rss")
    case None
    then show ?thesis using assms by (simp add: resolved_def)
  next
    case (Some newest)
    let ?p = "previous_revision (revisionNumber newest) rss"
    show ?thesis
      using Some no previous_revision_smaller [of "revisionNumber newest" rss] rev_number_show [of ?p]
      by (auto simp: resolved_def Let_def in_order_def revisionNumber_def)
  qed
qed

lemma resolveRevisions_ordered:
  assumes "Birth (St c) = Some b" and "ordered (St c)"
  shows "ordered (St (snd (resolveRevisions L k d b c)))"
  using assms resolved_in_order [of b L d] by (auto simp: resolveRevisions_def case_prod_beta ordered_def split: sum.splits)

lemma tend_ordered:
  assumes "Birth (St c) = Some b" and "ordered (St c)"
  shows "ordered (St (snd (tend L k g d b now c)))"
proof -
  let ?c1 = "snd (resolveRevisions L k d b c)"
  let ?c2 = "if inCare (St ?c1) then snd (apgar_step k g d (birth_now b ?c1) now ?c1) else ?c1"
  have o1: "ordered (St ?c1)" by (rule resolveRevisions_ordered [OF assms])
  obtain b1 where b1: "Birth (St ?c1) = Some b1" using resolve_life [OF assms(1), of L k d] by blast
  have o2: "ordered (St ?c2)"
    using apgar_step_life [of ?c1 k g d b1 now] o1 b1
    by (auto simp: ordered_def same_life_def rolled_def birth_now_def)
  have e: "snd (tend L k g d b now c) = (if inCare (St ?c2) then snd (care_step L k d (birth_now b ?c2) now ?c2) else ?c2)"
    by (simp add: tend_def Let_def case_prod_beta)
  show ?thesis
  proof (cases "inCare (St ?c2)")
    case True
    then show ?thesis unfolding e using o2 care_step_life [OF True, of L k d "birth_now b ?c2" now] ordered_cong by auto
  next
    case False
    then show ?thesis unfolding e using o2 by (simp only: if_False)
  qed
qed

lemma deliver_ordered: "ordered (St c) \<Longrightarrow> ordered (St (snd (deliver L k g d now c)))"
proof -
  assume o: "ordered (St c)"
  have g: "ordered (St (snd (giveBirth L k g d' now c')))" if "ordered (St c')" for d' c'
    using that by (cases "fst (prepareBirth L k g d' c')")
      (auto simp: giveBirth_def commitBirth_def case_prod_beta ordered_def split: option.splits)
  have u: "ordered (s\<lparr>StReserved := x, StTrimester := y\<rparr>) = ordered s" "ordered (s\<lparr>Msg := m\<rparr>) = ordered s" for s x y m
    by (simp_all add: ordered_def)
  show ?thesis
    by (cases "fst (releasePlacenta k g c)")
      (simp_all add: deliver_def Let_def case_prod_beta o g u split: option.splits)
qed

lemma advance_ordered: "ordered (St c) \<Longrightarrow> ordered (St (snd (advance L k g d now c)))"
proof -
  assume o: "ordered (St c)"
  have la: "ordered (St (snd (look_after L k g d' b now c)))" if "Birth (St c) = Some b" for b d'
    using tend_ordered [OF that o, of L k g d' now] by (rule ordered_cong [rotated]) (simp add: look_after_fields)
  have dep: "ordered (St (snd (depart L k g b now c)))" for b
    using depart_life [of L k g b now c] o ordered_cong by blast
  have pre: "ordered (St (snd (pregnancy L k g d now c)))"
    using o by (rule ordered_cong [rotated]) (simp add: pregnancy_life)
  show ?thesis
    using deliver_ordered [OF o] la dep pre
    by (auto simp: advance_def afterBirth_def case_prod_beta split: option.splits)
qed

lemma reconcile_ordered: "ordered (St c) \<Longrightarrow> ordered (St (snd (reconcile L k g now c)))"
proof -
  assume o: "ordered (St c)"
  let ?c0 = "upd (redelivery g now) (snd (ask (\<lambda>n. GetDeployment k n (SpecDeployment (GSpec g))) c))"
  have o0: "ordered (St ?c0)" using o by (auto simp: redelivery_def ordered_def)
  obtain d where "St (snd (reconcile L k g now c)) = St c
      \<or> St (snd (reconcile L k g now c)) = St (screen_requested L k g d now (snd (advance L k g d now ?c0)))"
    using reconcile_St [of L k g now c] by (auto simp: Let_def)
  then show ?thesis
    using o advance_ordered [OF o0, of L k g d now] by (metis ordered_cong screen_requested_keeps(2))
qed

lemma reached_ordered: "reached L s \<Longrightarrow> ordered s"
proof (induction rule: reached.induct)
  case first
  show ?case by (simp add: ordered_def new_status_def)
next
  case (pass c k g now)
  have "ordered (St (snd (reconcile L k g now c)))" by (rule reconcile_ordered) (rule pass.IH)
  then show ?case by (auto simp: ordered_def in_order_def stored_birth_def split: option.splits)
qed

section \<open>Lives\<close>

text \<open>
  Claim C5. The life of a gestation: in every status the API may hold, the phase agrees with
  the birth and the care on record (in pregnancy there is neither; a discharged newborn has a
  closed care; a departed or rolled-back one has none; in newborn care there is care unless a
  rollback has been written), and a pass of the controller leads only to the phases
  \<open>next_phases\<close> lists, whatever the specification, the clock and the cluster: what is
  departed stays so, what is grown can only depart, and only a rolled-back service is delivered
  again.
\<close>

theorem gestation_lifecycle:
  assumes "reached L (St c)"
  shows "consistent (St c) \<and> consistent (St (snd (reconcile L k g now c)))
    \<and> Phase (St (snd (reconcile L k g now c))) \<in> set (next_phases (Phase (St c)))"
  using reached_consistent [OF assms] reconcile_life [of c L k g now] by simp


end
