(* ===== verification/Launch.thy ===== *)
theory Launch
  imports Lifecycle
begin

text \<open>
  What the gestation controller promises of its writes: the order of a birth, the conditions of
  a discharge and of a rollback, and the extra replica that is given back. The lemmas follow
  the log of a pass through its steps.
\<close>

section \<open>The log only grows\<close>

definition extends :: "('q, 'x) ctl \<Rightarrow> ('q, 'x) ctl \<Rightarrow> bool" where
  "extends c c' \<longleftrightarrow> (\<exists>l. Log c' = Log c @ l)"

lemma extends_refl [simp]: "extends c c"
  by (simp add: extends_def)

lemma extends_trans: "extends a b \<Longrightarrow> extends b c \<Longrightarrow> extends a c"
  by (auto simp: extends_def)

lemma extends_mem: "extends c c' \<Longrightarrow> e \<in> set (Log c) \<Longrightarrow> e \<in> set (Log c')"
  by (auto simp: extends_def)

lemma extends_measure [simp]: "Log (measure_step k nb now c) = Log c"
  by (simp add: measure_step_def Let_def case_prod_beta split: sum.splits)

lemma Log_remember [simp]: "Log (remember L k d c) = Log c"
  by (simp add: remember_def Let_def case_prod_beta)

lemma Log_placentaPods [simp]: "Log (snd (placentaPods k c)) = Log c"
  by (simp add: placentaPods_def case_prod_beta)

lemma extends_screen_requested: "extends c (screen_requested L k g d now c)"
  by (simp add: screen_requested_def screen_def Let_def case_prod_beta extends_def split: option.splits)

lemma extends_deletePDB: "extends c (snd (deletePDB k c))"
  using deletePDB_log by (simp add: extends_def)

section \<open>Going home\<close>

lemma CareTier_over: "\<not> fst (CareTier since) > 0 \<Longrightarrow> NewbornCareDuration \<le> since"
  by (simp add: CareTier_def careTiers_def split: if_splits)

lemma CaregiversOf_ok:
  "CaregiversOf eq ann = (cg, True, m) \<Longrightarrow>
   Primary cg = trim_space (lookup_str ann PrimaryCaregiverAnnotation) \<and> Primary cg \<noteq> []
   \<and> Secondary cg = trim_space (lookup_str ann SecondaryCaregiverAnnotation) \<and> Secondary cg \<noteq> []
   \<and> \<not> eq (Primary cg) (Secondary cg)"
  by (auto simp: CaregiversOf_def Let_def split: if_splits)

text \<open>What has to be so when a newborn goes home: 72 hours, two different people, and the
  Deployment is given back.\<close>

definition may_go_home :: "('q, 'x) library \<Rightarrow> ('q, 'x) deployment \<Rightarrow> birth \<Rightarrow> gotime \<Rightarrow> bool" where
  "may_go_home L d b now \<longleftrightarrow>
     (let p = trim_space (lookup_str (DepAnnotations d) PrimaryCaregiverAnnotation);
          s = trim_space (lookup_str (DepAnnotations d) SecondaryCaregiverAnnotation)
      in p \<noteq> [] \<and> s \<noteq> [] \<and> \<not> EqualFold L p s \<and> NewbornCareDuration \<le> now - BirthTime b)"

lemma discharge_home:
  assumes "Phase (St c) \<noteq> PhaseGrown" and "Phase (St (snd (discharge L k d b now cg c))) = PhaseGrown"
  shows "(UpdateDeployment (endCare b d), True) \<in> set (Log (snd (discharge L k d b now cg c)))"
proof -
  let ?c = "snd (do_write k (UpdateDeployment (endCare b d)) c)"
  have "Write k (Calls c) = None" "fst (deletePDB k ?c) = None"
    using assms by (auto simp: discharge_def Let_def case_prod_beta split: option.splits)
  then show ?thesis
    using extends_mem [OF extends_deletePDB, of "(UpdateDeployment (endCare b d), True)" ?c k]
    by (simp add: discharge_def Let_def case_prod_beta)
qed

lemma care_step_home:
  assumes "inCare (St c)" and "Phase (St (snd (care_step L k d b now c))) = PhaseGrown"
  shows "may_go_home L d b now \<and> (UpdateDeployment (endCare b d), True) \<in> set (Log (snd (care_step L k d b now c)))"
proof -
  obtain cg ok missing where cg: "CaregiversOf (EqualFold L) (DepAnnotations d) = (cg, ok, missing)"
    by (metis prod_cases3)
  obtain tier cls where t: "CareTier (t_sub now (BirthTime b)) = (tier, cls)"
    by (metis prod.exhaust)
  let ?c = "upd (\<lambda>s. s\<lparr>Caregivers := named cg\<rparr>) c"
  have p: "Phase (St ?c) \<noteq> PhaseGrown" using assms(1) by (auto simp: inCare_def)
  have t0: "\<not> tier > 0" and ok: ok
    using assms by (auto simp: care_step_def cg t Let_def set_care_def split: if_splits)
  then have e: "care_step L k d b now c = discharge L k d b now cg ?c"
    by (simp add: care_step_def cg t Let_def)
  have "NewbornCareDuration \<le> t_sub now (BirthTime b)"
    using CareTier_over [of "t_sub now (BirthTime b)"] t t0 by simp
  then have "NewbornCareDuration \<le> now - BirthTime b"
    by (simp add: t_sub_def NewbornCareDuration_def split: if_splits)
  then have "may_go_home L d b now"
    using CaregiversOf_ok [of "EqualFold L" "DepAnnotations d" cg missing] cg ok by (auto simp: may_go_home_def Let_def)
  then show ?thesis
    using discharge_home [OF p, of L k d b now cg] assms(2) unfolding e by simp
qed

section \<open>Going back\<close>

text \<open>
  What has to be so when a newborn is rolled back: \<open>b'\<close> is the birth on record after it, and
  the template is of a ReplicaSet in a list the API gave at a call not before \<open>n0\<close>.
\<close>

definition went_back ::
    "('q, 'x) cluster \<Rightarrow> nat \<Rightarrow> gestation \<Rightarrow> ('q, 'x) deployment \<Rightarrow> gotime \<Rightarrow> birth \<Rightarrow> (('q, 'x) effect \<times> bool) list \<Rightarrow> (gotime \<times> apgar) list \<Rightarrow> bool" where
  "went_back k n0 g d now b' log scores \<longleftrightarrow>
     RollbackEnabled (GSpec g) \<and> BirthTime b' + 5 * minute \<le> now
     \<and> scores \<noteq> [] \<and> fst (last scores) = now \<and> Minute (snd (last scores)) = 5 \<and> TotalScore (snd (last scores)) < Reassuring
     \<and> RolledBackTo b' \<noteq> [] \<and> RolledBackTo b' = PreviousRevision b'
     \<and> (\<exists>n rss rs. n0 \<le> n \<and> ListReplicaSets k n = Inr rss \<and> rs \<in> set rss
          \<and> RSController rs = Some (DepUID d) \<and> revision_of rs = RolledBackTo b'
          \<and> (UpdateDeployment (endCare b' (d\<lparr>DepTemplate := drop_hash (RSTemplate rs)\<rparr>)), True) \<in> set log)"

lemma find_SomeD: "find P xs = Some x \<Longrightarrow> x \<in> set xs \<and> P x"
  by (induction xs) (auto split: if_splits)

lemma went_back_later: "went_back k m g d now b log scores \<Longrightarrow> n \<le> m \<Longrightarrow> went_back k n g d now b log scores"
  unfolding went_back_def by (meson order_trans)

lemma replicaSetAt_found:
  "replicaSetAt rss uid r = Inr (Some rs) \<Longrightarrow>
   \<exists>all. rss = Inr all \<and> rs \<in> set all \<and> RSController rs = Some uid \<and> revision_of rs = r"
  by (auto simp: replicaSetAt_def owned_by_def dest!: find_SomeD split: sum.splits)

lemma endCare_cong: "AddedReplica b = AddedReplica b' \<Longrightarrow> endCare b d = endCare b' d"
  by (simp add: endCare_def)

lemma rollback_done:
  assumes "fst (rollback k d b c) = None"
  shows "Birth (St (snd (rollback k d b c))) = Some (b\<lparr>RolledBackTo := PreviousRevision b\<rparr>)
    \<and> Scores (St (snd (rollback k d b c))) = Scores (St c)
    \<and> (\<exists>rss rs. ListReplicaSets k (Calls c) = Inr rss \<and> rs \<in> set rss
        \<and> RSController rs = Some (DepUID d) \<and> revision_of rs = PreviousRevision b
        \<and> (UpdateDeployment (endCare b (d\<lparr>DepTemplate := drop_hash (RSTemplate rs)\<rparr>)), True)
             \<in> set (Log (snd (rollback k d b c))))"
proof -
  let ?c = "snd (ask (ListReplicaSets k) c)"
  obtain rs where rs: "replicaSetAt (ListReplicaSets k (Calls c)) (DepUID d) (PreviousRevision b) = Inr (Some rs)"
    using assms by (auto simp: rollback_def case_prod_beta split: sum.splits option.splits)
  let ?u = "UpdateDeployment (endCare b (d\<lparr>DepTemplate := drop_hash (RSTemplate rs)\<rparr>))"
  let ?c2 = "upd (\<lambda>s. s\<lparr>Birth := Some (b\<lparr>RolledBackTo := PreviousRevision b\<rparr>), Care := None\<rparr>) (snd (do_write k ?u ?c))"
  have w: "Write k (Calls ?c) = None"
    using assms rs by (auto simp: rollback_def Let_def case_prod_beta split: option.splits)
  have e: "rollback k d b c = deletePDB k ?c2"
    using rs w by (simp add: rollback_def Let_def case_prod_beta)
  have "(?u, True) \<in> set (Log (snd (deletePDB k ?c2)))"
    by (rule extends_mem [OF extends_deletePDB]) (use w in simp)
  then show ?thesis unfolding e using replicaSetAt_found [OF rs] by auto
qed

lemma Rollback_low:
  "fst (Rollback sc en p) \<Longrightarrow> Minute sc = 5 \<and> TotalScore sc < Reassuring \<and> en \<and> p \<noteq> []"
  by (simp add: Rollback_def split: if_splits)

lemma apgar_step_back:
  assumes "Phase (St c) \<noteq> PhaseRolledBack" and "Phase (St (snd (apgar_step k g d b now c))) = PhaseRolledBack"
  shows "Birth (St (snd (apgar_step k g d b now c))) = Some (b\<lparr>RolledBackTo := PreviousRevision b\<rparr>)
    \<and> went_back k (Calls c) g d now (b\<lparr>RolledBackTo := PreviousRevision b\<rparr>) (Log (snd (apgar_step k g d b now c)))
        (Scores (St (snd (apgar_step k g d b now c))))"
proof -
  let ?next = "NextMinute (map snd (Scores (St c)))"
  let ?c = "snd (ask (Observe k) c)"
  have go: "\<not> (?next = 0 \<or> Revision b = [] \<or> now < t_add (BirthTime b) (?next * minute))"
    using assms by (auto simp: apgar_step_def Let_def)
  obtain sg where sg: "observe_signs (Observe k (Calls c)) d b = Inr sg"
    using go assms by (cases "observe_signs (Observe k (Calls c)) d b") (simp_all add: apgar_step_def Let_def case_prod_beta)
  let ?score = "ApgarScore ?next sg"
  let ?roll = "fst (Rollback ?score (RollbackEnabled (GSpec g)) (PreviousRevision b))"
  have roll: ?roll
  proof (rule ccontr)
    assume n: "\<not> ?roll"
    show False
      using assms go sg n tell_score_life
        [of "upd (\<lambda>s. s\<lparr>Scores := Scores s @ [(now, ?score)]\<rparr>) ?c" d ?score
            "snd (Rollback ?score (RollbackEnabled (GSpec g)) (PreviousRevision b))"]
      by (simp add: apgar_step_def Let_def case_prod_beta same_life_def)
  qed
  have ended: "fst (rollback k d b ?c) = None"
    using assms go sg roll rollback_life [of ?c k d b]
    by (auto simp: apgar_step_def Let_def case_prod_beta same_life_def split: option.splits)
  have five: "?next = 5" using Rollback_low [OF roll] by (simp add: ApgarScore_def)
  have e: "snd (apgar_step k g d b now c) = emit (DeployEvent (DepName d) True ReasonRolledBack)
      (upd (\<lambda>s. s\<lparr>Phase := PhaseRolledBack,
         Msg := WentBack (TotalScore ?score) (DepName d) (PreviousRevision b) (GName g) (GNamespace g)\<rparr>)
       (upd (\<lambda>s. s\<lparr>Scores := Scores s @ [(now, ?score)]\<rparr>) (snd (rollback k d b ?c))))"
    using go sg roll ended by (simp add: apgar_step_def Let_def case_prod_beta)
  obtain rss rs where rs: "ListReplicaSets k (Calls ?c) = Inr rss" "rs \<in> set rss" "RSController rs = Some (DepUID d)"
    "revision_of rs = PreviousRevision b"
    "(UpdateDeployment (endCare b (d\<lparr>DepTemplate := drop_hash (RSTemplate rs)\<rparr>)), True) \<in> set (Log (snd (rollback k d b ?c)))"
    using rollback_done [OF ended] by blast
  have list: "\<exists>n rss rs. Calls c \<le> n \<and> ListReplicaSets k n = Inr rss \<and> rs \<in> set rss
      \<and> RSController rs = Some (DepUID d) \<and> revision_of rs = PreviousRevision b
      \<and> (UpdateDeployment (endCare b (d\<lparr>DepTemplate := drop_hash (RSTemplate rs)\<rparr>)), True)
          \<in> set (Log (snd (apgar_step k g d b now c)))"
    by (intro exI [of _ "Calls ?c"] exI [of _ rss] exI [of _ rs] conjI) (use rs e in simp_all)
  have late: "BirthTime b + 5 * minute \<le> now" using go five by (simp add: t_add_def)
  show ?thesis
    using list late five Rollback_low [OF roll] rollback_done [OF ended]
    by (simp add: e went_back_def endCare_cong [of "b\<lparr>RolledBackTo := PreviousRevision b\<rparr>" b] del: ask_simps)
qed


section \<open>A newborn that is looked after\<close>

lemma Log_look_after: "Log (snd (look_after L k g d b now c)) = Log (snd (tend L k g d b now c))"
  by (simp add: look_after_def Let_def case_prod_beta)

lemma tend_split:
  assumes "Birth (St c) = Some b"
  obtains (idle) "\<not> inCare (St c)" "Phase (St (snd (tend L k g d b now c))) = Phase (St c)"
  | (cared) b1 c1 c2 where "inCare (St c)" "same_birth b b1" "Birth (St c1) = Some b1" "Phase (St c1) = Phase (St c)"
      "Calls c \<le> Calls c1" "c2 = snd (apgar_step k g d b1 now c1)"
      "snd (tend L k g d b now c) = (if inCare (St c2) then snd (care_step L k d (birth_now b c2) now c2) else c2)"
proof -
  let ?c1 = "snd (resolveRevisions L k d b c)"
  obtain b1 where b1: "Birth (St ?c1) = Some b1" "same_birth b b1" "Phase (St ?c1) = Phase (St c)" "Care (St ?c1) = Care (St c)"
    using resolve_life [OF assms, of L k d] by blast
  have care1: "inCare (St ?c1) = inCare (St c)" and now1: "birth_now b ?c1 = b1"
    using b1 by (simp_all add: inCare_def birth_now_def)
  have calls: "Calls c \<le> Calls ?c1" by (simp add: resolveRevisions_def case_prod_beta split: sum.splits)
  show ?thesis
  proof (cases "inCare (St c)")
    case False
    show ?thesis by (rule idle) (use False care1 b1 in \<open>simp_all add: tend_def Let_def case_prod_beta\<close>)
  next
    case True
    show ?thesis
      by (rule cared [of b1 ?c1, OF True b1(2,1,3) calls refl])
        (use True care1 now1 in \<open>simp add: tend_def Let_def case_prod_beta\<close>)
  qed
qed

lemma look_after_home:
  assumes "Birth (St c) = Some b" and "Phase (St c) \<noteq> PhaseGrown"
    and "Phase (St (snd (look_after L k g d b now c))) = PhaseGrown"
  shows "may_go_home L d b now \<and> (UpdateDeployment (endCare b d), True) \<in> set (Log (snd (look_after L k g d b now c)))"
  using assms(1)
proof (cases rule: tend_split [where L = L and k = k and g = g and d = d and now = now])
  case (cared b1 c1 c2)
  have life: "same_life (St c1) (St c2) \<or> rolled b1 (St c2) \<and> Phase (St c2) \<in> {Phase (St c1), PhaseRolledBack}"
    using apgar_step_life [of c1 k g d b1 now] cared(6) by simp
  have in2: "inCare (St c2)"
    using life cared(4,7) assms(2,3) by (auto simp: same_life_def look_after_fields split: if_splits)
  then have b2: "Birth (St c2) = Some b1"
    using life cared(3) by (auto simp: same_life_def rolled_def inCare_def)
  have "Phase (St (snd (care_step L k d b1 now c2))) = PhaseGrown"
    using cared(7) in2 b2 assms(3) by (simp add: look_after_fields birth_now_def)
  then have "may_go_home L d b1 now \<and> (UpdateDeployment (endCare b1 d), True) \<in> set (Log (snd (care_step L k d b1 now c2)))"
    by (rule care_step_home [OF in2])
  then show ?thesis
    using cared(2,7) in2 b2
    by (simp add: Log_look_after same_birth_def may_go_home_def birth_now_def endCare_cong [of b1 b])
qed (use assms in \<open>simp add: look_after_fields\<close>)

lemma look_after_back:
  assumes "Birth (St c) = Some b" and "Phase (St c) \<noteq> PhaseRolledBack"
    and "Phase (St (snd (look_after L k g d b now c))) = PhaseRolledBack"
  shows "\<exists>b'. same_birth b b' \<and> Birth (St (snd (look_after L k g d b now c))) = Some b'
    \<and> went_back k (Calls c) g d now b' (Log (snd (look_after L k g d b now c))) (Scores (St (snd (look_after L k g d b now c))))"
  using assms(1)
proof (cases rule: tend_split [where L = L and k = k and g = g and d = d and now = now])
  case (cared b1 c1 c2)
  have out2: "\<not> inCare (St c2)"
  proof
    assume i: "inCare (St c2)"
    then show False
      using care_step_life [OF i, of L k d "birth_now b c2" now] cared(7) assms(3)
      by (auto simp: look_after_fields inCare_def home_def i)
  qed
  then have "Phase (St (snd (apgar_step k g d b1 now c1))) = PhaseRolledBack"
    using cared(6,7) assms(3) by (simp add: look_after_fields)
  then have "Birth (St c2) = Some (b1\<lparr>RolledBackTo := PreviousRevision b1\<rparr>)
      \<and> went_back k (Calls c) g d now (b1\<lparr>RolledBackTo := PreviousRevision b1\<rparr>) (Log c2) (Scores (St c2))"
    using apgar_step_back [of c1 k g d b1 now] cared(4,5,6) assms(2) by (auto intro: went_back_later)
  then show ?thesis
    using cared(2,7) out2
    by (intro exI [of _ "b1\<lparr>RolledBackTo := PreviousRevision b1\<rparr>"]) (simp add: look_after_fields Log_look_after same_birth_def)
qed (use assms in \<open>simp add: look_after_fields\<close>)


section \<open>A whole pass\<close>

definition target :: "('q, 'x) cluster \<Rightarrow> gestation \<Rightarrow> ('q, 'x) ctl \<Rightarrow> ('q, 'x) deployment api" where
  "target k g c = GetDeployment k (Calls c) (SpecDeployment (GSpec g))"

lemma reconcile_split:
  obtains (stopped) "St (snd (reconcile L k g now c)) = St c"
  | (moved) d c0 c1 c2 where "d = None \<or> (\<exists>x. d = Some x \<and> target k g c = Inr x)"
      "St c0 = redelivery g now (St c)" "c1 = snd (advance L k g d now c0)" "c2 = screen_requested L k g d now c1"
      "St (snd (reconcile L k g now c)) = St c2" "extends c2 (snd (reconcile L k g now c))" "Log c0 = Log c"
      "Calls c0 = Suc (Calls c)"
proof -
  let ?c0 = "upd (redelivery g now) (snd (ask (\<lambda>n. GetDeployment k n (SpecDeployment (GSpec g))) c))"
  let ?d = "case target k g c of Inl _ \<Rightarrow> None | Inr d \<Rightarrow> Some d"
  let ?c1 = "snd (advance L k g ?d now ?c0)"
  let ?c2 = "screen_requested L k g ?d now ?c1"
  show ?thesis
  proof (cases "\<exists>e. target k g c = Inl e \<and> e \<noteq> NotFound")
    case True
    show ?thesis by (rule stopped) (use True in \<open>auto simp: reconcile_def target_def Let_def case_prod_beta split: api_error.splits\<close>)
  next
    case False
    have r: "snd (reconcile L k g now c) = (if stored (St ?c2) = stored (St c) then ?c2
        else snd (do_write k (UpdateStatus (GName g) (stored (St ?c2))) ?c2))"
      using False by (auto simp: reconcile_def target_def Let_def case_prod_beta split: sum.splits api_error.splits)
    show ?thesis
      by (rule moved [of ?d ?c0, OF _ _ refl refl]) (auto simp: r extends_def split: sum.splits)
  qed
qed

lemma advance_to:
  assumes "Phase (St c0) \<noteq> P" and "Phase (St (snd (advance L k g d now c0))) = P"
    and "P = PhaseGrown \<or> P = PhaseRolledBack"
  shows "\<exists>b d'. Birth (St c0) = Some b \<and> d = Some d' \<and> DepUID d' = BirthUID b
    \<and> snd (advance L k g d now c0) = snd (look_after L k g d' b now c0)"
proof -
  have del: "Phase (St c0) \<noteq> PhaseDelivering"
    using assms deliver_life [of c0 L k g d now] by (auto simp: advance_def case_prod_beta same_life_def newborn_def)
  obtain b where b: "Birth (St c0) = Some b"
    using assms del pregnancy_life(3) [of L k g d now c0] by (cases "Birth (St c0)") (auto simp: advance_def case_prod_beta)
  have no: "Phase (St (snd (depart L k g b now c0))) \<noteq> P"
    using depart_life [of L k g b now c0] assms by auto
  show ?thesis
    using assms del b no by (cases d) (auto simp: advance_def afterBirth_def case_prod_beta split: if_splits)
qed

lemma reconcile_to:
  assumes "Phase (St c) \<noteq> P" and "Phase (St (snd (reconcile L k g now c))) = P"
    and "P = PhaseGrown \<or> P = PhaseRolledBack"
  obtains b d c0 where "Birth (St c) = Some b" "target k g c = Inr d" "DepUID d = BirthUID b" "St c0 = St c" "Log c0 = Log c"
    "Calls c0 = Suc (Calls c)" "Phase (St (snd (look_after L k g d b now c0))) = P"
    "extends (snd (look_after L k g d b now c0)) (snd (reconcile L k g now c))"
    "Birth (St (snd (reconcile L k g now c))) = Birth (St (snd (look_after L k g d b now c0)))"
    "Scores (St (snd (reconcile L k g now c))) = Scores (St (snd (look_after L k g d b now c0)))"
proof (rule reconcile_split [of L k g now c])
  assume "St (snd (reconcile L k g now c)) = St c"
  then show ?thesis using assms by simp
next
  fix dd c0 c1 c2
  assume a: "dd = None \<or> (\<exists>x. dd = Some x \<and> target k g c = Inr x)" "St c0 = redelivery g now (St c)"
    "c1 = snd (advance L k g dd now c0)" "c2 = screen_requested L k g dd now c1"
    "St (snd (reconcile L k g now c)) = St c2" "extends c2 (snd (reconcile L k g now c))" "Log c0 = Log c"
    "Calls c0 = Suc (Calls c)"
  have p0: "Phase (St c0) \<noteq> P" using a(2) assms by (auto simp: redelivery_def)
  have p1: "Phase (St c1) = P" using a assms by simp
  obtain b d where bd: "Birth (St c0) = Some b" "dd = Some d" "DepUID d = BirthUID b" "c1 = snd (look_after L k g d b now c0)"
    using advance_to [OF p0 _ assms(3), of L k g dd now] p1 a(3) by auto
  have same: "St c0 = St c" using a(2) bd(1) by (auto simp: redelivery_def split: if_splits)
  show ?thesis
  proof (rule that [of b d c0])
    show "extends (snd (look_after L k g d b now c0)) (snd (reconcile L k g now c))"
      using extends_trans [OF extends_screen_requested a(6) [unfolded a(4)]] bd(4) by simp
  qed (use a bd same p1 in simp_all)
qed

section \<open>A birth\<close>

definition is_update :: "('q, 'x) effect \<Rightarrow> bool" where
  "is_update e = (case e of UpdateDeployment _ \<Rightarrow> True | _ \<Rightarrow> False)"

definition quiet :: "(('q, 'x) effect \<times> bool) list \<Rightarrow> bool" where
  "quiet l = list_all (\<lambda>(e, _). \<not> is_update e) l"

lemma quiet_simps [simp]: "quiet []" "quiet (l @ l') = (quiet l \<and> quiet l')" "quiet [(e, r)] = (\<not> is_update e)"
  by (simp_all add: quiet_def)

lemma quiet_not: "quiet l \<Longrightarrow> (UpdateDeployment u, r) \<notin> set l"
  by (auto simp: quiet_def list_all_iff is_update_def)

text \<open>The newborn annotation is in place: it was when it was read, or its patch is in the log.\<close>

definition annotated ::
    "('q, 'x) library \<Rightarrow> ('q, 'x) cluster \<Rightarrow> ('q, 'x) deployment \<Rightarrow> (('q, 'x) effect \<times> bool) list \<Rightarrow> bool" where
  "annotated L k d l \<longleftrightarrow>
     (\<exists>n ann v. GetNamespace k n (DepNamespace d) = Inr ann
        \<and> v = EncodeNewborns (MarshalNewborns L) (newborn_entries L ann (birth_selector L d) ''kyvernetria-newborn-1'')
        \<and> (lookup_str ann NewbornCareAnnotation = v
           \<or> (PatchNewborns (DepNamespace d) (if v = [] then None else Some v), True) \<in> set l))"

lemma annotated_append: "annotated L k d l \<Longrightarrow> annotated L k d (l @ l')"
  unfolding annotated_def by (metis Un_iff set_append)

lemma tier_one: "snd (CareTier 0) = ''kyvernetria-newborn-1''"
  by (simp add: CareTier_def careTiers_def)

lemma annotatedI:
  "GetNamespace k n (DepNamespace d) = Inr ann \<Longrightarrow>
   v = EncodeNewborns (MarshalNewborns L) (newborn_entries L ann (birth_selector L d) ''kyvernetria-newborn-1'') \<Longrightarrow>
   lookup_str ann NewbornCareAnnotation = v
     \<or> (PatchNewborns (DepNamespace d) (if v = [] then None else Some v), True) \<in> set l \<Longrightarrow> annotated L k d l"
  unfolding annotated_def by blast

lemma setNewborn_log:
  "\<exists>l. Log (snd (setNewborn L k (DepNamespace d) (birth_selector L d) (snd (CareTier 0)) c)) = Log c @ l \<and> quiet l
     \<and> (fst (setNewborn L k (DepNamespace d) (birth_selector L d) (snd (CareTier 0)) c) = None \<longrightarrow> annotated L k d l)"
proof (cases "GetNamespace k (Calls c) (DepNamespace d)")
  case (Inl e)
  then show ?thesis by (simp add: setNewborn_def case_prod_beta)
next
  case (Inr ann)
  let ?v = "EncodeNewborns (MarshalNewborns L) (newborn_entries L ann (birth_selector L d) ''kyvernetria-newborn-1'')"
  let ?e = "(PatchNewborns (DepNamespace d) (if ?v = [] then None else Some ?v), Write k (Suc (Calls c)) = None)"
  have s: "setNewborn L k (DepNamespace d) (birth_selector L d) (snd (CareTier 0)) c
      = patchNewborns k (DepNamespace d) ann ?v (snd (ask (\<lambda>n. GetNamespace k n (DepNamespace d)) c))"
    using Inr by (simp add: setNewborn_def case_prod_beta tier_one)
  note I = annotatedI [OF Inr refl, where L = L]
  show ?thesis
  proof (cases "lookup_str ann NewbornCareAnnotation = ?v")
    case True
    then show ?thesis unfolding s by (intro exI [of _ "[]"]) (simp add: patchNewborns_def I)
  next
    case False
    show ?thesis
      unfolding s by (rule exI [of _ "[?e]"]) (use False I [where l = "[?e]"] in \<open>simp add: patchNewborns_def is_update_def\<close>)
  qed
qed

lemma budget_log: "\<exists>l. Log (snd (budget L k g d want c)) = Log c @ l \<and> quiet l"
  by (simp add: budget_def createPDB_def Let_def case_prod_beta is_update_def split: sum.splits)

lemma prepareBirth_log:
  "\<exists>l. Log (snd (prepareBirth L k g d c)) = Log c @ l \<and> quiet l
     \<and> (\<forall>p. fst (prepareBirth L k g d c) = Inr p \<longrightarrow> annotated L k d l)"
proof -
  let ?s = "setNewborn L k (DepNamespace d) (birth_selector L d) (snd (CareTier 0)) c"
  obtain l where l: "Log (snd ?s) = Log c @ l" "quiet l" "fst ?s = None \<longrightarrow> annotated L k d l"
    by (rule exE [OF setNewborn_log [of L k d c]], elim conjE) (rule that)
  consider (failed) e where "fst ?s = Some e" | (no_hpas) e where "fst ?s = None" "ListHPAs k (Calls (snd ?s)) = Inl e"
    | (ok) h where "fst ?s = None" "ListHPAs k (Calls (snd ?s)) = Inr h"
    by (cases "fst ?s"; cases "ListHPAs k (Calls (snd ?s))") blast+
  then show ?thesis
  proof cases
    case failed
    then have "prepareBirth L k g d c = (Inl e, snd ?s)" by (simp add: prepareBirth_def Let_def case_prod_beta)
    then show ?thesis using l by simp
  next
    case no_hpas
    then have "prepareBirth L k g d c = (Inl e, snd (ask (ListHPAs k) (snd ?s)))"
      by (simp add: prepareBirth_def Let_def case_prod_beta)
    then show ?thesis using l by simp
  next
    case ok
    let ?want = "if \<not> autoscaled h (DepName d) then i32 (launch_replicas g d + 1) else launch_replicas g d"
    let ?b = "budget L k g d ?want (snd (ask (ListHPAs k) (snd ?s)))"
    obtain l' where l': "Log (snd ?b) = Log (snd ?s) @ l'" "quiet l'"
      using budget_log [of L k g d ?want "snd (ask (ListHPAs k) (snd ?s))"] by auto
    have e: "snd (prepareBirth L k g d c) = snd ?b"
      using ok by (simp add: prepareBirth_def Let_def case_prod_beta)
    have "annotated L k d (l @ l')" by (rule annotated_append) (use l(3) ok(1) in simp)
    then show ?thesis unfolding e using l l' by (intro exI [of _ "l @ l'"]) simp
  qed
qed

lemma prepareBirth_plan:
  assumes "fst (prepareBirth L k g d c) = Inr (want, added, covering)"
  shows "want = (if added then i32 (launch_replicas g d + 1) else launch_replicas g d)"
  using assms by (auto simp: prepareBirth_def Let_def case_prod_beta split: option.splits sum.splits)

lemma giveBirth_update:
  assumes "Log (snd (giveBirth L k g d now c)) = Log c @ l" and "(UpdateDeployment u, r) \<in> set l"
  shows "\<exists>xs ys want added covering. l = xs @ (UpdateDeployment u, r) # ys \<and> quiet xs \<and> quiet ys \<and> annotated L k d xs
    \<and> u = born_deployment L d now want
    \<and> want = (if added then i32 (launch_replicas g d + 1) else launch_replicas g d)
    \<and> (r \<longrightarrow> Birth (St (snd (giveBirth L k g d now c))) = Some (new_birth L d now added covering))"
proof -
  obtain xs where xs: "Log (snd (prepareBirth L k g d c)) = Log c @ xs" "quiet xs"
    "\<forall>p. fst (prepareBirth L k g d c) = Inr p \<longrightarrow> annotated L k d xs"
    by (rule exE [OF prepareBirth_log [of L k g d c]], elim conjE) (rule that)
  show ?thesis
  proof (cases "fst (prepareBirth L k g d c)")
    case (Inl e)
    then have "l = xs" using assms(1) xs by (simp add: giveBirth_def case_prod_beta)
    then show ?thesis using assms(2) xs quiet_not by blast
  next
    case (Inr plan)
    obtain want added covering where plan: "plan = (want, added, covering)" by (metis prod_cases3)
    let ?p = "snd (prepareBirth L k g d c)"
    let ?e = "UpdateDeployment (born_deployment L d now want)"
    let ?ok = "Write k (Calls ?p) = None"
    have l: "l = xs @ (?e, ?ok) # (if ?ok then [(DeployEvent (DepName d) False ReasonDelivered, True)] else [])"
      using assms(1) xs Inr plan
      by (auto simp: giveBirth_def commitBirth_def Let_def case_prod_beta split: option.splits)
    have ur: "u = born_deployment L d now want" "r = ?ok"
      using assms(2) quiet_not [OF xs(2)] unfolding l by (auto split: if_splits)
    show ?thesis
      by (rule exI [of _ xs], rule exI, rule exI [of _ want], rule exI [of _ added], rule exI [of _ covering],
          intro conjI, rule l [unfolded ur [symmetric]])
        (use xs Inr plan ur prepareBirth_plan [of L k g d c want added covering] in
          \<open>auto simp: is_update_def giveBirth_def commitBirth_def Let_def case_prod_beta split: option.splits\<close>)
  qed
qed

section \<open>Claims\<close>

text \<open>
  Claim C6. A newborn goes home only when it should: if a pass makes a gestation Grown, then
  its Deployment is the one that was born, at least 72 hours have passed since the birth, two
  different people are named on it as caregivers, and the pass wrote the Deployment without
  its extra replica and care label, confirmed by the API; whatever the cluster answers.
\<close>

theorem goes_home_safely:
  assumes "Phase (St c) \<noteq> PhaseGrown" and "Phase (St (snd (reconcile L k g now c))) = PhaseGrown"
  shows "\<exists>b d. Birth (St c) = Some b \<and> GetDeployment k (Calls c) (SpecDeployment (GSpec g)) = Inr d \<and> DepUID d = BirthUID b
    \<and> 72 * hour \<le> now - BirthTime b
    \<and> trim_space (lookup_str (DepAnnotations d) PrimaryCaregiverAnnotation) \<noteq> []
    \<and> trim_space (lookup_str (DepAnnotations d) SecondaryCaregiverAnnotation) \<noteq> []
    \<and> \<not> EqualFold L (trim_space (lookup_str (DepAnnotations d) PrimaryCaregiverAnnotation))
          (trim_space (lookup_str (DepAnnotations d) SecondaryCaregiverAnnotation))
    \<and> (UpdateDeployment (endCare b d), True) \<in> set (Log (snd (reconcile L k g now c)))"
proof -
  obtain b d c0 where r: "Birth (St c) = Some b" "target k g c = Inr d" "DepUID d = BirthUID b" "St c0 = St c"
    "Phase (St (snd (look_after L k g d b now c0))) = PhaseGrown"
    "extends (snd (look_after L k g d b now c0)) (snd (reconcile L k g now c))"
    using assms by (rule reconcile_to) auto
  have "may_go_home L d b now \<and> (UpdateDeployment (endCare b d), True) \<in> set (Log (snd (look_after L k g d b now c0)))"
    by (rule look_after_home) (use r assms in simp_all)
  then show ?thesis
    using r extends_mem [OF r(6)] by (auto simp: may_go_home_def target_def NewbornCareDuration_def Let_def)
qed

text \<open>
  Claim C7. A launch is rolled back only for a reason: if a pass rolls a gestation back, then
  rollback is enabled, the score it just took is the five-minute score, taken at least five
  minutes after the birth, and is below 7; the revision it goes back to is the previous
  revision of the birth, whose number, in every status the API may hold, is positive and
  smaller than that of the revision that was born; and the pass wrote the Deployment,
  confirmed by the API, with the template of a ReplicaSet that is in a list the API gave in
  this pass, belongs to the Deployment and bears that revision.
\<close>

theorem rolls_back_only_when_low:
  assumes "Phase (St c) \<noteq> PhaseRolledBack" and "Phase (St (snd (reconcile L k g now c))) = PhaseRolledBack"
  shows "\<exists>b d n rss rs. Birth (St (snd (reconcile L k g now c))) = Some b
    \<and> GetDeployment k (Calls c) (SpecDeployment (GSpec g)) = Inr d \<and> DepUID d = BirthUID b
    \<and> RollbackEnabled (GSpec g) \<and> BirthTime b + 5 * minute \<le> now
    \<and> Scores (St (snd (reconcile L k g now c))) \<noteq> []
    \<and> Minute (snd (last (Scores (St (snd (reconcile L k g now c)))))) = 5
    \<and> TotalScore (snd (last (Scores (St (snd (reconcile L k g now c)))))) < 7
    \<and> RolledBackTo b \<noteq> [] \<and> RolledBackTo b = PreviousRevision b
    \<and> (reached L (St c) \<longrightarrow>
         0 < rev_number (RolledBackTo b) \<and> rev_number (RolledBackTo b) < rev_number (Revision b))
    \<and> Calls c < n \<and> ListReplicaSets k n = Inr rss \<and> rs \<in> set rss
    \<and> RSController rs = Some (DepUID d) \<and> revision_of rs = RolledBackTo b
    \<and> (UpdateDeployment (endCare b (d\<lparr>DepTemplate := drop_hash (RSTemplate rs)\<rparr>)), True)
        \<in> set (Log (snd (reconcile L k g now c)))"
proof -
  obtain b d c0 where r: "Birth (St c) = Some b" "target k g c = Inr d" "DepUID d = BirthUID b" "St c0 = St c"
    "Phase (St (snd (look_after L k g d b now c0))) = PhaseRolledBack"
    "extends (snd (look_after L k g d b now c0)) (snd (reconcile L k g now c))"
    "Birth (St (snd (reconcile L k g now c))) = Birth (St (snd (look_after L k g d b now c0)))"
    "Scores (St (snd (reconcile L k g now c))) = Scores (St (snd (look_after L k g d b now c0)))"
    "Calls c0 = Suc (Calls c)"
    using assms by (rule reconcile_to) auto
  obtain b' where b': "same_birth b b'" "Birth (St (snd (look_after L k g d b now c0))) = Some b'"
    and w: "went_back k (Calls c0) g d now b' (Log (snd (look_after L k g d b now c0))) (Scores (St (snd (look_after L k g d b now c0))))"
    using look_after_back [of c0 b L k g d now] r assms by auto
  obtain n rss rs where l: "Calls c0 \<le> n" "ListReplicaSets k n = Inr rss" "rs \<in> set rss"
    "RSController rs = Some (DepUID d)" "revision_of rs = RolledBackTo b'"
    "(UpdateDeployment (endCare b' (d\<lparr>DepTemplate := drop_hash (RSTemplate rs)\<rparr>)), True)
       \<in> set (Log (snd (look_after L k g d b now c0)))"
    using w unfolding went_back_def by blast
  have o: "in_order b'" if "reached L (St c)"
    using reconcile_ordered [OF reached_ordered [OF that], of L k g now] r(7) b'(2) by (simp add: ordered_def)
  show ?thesis
    by (intro exI [of _ b'] exI [of _ d] exI [of _ n] exI [of _ rss] exI [of _ rs])
      (use w b' l r o extends_mem [OF r(6) l(6)] in
        \<open>auto simp: went_back_def target_def same_birth_def Reassuring_def in_order_def\<close>)
qed


lemma releasePlacenta_log: "\<exists>l. Log (snd (releasePlacenta k g c)) = Log c @ l \<and> quiet l"
  by (simp add: releasePlacenta_def Let_def case_prod_beta is_update_def split: sum.splits api_error.splits option.splits)

lemma giveBirth_log: "\<exists>l. Log (snd (giveBirth L k g d now c)) = Log c @ l"
proof -
  obtain l where "Log (snd (prepareBirth L k g d c)) = Log c @ l"
    by (rule exE [OF prepareBirth_log [of L k g d c]], elim conjE) (rule that)
  then show ?thesis
    by (cases "fst (prepareBirth L k g d c)")
      (auto simp: giveBirth_def commitBirth_def Let_def case_prod_beta split: option.splits)
qed

text \<open>
  Claim C9. Protection comes before the pods: whenever a delivery writes to the service's
  Deployment, the room held for it is released or has been waited for long enough, and before
  that write, and before any other write to a Deployment, the newborn annotation of the
  namespace already listed the service or its patch was confirmed by the API.
\<close>

theorem protection_before_pods:
  assumes "Log (snd (deliver L k g d now c)) = Log c @ l" and "(UpdateDeployment u, r) \<in> set l"
  shows "\<exists>dep held want xs ys. d = Some dep \<and> fst (releasePlacenta k g c) = Inr held
    \<and> (held \<le> 0 \<or> placentaGrace \<le> now - (case DeliveryStarted (St c) of None \<Rightarrow> now | Some t \<Rightarrow> t))
    \<and> l = xs @ (UpdateDeployment u, r) # ys \<and> quiet xs \<and> quiet ys \<and> annotated L k dep xs
    \<and> u = born_deployment L dep now want"
proof -
  let ?p = "snd (releasePlacenta k g c)"
  obtain lr where lr: "Log ?p = Log c @ lr" "quiet lr"
    by (rule exE [OF releasePlacenta_log [of k g c]], elim conjE) (rule that)
  have stop: "False" if "Log (snd (deliver L k g d now c)) = Log ?p"
    using that assms lr quiet_not [OF lr(2)] by simp
  obtain held where held: "fst (releasePlacenta k g c) = Inr held"
    using stop by (cases "fst (releasePlacenta k g c)") (simp_all add: deliver_def case_prod_beta)
  let ?c = "upd (\<lambda>s. s\<lparr>StReserved := i32 held, StTrimester := 0\<rparr>) ?p"
  let ?started = "case DeliveryStarted (St c) of None \<Rightarrow> now | Some t \<Rightarrow> t"
  have wait: "\<not> (held > 0 \<and> t_sub now ?started < placentaGrace)"
    using stop held by (auto simp: deliver_def Let_def case_prod_beta)
  then have room: "held \<le> 0 \<or> placentaGrace \<le> now - ?started"
    by (auto simp: t_sub_def placentaGrace_def split: if_splits option.splits)
  have w: "\<not> (held > 0 \<and> t_sub now (case DeliveryStarted (St ?c) of None \<Rightarrow> now | Some t \<Rightarrow> t) < placentaGrace)"
    using wait by simp
  have unfold: "deliver L k g d now c =
      (case d of
         None \<Rightarrow> (None, upd (\<lambda>s. s\<lparr>Msg := WaitingFor (SpecDeployment (GSpec g))\<rparr>) ?c)
       | Some d \<Rightarrow>
           (case AsSelector L (DepSelector d) of
              None \<Rightarrow> (None, upd (\<lambda>s. s\<lparr>Msg := NoSelector (DepName d)\<rparr>) ?c)
            | Some sel \<Rightarrow>
                if SelEmpty sel then (None, upd (\<lambda>s. s\<lparr>Msg := NoSelector (DepName d)\<rparr>) ?c)
                else giveBirth L k g d now ?c))"
    unfolding deliver_def Let_def case_prod_beta held sum.case if_not_P [OF w] ..
  obtain dep where d: "d = Some dep" using stop unfolding unfold by (cases d) simp_all
  obtain sel where sel: "AsSelector L (DepSelector dep) = Some sel"
    using stop d unfolding unfold by (cases "AsSelector L (DepSelector dep)") simp_all
  have e: "deliver L k g d now c = giveBirth L k g dep now ?c"
    using stop d sel unfolding unfold by (cases "SelEmpty sel") simp_all
  note dep = d sel
  obtain lg where lg: "Log (snd (giveBirth L k g dep now ?c)) = Log ?c @ lg"
    by (rule exE [OF giveBirth_log [of L k g dep now ?c]]) (rule that)
  have l: "l = lr @ lg" using assms(1) e lg lr by simp
  have mem: "(UpdateDeployment u, r) \<in> set lg" using assms(2) quiet_not [OF lr(2)] unfolding l by auto
  obtain xs ys want where x: "lg = xs @ (UpdateDeployment u, r) # ys" "quiet xs" "quiet ys" "annotated L k dep xs"
    "u = born_deployment L dep now want"
    using giveBirth_update [OF lg mem] by (elim exE conjE) (rule that)
  have "annotated L k dep (lr @ xs)"
    using x(4) unfolding annotated_def by (metis Un_iff set_append)
  then show ?thesis
    using dep held room x lr(2) unfolding l
    by (intro exI [of _ dep] exI [of _ held] exI [of _ want] exI [of _ "lr @ xs"] exI [of _ ys]) simp
qed

text \<open>
  Claim C11. Newborn care gives back what it took: when a birth has written the Deployment, the
  birth on record makes the end of care return exactly the number of replicas the service was
  launched with, whether an autoscaler rules it or not, and the labels it had but for the care
  label.
\<close>

theorem care_gives_back:
  assumes "Log (snd (giveBirth L k g d now c)) = Log c @ l" and "(UpdateDeployment u, True) \<in> set l"
    and "0 < launch_replicas g d" and "launch_replicas g d < 2 ^ 31 - 1"
  shows "\<exists>b. Birth (St (snd (giveBirth L k g d now c))) = Some b
    \<and> ptr_deref (DepReplicas u) 1 = launch_replicas g d + (if AddedReplica b then 1 else 0)
    \<and> ptr_deref (DepReplicas (endCare b u)) 1 = launch_replicas g d
    \<and> DepLabels (endCare b u) = (DepLabels d)(CareLabel := None)
    \<and> DepTemplate (endCare b u) = DepTemplate d"
proof -
  obtain want added covering where w: "u = born_deployment L d now want"
    "want = (if added then i32 (launch_replicas g d + 1) else launch_replicas g d)"
    "Birth (St (snd (giveBirth L k g d now c))) = Some (new_birth L d now added covering)"
    using giveBirth_update [OF assms(1,2)] by auto
  have i: "i32 (launch_replicas g d + 1) = launch_replicas g d + 1" "i32 (launch_replicas g d) = launch_replicas g d"
    using assms(3,4) by (simp_all add: i32_id in_i32_def)
  show ?thesis
    by (rule exI [of _ "new_birth L d now added covering"])
      (use w i assms(3) in \<open>simp add: new_birth_def born_deployment_def endCare_def ptr_deref_def\<close>)
qed

text \<open>
  The end of care is not idempotent: a discharge that wrote the Deployment and then failed to
  delete the disruption budget leaves the status as it was, so the next pass takes one more
  replica from the Deployment it reads.
\<close>

lemma discharge_retries:
  assumes "Write k (Calls c) = None"
    and "fst (deletePDB k (snd (do_write k (UpdateDeployment (endCare b d)) c))) \<noteq> None"
  shows "St (snd (discharge L k d b now cg c)) = St c
    \<and> (UpdateDeployment (endCare b d), True) \<in> set (Log (snd (discharge L k d b now cg c)))"
proof -
  let ?c = "snd (do_write k (UpdateDeployment (endCare b d)) c)"
  have "snd (discharge L k d b now cg c) = snd (deletePDB k ?c)"
    using assms by (auto simp: discharge_def Let_def case_prod_beta)
  then show ?thesis using assms(1) extends_mem [OF extends_deletePDB, of _ ?c k] by simp
qed

lemma endCare_twice:
  assumes "AddedReplica b" and "DepReplicas d = Some n" and "2 < n" and "n < 2 ^ 31"
  shows "DepReplicas (endCare b d) = Some (n - 1) \<and> DepReplicas (endCare b (endCare b d)) = Some (n - 2)"
  using assms by (simp add: endCare_def ptr_deref_def i32_id in_i32_def)


end
