(* ===== verification/Launch_Examples.thy ===== *)
theory Launch_Examples
  imports Launch
begin

text \<open>
  A small cluster on which the claims about the gestation controller are applied: a Deployment
  \<open>web\<close> with three replicas and two caregivers, one earlier revision, and an API that
  confirms every write. Below it, the claim about whole lives of gestations.
\<close>

section \<open>A cluster\<close>

definition any_selector :: selector where
  "any_selector = \<lparr>SelEmpty = False, SelMatches = (\<lambda>_. True)\<rparr>"

definition demo_library :: "(int, unit) library" where
  "demo_library =
     \<lparr>Quantities = int_q, ParseQuantity = (\<lambda>_. Some 5), ParseDate = (\<lambda>_. Some (1000 * hour)),
      AsSelector = (\<lambda>_. Some any_selector), ShowSelector = (\<lambda>_. ''app=web''), EqualFold = (=),
      MarshalNewborns = (\<lambda>es. concat (map EntryClass es)),
      UnmarshalNewborns = (\<lambda>raw. if raw = ''kyvernetria-newborn-1''
        then Some [\<lparr>Selector = ''app=web'', EntryClass = ''kyvernetria-newborn-1''\<rparr>] else None),
      MarshalLife = toy_marshal, UnmarshalLife = toy_unmarshal, RoomHash = (\<lambda>_. ''h''), DeepEqual = (\<lambda>_ _. False),
      Digest = (\<lambda>_. ''d''), Stamp = (\<lambda>_. ''t''), DateOnly = (\<lambda>_. ''day'')\<rparr>"

definition demo_template :: "(int, unit) pod_template" where
  "demo_template =
     \<lparr>PTView = \<lparr>TmplLabels = (\<lambda>_. None), ImagePullSecrets = [], Volumes = [], InitContainers = [], Containers = []\<rparr>,
      PTSched = \<lparr>NodeSelector = (\<lambda>_. None), Tolerations = (), NodeAffinity = None\<rparr>, PTRest = ()\<rparr>"

definition demo_deployment :: "(int, unit) deployment" where
  "demo_deployment =
     \<lparr>DepName = ''web'', DepNamespace = ''prod'', DepUID = ''u1'', DepController = None, DepLabels = (\<lambda>_. None),
      DepAnnotations = [PrimaryCaregiverAnnotation \<mapsto> ''ann'', SecondaryCaregiverAnnotation \<mapsto> ''bob''],
      DepReplicas = Some 3, DepPaused = True, DepSelector = (), DepTemplate = demo_template,
      Generation = 1, ObservedGeneration = 1\<rparr>"

definition demo_set :: "string \<Rightarrow> (int, unit) replica_set" where
  "demo_set r = \<lparr>RSName = ''web-'' @ r, RSUID = ''rs'' @ r, RSController = Some ''u1'',
     RSAnnotations = [revisionAnnotation \<mapsto> r], RSTemplate = demo_template\<rparr>"

definition demo_observation :: "(int, unit) observation" where
  "demo_observation = \<lparr>ObsReplicaSets = Inr [demo_set ''1'', demo_set ''2''], ObsPods = Inr [], ObsEvents = Inr [],
     ObsServices = Inr [], ObsSlices = (\<lambda>_. Inr [])\<rparr>"

definition demo_cluster :: "(int, unit) cluster" where
  "demo_cluster =
     \<lparr>GetDeployment = (\<lambda>_ name. if name = ''web'' then Inr demo_deployment else Inl NotFound),
      PlacentaPods = (\<lambda>_. Inr []), ListHPAs = (\<lambda>_. Inr []), ListPDBs = (\<lambda>_. Inr []), GetPDB = (\<lambda>_ _. Inl NotFound),
      GetNamespace = (\<lambda>_ _. Inr (\<lambda>_. None)), ListNamespaces = (\<lambda>_. Inr []),
      ListReplicaSets = (\<lambda>_. Inr [demo_set ''1'', demo_set ''2'']), Observe = (\<lambda>_. demo_observation),
      ListMetrics = (\<lambda>_. Inr []), ListDependencies = (\<lambda>_ _. []), LookupAt = (\<lambda>_. quota_lookup),
      GetPriorityClass = (\<lambda>_ _. Inr ()), FindDeployment = (\<lambda>_ _ _. Inl NotFound), GetMemory = (\<lambda>_. Inl NotFound),
      Now = (\<lambda>_. 0), Write = (\<lambda>_. None), HasMetrics = False\<rparr>"

definition demo_gestation :: gestation where
  "demo_gestation = \<lparr>GName = ''web'', GNamespace = ''prod'', GUID = ''g1'', GCreated = 0, GSpec = three_replicas\<rparr>"

definition demo_birth :: birth where
  "demo_birth = \<lparr>BirthTime = 0, BirthUID = ''u1'', Revision = ''2'', PreviousRevision = ''1'',
     BirthSelector = ''app=web'', AddedReplica = True, BirthPDB = ''web-newborn'', RolledBackTo = []\<rparr>"

definition demo_score :: "int \<Rightarrow> gotime \<times> apgar" where
  "demo_score m = (m * minute, \<lparr>Minute = m, Appearance = 2, Pulse = 2, Grimace = 2, Activity = 2, Respiration = 2,
     TotalScore = 10, Notes = []\<rparr>)"

definition in_care :: "(gotime \<times> apgar) list \<Rightarrow> (int, unit) ctl" where
  "in_care scores =
     \<lparr>St = new_status\<lparr>Phase := PhaseNewbornCare, Birth := Some demo_birth, Care := Some (new_care 0 []), Scores := scores\<rparr>,
      Mem = None, Calls = 0, Log = []\<rparr>"

lemmas demo_defs = demo_library_def demo_template_def demo_deployment_def demo_set_def demo_observation_def demo_cluster_def
  demo_gestation_def demo_birth_def demo_score_def in_care_def any_selector_def three_replicas_def new_status_def

section \<open>The claims on it\<close>

theorem goes_home_safely_witness:
  "(UpdateDeployment (endCare demo_birth demo_deployment), True)
     \<in> set (Log (snd (reconcile demo_library demo_cluster demo_gestation (73 * hour)
         (in_care [demo_score 1, demo_score 5]))))"
proof -
  let ?c = "in_care [demo_score 1, demo_score 5]"
  have "Phase (St ?c) \<noteq> PhaseGrown" by (simp add: in_care_def)
  moreover have "Phase (St (snd (reconcile demo_library demo_cluster demo_gestation (73 * hour) ?c))) = PhaseGrown"
    by code_simp
  moreover have "Birth (St ?c) = Some demo_birth" by (simp add: in_care_def)
  moreover have "GetDeployment demo_cluster n (SpecDeployment (GSpec demo_gestation)) = Inr demo_deployment" for n
    by (simp add: demo_cluster_def demo_gestation_def three_replicas_def)
  ultimately show ?thesis
    using goes_home_safely [of ?c demo_library demo_cluster demo_gestation "73 * hour"] by simp
qed

theorem rolls_back_only_when_low_witness:
  "\<exists>n rss rs. ListReplicaSets demo_cluster n = Inr rss \<and> rs \<in> set rss \<and> revision_of rs = ''1'' \<and>
     (UpdateDeployment (endCare (demo_birth\<lparr>RolledBackTo := ''1''\<rparr>)
         (demo_deployment\<lparr>DepTemplate := drop_hash (RSTemplate rs)\<rparr>)), True)
       \<in> set (Log (snd (reconcile demo_library demo_cluster demo_gestation (5 * minute) (in_care [demo_score 1]))))"
proof -
  let ?c = "in_care [demo_score 1]"
  let ?r = "reconcile demo_library demo_cluster demo_gestation (5 * minute) ?c"
  have "Phase (St ?c) \<noteq> PhaseRolledBack" by (simp add: in_care_def)
  moreover have "Phase (St (snd ?r)) = PhaseRolledBack" by code_simp
  ultimately obtain b d n rss rs where x: "Birth (St (snd ?r)) = Some b"
    "GetDeployment demo_cluster (Calls ?c) (SpecDeployment (GSpec demo_gestation)) = Inr d"
    "ListReplicaSets demo_cluster n = Inr rss" "rs \<in> set rss" "revision_of rs = RolledBackTo b"
    "(UpdateDeployment (endCare b (d\<lparr>DepTemplate := drop_hash (RSTemplate rs)\<rparr>)), True) \<in> set (Log (snd ?r))"
    using rolls_back_only_when_low [of ?c demo_library demo_cluster demo_gestation "5 * minute"] by blast
  have "Birth (St (snd ?r)) = Some (demo_birth\<lparr>RolledBackTo := ''1''\<rparr>)" by code_simp
  then have "b = demo_birth\<lparr>RolledBackTo := ''1''\<rparr>" using x(1) by simp
  moreover have "d = demo_deployment"
    using x(2) by (simp add: demo_cluster_def demo_gestation_def three_replicas_def)
  ultimately show ?thesis
    by (intro exI [of _ n] exI [of _ rss] exI [of _ rs]) (use x(3-6) in simp)
qed

definition unborn :: "(int, unit) ctl" where
  "unborn = \<lparr>St = new_status, Mem = None, Calls = 0, Log = []\<rparr>"

definition birth_log :: "((int, unit) effect \<times> bool) list" where
  "birth_log =
     [(PatchNewborns ''prod'' (Some ''kyvernetria-newborn-1''), True),
      (CreatePDB ''prod'' ''web-newborn'' ''g1'' 3 (), True),
      (UpdateDeployment (born_deployment demo_library demo_deployment 7 4), True),
      (DeployEvent ''web'' False ReasonDelivered, True)]"

lemmas birth_defs = deliver_def releasePlacenta_def placentaPods_def giveBirth_def prepareBirth_def commitBirth_def
  setNewborn_def patchNewborns_def budget_def createPDB_def autoscaled_def PlacentaName_def launch_replicas_def
  ptr_deref_def pdb_name_def newborn_entries_def DecodeNewborns_def lookup_str_def tier_one EncodeNewborns_def
  trim_space_def unborn_def

lemma birth_logs:
  "Log (snd (deliver demo_library demo_cluster demo_gestation (Some demo_deployment) 7 unborn)) = Log unborn @ birth_log"
  "Log (snd (giveBirth demo_library demo_cluster demo_gestation demo_deployment 7 unborn)) = Log unborn @ birth_log"
  unfolding birth_log_def
  by (simp_all add: birth_defs case_prod_beta Let_def demo_defs i32_id in_i32_def)

lemma birth_log_update:
  "(UpdateDeployment (born_deployment demo_library demo_deployment 7 4), True) \<in> set birth_log"
  unfolding birth_log_def by simp

theorem protection_before_pods_witness:
  "\<exists>xs ys. birth_log = xs @ (UpdateDeployment (born_deployment demo_library demo_deployment 7 4), True) # ys
     \<and> annotated demo_library demo_cluster demo_deployment xs"
  using protection_before_pods [OF birth_logs(1) birth_log_update] by auto

theorem care_gives_back_witness:
  "\<exists>b. ptr_deref (DepReplicas (endCare b (born_deployment demo_library demo_deployment 7 4))) 1 = 3"
  using care_gives_back [OF birth_logs(2) birth_log_update]
  by (auto simp: launch_replicas_def demo_deployment_def ptr_deref_def)

theorem gestation_lifecycle_witness:
  "Phase (St (snd (reconcile demo_library demo_cluster demo_gestation 7 unborn))) \<in> set (next_phases NoPhase)
   \<and> consistent (St (snd (reconcile demo_library demo_cluster demo_gestation 7 unborn)))"
proof -
  have "reached demo_library (St unborn)" unfolding unborn_def by (simp add: reached.first)
  moreover have "Phase (St unborn) = NoPhase" by (simp add: unborn_def new_status_def)
  ultimately show ?thesis
    using gestation_lifecycle [of demo_library unborn demo_cluster demo_gestation 7] by simp
qed


end
