(* ===== verification/Newborn_Pods.thy ===== *)
theory Newborn_Pods
  imports Launch_Examples
begin

text \<open>
  The gestation controller and the NewbornCare admission plugin together: what the controller
  wants in a namespace's newborn-care annotation (\<open>newborns_in\<close>, \<open>EncodeNewborns\<close>)
  is what the plugin reads there, decodes, and gives a new pod a class by (\<open>care_admit\<close>).
\<close>

















end
