(* ===== verification/Relationships.thy ===== *)
theory Relationships
  imports Care
begin

text \<open>
  \<open>controller/relationships/relationships.go\<close>: the social graph of the cluster. A
  Service serves the workloads its selector matches; a workload talks to the Services it
  addresses by a DNS name in its environment, arguments or command. \<open>hostTokens\<close> splits a
  text into host-like tokens, the index finds the Service a token resolves to, \<open>Graph\<close>
  puts the edges together. Case mapping of strings is the parameter pair \<open>lower\<close>,
  \<open>upper\<close>, the hash of a long name the parameter \<open>hash10\<close>; a Service of the
  cluster is told apart by its namespace and name.
\<close>

section \<open>Data\<close>

record party =
  PKind :: string
  PNamespace :: string
  PName :: string
  PUID :: string

record relationship =
  RelFrom :: party
  RelTo :: party
  RelType :: string
  Evidence :: string

definition Serves :: string where "Serves = ''serves''"
definition TalksTo :: string where "TalksTo = ''talks-to''"

record rcontainer =
  RCName :: string
  RCEnv :: "(string \<times> string) list"
  RCArgs :: "string list"
  RCCommand :: "string list"

record workload =
  WRef :: party
  WLabels :: strmap
  WInit :: "rcontainer list"
  WContainers :: "rcontainer list"

text \<open>A Service with its selector, empty when the code's map is, and the selector's text.\<close>

record rservice =
  RSvcNamespace :: string
  RSvcName :: string
  RSvcUID :: string
  RSvcSelector :: selector
  RSvcSelectorText :: string

definition svc_key :: "rservice \<Rightarrow> string \<times> string" where
  "svc_key s = (RSvcNamespace s, RSvcName s)"

definition svc_party :: "rservice \<Rightarrow> party" where
  "svc_party s = \<lparr>PKind = ''Service'', PNamespace = RSvcNamespace s, PName = RSvcName s, PUID = RSvcUID s\<rparr>"

text \<open>\<open>Workloads\<close>: the three kinds, each with its objects.\<close>

definition of_kind :: "string \<Rightarrow> workload \<Rightarrow> workload" where
  "of_kind k w = w\<lparr>WRef := (WRef w)\<lparr>PKind := k\<rparr>\<rparr>"

definition Workloads :: "workload list \<Rightarrow> workload list \<Rightarrow> workload list \<Rightarrow> workload list" where
  "Workloads deploys sts ds =
     map (of_kind ''Deployment'') deploys @ map (of_kind ''StatefulSet'') sts @ map (of_kind ''DaemonSet'') ds"

section \<open>Texts\<close>

record rtext =
  Where :: string
  TextValue :: string
  Hostish :: bool

definition hostishEnvSuffixes :: "string list" where
  "hostishEnvSuffixes =
     [''_HOST'', ''_HOSTS'', ''_URL'', ''_ADDR'', ''_ADDRESS'', ''_SERVICE'', ''_ENDPOINT'', ''_URI'']"

definition isHostishEnv :: "(string \<Rightarrow> string) \<Rightarrow> string \<Rightarrow> bool" where
  "isHostishEnv upper name = list_ex (\<lambda>s. has_suffix (upper name) s) hostishEnvSuffixes"

definition numbered_texts :: "string \<Rightarrow> string \<Rightarrow> string list \<Rightarrow> rtext list" where
  "numbered_texts name what xs =
     map (\<lambda>(i, a). \<lparr>Where = ''container '' @ name @ '' '' @ what @ '' '' @ show_nat i, TextValue = a, Hostish = False\<rparr>)
       (zip [0..<length xs] xs)"

definition container_texts :: "(string \<Rightarrow> string) \<Rightarrow> rcontainer \<Rightarrow> rtext list" where
  "container_texts upper c =
     map (\<lambda>(n, v). \<lparr>Where = ''container '' @ RCName c @ '' env '' @ n, TextValue = v, Hostish = isHostishEnv upper n\<rparr>)
       (filter (\<lambda>(n, v). v \<noteq> []) (RCEnv c))
     @ numbered_texts (RCName c) ''arg'' (RCArgs c) @ numbered_texts (RCName c) ''command'' (RCCommand c)"

definition templateTexts :: "(string \<Rightarrow> string) \<Rightarrow> workload \<Rightarrow> rtext list" where
  "templateTexts upper w = concat (map (container_texts upper) (WInit w @ WContainers w))"

section \<open>Host tokens\<close>

record host_token =
  Host :: string
  Strong :: bool

definition isDigits :: "string \<Rightarrow> bool" where
  "isDigits s \<longleftrightarrow> s \<noteq> [] \<and> list_all is_digit s"

definition host_char :: "char \<Rightarrow> bool" where
  "host_char c \<longleftrightarrow> (97 \<le> (of_char c :: nat) \<and> (of_char c :: nat) \<le> 122) \<or> is_digit c \<or> c = CHR ''-'' \<or> c = CHR ''.''"

definition isHostName :: "string \<Rightarrow> bool" where
  "isHostName s = list_all host_char s"

text \<open>\<open>s[:i]\<close> and \<open>s[i+1:]\<close> at the first or last separator.\<close>

definition before_any :: "(char \<Rightarrow> bool) \<Rightarrow> string \<Rightarrow> string" where
  "before_any p s = takeWhile (\<lambda>c. \<not> p c) s"

definition after_last :: "char \<Rightarrow> string \<Rightarrow> string" where
  "after_last c s = (case last_index c s of None \<Rightarrow> s | Some i \<Rightarrow> drop (Suc i) s)"

definition hostOf :: "(string \<Rightarrow> string) \<Rightarrow> string \<Rightarrow> bool \<Rightarrow> host_token option" where
  "hostOf lower s strong =
     (let s = before_any (\<lambda>c. c \<in> {CHR ''/'', CHR ''?'', CHR ''#''}) s;
          s = after_last (CHR ''@'') s;
          (host, port, ok) = cut (CHR '':'') s
      in if ok \<and> \<not> isDigits port then None
         else let s = (if ok then host else s); strong = (ok \<or> strong);
                  s = trim_suffix (lower s) ''.''
              in if s = [] \<or> \<not> isHostName s then None else Some \<lparr>Host = s, Strong = strong\<rparr>)"

definition hostToken :: "(string \<Rightarrow> string) \<Rightarrow> string \<Rightarrow> bool \<Rightarrow> host_token option" where
  "hostToken lower f hostish =
     (case index_of ''://'' f of
        Some i \<Rightarrow> hostOf lower (drop (i + 3) f) True
      | None \<Rightarrow>
          (case last_index (CHR ''@'') f of
             Some i \<Rightarrow> hostOf lower (drop (Suc i) f) True
           | None \<Rightarrow> hostOf lower f hostish))"

definition separator :: "char \<Rightarrow> bool" where
  "separator c \<longleftrightarrow> c \<in> set ('' ,;()[]{}<>'' @ [CHR 0x09, CHR 0x0A, CHR 0x0D, CHR 0x22, CHR 0x27])"

text \<open>\<open>strings.FieldsFunc\<close>: the maximal runs without separators.\<close>

fun fields_func :: "(char \<Rightarrow> bool) \<Rightarrow> string \<Rightarrow> string \<Rightarrow> string list" where
  "fields_func p [] acc = (if acc = [] then [] else [rev acc])"
| "fields_func p (c # cs) acc =
     (if p c then (if acc = [] then [] else [rev acc]) @ fields_func p cs [] else fields_func p cs (c # acc))"

definition flag_value :: "string \<Rightarrow> string" where
  "flag_value f =
     (case index_byte (CHR ''='') f of
        None \<Rightarrow> f
      | Some i \<Rightarrow> if CHR ''/'' \<in> set (take i f) then f else drop (Suc i) f)"

definition hostTokens :: "(string \<Rightarrow> string) \<Rightarrow> string \<Rightarrow> bool \<Rightarrow> host_token list" where
  "hostTokens lower v hostish =
     List.map_filter (\<lambda>f. hostToken lower (flag_value f) hostish) (fields_func separator v [])"

section \<open>The index of Services\<close>

record service_index =
  Qualified :: "string \<Rightarrow> rservice option"
  Short :: "string \<Rightarrow> rservice option"

definition index_service :: "service_index \<Rightarrow> rservice \<Rightarrow> service_index" where
  "index_service idx s =
     \<lparr>Qualified = (Qualified idx)(RSvcName s @ ''.'' @ RSvcNamespace s \<mapsto> s),
      Short = (Short idx)(RSvcNamespace s @ ''/'' @ RSvcName s \<mapsto> s)\<rparr>"

definition newServiceIndex :: "rservice list \<Rightarrow> service_index" where
  "newServiceIndex svcs = foldl index_service \<lparr>Qualified = (\<lambda>_. None), Short = (\<lambda>_. None)\<rparr> svcs"

definition qualified_host :: "string \<Rightarrow> string" where
  "qualified_host host =
     (case index_of ''.svc.'' host of Some i \<Rightarrow> take i host | None \<Rightarrow> trim_suffix host ''.svc'')"

definition lookup_token :: "service_index \<Rightarrow> host_token \<Rightarrow> string \<Rightarrow> rservice option" where
  "lookup_token idx t ns =
     (if CHR ''.'' \<in> set (Host t) then Qualified idx (qualified_host (Host t))
      else if \<not> Strong t then None
      else Short idx (ns @ ''/'' @ Host t))"

section \<open>The graph\<close>

definition is_served :: "rservice \<Rightarrow> workload \<Rightarrow> bool" where
  "is_served s w \<longleftrightarrow> \<not> SelEmpty (RSvcSelector s) \<and> PNamespace (WRef w) = RSvcNamespace s
     \<and> SelMatches (RSvcSelector s) (WLabels w)"

definition serves_edges :: "rservice list \<Rightarrow> workload list \<Rightarrow> relationship list" where
  "serves_edges svcs ws =
     concat (map (\<lambda>s. map (\<lambda>w. \<lparr>RelFrom = svc_party s, RelTo = WRef w, RelType = Serves,
                                Evidence = ''selector '' @ RSvcSelectorText s\<rparr>)
                       (filter (is_served s) ws)) svcs)"

definition served_pairs :: "rservice list \<Rightarrow> workload list \<Rightarrow> ((string \<times> string) \<times> party) list" where
  "served_pairs svcs ws = concat (map (\<lambda>s. map (\<lambda>w. (svc_key s, WRef w)) (filter (is_served s) ws)) svcs)"

definition workload_tokens ::
    "(string \<Rightarrow> string) \<Rightarrow> (string \<Rightarrow> string) \<Rightarrow> workload \<Rightarrow> (string \<times> host_token) list" where
  "workload_tokens lower upper w =
     concat (map (\<lambda>t. map (\<lambda>tok. (Where t, tok)) (hostTokens lower (TextValue t) (Hostish t))) (templateTexts upper w))"

fun talks_edges ::
    "service_index \<Rightarrow> ((string \<times> string) \<times> party) list \<Rightarrow> party \<Rightarrow> (string \<times> string) list
     \<Rightarrow> (string \<times> host_token) list \<Rightarrow> relationship list" where
  "talks_edges idx served w seen [] = []"
| "talks_edges idx served w seen ((at_where, tok) # ts) =
     (case lookup_token idx tok (PNamespace w) of
        None \<Rightarrow> talks_edges idx served w seen ts
      | Some s \<Rightarrow>
          if svc_key s \<in> set seen then talks_edges idx served w seen ts
          else if (svc_key s, w) \<in> set served then talks_edges idx served w (svc_key s # seen) ts
          else \<lparr>RelFrom = w, RelTo = svc_party s, RelType = TalksTo, Evidence = at_where @ '' mentions '' @ Host tok\<rparr>
               # talks_edges idx served w (svc_key s # seen) ts)"

section \<open>Names\<close>

definition kindShort :: "(string \<Rightarrow> string) \<Rightarrow> string \<Rightarrow> string" where
  "kindShort lower kind =
     (if kind = ''Deployment'' then ''deploy'' else if kind = ''StatefulSet'' then ''sts''
      else if kind = ''DaemonSet'' then ''ds'' else if kind = ''Service'' then ''svc'' else lower kind)"

definition dot_dash :: "char \<Rightarrow> bool" where
  "dot_dash c \<longleftrightarrow> c = CHR ''.'' \<or> c = CHR ''-''"

definition trim_right_dots :: "string \<Rightarrow> string" where
  "trim_right_dots s = rev (dropWhile dot_dash (rev s))"

definition trim_dots :: "string \<Rightarrow> string" where
  "trim_dots s = trim_right_dots (dropWhile dot_dash s)"

definition MaxName :: nat where "MaxName = 253"

definition plain_name :: "(string \<Rightarrow> string) \<Rightarrow> relationship \<Rightarrow> string" where
  "plain_name lower r =
     (let n = lower (kindShort lower (PKind (RelFrom r)) @ ''-'' @ PName (RelFrom r) @ ''.'' @ RelType r @ ''.''
                     @ kindShort lower (PKind (RelTo r)) @ ''-'' @ PName (RelTo r));
          n = (if PNamespace (RelTo r) \<noteq> PNamespace (RelFrom r) then n @ ''.'' @ PNamespace (RelTo r) else n)
      in trim_dots n)"

definition Name :: "(string \<Rightarrow> string) \<Rightarrow> (string \<Rightarrow> string) \<Rightarrow> relationship \<Rightarrow> string" where
  "Name lower hash10 r =
     (let n = plain_name lower r
      in if length n > MaxName then
           let suffix = ''-'' @ hash10 n
           in trim_right_dots (take (MaxName - length suffix) n) @ suffix
         else n)"

text \<open>
  The edges are sorted by name. \<open>sort.Slice\<close> promises no order among equal names; here they
  keep the order in which they were found.
\<close>

definition Graph ::
    "(string \<Rightarrow> string) \<Rightarrow> (string \<Rightarrow> string) \<Rightarrow> (string \<Rightarrow> string) \<Rightarrow> rservice list \<Rightarrow> workload list
     \<Rightarrow> relationship list" where
  "Graph lower upper hash10 svcs ws =
     sort_key (Name lower hash10)
       (serves_edges svcs ws
        @ concat (map (\<lambda>w. talks_edges (newServiceIndex svcs) (served_pairs svcs ws) (WRef w) []
                          (workload_tokens lower upper w)) ws))"

section \<open>The index resolves names\<close>

lemma upd_all_Some:
  assumes "distinct (map f xs)" and "\<And>x. x \<in> set xs \<Longrightarrow> m (f x) = None"
  shows "foldl (\<lambda>m x. m(f x \<mapsto> x)) m xs k = Some y \<longleftrightarrow> (y \<in> set xs \<and> f y = k) \<or> m k = Some y"
  using assms
proof (induction xs arbitrary: m)
  case Nil
  then show ?case by simp
next
  case (Cons x xs)
  have n: "(m(f x \<mapsto> x)) (f z) = None" if "z \<in> set xs" for z
    using Cons.prems that by (auto simp: image_iff)
  show ?case
    using Cons.IH [of "m(f x \<mapsto> x)", OF _ n] Cons.prems by (auto simp: fun_upd_apply)
qed

lemma index_parts:
  "Qualified (foldl index_service idx svcs) = foldl (\<lambda>m s. m(RSvcName s @ ''.'' @ RSvcNamespace s \<mapsto> s)) (Qualified idx) svcs"
  "Short (foldl index_service idx svcs) = foldl (\<lambda>m s. m(RSvcNamespace s @ ''/'' @ RSvcName s \<mapsto> s)) (Short idx) svcs"
  by (induction svcs arbitrary: idx) (simp_all add: index_service_def)

text \<open>
  Names of Services and namespaces are DNS labels: they hold no dot and no slash, and the API
  holds one Service per namespace and name.
\<close>

definition dns_services :: "rservice list \<Rightarrow> bool" where
  "dns_services svcs \<longleftrightarrow> distinct (map svc_key svcs)
     \<and> (\<forall>s \<in> set svcs. CHR ''.'' \<notin> set (RSvcName s) \<and> CHR ''/'' \<notin> set (RSvcNamespace s))"

lemma split_unique: "c \<notin> set a \<Longrightarrow> c \<notin> set a' \<Longrightarrow> a @ c # b = a' @ c # b' \<longleftrightarrow> a = a' \<and> b = b'"
proof (induction a arbitrary: a')
  case Nil
  then show ?case by (cases a') auto
next
  case (Cons x a)
  then show ?case by (cases a') auto
qed

lemma distinct_map_inj:
  assumes "distinct (map svc_key svcs)"
    and "\<And>s t. s \<in> set svcs \<Longrightarrow> t \<in> set svcs \<Longrightarrow> f s = f t \<Longrightarrow> svc_key s = svc_key t"
  shows "distinct (map f svcs)"
  using assms unfolding distinct_map inj_on_def by blast

lemma distinct_forms:
  assumes "dns_services svcs"
  shows "distinct (map (\<lambda>s. RSvcName s @ ''.'' @ RSvcNamespace s) svcs)"
    and "distinct (map (\<lambda>s. RSvcNamespace s @ ''/'' @ RSvcName s) svcs)"
proof -
  have d: "distinct (map svc_key svcs)" using assms by (simp add: dns_services_def)
  have ok: "CHR ''.'' \<notin> set (RSvcName s) \<and> CHR ''/'' \<notin> set (RSvcNamespace s)" if "s \<in> set svcs" for s
    using assms that by (simp add: dns_services_def)
  show "distinct (map (\<lambda>s. RSvcName s @ ''.'' @ RSvcNamespace s) svcs)"
    by (rule distinct_map_inj [OF d]) (simp add: svc_key_def split_unique [OF conjunct1 [OF ok] conjunct1 [OF ok]])
  show "distinct (map (\<lambda>s. RSvcNamespace s @ ''/'' @ RSvcName s) svcs)"
    by (rule distinct_map_inj [OF d]) (simp add: svc_key_def split_unique [OF conjunct2 [OF ok] conjunct2 [OF ok]])
qed

text \<open>Which Service a token means to a workload of a namespace, without the index.\<close>

definition resolves :: "host_token \<Rightarrow> string \<Rightarrow> rservice \<Rightarrow> bool" where
  "resolves t ns s \<longleftrightarrow>
     (if CHR ''.'' \<in> set (Host t) then qualified_host (Host t) = RSvcName s @ ''.'' @ RSvcNamespace s
      else Strong t \<and> RSvcNamespace s = ns \<and> RSvcName s = Host t)"

lemma lookup_resolves:
  assumes "dns_services svcs" and "CHR ''/'' \<notin> set ns"
  shows "lookup_token (newServiceIndex svcs) t ns = Some s \<longleftrightarrow> s \<in> set svcs \<and> resolves t ns s"
proof -
  have q: "Qualified (newServiceIndex svcs) h = Some s \<longleftrightarrow> s \<in> set svcs \<and> RSvcName s @ ''.'' @ RSvcNamespace s = h" for h
    unfolding newServiceIndex_def index_parts
    using upd_all_Some [OF distinct_forms(1) [OF assms(1)], of "\<lambda>_. None" h s] by simp
  have h: "Short (newServiceIndex svcs) h = Some s \<longleftrightarrow> s \<in> set svcs \<and> RSvcNamespace s @ ''/'' @ RSvcName s = h" for h
    unfolding newServiceIndex_def index_parts
    using upd_all_Some [OF distinct_forms(2) [OF assms(1)], of "\<lambda>_. None" h s] by simp
  show ?thesis
    using assms by (auto simp: lookup_token_def resolves_def q h dns_services_def split_unique)
qed

section \<open>The edges\<close>

lemma talks_edges_iff:
  assumes "\<forall>tok s'. lookup_token idx tok (PNamespace w) = Some s' \<longrightarrow> svc_key s' = svc_key s \<longrightarrow> s' = s"
  shows "(\<exists>e. \<lparr>RelFrom = w, RelTo = svc_party s, RelType = TalksTo, Evidence = e\<rparr> \<in> set (talks_edges idx served w seen ts))
    \<longleftrightarrow> svc_key s \<notin> set seen \<and> (svc_key s, w) \<notin> set served
        \<and> (\<exists>l tok. (l, tok) \<in> set ts \<and> lookup_token idx tok (PNamespace w) = Some s)"
  using assms
proof (induction idx served w seen ts rule: talks_edges.induct)
  case (1 idx served w seen)
  then show ?case by simp
next
  case (2 idx served w seen l tok ts)
  show ?case
  proof (cases "lookup_token idx tok (PNamespace w)")
    case None
    then show ?thesis using 2(1) [OF None 2(5)] by auto
  next
    case (Some s')
    have key: "svc_key s' = svc_key s \<longleftrightarrow> s' = s" using 2(5) Some by blast
    have party: "svc_party s' = svc_party s \<Longrightarrow> svc_key s' = svc_key s"
      by (simp add: svc_party_def svc_key_def)
    consider (seen) "svc_key s' \<in> set seen" | (self) "svc_key s' \<notin> set seen" "(svc_key s', w) \<in> set served"
      | (edge) "svc_key s' \<notin> set seen" "(svc_key s', w) \<notin> set served" by blast
    then show ?thesis
    proof cases
      case seen
      then show ?thesis using Some 2(2) [OF Some seen 2(5)] by auto
    next
      case self
      then show ?thesis using Some 2(3) [OF Some self 2(5)] key by auto
    next
      case edge
      then show ?thesis using Some 2(4) [OF Some edge 2(5)] key party by auto
    qed
  qed
qed

lemma served_pairs_iff:
  assumes "distinct (map svc_key svcs)" and "distinct (map WRef ws)" and "s \<in> set svcs" and "w \<in> set ws"
  shows "(svc_key s, WRef w) \<in> set (served_pairs svcs ws) \<longleftrightarrow> is_served s w"
  using assms by (auto simp: served_pairs_def distinct_map inj_on_def image_iff)

lemma talks_from: "r \<in> set (talks_edges idx served w seen ts) \<Longrightarrow> RelFrom r = w \<and> RelType r = TalksTo"
  by (induction idx served w seen ts rule: talks_edges.induct) (auto split: option.splits if_splits)

text \<open>
  Claim C18. The graph has the edges the cluster declares: for Services and workloads with the
  names the API allows, a workload talks to a Service in the graph exactly when one of the
  host tokens of its environment, arguments or command means that Service to a workload of
  its namespace (a qualified name from anywhere, a short name only in the same namespace and
  only where it is used as a host) and the Service does not serve the workload itself; the
  index the code looks tokens up in makes no difference.
\<close>

theorem talks_to_exactly:
  assumes "dns_services svcs" and "distinct (map WRef ws)" and "s \<in> set svcs" and "w \<in> set ws"
    and "CHR ''/'' \<notin> set (PNamespace (WRef w))"
  shows "(\<exists>e. \<lparr>RelFrom = WRef w, RelTo = svc_party s, RelType = TalksTo, Evidence = e\<rparr> \<in> set (Graph lower upper hash10 svcs ws))
    \<longleftrightarrow> \<not> is_served s w \<and> (\<exists>l tok. (l, tok) \<in> set (workload_tokens lower upper w) \<and> resolves tok (PNamespace (WRef w)) s)"
proof -
  let ?edge = "\<lambda>e. \<lparr>RelFrom = WRef w, RelTo = svc_party s, RelType = TalksTo, Evidence = e\<rparr>"
  let ?talks = "\<lambda>w. set (talks_edges (newServiceIndex svcs) (served_pairs svcs ws) (WRef w) [] (workload_tokens lower upper w))"
  have d: "distinct (map svc_key svcs)" using assms(1) by (simp add: dns_services_def)
  have "?edge e \<in> set (Graph lower upper hash10 svcs ws) \<longleftrightarrow> ?edge e \<in> ?talks w" for e
  proof -
    have "?edge e \<notin> set (serves_edges svcs ws)" by (auto simp: serves_edges_def Serves_def TalksTo_def)
    moreover have "w' = w" if "w' \<in> set ws" "?edge e \<in> ?talks w'" for w'
      using talks_from [OF that(2)] that(1) assms(2,4) by (auto simp: distinct_map inj_on_def)
    ultimately show ?thesis using assms(4) by (auto simp: Graph_def)
  qed
  moreover have "\<forall>tok s'. lookup_token (newServiceIndex svcs) tok (PNamespace (WRef w)) = Some s' \<longrightarrow> svc_key s' = svc_key s \<longrightarrow> s' = s"
    using lookup_resolves [OF assms(1,5)] d assms(3) by (auto simp: distinct_map inj_on_def)
  note talks_edges_iff [of "newServiceIndex svcs" "WRef w" s, OF this]
  ultimately show ?thesis
    using served_pairs_iff [OF d assms(2-4)] lookup_resolves [OF assms(1,5), of _ s] assms(3) by simp
qed



text \<open>A shop: a Service before its workload, a front end that addresses it by name.\<close>

definition demo_db :: rservice where
  "demo_db = \<lparr>RSvcNamespace = ''shop'', RSvcName = ''db'', RSvcUID = ''u1'',
     RSvcSelector = \<lparr>SelEmpty = False, SelMatches = (\<lambda>m. m ''app'' = Some ''db'')\<rparr>, RSvcSelectorText = ''app=db''\<rparr>"

definition demo_workload :: "string \<Rightarrow> rcontainer \<Rightarrow> workload" where
  "demo_workload n c =
     \<lparr>WRef = \<lparr>PKind = ''Deployment'', PNamespace = ''shop'', PName = n, PUID = n @ ''-uid''\<rparr>,
      WLabels = [''app'' \<mapsto> n], WInit = [], WContainers = [c]\<rparr>"

definition demo_front :: workload where
  "demo_front = demo_workload ''front''
     \<lparr>RCName = ''web'', RCEnv = [(''DB_host'', ''DB'')], RCArgs = [''--log=info''], RCCommand = [''/serve'']\<rparr>"

definition demo_backend :: workload where
  "demo_backend = demo_workload ''db'' \<lparr>RCName = ''pg'', RCEnv = [(''DB_HOST'', ''db'')], RCArgs = [], RCCommand = []\<rparr>"

definition demo_graph :: "rservice list \<Rightarrow> workload list \<Rightarrow> relationship list" where
  "demo_graph = Graph to_lower to_upper (\<lambda>_. ''0123456789'')"

lemma demo_dns: "dns_services [demo_db]"
  by (simp add: dns_services_def demo_db_def)
lemma demo_tokens: "workload_tokens to_lower to_upper demo_front =
   [(''container web env DB_host'', \<lparr>Host = ''db'', Strong = True\<rparr>),
    (''container web arg 0'', \<lparr>Host = ''info'', Strong = False\<rparr>)]"
  by code_simp

theorem talks_to_exactly_witness:
  "dns_services [demo_db] \<and> resolves \<lparr>Host = ''db'', Strong = True\<rparr> ''shop'' demo_db
   \<and> (\<exists>e. \<lparr>RelFrom = WRef demo_front, RelTo = svc_party demo_db, RelType = TalksTo, Evidence = e\<rparr>
         \<in> set (demo_graph [demo_db] [demo_front, demo_backend]))
   \<and> \<not> (\<exists>e. \<lparr>RelFrom = WRef demo_backend, RelTo = svc_party demo_db, RelType = TalksTo, Evidence = e\<rparr>
         \<in> set (demo_graph [demo_db] [demo_front, demo_backend]))"
proof -
  have d: "distinct (map WRef [demo_front, demo_backend])"
    by (simp add: demo_front_def demo_backend_def demo_workload_def)
  have ns: "CHR ''/'' \<notin> set (PNamespace (WRef demo_front))" "CHR ''/'' \<notin> set (PNamespace (WRef demo_backend))"
    by (simp_all add: demo_front_def demo_backend_def demo_workload_def)
  have r: "resolves \<lparr>Host = ''db'', Strong = True\<rparr> ''shop'' demo_db" by code_simp
  have s: "\<not> is_served demo_db demo_front" "is_served demo_db demo_backend"
    by (simp_all add: is_served_def demo_db_def demo_front_def demo_backend_def demo_workload_def)
  have n: "PNamespace (WRef demo_front) = ''shop''" by (simp add: demo_front_def demo_workload_def)
  have "(''container web env DB_host'', \<lparr>Host = ''db'', Strong = True\<rparr>) \<in> set (workload_tokens to_lower to_upper demo_front)"
    by (simp add: demo_tokens)
  then have "\<exists>l tok. (l, tok) \<in> set (workload_tokens to_lower to_upper demo_front)
      \<and> resolves tok (PNamespace (WRef demo_front)) demo_db"
    using r unfolding n by blast
  then show ?thesis
    using talks_to_exactly [OF demo_dns d, of demo_db demo_front to_lower to_upper "\<lambda>_. ''0123456789''"]
      talks_to_exactly [OF demo_dns d, of demo_db demo_backend to_lower to_upper "\<lambda>_. ''0123456789''"]
      ns s r demo_dns
    by (simp add: demo_graph_def)
qed

end
