(* ===== verification/Relationship_Sync.thy ===== *)
theory Relationship_Sync
  imports Relationships "HOL-Library.AList"
begin

text \<open>
  \<open>controller/relationships/controller.go\<close>: the controller that keeps the Relationship
  objects in step with the graph. The objects wanted are an association list by key, as the
  code's map; a write is an effect in the log with whether the API confirmed it, and the
  \<open>n\<close>-th write's answer is \<open>wr n\<close>. The specification of an object is kept as the
  text \<open>fmt.Sprint\<close> gives, which is what \<open>equalSpec\<close> compares. The abstract
  view is a store: which specification each key has.
\<close>

section \<open>Objects\<close>

definition managedByRelationships :: string where "managedByRelationships = ''relationships-controller''"

record rel_object =
  ObjNamespace :: string
  ObjName :: string
  ObjSpec :: string
  ObjManagedBy :: string
  ObjOwner :: "(string \<times> string \<times> string \<times> string) option"
  ObjVersion :: "string option"

record rel_item =
  ItemNamespace :: string
  ItemName :: string
  ItemSpec :: string
  ItemVersion :: string

definition refMap :: "party \<Rightarrow> string" where
  "refMap p = ''map[kind:'' @ PKind p @ '' name:'' @ PName p @ '' namespace:'' @ PNamespace p @ '']''"

definition spec_text :: "relationship \<Rightarrow> string" where
  "spec_text r = ''map[evidence:'' @ Evidence r @ '' from:'' @ refMap (RelFrom r) @ '' to:'' @ refMap (RelTo r)
     @ '' type:'' @ RelType r @ '']''"

definition toObject :: "(relationship \<Rightarrow> string) \<Rightarrow> relationship \<Rightarrow> rel_object" where
  "toObject name r =
     \<lparr>ObjNamespace = PNamespace (RelFrom r), ObjName = name r, ObjSpec = spec_text r,
      ObjManagedBy = managedByRelationships,
      ObjOwner =
        (if PUID (RelFrom r) \<noteq> [] then
           Some (if PKind (RelFrom r) = ''Service'' then ''v1'' else ''apps/v1'', PKind (RelFrom r), PName (RelFrom r),
                 PUID (RelFrom r))
         else None),
      ObjVersion = None\<rparr>"

definition obj_key :: "rel_object \<Rightarrow> string" where
  "obj_key b = ObjNamespace b @ ''/'' @ ObjName b"

definition item_key :: "rel_item \<Rightarrow> string" where
  "item_key i = ItemNamespace i @ ''/'' @ ItemName i"

type_synonym wanted = "(string \<times> rel_object) list"

definition desired_objects :: "rel_object list \<Rightarrow> wanted" where
  "desired_objects bs = foldl (\<lambda>m b. AList.update (obj_key b) b m) [] bs"

definition equalSpec :: "rel_item \<Rightarrow> rel_object \<Rightarrow> bool" where
  "equalSpec i b \<longleftrightarrow> ItemSpec i = ObjSpec b"

section \<open>The pass\<close>

datatype rel_effect = RelDelete string string | RelUpdate rel_object | RelCreate rel_object

record rel_state =
  RCalls :: nat
  RLog :: "(rel_effect \<times> bool) list"
  RErrs :: "api_error list"

definition rel_write :: "(nat \<Rightarrow> api_error option) \<Rightarrow> api_error option \<Rightarrow> rel_effect \<Rightarrow> rel_state \<Rightarrow> rel_state" where
  "rel_write wr tolerated e c =
     (let r = wr (RCalls c)
      in \<lparr>RCalls = Suc (RCalls c), RLog = RLog c @ [(e, r = None)],
          RErrs = (case r of None \<Rightarrow> RErrs c | Some x \<Rightarrow> if tolerated = Some x then RErrs c else RErrs c @ [x])\<rparr>)"

fun sync_items :: "(nat \<Rightarrow> api_error option) \<Rightarrow> rel_item list \<Rightarrow> wanted \<Rightarrow> rel_state \<Rightarrow> wanted \<times> rel_state" where
  "sync_items wr [] des c = (des, c)"
| "sync_items wr (i # items) des c =
     (case map_of des (item_key i) of
        None \<Rightarrow> sync_items wr items des (rel_write wr (Some NotFound) (RelDelete (ItemNamespace i) (ItemName i)) c)
      | Some want \<Rightarrow>
          sync_items wr items (AList.delete (item_key i) des)
            (if equalSpec i want then c
             else rel_write wr None (RelUpdate (want\<lparr>ObjVersion := Some (ItemVersion i)\<rparr>)) c))"

fun create_missing :: "(nat \<Rightarrow> api_error option) \<Rightarrow> wanted \<Rightarrow> rel_state \<Rightarrow> rel_state" where
  "create_missing wr [] c = c"
| "create_missing wr ((k, b) # des) c = create_missing wr des (rel_write wr (Some AlreadyExists) (RelCreate b) c)"

text \<open>
  \<open>for _, obj := range desired\<close> visits a map in an order Go does not fix: the parameter
  \<open>arrange\<close>, a permutation.
\<close>

definition rel_sync ::
    "(nat \<Rightarrow> api_error option) \<Rightarrow> (wanted \<Rightarrow> wanted) \<Rightarrow> rel_item list \<Rightarrow> wanted \<Rightarrow> rel_state" where
  "rel_sync wr arrange items des =
     (let (des, c) = sync_items wr items des \<lparr>RCalls = 0, RLog = [], RErrs = []\<rparr>
      in create_missing wr (arrange des) c)"

text \<open>
  \<open>reconcile\<close> with its reads as sums: any list that fails ends the pass before a write.
  The error of a pass is the failed read, or the number of failed writes with the first.
\<close>

datatype rel_error = ReadFailed api_error | WritesFailed nat api_error

definition rel_result :: "rel_state \<Rightarrow> rel_error + unit" where
  "rel_result c = (if RErrs c = [] then Inr () else Inl (WritesFailed (length (RErrs c)) (hd (RErrs c))))"

definition rel_reconcile ::
    "(relationship \<Rightarrow> string) \<Rightarrow> (rservice list \<Rightarrow> workload list \<Rightarrow> relationship list) \<Rightarrow> (wanted \<Rightarrow> wanted)
     \<Rightarrow> rservice list api \<Rightarrow> workload list api \<Rightarrow> workload list api \<Rightarrow> workload list api \<Rightarrow> rel_item list api
     \<Rightarrow> (nat \<Rightarrow> api_error option) \<Rightarrow> (rel_error + unit) \<times> (rel_effect \<times> bool) list" where
  "rel_reconcile name graph arrange svcs deploys sts ds current wr =
     (case svcs of Inl e \<Rightarrow> (Inl (ReadFailed e), []) | Inr svcs \<Rightarrow>
      case deploys of Inl e \<Rightarrow> (Inl (ReadFailed e), []) | Inr deploys \<Rightarrow>
      case sts of Inl e \<Rightarrow> (Inl (ReadFailed e), []) | Inr sts \<Rightarrow>
      case ds of Inl e \<Rightarrow> (Inl (ReadFailed e), []) | Inr ds \<Rightarrow>
      let des = desired_objects (map (toObject name) (graph svcs (Workloads deploys sts ds))) in
      case current of Inl e \<Rightarrow> (Inl (ReadFailed e), []) | Inr items \<Rightarrow>
        let c = rel_sync wr arrange items des in (rel_result c, RLog c))"

section \<open>The store\<close>

fun effect_key :: "rel_effect \<Rightarrow> string" where
  "effect_key (RelDelete ns n) = ns @ ''/'' @ n"
| "effect_key (RelUpdate b) = obj_key b"
| "effect_key (RelCreate b) = obj_key b"

fun effect_spec :: "rel_effect \<Rightarrow> string option" where
  "effect_spec (RelDelete ns n) = None"
| "effect_spec (RelUpdate b) = Some (ObjSpec b)"
| "effect_spec (RelCreate b) = Some (ObjSpec b)"

fun apply_effect :: "(string \<Rightarrow> string option) \<Rightarrow> rel_effect \<times> bool \<Rightarrow> (string \<Rightarrow> string option)" where
  "apply_effect st (e, ok) = (if ok then st(effect_key e := effect_spec e) else st)"

definition store_of :: "rel_item list \<Rightarrow> string \<Rightarrow> string option" where
  "store_of items = map_of (map (\<lambda>i. (item_key i, ItemSpec i)) items)"

definition wanted_spec :: "wanted \<Rightarrow> string \<Rightarrow> string option" where
  "wanted_spec des k = map_option ObjSpec (map_of des k)"

text \<open>The keys whose write the API refused.\<close>

definition failed_keys :: "(rel_effect \<times> bool) list \<Rightarrow> string set" where
  "failed_keys log = (\<lambda>x. effect_key (fst x)) ` set (filter (\<lambda>x. \<not> snd x) log)"

abbreviation log_keys :: "(rel_effect \<times> bool) list \<Rightarrow> string list" where
  "log_keys log \<equiv> map (\<lambda>x. effect_key (fst x)) log"

lemma fold_other: "k \<notin> set (log_keys log) \<Longrightarrow> foldl apply_effect st log k = st k"
proof (induction log arbitrary: st)
  case (Cons x log)
  then show ?case by (cases x) auto
qed simp

lemma fold_in:
  assumes "distinct (log_keys log)" and "(e, ok) \<in> set log"
  shows "foldl apply_effect st log (effect_key e) = (if ok then effect_spec e else st (effect_key e))"
  using assms
proof (induction log arbitrary: st)
  case (Cons x log)
  show ?case
  proof (cases "x = (e, ok)")
    case True
    then show ?thesis using Cons.prems by (simp add: fold_other)
  next
    case False
    then have i: "(e, ok) \<in> set log" and n: "effect_key e \<noteq> effect_key (fst x)"
      using Cons.prems by (force simp: image_iff)+
    show ?thesis using Cons.IH [OF _ i] Cons.prems(1) n by (cases x) auto
  qed
qed simp

section \<open>What a pass plans\<close>

definition keyed :: "wanted \<Rightarrow> bool" where
  "keyed des \<longleftrightarrow> distinct (map fst des) \<and> (\<forall>k b. map_of des k = Some b \<longrightarrow> obj_key b = k)"

lemma keyed_update: "keyed m \<Longrightarrow> keyed (AList.update (obj_key b) b m)"
  unfolding keyed_def update_conv' by (metis distinct_update fun_upd_apply option.inject)

lemma keyed_desired: "keyed (desired_objects bs)"
proof -
  have "keyed m \<Longrightarrow> keyed (foldl (\<lambda>m b. AList.update (obj_key b) b m) m bs)" for m
    by (induction bs arbitrary: m) (simp_all add: keyed_update)
  moreover have "keyed []" by (simp add: keyed_def)
  ultimately show ?thesis unfolding desired_objects_def by blast
qed

definition planned :: "wanted \<Rightarrow> rel_item \<Rightarrow> rel_effect list" where
  "planned des i =
     (case map_of des (item_key i) of
        None \<Rightarrow> [RelDelete (ItemNamespace i) (ItemName i)]
      | Some b \<Rightarrow> if equalSpec i b then [] else [RelUpdate (b\<lparr>ObjVersion := Some (ItemVersion i)\<rparr>)])"

definition unclaimed :: "rel_item list \<Rightarrow> wanted \<Rightarrow> wanted" where
  "unclaimed items des = filter (\<lambda>(k, _). k \<notin> item_key ` set items) des"

fun answered :: "(nat \<Rightarrow> api_error option) \<Rightarrow> nat \<Rightarrow> rel_effect list \<Rightarrow> (rel_effect \<times> bool) list" where
  "answered wr n [] = []"
| "answered wr n (e # es) = (e, wr n = None) # answered wr (Suc n) es"

lemma answered_append: "answered wr n (es @ fs) = answered wr n es @ answered wr (n + length es) fs"
  by (induction es arbitrary: n) simp_all

lemma answered_keys: "log_keys (answered wr n es) = map effect_key es"
  by (induction es arbitrary: n) simp_all

lemma answered_fst: "map fst (answered wr n es) = es"
  by (induction es arbitrary: n) simp_all

lemma planned_delete: "item_key j \<noteq> k \<Longrightarrow> planned (AList.delete k des) j = planned des j"
  by (simp add: planned_def)

lemma rel_write_log [simp]: "RLog (rel_write wr t e c) = RLog c @ [(e, wr (RCalls c) = None)]"
  and rel_write_calls [simp]: "RCalls (rel_write wr t e c) = Suc (RCalls c)"
  by (simp_all add: rel_write_def Let_def)

lemma rel_write_errs: "wr (RCalls c) = None \<Longrightarrow> RErrs (rel_write wr t e c) = RErrs c"
  by (simp add: rel_write_def Let_def)

lemma planned_short: "planned des i = [] \<or> (\<exists>e. planned des i = [e])"
  by (simp add: planned_def split: option.split)

lemma sync_step:
  "sync_items wr (i # items) des c =
     (let c' = (case planned des i of [] \<Rightarrow> c | e # _ \<Rightarrow>
                 rel_write wr (if map_of des (item_key i) = None then Some NotFound else None) e c)
      in sync_items wr items (AList.delete (item_key i) des) c')"
proof (cases "map_of des (item_key i)")
  case None
  then have "AList.delete (item_key i) des = des" by (simp add: map_of_eq_None_iff)
  then show ?thesis using None by (simp add: planned_def)
qed (simp add: planned_def)

lemma unclaimed_delete: "unclaimed items (AList.delete (item_key i) des) = unclaimed (i # items) des"
  unfolding unclaimed_def AList.delete_eq filter_filter by (rule filter_cong) auto

lemma planned_rest:
  assumes "item_key i \<notin> item_key ` set items"
  shows "concat (map (planned (AList.delete (item_key i) des)) items) = concat (map (planned des) items)"
  using assms by (induction items) (auto simp: planned_delete)

lemma sync_items_plan:
  assumes "distinct (map item_key items)"
  shows "fst (sync_items wr items des c) = unclaimed items des"
    and "RLog (snd (sync_items wr items des c)) = RLog c @ answered wr (RCalls c) (concat (map (planned des) items))"
    and "RCalls (snd (sync_items wr items des c)) = RCalls c + length (concat (map (planned des) items))"
  using assms
proof (induction items arbitrary: des c)
  case Nil
  { case 1 then show ?case by (simp add: unclaimed_def) next case 2 then show ?case by simp next case 3 then show ?case by simp }
next
  case (Cons i items)
  { case 1
    then have d: "distinct (map item_key items)" by simp
    show ?case by (simp only: sync_step Let_def Cons.IH(1) [OF d] unclaimed_delete)
  next
    case 2
    then show ?case using planned_short [of des i]
      by (auto simp: sync_step Let_def Cons.IH(2) planned_rest answered_append simp del: sync_items.simps)
  next
    case 3
    then show ?case using planned_short [of des i]
      by (auto simp: sync_step Let_def Cons.IH(3) planned_rest simp del: sync_items.simps) }
qed

lemma create_missing_log:
  "RLog (create_missing wr des c) = RLog c @ answered wr (RCalls c) (map (\<lambda>x. RelCreate (snd x)) des)"
  by (induction wr des c rule: create_missing.induct) simp_all

section \<open>The pass brings the store to the wish\<close>

definition pass_plan :: "(wanted \<Rightarrow> wanted) \<Rightarrow> rel_item list \<Rightarrow> wanted \<Rightarrow> rel_effect list" where
  "pass_plan arrange items des =
     concat (map (planned des) items) @ map (\<lambda>x. RelCreate (snd x)) (arrange (unclaimed items des))"

lemma rel_sync_log:
  assumes "distinct (map item_key items)"
  shows "RLog (rel_sync wr arrange items des) = answered wr 0 (pass_plan arrange items des)"
  using sync_items_plan [OF assms, of wr des "\<lparr>RCalls = 0, RLog = [], RErrs = []\<rparr>"]
  by (simp add: rel_sync_def case_prod_beta Let_def create_missing_log pass_plan_def answered_append)

lemma planned_key:
  assumes "keyed des" and "e \<in> set (planned des i)"
  shows "effect_key e = item_key i" and "effect_spec e = wanted_spec des (item_key i)"
proof -
  show "effect_key e = item_key i"
    using assms by (auto simp: planned_def keyed_def obj_key_def item_key_def split: option.splits if_splits)
  show "effect_spec e = wanted_spec des (item_key i)"
    using assms(2) by (auto simp: planned_def wanted_spec_def split: option.splits if_splits)
qed

lemma planned_nil: "planned des i = [] \<Longrightarrow> wanted_spec des (item_key i) = Some (ItemSpec i)"
  by (auto simp: planned_def wanted_spec_def equalSpec_def split: option.splits if_splits)

lemma unclaimed_in:
  assumes "keyed des" and "\<forall>m. mset (arrange m) = mset m"
  shows "x \<in> set (arrange (unclaimed items des)) \<longleftrightarrow>
    obj_key (snd x) = fst x \<and> map_of des (fst x) = Some (snd x) \<and> fst x \<notin> item_key ` set items"
proof -
  have s: "set (arrange m) = set m" for m using assms(2) by (metis set_mset_mset)
  have d: "distinct (map fst des)" and k: "map_of des k = Some b \<Longrightarrow> obj_key b = k" for k b
    using assms(1) unfolding keyed_def by blast+
  have "x \<in> set des \<longleftrightarrow> map_of des (fst x) = Some (snd x)"
    using d by (cases x) (auto simp: map_of_eq_Some_iff)
  then show ?thesis using k by (auto simp: s unclaimed_def)
qed

lemma planned_keys:
  assumes "keyed des" and "distinct (map item_key items)"
  shows "distinct (map effect_key (concat (map (planned des) items)))"
  using assms(2)
proof (induction items)
  case (Cons i items)
  have "effect_key e \<in> item_key ` set items" if "e \<in> set (planned des j)" "j \<in> set items" for e j
    using planned_key(1) [OF assms(1) that(1)] that(2) by simp
  then show ?case
    using Cons planned_short [of des i] planned_key(1) [OF assms(1), of _ i] by fastforce
qed simp

lemma created_keys:
  assumes "keyed des" and "\<forall>m. mset (arrange m) = mset m"
  shows "map effect_key (map (\<lambda>x. RelCreate (snd x)) (arrange (unclaimed items des))) = map fst (arrange (unclaimed items des))"
    and "distinct (map fst (arrange (unclaimed items des)))"
proof -
  show "map effect_key (map (\<lambda>x. RelCreate (snd x)) (arrange (unclaimed items des))) = map fst (arrange (unclaimed items des))"
    using unclaimed_in [OF assms] by simp
  have "distinct (map fst (unclaimed items des))"
    using assms(1) by (simp add: keyed_def unclaimed_def distinct_map_filter)
  moreover have "mset (map fst (arrange (unclaimed items des))) = mset (map fst (unclaimed items des))"
    using assms(2) by simp
  ultimately show "distinct (map fst (arrange (unclaimed items des)))"
    using mset_eq_imp_distinct_iff by blast
qed

lemma plan_keys:
  assumes "keyed des" and "\<forall>m. mset (arrange m) = mset m"
  shows "map effect_key (pass_plan arrange items des) =
    map effect_key (concat (map (planned des) items)) @ map fst (arrange (unclaimed items des))"
  by (simp only: pass_plan_def map_append created_keys(1) [OF assms])

lemma plan_distinct:
  assumes "keyed des" and "distinct (map item_key items)" and "\<forall>m. mset (arrange m) = mset m"
  shows "distinct (map effect_key (pass_plan arrange items des))"
proof -
  have "set (map effect_key (concat (map (planned des) items))) \<subseteq> item_key ` set items"
    using planned_key(1) [OF assms(1)] by auto
  moreover have "set (map fst (arrange (unclaimed items des))) \<inter> item_key ` set items = {}"
    by (auto simp: unclaimed_in [OF assms(1,3)])
  ultimately show ?thesis
    unfolding plan_keys [OF assms(1,3)] distinct_append
    using planned_keys [OF assms(1,2)] created_keys(2) [OF assms(1,3)] by blast
qed

lemma plan_spec:
  assumes "keyed des" and "\<forall>m. mset (arrange m) = mset m" and "e \<in> set (pass_plan arrange items des)"
  shows "effect_spec e = wanted_spec des (effect_key e)"
proof -
  from assms(3) consider (item) i where "e \<in> set (planned des i)"
    | (new) x where "x \<in> set (arrange (unclaimed items des))" "e = RelCreate (snd x)"
    unfolding pass_plan_def by auto
  then show ?thesis
  proof cases
    case item
    then show ?thesis using planned_key [OF assms(1) item] by simp
  next
    case new
    then show ?thesis using unclaimed_in [OF assms(1,2)] by (simp add: wanted_spec_def)
  qed
qed

lemma plan_others:
  assumes "keyed des" and "\<forall>m. mset (arrange m) = mset m" and "k \<notin> effect_key ` set (pass_plan arrange items des)"
    and "distinct (map item_key items)"
  shows "store_of items k = wanted_spec des k"
proof (cases "k \<in> item_key ` set items")
  case True
  then obtain i where i: "i \<in> set items" "k = item_key i" by blast
  have "planned des i = []"
  proof (rule ccontr)
    assume "planned des i \<noteq> []"
    then obtain e where e: "e \<in> set (planned des i)" by (cases "planned des i") auto
    then have "e \<in> set (pass_plan arrange items des)" using i(1) by (auto simp: pass_plan_def)
    then have "effect_key e \<in> effect_key ` set (pass_plan arrange items des)" by (rule imageI)
    then show False using assms(3) planned_key(1) [OF assms(1) e] i(2) by simp
  qed
  moreover have "store_of items k = Some (ItemSpec i)"
    using i assms(4) unfolding store_of_def
    by (subst map_of_eq_Some_iff) (auto simp: o_def)
  ultimately show ?thesis using planned_nil i(2) by simp
next
  case False
  have "k \<notin> set (map effect_key (pass_plan arrange items des))" using assms(3) by simp
  then have n: "k \<notin> fst ` set (arrange (unclaimed items des))"
    unfolding plan_keys [OF assms(1,2)] by simp
  have "map_of des k \<noteq> Some b" for b
  proof
    assume b: "map_of des k = Some b"
    then have "obj_key b = k" using assms(1) unfolding keyed_def by blast
    then have "(k, b) \<in> set (arrange (unclaimed items des))"
      using unclaimed_in [OF assms(1,2), of "(k, b)" items] False b by simp
    then show False using n by force
  qed
  then have "map_of des k = None" by (cases "map_of des k") auto
  moreover have "store_of items k = None" using False by (auto simp: store_of_def map_of_eq_None_iff)
  ultimately show ?thesis by (simp add: wanted_spec_def)
qed

lemma failed_iff: "k \<in> failed_keys log \<longleftrightarrow> (\<exists>e. (e, False) \<in> set log \<and> effect_key e = k)"
  by (force simp: failed_keys_def image_iff)

lemma pass_outcome:
  assumes "keyed des" and "distinct (map item_key items)" and "\<forall>m. mset (arrange m) = mset m"
    and "log = RLog (rel_sync wr arrange items des)"
  shows "foldl apply_effect (store_of items) log k = (if k \<in> failed_keys log then store_of items k else wanted_spec des k)"
proof -
  have log: "log = answered wr 0 (pass_plan arrange items des)" using rel_sync_log [OF assms(2)] assms(4) by simp
  then have d: "distinct (log_keys log)" using plan_distinct [OF assms(1-3)] by (simp add: answered_keys)
  have spec: "effect_spec e = wanted_spec des (effect_key e)" if "(e, ok) \<in> set log" for e ok
  proof (rule plan_spec [OF assms(1,3)])
    show "e \<in> set (pass_plan arrange items des)"
      using that answered_fst [of wr 0 "pass_plan arrange items des"] by (metis fst_conv image_eqI log set_map)
  qed
  show ?thesis
  proof (cases "k \<in> set (log_keys log)")
    case True
    then obtain e ok where e: "(e, ok) \<in> set log" "effect_key e = k" by auto
    have "(e', False) = (e, ok)" if "(e', False) \<in> set log" "effect_key e' = k" for e'
      by (rule inj_onD [OF conjunct2 [OF d [unfolded distinct_map]]]) (use that e in auto)
    then have "k \<in> failed_keys log \<longleftrightarrow> \<not> ok"
      unfolding failed_iff using e by auto
    then show ?thesis using fold_in [OF d e(1), of "store_of items"] e spec [OF e(1)] by auto
  next
    case False
    then have "k \<notin> effect_key ` set (pass_plan arrange items des)" unfolding log answered_keys by simp
    moreover have "k \<notin> failed_keys log" using False unfolding failed_iff by force
    ultimately show ?thesis using fold_other [OF False] plan_others [OF assms(1,3) _ assms(2)] by simp
  qed
qed

lemma pass_silent:
  assumes "keyed des" and "distinct (map item_key items)" and "\<forall>m. mset (arrange m) = mset m"
    and "store_of items = wanted_spec des"
  shows "pass_plan arrange items des = []"
proof -
  have st: "store_of items (item_key i) = Some (ItemSpec i)" if "i \<in> set items" for i
    using that assms(2) unfolding store_of_def by (subst map_of_eq_Some_iff) (auto simp: o_def)
  have "planned des i = []" if "i \<in> set items" for i
    using st [OF that] assms(4) by (auto simp: planned_def wanted_spec_def equalSpec_def split: option.splits)
  moreover have "set (arrange (unclaimed items des)) = {}"
  proof (rule equals0I)
    fix x
    assume "x \<in> set (arrange (unclaimed items des))"
    then have "wanted_spec des (fst x) \<noteq> None" "fst x \<notin> item_key ` set items"
      using unclaimed_in [OF assms(1,3)] by (auto simp: wanted_spec_def)
    moreover have "store_of items (fst x) = None" if "fst x \<notin> item_key ` set items"
      using that by (auto simp: store_of_def map_of_eq_None_iff)
    ultimately show False using assms(4) by simp
  qed
  ultimately show ?thesis by (simp add: pass_plan_def)
qed

text \<open>The errors of a pass with no refused write.\<close>

lemma sync_items_ok: "(\<forall>n. wr n = None) \<Longrightarrow> RErrs (snd (sync_items wr items des c)) = RErrs c"
  by (induction wr items des c rule: sync_items.induct) (simp_all add: rel_write_errs split: option.split)

lemma create_missing_ok: "(\<forall>n. wr n = None) \<Longrightarrow> RErrs (create_missing wr des c) = RErrs c"
  by (induction wr des c rule: create_missing.induct) (simp_all add: rel_write_errs)

lemma rel_sync_ok: "(\<forall>n. wr n = None) \<Longrightarrow> rel_result (rel_sync wr arrange items des) = Inr ()"
  by (simp add: rel_result_def rel_sync_def case_prod_beta create_missing_ok sync_items_ok)

text \<open>
  Claim C20. A pass brings the Relationship objects to the graph, key by key: whatever order the
  map is visited in and whatever writes the API refuses, afterwards every object whose write
  was not refused is the wished one (gone when the graph does not have it), every object whose
  write was refused is as it was; a pass whose writes all succeed returns no error, and a
  pass over a store already in step writes nothing.
\<close>

theorem relationships_converge:
  assumes "distinct (map item_key items)" and "\<forall>m. mset (arrange m) = mset m"
    and "des = desired_objects (map (toObject name) (graph svcs (Workloads deploys sts ds)))"
    and "rel_reconcile name graph arrange (Inr svcs) (Inr deploys) (Inr sts) (Inr ds) (Inr items) wr = (res, log)"
  shows "(\<forall>k. foldl apply_effect (store_of items) log k = (if k \<in> failed_keys log then store_of items k else wanted_spec des k))
    \<and> ((\<forall>n. wr n = None) \<longrightarrow> res = Inr () \<and> failed_keys log = {})
    \<and> (store_of items = wanted_spec des \<longrightarrow> log = [])"
proof -
  have log: "log = RLog (rel_sync wr arrange items des)" and res: "res = rel_result (rel_sync wr arrange items des)"
    using assms(4) by (simp_all add: rel_reconcile_def assms(3) Let_def)
  have k: "keyed des" using keyed_desired assms(3) by simp
  have f: "failed_keys log = {}" if "\<forall>n. wr n = None"
  proof -
    have "snd x" if "x \<in> set (answered wr n es)" for x n es
      using that \<open>\<forall>n. wr n = None\<close> by (induction es arbitrary: n) auto
    then show ?thesis unfolding failed_keys_def log rel_sync_log [OF assms(1)] by (auto simp: filter_empty_conv)
  qed
  show ?thesis
    using pass_outcome [OF k assms(1,2) log] rel_sync_ok [of wr arrange items des] f res
      pass_silent [OF k assms(1,2)] log rel_sync_log [OF assms(1), of wr arrange des] by simp
qed

text \<open>
  A pass over the shop: the edges of the graph are \<open>db\<close>'s Service to its workload and the
  front end to the Service; the store has a stale object, and an old text of the second edge
  whose update the API refuses.
\<close>

definition demo_items :: "rel_item list" where
  "demo_items =
     [\<lparr>ItemNamespace = ''shop'', ItemName = ''deploy-old.talks-to.svc-db'', ItemSpec = ''map[]'', ItemVersion = ''7''\<rparr>,
      \<lparr>ItemNamespace = ''shop'', ItemName = ''deploy-front.talks-to.svc-db'', ItemSpec = ''map[old]'', ItemVersion = ''9''\<rparr>]"

definition demo_pass :: "(nat \<Rightarrow> api_error option) \<Rightarrow> (rel_error + unit) \<times> (rel_effect \<times> bool) list" where
  "demo_pass wr =
     rel_reconcile (Name to_lower (\<lambda>_. ''0123456789'')) demo_graph rev (Inr [demo_db]) (Inr [demo_front, demo_backend])
       (Inr []) (Inr []) (Inr demo_items) wr"

definition demo_refuse :: "nat \<Rightarrow> api_error option" where
  "demo_refuse n = (if n = 1 then Some Conflict else None)"

lemma demo_pass_run:
  "fst (demo_pass demo_refuse) = Inl (WritesFailed 1 Conflict)
   \<and> failed_keys (snd (demo_pass demo_refuse)) = {''shop/deploy-front.talks-to.svc-db''}"
  by code_simp

theorem relationships_converge_witness:
  "fst (demo_pass demo_refuse) = Inl (WritesFailed 1 Conflict)
   \<and> (let log = snd (demo_pass demo_refuse)
      in foldl apply_effect (store_of demo_items) log ''shop/deploy-old.talks-to.svc-db'' = None
       \<and> foldl apply_effect (store_of demo_items) log ''shop/deploy-front.talks-to.svc-db'' = Some ''map[old]'')"
proof -
  let ?des = "desired_objects (map (toObject (Name to_lower (\<lambda>_. ''0123456789'')))
      (demo_graph [demo_db] (Workloads [demo_front, demo_backend] [] [])))"
  have d: "distinct (map item_key demo_items)" by code_simp
  have p: "\<forall>m :: wanted. mset (rev m) = mset m" by simp
  have none: "wanted_spec ?des ''shop/deploy-old.talks-to.svc-db'' = None" by code_simp
  have old: "store_of demo_items ''shop/deploy-front.talks-to.svc-db'' = Some ''map[old]''" by code_simp
  note c = relationships_converge [OF d p refl, of "Name to_lower (\<lambda>_. ''0123456789'')" demo_graph "[demo_db]"
      "[demo_front, demo_backend]" "[]" "[]" demo_refuse "fst (demo_pass demo_refuse)" "snd (demo_pass demo_refuse)"]
  have "rel_reconcile (Name to_lower (\<lambda>_. ''0123456789'')) demo_graph rev (Inr [demo_db]) (Inr [demo_front, demo_backend])
       (Inr []) (Inr []) (Inr demo_items) demo_refuse = (fst (demo_pass demo_refuse), snd (demo_pass demo_refuse))"
    unfolding demo_pass_def by simp
  from c [OF this] show ?thesis
    by (simp add: Let_def demo_pass_run none old)
qed

end
