(* ===== verification/Humanize.thy ===== *)
theory Humanize
  imports Go_Strconv "HOL-Library.AList" "HOL-Library.Product_Lexorder"
begin

text \<open>
  \<open>humanize/humanize.go\<close> and \<open>pkg/scheduler/kyvernetria.go\<close>: the sentence a
  FailedScheduling event says to a person. The reasons a pod does not fit come with the
  number of nodes that gave them, an association list for the code's map; the upstream text
  is kept whole in parentheses at the end and the human part gives way to it.
\<close>

section \<open>Reasons\<close>

record phrase =
  Prefix :: string
  Singular :: string
  Plural :: string

definition phrases :: "phrase list" where
  "phrases =
     map (\<lambda>(p, s, l). \<lparr>Prefix = p, Singular = s, Plural = l\<rparr>)
       [(''Insufficient cpu'', ''is short on CPU'', ''are short on CPU''),
        (''Insufficient memory'', ''is short on memory'', ''are short on memory''),
        (''Insufficient ephemeral-storage'', ''is short on local disk'', ''are short on local disk''),
        (''Insufficient '', ''is short on a resource the pod asked for'', ''are short on a resource the pod asked for''),
        (''Too many pods'', ''already runs as many pods as it can'', ''already run as many pods as they can''),
        (''node(s) had untolerated taint'', ''has a taint the pod doesn'' @ [CHR 0x27] @ ''t tolerate'',
         ''have a taint the pod doesn'' @ [CHR 0x27] @ ''t tolerate''),
        (''node(s) didn'' @ [CHR 0x27] @ ''t match Pod'' @ [CHR 0x27] @ ''s node affinity/selector'',
         ''isn'' @ [CHR 0x27] @ ''t one the pod asked for'', ''aren'' @ [CHR 0x27] @ ''t ones the pod asked for''),
        (''node(s) didn'' @ [CHR 0x27] @ ''t have free ports'', ''has the requested host port taken'',
         ''have the requested host port taken''),
        (''node(s) were unschedulable'', ''is cordoned'', ''are cordoned''),
        (''node(s) didn'' @ [CHR 0x27] @ ''t match pod anti-affinity rules'',
         ''already runs a pod this one wants to keep away from'', ''already run a pod this one wants to keep away from''),
        (''node(s) didn'' @ [CHR 0x27] @ ''t match pod affinity rules'',
         ''doesn'' @ [CHR 0x27] @ ''t run the pods this one wants to be near'',
         ''don'' @ [CHR 0x27] @ ''t run the pods this one wants to be near''),
        (''node(s) had volume node affinity conflict'', ''can'' @ [CHR 0x27] @ ''t reach the pod'' @ [CHR 0x27] @ ''s volume'',
         ''can'' @ [CHR 0x27] @ ''t reach the pod'' @ [CHR 0x27] @ ''s volume''),
        (''node(s) didn'' @ [CHR 0x27] @ ''t satisfy plugin(s)'', ''was turned down by a scheduling plugin'',
         ''were turned down by a scheduling plugin'')]"

definition say_phrase :: "phrase \<Rightarrow> int \<Rightarrow> int \<Rightarrow> string" where
  "say_phrase p seen nodes =
     (if seen = nodes \<and> nodes > 1 then ''every node '' @ Singular p
      else if seen = 1 then ''1 node '' @ Singular p
      else show_int seen @ '' nodes '' @ Plural p)"

definition Reason :: "string \<Rightarrow> int \<Rightarrow> int \<Rightarrow> string" where
  "Reason reason seen nodes =
     (case List.find (\<lambda>p. has_prefix reason (Prefix p)) phrases of
        Some p \<Rightarrow> say_phrase p seen nodes
      | None \<Rightarrow> if seen = 1 then ''1 node: '' @ reason else show_int seen @ '' nodes: '' @ reason)"

section \<open>The message\<close>

text \<open>\<open>utf8.RuneStart\<close>: not a continuation byte.\<close>

definition rune_start :: "char \<Rightarrow> bool" where
  "rune_start c \<longleftrightarrow> (of_char c :: nat) div 64 \<noteq> 2"

text \<open>\<open>for cut > 0 && !utf8.RuneStart(human[cut]) { cut-- }\<close>\<close>

fun cut_at :: "string \<Rightarrow> nat \<Rightarrow> nat" where
  "cut_at s 0 = 0"
| "cut_at s (Suc n) = (if rune_start (s ! Suc n) then Suc n else cut_at s n)"

definition trim_end :: "string \<Rightarrow> string" where
  "trim_end s = rev (dropWhile (\<lambda>c. c = CHR '' '' \<or> c = CHR '','') (rev s))"

definition minHuman :: int where "minHuman = 40"

definition withUpstream :: "string \<Rightarrow> string \<Rightarrow> int \<Rightarrow> string" where
  "withUpstream human upstream limit =
     (let suffix = '' ('' @ upstream @ '')''
      in if int (length human) + int (length suffix) \<le> limit then human @ suffix
         else let ellipsis = ''...''; room = limit - int (length suffix) - int (length ellipsis)
              in if room < minHuman then upstream
                 else trim_end (take (cut_at human (nat room)) human) @ ellipsis @ suffix)"

definition reasons_in_order :: "(string \<times> int) list \<Rightarrow> (string \<times> int) list" where
  "reasons_in_order reasons = sort_key (\<lambda>(k, n). (- n, k)) reasons"

definition human_part :: "string \<Rightarrow> int \<Rightarrow> (string \<times> int) list \<Rightarrow> string" where
  "human_part pod totalNodes reasons =
     (if totalNodes = 0 then ''We couldn'' @ [CHR 0x27] @ ''t place '' @ pod @ '' yet: the cluster has no nodes we can use.''
      else let parts = map (\<lambda>(k, n). Reason k n totalNodes) (reasons_in_order reasons);
               why = join '', '' parts;
               why = (if why = [] then ''no node fits'' else why)
           in ''We couldn'' @ [CHR 0x27] @ ''t place '' @ pod @ '' yet: '' @ why @ ''. We'' @ [CHR 0x27]
              @ ''ll try again as soon as something changes.'')"

definition SchedulingFailure :: "string \<Rightarrow> int \<Rightarrow> (string \<times> int) list \<Rightarrow> string \<Rightarrow> int \<Rightarrow> string" where
  "SchedulingFailure pod totalNodes reasons upstream limit =
     withUpstream (human_part pod totalNodes reasons) upstream limit"

section \<open>The scheduler's event\<close>

text \<open>
  The scheduler's error: a fit error with its diagnosis, or another. The explicit statuses
  are the reasons of each node that has one, the absent status speaks for the rest.
\<close>

record diagnosis =
  PreFilterMsg :: string
  NodeToStatus :: "(string list list \<times> string list) option"

record fit_error =
  NumAllNodes :: int
  Diagnosis :: diagnosis

definition add_reason :: "int \<Rightarrow> (string \<times> int) list \<Rightarrow> string \<Rightarrow> (string \<times> int) list" where
  "add_reason n reasons r = AList.update r (n + (case map_of reasons r of Some k \<Rightarrow> k | None \<Rightarrow> 0)) reasons"

definition count_reasons :: "fit_error \<Rightarrow> (string \<times> int) list" where
  "count_reasons e =
     (let d = Diagnosis e
      in if PreFilterMsg d \<noteq> [] then [(PreFilterMsg d, NumAllNodes e)]
         else case NodeToStatus d of
                None \<Rightarrow> []
              | Some (explicit, absent) \<Rightarrow>
                  (let reasons = foldl (add_reason 1) [] (concat explicit); n = int (length explicit)
                   in if n < NumAllNodes e then foldl (add_reason (NumAllNodes e - n)) reasons absent else reasons))"

definition kyvernetriaSchedulingMessage :: "int \<Rightarrow> string \<Rightarrow> fit_error option \<Rightarrow> string \<Rightarrow> string" where
  "kyvernetriaSchedulingMessage note_limit pod err upstream =
     (case err of
        None \<Rightarrow> upstream
      | Some e \<Rightarrow> SchedulingFailure pod (NumAllNodes e) (count_reasons e) upstream note_limit)"

section \<open>The upstream text survives\<close>

lemma cut_at_le: "cut_at s n \<le> n"
  by (induction n) auto

lemma cut_at_boundary: "cut_at s n = 0 \<or> rune_start (s ! cut_at s n)"
  by (induction n) auto

lemma trim_end_length: "length (trim_end s) \<le> length s"
  using length_dropWhile_le [of "\<lambda>c. c = CHR '' '' \<or> c = CHR '',''" "rev s"] by (simp add: trim_end_def)

lemma withUpstream_whole:
  "int (length human) + int (length upstream) + 3 \<le> limit \<Longrightarrow> withUpstream human upstream limit = human @ '' ('' @ upstream @ '')''"
  by (simp add: withUpstream_def Let_def)

lemma withUpstream_cut:
  assumes "\<not> int (length human) + int (length upstream) + 3 \<le> limit" and "int (length upstream) + 46 \<le> limit"
  shows "withUpstream human upstream limit =
    trim_end (take (cut_at human (nat (limit - int (length upstream) - 6))) human) @ ''...'' @ '' ('' @ upstream @ '')''"
  using assms by (simp add: withUpstream_def Let_def minHuman_def)

lemma withUpstream_alone:
  assumes "\<not> int (length human) + int (length upstream) + 3 \<le> limit" and "\<not> int (length upstream) + 46 \<le> limit"
  shows "withUpstream human upstream limit = upstream"
  using assms by (simp add: withUpstream_def Let_def minHuman_def)

text \<open>
  The scheduler's sentence keeps the upstream text and the limit: whatever the
  reasons, the message holds the upstream text whole; it is the upstream text alone exactly
  when the error is no fit error or when the sentence does not fit and less than forty bytes
  of it would; otherwise the message is within the limit, and its human part is the whole
  sentence or a piece of it cut where a character begins.
\<close>

theorem scheduling_message_keeps_upstream:
  "case err of
     None \<Rightarrow> kyvernetriaSchedulingMessage limit pod err upstream = upstream
   | Some e \<Rightarrow>
       (let human = human_part pod (NumAllNodes e) (count_reasons e);
            msg = kyvernetriaSchedulingMessage limit pod err upstream
        in if int (length human) + int (length upstream) + 3 \<le> limit then msg = human @ '' ('' @ upstream @ '')''
           else if int (length upstream) + 46 \<le> limit then
             int (length msg) \<le> limit
             \<and> (\<exists>n. (n = 0 \<or> rune_start (human ! n)) \<and> n < length human
                   \<and> msg = trim_end (take n human) @ ''... ('' @ upstream @ '')'')
           else msg = upstream)"
proof (cases err)
  case None
  then show ?thesis by (simp add: kyvernetriaSchedulingMessage_def)
next
  case (Some e)
  define human where "human = human_part pod (NumAllNodes e) (count_reasons e)"
  define msg where "msg = kyvernetriaSchedulingMessage limit pod err upstream"
  have msg: "msg = withUpstream human upstream limit"
    by (simp add: msg_def human_def Some kyvernetriaSchedulingMessage_def SchedulingFailure_def)
  have short: "int (length msg) \<le> limit \<and> (\<exists>n. (n = 0 \<or> rune_start (human ! n)) \<and> n < length human
      \<and> msg = trim_end (take n human) @ ''... ('' @ upstream @ '')'')"
    if long: "\<not> int (length human) + int (length upstream) + 3 \<le> limit" and fits: "int (length upstream) + 46 \<le> limit"
  proof -
    let ?n = "cut_at human (nat (limit - int (length upstream) - 6))"
    have n: "int ?n \<le> limit - int (length upstream) - 6"
      using cut_at_le [of human "nat (limit - int (length upstream) - 6)"] fits by linarith
    moreover have "length (trim_end (take ?n human)) \<le> ?n"
      using trim_end_length [of "take ?n human"] by simp
    ultimately show ?thesis
      using long fits cut_at_boundary [of human] msg withUpstream_cut [OF long fits]
      by (intro conjI exI [of _ ?n]) auto
  qed
  show ?thesis
    using msg short withUpstream_whole [of human upstream limit] withUpstream_alone [of human upstream limit]
    by (simp add: Some Let_def flip: human_def msg_def [unfolded Some])
qed

text \<open>A taint on three nodes of five and a resource short on the other two.\<close>

lemma demo_message:
  "kyvernetriaSchedulingMessage 1024 ''shop/web''
     (Some \<lparr>NumAllNodes = 5,
            Diagnosis = \<lparr>PreFilterMsg = [],
              NodeToStatus = Some ([[''Insufficient cpu''], [''Insufficient cpu'']], [''node(s) had untolerated taint {x}''])\<rparr>\<rparr>)
     ''0/5 nodes are available''
   = ''We couldn'' @ [CHR 0x27] @ ''t place shop/web yet: 3 nodes have a taint the pod doesn'' @ [CHR 0x27]
     @ ''t tolerate, 2 nodes are short on CPU. We'' @ [CHR 0x27]
     @ ''ll try again as soon as something changes. (0/5 nodes are available)''"
  by code_simp

end
