(* ===== verification/Kyvctl_Names.thy ===== *)
theory Kyvctl_Names
  imports Go_Strconv
begin

text \<open>
  What several \<open>kyvctl\<close> commands share: the events they read, and the names controllers
  generate for the objects they own (\<open>kyvctl/calm.go\<close>, \<open>kyvctl/remember.go\<close>). The
  regular expressions are anchored and their repeated parts hold no dash, so a match is the
  split at the last dash; the dot of Go's regular expressions matches any rune but a newline.
\<close>

section \<open>Events\<close>

record event =
  ENamespace :: string
  EKind :: string
  EName :: string
  EUID :: string
  EType :: string
  EReason :: string
  EMessage :: string
  ECount :: int
  ELastTimestamp :: gotime
  EEventTime :: gotime
  EFirstTimestamp :: gotime

definition event_time :: "event \<Rightarrow> gotime" where
  "event_time e =
     (if ELastTimestamp e \<noteq> zero_time then ELastTimestamp e
      else if EEventTime e \<noteq> zero_time then EEventTime e
      else EFirstTimestamp e)"

definition plural :: "int \<Rightarrow> string \<Rightarrow> string" where
  "plural n noun = (if n = 1 then ''1 '' @ noun else show_int n @ '' '' @ noun @ ''s'')"

section \<open>Generated names\<close>

definition safeChars :: string where
  "safeChars = ''bcdfghjklmnpqrstvwxz2456789''"

definition safe_char :: "char \<Rightarrow> bool" where
  "safe_char c \<longleftrightarrow> c \<in> set safeChars"

text \<open>\<open>^(.+)-X{lo,hi}$\<close> for a class \<open>X\<close> without the dash: the match of the group.\<close>

definition suffixed :: "(char \<Rightarrow> bool) \<Rightarrow> nat \<Rightarrow> nat option \<Rightarrow> string \<Rightarrow> string option" where
  "suffixed p lo hi s =
     (case last_index (CHR ''-'') s of
        None \<Rightarrow> None
      | Some i \<Rightarrow>
          (let h = take i s; t = drop (Suc i) s
           in if h \<noteq> [] \<and> CHR 0x0A \<notin> set h \<and> lo \<le> length t
                \<and> (case hi of None \<Rightarrow> True | Some n \<Rightarrow> length t \<le> n) \<and> list_all p t
              then Some h else None))"

definition replicaSet :: "string \<Rightarrow> string option" where
  "replicaSet = suffixed safe_char 6 (Some 10)"

definition generatedPod :: "string \<Rightarrow> string option" where
  "generatedPod = suffixed safe_char 5 (Some 5)"

definition deploymentPod :: "string \<Rightarrow> string option" where
  "deploymentPod s = Option.bind (generatedPod s) replicaSet"

definition ordinalPod :: "string \<Rightarrow> string option" where
  "ordinalPod = suffixed is_digit 1 None"

definition Descends :: "string \<Rightarrow> string \<Rightarrow> string \<Rightarrow> string \<Rightarrow> bool" where
  "Descends kind name objKind objName \<longleftrightarrow>
     (if kind = ''Deployment'' \<and> objKind = ''ReplicaSet'' then replicaSet objName = Some name
      else if kind = ''Deployment'' \<and> objKind = ''Pod'' then deploymentPod objName = Some name
      else if kind = ''StatefulSet'' \<and> objKind = ''Pod'' then ordinalPod objName = Some name
      else if (kind = ''DaemonSet'' \<or> kind = ''ReplicaSet'') \<and> objKind = ''Pod'' then generatedPod objName = Some name
      else False)"

lemma last_index_split: "c \<notin> set b \<Longrightarrow> last_index c (a @ c # b) = Some (length a)"
proof (induction a)
  case Nil
  have "c \<notin> set b \<Longrightarrow> last_index c b = None" by (induction b) auto
  then show ?case using Nil by simp
qed simp

lemma last_index_parts: "last_index c s = Some i \<Longrightarrow> s = take i s @ c # drop (Suc i) s \<and> c \<notin> set (drop (Suc i) s)"
proof (induction s arbitrary: i)
  case (Cons x s)
  show ?case
  proof (cases "last_index c s")
    case None
    moreover have "last_index c s = None \<Longrightarrow> c \<notin> set s" by (induction s) (auto split: option.splits if_splits)
    ultimately show ?thesis using Cons.prems by (auto split: if_splits)
  next
    case (Some j)
    then show ?thesis using Cons.IH [OF Some] Cons.prems by auto
  qed
qed simp

lemma suffixed_iff:
  assumes "\<not> p (CHR ''-'')"
  shows "suffixed p lo hi s = Some h \<longleftrightarrow>
    (\<exists>t. s = h @ ''-'' @ t \<and> h \<noteq> [] \<and> CHR 0x0A \<notin> set h \<and> lo \<le> length t
       \<and> (case hi of None \<Rightarrow> True | Some n \<Rightarrow> length t \<le> n) \<and> list_all p t)"
proof
  assume a: "suffixed p lo hi s = Some h"
  then obtain i where i: "last_index (CHR ''-'') s = Some i"
    by (auto simp: suffixed_def split: option.splits)
  show "\<exists>t. s = h @ ''-'' @ t \<and> h \<noteq> [] \<and> CHR 0x0A \<notin> set h \<and> lo \<le> length t
       \<and> (case hi of None \<Rightarrow> True | Some n \<Rightarrow> length t \<le> n) \<and> list_all p t"
    using a last_index_parts [OF i] by (intro exI [of _ "drop (Suc i) s"]) (auto simp: suffixed_def i Let_def split: if_splits)
next
  assume "\<exists>t. s = h @ ''-'' @ t \<and> h \<noteq> [] \<and> CHR 0x0A \<notin> set h \<and> lo \<le> length t
       \<and> (case hi of None \<Rightarrow> True | Some n \<Rightarrow> length t \<le> n) \<and> list_all p t"
  then obtain t where t: "s = h @ CHR ''-'' # t" "h \<noteq> []" "CHR 0x0A \<notin> set h" "lo \<le> length t"
    "case hi of None \<Rightarrow> True | Some n \<Rightarrow> length t \<le> n" "list_all p t"
    by auto
  then have "CHR ''-'' \<notin> set t" using assms by (auto simp: list_all_iff)
  then show "suffixed p lo hi s = Some h"
    using t by (simp add: suffixed_def last_index_split)
qed

lemma safe_no_dash: "\<not> safe_char (CHR ''-'')" "\<not> is_digit (CHR ''-'')"
  by (simp_all add: safe_char_def safeChars_def is_digit_def)

text \<open>The name of the ReplicaSet behind a generated name, of the Deployment behind that.\<close>

lemma Descends_chain:
  "Descends ''Deployment'' d ''Pod'' p \<longleftrightarrow>
     (\<exists>rs. Descends ''Deployment'' d ''ReplicaSet'' rs \<and> Descends ''ReplicaSet'' rs ''Pod'' p)"
  by (auto simp: Descends_def deploymentPod_def bind_eq_Some_conv)

lemma Descends_unique: "Descends k n ok p \<Longrightarrow> Descends k n' ok p \<Longrightarrow> n = n'"
  by (auto simp: Descends_def split: if_splits)

end
