(* ===== verification/Grouping.thy ===== *)
theory Grouping
  imports Main "HOL-Library.AList" "HOL-Library.Multiset"
begin

text \<open>
  Folding a list into groups by a key, as the commands that summarise events do with a map
  from keys to pointers: a group starts at the first element of its key and every element of
  the key, the first included, is added to it. The groups are an association list for the map.
\<close>

definition group_step ::
    "('a \<Rightarrow> 'k) \<Rightarrow> ('a \<Rightarrow> 'g) \<Rightarrow> ('g \<Rightarrow> 'a \<Rightarrow> 'g) \<Rightarrow> ('k \<times> 'g) list \<Rightarrow> 'a \<Rightarrow> ('k \<times> 'g) list" where
  "group_step key start add m x =
     AList.update (key x) (add (case map_of m (key x) of Some g \<Rightarrow> g | None \<Rightarrow> start x) x) m"

definition group_fold :: "('a \<Rightarrow> 'k) \<Rightarrow> ('a \<Rightarrow> 'g) \<Rightarrow> ('g \<Rightarrow> 'a \<Rightarrow> 'g) \<Rightarrow> 'a list \<Rightarrow> ('k \<times> 'g) list" where
  "group_fold key start add xs = foldl (group_step key start add) [] xs"

definition group_value :: "('a \<Rightarrow> 'g) \<Rightarrow> ('g \<Rightarrow> 'a \<Rightarrow> 'g) \<Rightarrow> 'a list \<Rightarrow> 'g" where
  "group_value start add es = foldl add (start (hd es)) es"

lemma group_fold_snoc: "group_fold key start add (xs @ [x]) = group_step key start add (group_fold key start add xs) x"
  by (simp add: group_fold_def)

lemma group_fold_distinct: "distinct (map fst (group_fold key start add xs))"
  by (induction xs rule: rev_induct) (simp_all add: group_fold_def group_step_def distinct_update)

lemma group_fold_lookup:
  "map_of (group_fold key start add xs) k =
     (let es = filter (\<lambda>x. key x = k) xs in if es = [] then None else Some (group_value start add es))"
proof (induction xs rule: rev_induct)
  case Nil
  then show ?case by (simp add: group_fold_def)
next
  case (snoc x xs)
  show ?case
  proof (cases "key x = k")
    case True
    then show ?thesis
      using snoc by (cases "filter (\<lambda>x. key x = k) xs = []")
        (simp_all add: group_fold_snoc group_step_def update_conv' group_value_def Let_def)
  next
    case False
    then show ?thesis using snoc by (simp add: group_fold_snoc group_step_def update_conv')
  qed
qed

lemma group_fold_keys: "set (map fst (group_fold key start add xs)) = key ` set xs"
proof -
  have "k \<in> set (map fst (group_fold key start add xs)) \<longleftrightarrow> map_of (group_fold key start add xs) k \<noteq> None" for k
    by (force simp: map_of_eq_None_iff)
  then show ?thesis
    by (auto simp: group_fold_lookup Let_def filter_empty_conv set_eq_iff)
qed

lemma group_fold_values:
  "map snd (group_fold key start add xs) =
   map (\<lambda>k. group_value start add (filter (\<lambda>x. key x = k) xs)) (map fst (group_fold key start add xs))"
proof -
  have "snd y = group_value start add (filter (\<lambda>x. key x = fst y) xs)" if "y \<in> set (group_fold key start add xs)" for y
    using that group_fold_lookup [of key start add xs "fst y"]
      map_of_is_SomeI [OF group_fold_distinct, of "fst y" "snd y" key start add xs]
    by (auto simp: Let_def split: if_splits)
  then show ?thesis by (simp add: o_def)
qed

lemma sum_by_key:
  fixes f :: "'a \<Rightarrow> int"
  assumes "finite K" and "g ` set xs \<subseteq> K"
  shows "(\<Sum>k\<in>K. sum_list (map f (filter (\<lambda>x. g x = k) xs))) = sum_list (map f xs)"
  using assms(2)
proof (induction xs)
  case (Cons x xs)
  have "sum_list (map f (filter (\<lambda>y. g y = k) (x # xs))) =
      (if g x = k then f x else 0) + sum_list (map f (filter (\<lambda>y. g y = k) xs))" for k
    by simp
  then show ?case
    using Cons assms(1) by (simp only: sum.distrib) (simp add: sum.delta)
qed simp

end
