(* ===== verification/Calm.thy ===== *)
theory Calm
  imports Kyvctl_Names Grouping "HOL-Library.Product_Lexorder"
begin

text \<open>
  \<open>kyvctl/calm.go\<close>: a stream of warnings folded into groups by namespace, workload and
  reason. The groups are an association list for the code's map; the order the map is
  visited in before the sort, which is not stable, is the parameter \<open>arrange\<close>. Counts are
  \<open>int32\<close>.
\<close>

section \<open>Subjects\<close>

record calm_pod =
  CPNamespace :: string
  CPName :: string
  CPOwner :: "(string \<times> string) option"
  CPLabels :: "string \<Rightarrow> string"

definition pod_subject :: "calm_pod \<Rightarrow> string" where
  "pod_subject p =
     (case CPOwner p of
        None \<Rightarrow> ''pod/'' @ CPName p
      | Some (kind, name) \<Rightarrow>
          if kind = ''Node'' then ''pod/'' @ CPName p
          else if kind = ''ReplicaSet'' \<and> CPLabels p ''pod-template-hash'' \<noteq> [] then
            trim_suffix name (''-'' @ CPLabels p ''pod-template-hash'') @ '' (pods)''
          else name @ '' (pods)'')"

definition PodSubjects :: "calm_pod list \<Rightarrow> string \<Rightarrow> string option" where
  "PodSubjects pods = foldl (\<lambda>m p. m(CPNamespace p @ ''/'' @ CPName p \<mapsto> pod_subject p)) (\<lambda>_. None) pods"

definition Subject :: "string \<Rightarrow> string \<Rightarrow> string" where
  "Subject kind name =
     (let other = to_lower kind @ ''/'' @ name
      in if kind = ''Pod'' then
           (case deploymentPod name of Some w \<Rightarrow> w @ '' (pods)''
            | None \<Rightarrow> (case generatedPod name of Some w \<Rightarrow> w @ '' (pods)'' | None \<Rightarrow> other))
         else if kind = ''ReplicaSet'' then
           (case replicaSet name of Some w \<Rightarrow> w @ '' (replicasets)'' | None \<Rightarrow> other)
         else other)"

section \<open>Folding\<close>

record worry =
  WNamespace :: string
  WSubject :: string
  WReason :: string
  WCount :: int
  WLast :: gotime
  WMessage :: string

definition event_subject :: "(string \<Rightarrow> string option) \<Rightarrow> event \<Rightarrow> string" where
  "event_subject pods e =
     (case (if EKind e = ''Pod'' then pods (ENamespace e @ ''/'' @ EName e) else None) of
        Some s \<Rightarrow> s
      | None \<Rightarrow> Subject (EKind e) (EName e))"

definition fold_key :: "(string \<Rightarrow> string option) \<Rightarrow> event \<Rightarrow> string" where
  "fold_key pods e = ENamespace e @ [CHR 0x00] @ event_subject pods e @ [CHR 0x00] @ EReason e"

definition calm_counts :: "gotime \<Rightarrow> event \<Rightarrow> bool" where
  "calm_counts after e \<longleftrightarrow> \<not> (EType e \<noteq> ''Warning'' \<or> event_time e < after)"

definition times_seen :: "event \<Rightarrow> int" where
  "times_seen e = (if ECount e < 1 then 1 else ECount e)"

definition new_worry :: "(string \<Rightarrow> string option) \<Rightarrow> event \<Rightarrow> worry" where
  "new_worry pods e =
     \<lparr>WNamespace = ENamespace e, WSubject = event_subject pods e, WReason = EReason e, WCount = 0, WLast = zero_time, WMessage = []\<rparr>"

definition add_event :: "worry \<Rightarrow> event \<Rightarrow> worry" where
  "add_event g e =
     (let g = g\<lparr>WCount := i32 (WCount g + times_seen e)\<rparr>
      in if event_time e > WLast g then g\<lparr>WLast := event_time e, WMessage := trim_space (EMessage e)\<rparr> else g)"

definition fold_event ::
    "gotime \<Rightarrow> (string \<Rightarrow> string option) \<Rightarrow> (string \<times> worry) list \<Rightarrow> event \<Rightarrow> (string \<times> worry) list" where
  "fold_event after pods groups e =
     (if \<not> calm_counts after e then groups
      else let key = fold_key pods e;
               g = (case map_of groups key of Some g \<Rightarrow> g | None \<Rightarrow> new_worry pods e)
           in AList.update key (add_event g e) groups)"

definition Fold ::
    "((string \<times> worry) list \<Rightarrow> (string \<times> worry) list) \<Rightarrow> event list \<Rightarrow> gotime \<Rightarrow> (string \<Rightarrow> string option) \<Rightarrow> worry list" where
  "Fold arrange events after pods =
     sort_key (\<lambda>w. (- WCount w, - WLast w)) (map snd (arrange (foldl (fold_event after pods) [] events)))"

section \<open>The report\<close>

text \<open>Printing a duration and rounding it to a second are the parameters \<open>dur\<close>, \<open>ago\<close>.\<close>

definition short_message :: "string \<Rightarrow> string" where
  "short_message m = (if length m > 140 then take 137 m @ ''...'' else m)"

definition calm_total :: "worry list \<Rightarrow> int" where
  "calm_total ws = foldl (\<lambda>n w. i32 (n + WCount w)) 0 ws"

definition calm_line :: "(gotime \<Rightarrow> string) \<Rightarrow> nat \<times> worry \<Rightarrow> string" where
  "calm_line ago iw = (case iw of (i, w) \<Rightarrow>
     [CHR 0x0A] @ show_nat (i + 1) @ ''. '' @ WNamespace w @ ''/'' @ WSubject w @ '': '' @ WReason w @ '' x''
     @ show_int (WCount w) @ '', last '' @ ago (WLast w) @ '' ago'' @ [CHR 0x0A] @ ''   '' @ short_message (WMessage w)
     @ [CHR 0x0A])"

definition renderCalm :: "(duration \<Rightarrow> string) \<Rightarrow> (gotime \<Rightarrow> string) \<Rightarrow> worry list \<Rightarrow> nat \<Rightarrow> duration \<Rightarrow> string" where
  "renderCalm dur ago worries few since =
     (if worries = [] then ''Nothing to worry about in the last '' @ dur since @ ''. Breathe.'' @ [CHR 0x0A]
      else
        let shown = (if length worries > few then take few worries else worries)
        in show_int (calm_total worries) @ '' warnings in the last '' @ dur since @ '' come down to ''
           @ show_nat (length worries) @ '' things.''
           @ (if length worries > few then '' The '' @ show_nat few @ '' that deserve attention first:'' else [])
           @ [CHR 0x0A] @ concat (map (calm_line ago) (zip [0..<length shown] shown)))"

text \<open>\<open>runCalm\<close>: a bad flag or a list that fails is the error, before anything is printed.\<close>

definition runCalm ::
    "((string \<times> worry) list \<Rightarrow> (string \<times> worry) list) \<Rightarrow> (duration \<Rightarrow> string) \<Rightarrow> (gotime \<Rightarrow> string)
     \<Rightarrow> 'e + event list \<Rightarrow> 'e + calm_pod list \<Rightarrow> gotime \<Rightarrow> duration \<Rightarrow> int \<Rightarrow> (string + 'e) + string" where
  "runCalm arrange dur ago events pods now since few =
     (if few < 1 then Inl (Inl (''--top must be at least 1, got '' @ show_int few))
      else case events of Inl e \<Rightarrow> Inl (Inr e) | Inr events \<Rightarrow>
           case pods of Inl e \<Rightarrow> Inl (Inr e) | Inr pods \<Rightarrow>
           Inr (renderCalm dur ago (Fold arrange events (t_add now (- since)) (PodSubjects pods)) (nat few) since))"

section \<open>What a fold holds\<close>

definition calm_group :: "gotime \<Rightarrow> (string \<Rightarrow> string option) \<Rightarrow> event list \<Rightarrow> string \<Rightarrow> event list" where
  "calm_group after pods events k = filter (\<lambda>e. calm_counts after e \<and> fold_key pods e = k) events"

definition latest :: "event list \<Rightarrow> gotime" where
  "latest es = fold max (map event_time es) zero_time"

definition latest_message :: "event list \<Rightarrow> string" where
  "latest_message es =
     (case List.find (\<lambda>e. zero_time < event_time e \<and> event_time e = latest es) es of
        None \<Rightarrow> [] | Some e \<Rightarrow> trim_space (EMessage e))"

definition summary :: "(string \<Rightarrow> string option) \<Rightarrow> event list \<Rightarrow> worry" where
  "summary pods es =
     \<lparr>WNamespace = ENamespace (hd es), WSubject = event_subject pods (hd es), WReason = EReason (hd es),
      WCount = i32 (sum_list (map times_seen es)), WLast = latest es, WMessage = latest_message es\<rparr>"

lemma find_append: "List.find P (xs @ ys) = (case List.find P xs of None \<Rightarrow> List.find P ys | Some x \<Rightarrow> Some x)"
  by (induction xs) auto

lemma latest_snoc: "latest (es @ [e]) = max (event_time e) (latest es)"
  by (simp add: latest_def)

lemma latest_ge: "e \<in> set es \<Longrightarrow> event_time e \<le> latest es" and latest_zero: "zero_time \<le> latest es"
  by (induction es rule: rev_induct) (auto simp: latest_snoc latest_def)

lemma latest_message_snoc:
  "latest_message (es @ [e]) = (if event_time e > latest es then trim_space (EMessage e) else latest_message es)"
proof (cases "event_time e > latest es")
  case True
  then have "List.find (\<lambda>x. zero_time < event_time x \<and> event_time x = latest (es @ [e])) es = None"
    using latest_ge [of _ es] by (fastforce simp: latest_snoc find_None_iff)
  then show ?thesis
    using True latest_zero [of es] by (simp add: latest_message_def latest_snoc find_append split: option.split)
next
  case False
  then have l: "latest (es @ [e]) = latest es" by (simp add: latest_snoc)
  have "latest_message (es @ [e]) = (case List.find (\<lambda>x. zero_time < event_time x \<and> event_time x = latest es) (es @ [e]) of
      None \<Rightarrow> [] | Some e \<Rightarrow> trim_space (EMessage e))"
    by (simp add: latest_message_def l)
  moreover have "List.find (\<lambda>x. zero_time < event_time x \<and> event_time x = latest es) es \<noteq> None"
    if "zero_time < latest es"
  proof -
    have "latest es \<in> insert zero_time (event_time ` set es)"
      by (induction es rule: rev_induct) (auto simp: latest_snoc latest_def max_def)
    then show ?thesis using that by (auto simp: find_None_iff)
  qed
  ultimately show ?thesis
    using False latest_zero [of es]
    by (cases "zero_time < latest es") (auto simp: latest_message_def find_append split: option.split)
qed


lemma summary_snoc: "es \<noteq> [] \<Longrightarrow> summary pods (es @ [e]) = add_event (summary pods es) e"
  by (simp add: summary_def add_event_def Let_def i32_add_left latest_snoc latest_message_snoc max_def)

lemma summary_single: "summary pods [e] = add_event (new_worry pods e) e"
  using latest_message_snoc [of "[]" e] latest_snoc [of "[]" e]
  by (simp add: summary_def add_event_def new_worry_def Let_def latest_def latest_message_def max_def)

lemma summary_value: "es \<noteq> [] \<Longrightarrow> group_value (new_worry pods) add_event es = summary pods es"
proof (induction es rule: rev_induct)
  case (snoc e es)
  then show ?case
    by (cases "es = []") (simp_all add: group_value_def summary_single summary_snoc)
qed simp

abbreviation calm_groups :: "gotime \<Rightarrow> (string \<Rightarrow> string option) \<Rightarrow> event list \<Rightarrow> (string \<times> worry) list" where
  "calm_groups after pods events \<equiv> foldl (fold_event after pods) [] events"

lemma calm_groups_fold:
  "calm_groups after pods events = group_fold (fold_key pods) (new_worry pods) add_event (filter (calm_counts after) events)"
  by (induction events rule: rev_induct) (simp_all add: fold_event_def Let_def group_fold_def group_step_def)

lemma groups_distinct: "distinct (map fst (calm_groups after pods events))"
  unfolding calm_groups_fold by (rule group_fold_distinct)

lemma groups_keys:
  "set (map fst (calm_groups after pods events)) = fold_key pods ` {e \<in> set events. calm_counts after e}"
  unfolding calm_groups_fold group_fold_keys by simp

lemma groups_values:
  "map snd (calm_groups after pods events) =
   map (\<lambda>k. summary pods (calm_group after pods events k)) (map fst (calm_groups after pods events))"
proof -
  have "group_value (new_worry pods) add_event (filter (\<lambda>e. fold_key pods e = k) (filter (calm_counts after) events))
      = summary pods (calm_group after pods events k)"
    if "k \<in> set (map fst (group_fold (fold_key pods) (new_worry pods) add_event (filter (calm_counts after) events)))" for k
  proof -
    have g: "filter (\<lambda>e. fold_key pods e = k) (filter (calm_counts after) events) = calm_group after pods events k"
      by (auto simp: calm_group_def intro: filter_cong)
    have "calm_group after pods events k \<noteq> []" using that unfolding group_fold_keys by (auto simp: calm_group_def filter_empty_conv)
    then show ?thesis unfolding g by (rule summary_value)
  qed
  then show ?thesis unfolding calm_groups_fold group_fold_values by (intro map_cong refl)
qed

section \<open>Nothing is lost in a fold\<close>

lemma i32_sum: "finite K \<Longrightarrow> i32 (\<Sum>k\<in>K. i32 (f k)) = i32 (\<Sum>k\<in>K. f k)"
proof (induction K rule: finite_induct)
  case (insert k K)
  have "i32 (i32 (f k) + (\<Sum>k\<in>K. i32 (f k))) = i32 (f k + (\<Sum>k\<in>K. i32 (f k)))" by (rule i32_add_left)
  also have "\<dots> = i32 (i32 (\<Sum>k\<in>K. i32 (f k)) + f k)" by (simp only: i32_add_left add.commute [of "f k"])
  also have "\<dots> = i32 (f k + (\<Sum>k\<in>K. f k))" unfolding insert.IH i32_add_left by (simp only: add.commute)
  finally show ?case using insert.hyps by simp
qed simp

lemma calm_total_sum: "calm_total ws = i32 (sum_list (map WCount ws))"
proof -
  have "foldl (\<lambda>n w. i32 (n + WCount w)) (i32 m) ws = i32 (m + sum_list (map WCount ws))" for m
    by (induction ws arbitrary: m) (simp_all add: i32_add_left add.assoc)
  from this [of 0] show ?thesis by (simp add: calm_total_def i32_id in_i32_def)
qed

lemma Fold_mset:
  assumes "\<forall>m. mset (arrange m) = mset m"
  shows "mset (Fold arrange events after pods) = mset (map snd (calm_groups after pods events))"
  using assms by (simp add: Fold_def)

lemma Fold_sum:
  assumes "\<forall>m. mset (arrange m) = mset m"
  shows "calm_total (Fold arrange events after pods) = i32 (sum_list (map times_seen (filter (calm_counts after) events)))"
proof -
  let ?ks = "map fst (calm_groups after pods events)" and ?es = "filter (calm_counts after) events"
  have "sum_list (map WCount (Fold arrange events after pods)) = sum_list (map WCount (map snd (calm_groups after pods events)))"
    using Fold_mset [OF assms] by (metis mset_map sum_mset_sum_list)
  also have "\<dots> = (\<Sum>k\<in>set ?ks. i32 (sum_list (map times_seen (calm_group after pods events k))))"
    unfolding groups_values sum_list_distinct_conv_sum_set [OF groups_distinct, symmetric]
    by (simp only: map_map o_def summary_def worry.simps)
  also have "i32 \<dots> = i32 (\<Sum>k\<in>set ?ks. sum_list (map times_seen (calm_group after pods events k)))"
    by (rule i32_sum) simp
  also have "(\<Sum>k\<in>set ?ks. sum_list (map times_seen (calm_group after pods events k))) = sum_list (map times_seen ?es)"
  proof -
    have "calm_group after pods events k = filter (\<lambda>e. fold_key pods e = k) ?es" for k
      by (auto simp: calm_group_def intro: filter_cong)
    moreover have "fold_key pods ` set ?es \<subseteq> set ?ks" unfolding groups_keys by auto
    ultimately show ?thesis using sum_by_key [of "set ?ks" "fold_key pods" ?es times_seen] by simp
  qed
  finally show ?thesis by (simp add: calm_total_sum)
qed

text \<open>
  Claim C36. A fold loses no warning and invents none: whatever order the map of groups is
  visited in, there is exactly one group for each namespace, workload and reason of the
  warnings of the window, holding their number, the time of the latest and its message; the
  total the report announces is the number of all these warnings, in the 32 bits it is
  counted in; the groups come most frequent first, and among equally frequent ones the most
  recent first.
\<close>

theorem calm_folds_exactly:
  assumes "\<forall>m. mset (arrange m) = mset m"
  shows "(\<exists>ks. distinct ks \<and> set ks = fold_key pods ` {e \<in> set events. calm_counts after e}
      \<and> mset (Fold arrange events after pods) = mset (map (\<lambda>k. summary pods (calm_group after pods events k)) ks))
    \<and> calm_total (Fold arrange events after pods) = i32 (sum_list (map times_seen (filter (calm_counts after) events)))
    \<and> sorted_wrt (\<lambda>v w. WCount w < WCount v \<or> WCount w = WCount v \<and> WLast w \<le> WLast v) (Fold arrange events after pods)"
proof (intro conjI)
  show "\<exists>ks. distinct ks \<and> set ks = fold_key pods ` {e \<in> set events. calm_counts after e}
      \<and> mset (Fold arrange events after pods) = mset (map (\<lambda>k. summary pods (calm_group after pods events k)) ks)"
    using Fold_mset [OF assms, of events after pods, unfolded groups_values] groups_distinct [of after pods events] groups_keys [of after pods events]
    by blast
  show "calm_total (Fold arrange events after pods) = i32 (sum_list (map times_seen (filter (calm_counts after) events)))"
    by (rule Fold_sum [OF assms])
  show "sorted_wrt (\<lambda>v w. WCount w < WCount v \<or> WCount w = WCount v \<and> WLast w \<le> WLast v) (Fold arrange events after pods)"
    using sorted_sort_key [of "\<lambda>w. (- WCount w, - WLast w)" "map snd (arrange (calm_groups after pods events))"]
    by (simp only: Fold_def sorted_wrt_map) (auto elim!: sorted_wrt_mono_rel [rotated] simp: less_eq_prod_def)
qed


text \<open>Two crash loops of one Deployment and a missing volume, folded by their owners.\<close>

definition demo_event :: "string \<Rightarrow> string \<Rightarrow> int \<Rightarrow> gotime \<Rightarrow> event" where
  "demo_event name reason n t =
     \<lparr>ENamespace = ''shop'', EKind = ''Pod'', EName = name, EUID = name, EType = ''Warning'', EReason = reason,
      EMessage = '' back-off '', ECount = n, ELastTimestamp = t, EEventTime = zero_time, EFirstTimestamp = 1\<rparr>"

definition demo_events :: "event list" where
  "demo_events =
     [demo_event ''web-7f9c8d6b5-x2kq4'' ''BackOff'' 3 10, demo_event ''db-0'' ''FailedMount'' 0 20,
      demo_event ''web-7f9c8d6b5-z5kq4'' ''BackOff'' 2 30, demo_event ''old-1'' ''BackOff'' 9 4]"

theorem calm_folds_exactly_witness:
  "calm_total (Fold rev demo_events 5 (\<lambda>_. None)) = 6
   \<and> map WSubject (Fold rev demo_events 5 (\<lambda>_. None)) = [''web (pods)'', ''pod/db-0'']"
proof -
  have p: "\<forall>m :: (string \<times> worry) list. mset (rev m) = mset m" by simp
  have "i32 (sum_list (map times_seen (filter (calm_counts 5) demo_events))) = 6" by code_simp
  moreover have "map WSubject (Fold rev demo_events 5 (\<lambda>_. None)) = [''web (pods)'', ''pod/db-0'']" by code_simp
  ultimately show ?thesis
    using calm_folds_exactly [OF p, of "\<lambda>_. None" demo_events 5] by (simp only:)
qed

end
