(* ===== verification/Remember.thy ===== *)
theory Remember
  imports Kyvctl_Names Placement
begin

text \<open>
  \<open>kyvctl/remember.go\<close>: the story of a workload, told from the events the cluster keeps.
  The reads of one run are a record: what the API answers for the object and the pages of
  the lists, in the order they are asked for; a loop over pages ends with the first page
  that fails or the last one. Live descendants are the UIDs reached through owner
  references; descendants that are gone are recognised by their generated names.
\<close>

section \<open>Kinds\<close>

definition normalizeKind :: "string \<Rightarrow> string" where
  "normalizeKind kind =
     (let k = to_lower kind
      in if k \<in> set [''deploy'', ''deploys'', ''deployment'', ''deployments''] then ''Deployment''
         else if k \<in> set [''sts'', ''statefulset'', ''statefulsets''] then ''StatefulSet''
         else if k \<in> set [''ds'', ''daemonset'', ''daemonsets''] then ''DaemonSet''
         else if k \<in> set [''rs'', ''replicaset'', ''replicasets''] then ''ReplicaSet''
         else if k \<in> set [''po'', ''pod'', ''pods''] then ''Pod''
         else if k \<in> set [''no'', ''node'', ''nodes''] then ''Node''
         else if k \<in> set [''svc'', ''service'', ''services''] then ''Service''
         else kind)"

section \<open>Reads\<close>

record remembered_object =
  RemUID :: string
  RemAnnotations :: strmap

record owned_object =
  OwnedUID :: string
  OwnedBy :: "string list"

record story_reads =
  GetObject :: "remembered_object api"
  ReplicaSetPages :: "owned_object list api list"
  PodPages :: "owned_object list api list"
  OwnEvents :: "event list api list"
  KindEvents :: "string \<Rightarrow> event list api list"

fun read_pages :: "'a list api list \<Rightarrow> 'a list api" where
  "read_pages [] = Inr []"
| "read_pages (Inl e # ps) = Inl e"
| "read_pages (Inr xs # ps) = (case read_pages ps of Inl e \<Rightarrow> Inl e | Inr ys \<Rightarrow> Inr (xs @ ys))"

section \<open>Descendants\<close>

definition descendantKinds :: "string \<Rightarrow> string list" where
  "descendantKinds kind =
     (if kind = ''Deployment'' then [''ReplicaSet'', ''Pod'']
      else if kind = ''StatefulSet'' \<or> kind = ''DaemonSet'' \<or> kind = ''ReplicaSet'' then [''Pod'']
      else [])"

definition adopt :: "string list \<Rightarrow> owned_object list \<Rightarrow> string list" where
  "adopt uids os = foldl (\<lambda>uids b. if list_ex (\<lambda>r. r \<in> set uids) (OwnedBy b) then OwnedUID b # uids else uids) uids os"

definition addLiveDescendants :: "string \<Rightarrow> story_reads \<Rightarrow> string list \<Rightarrow> string list api" where
  "addLiveDescendants kind reads uids =
     (case (if kind = ''Deployment'' then read_pages (ReplicaSetPages reads) else Inr []) of
        Inl e \<Rightarrow> Inl e
      | Inr rss \<Rightarrow>
          (case read_pages (PodPages reads) of
             Inl e \<Rightarrow> Inl e
           | Inr pods \<Rightarrow> Inr (adopt (adopt uids rss) pods)))"

section \<open>The story\<close>

record story =
  Title :: string
  Homes :: "string list"
  Events :: "event list"

definition ordinalHomes :: "string \<Rightarrow> ordinals \<Rightarrow> string list" where
  "ordinalHomes name homes = map (\<lambda>(o', n). name @ ''-'' @ show_int o' @ '' on '' @ n) (sort_key fst homes)"

definition story_homes :: "string \<Rightarrow> string \<Rightarrow> remembered_object \<Rightarrow> string list" where
  "story_homes kind name b =
     (if kind = ''Deployment'' \<or> kind = ''ReplicaSet'' then Decode (RemAnnotations b)
      else if kind = ''StatefulSet'' then ordinalHomes name (DecodeOrdinals (RemAnnotations b))
      else [])"

text \<open>The object of a workload: whether it is gone, its UID, its homes.\<close>

definition find_object :: "string \<Rightarrow> string \<Rightarrow> story_reads \<Rightarrow> (bool \<times> string list \<times> string list) api" where
  "find_object kind name reads =
     (if descendantKinds kind = [] then Inr (False, [], [])
      else case GetObject reads of
             Inl e \<Rightarrow> (if e = NotFound then Inr (True, [], []) else Inl e)
           | Inr b \<Rightarrow> Inr (False, [RemUID b], story_homes kind name b))"

definition live_uids :: "string \<Rightarrow> story_reads \<Rightarrow> string list \<Rightarrow> string list api" where
  "live_uids kind reads uids = (if descendantKinds kind = [] then Inr uids else addLiveDescendants kind reads uids)"

definition about_object :: "string \<Rightarrow> string \<Rightarrow> event \<Rightarrow> bool" where
  "about_object kind name e \<longleftrightarrow> EKind e = kind \<and> EName e = name"

definition about_descendant :: "string \<Rightarrow> string \<Rightarrow> string list \<Rightarrow> string \<Rightarrow> event \<Rightarrow> bool" where
  "about_descendant kind name uids dk e \<longleftrightarrow>
     EKind e = dk \<and> (EUID e \<in> set uids \<or> Descends kind name (EKind e) (EName e))"

fun descendant_events :: "string \<Rightarrow> string \<Rightarrow> string list \<Rightarrow> story_reads \<Rightarrow> string list \<Rightarrow> event list api" where
  "descendant_events kind name uids reads [] = Inr []"
| "descendant_events kind name uids reads (dk # dks) =
     (case read_pages (KindEvents reads dk) of
        Inl e \<Rightarrow> Inl e
      | Inr es \<Rightarrow>
          (case descendant_events kind name uids reads dks of
             Inl e \<Rightarrow> Inl e
           | Inr fs \<Rightarrow> Inr (filter (about_descendant kind name uids dk) es @ fs)))"

definition story_title :: "string \<Rightarrow> string \<Rightarrow> string \<Rightarrow> bool \<Rightarrow> string" where
  "story_title kind ns name gone =
     (if kind = ''Node'' then ''Node '' @ name else kind @ '' '' @ ns @ ''/'' @ name)
     @ (if gone then '' (no longer here)'' else [])"

definition collectStory :: "story_reads \<Rightarrow> string \<Rightarrow> string \<Rightarrow> string \<Rightarrow> story api" where
  "collectStory reads ns kind name =
     (case find_object kind name reads of Inl e \<Rightarrow> Inl e | Inr (gone, uids, homes) \<Rightarrow>
      case live_uids kind reads uids of Inl e \<Rightarrow> Inl e | Inr uids \<Rightarrow>
      case read_pages (OwnEvents reads) of Inl e \<Rightarrow> Inl e | Inr own \<Rightarrow>
      case descendant_events kind name uids reads (descendantKinds kind) of Inl e \<Rightarrow> Inl e | Inr es \<Rightarrow>
      let events = filter (about_object kind name) own @ es
      in if gone \<and> events = [] then Inl NotFound
         else Inr \<lparr>Title = story_title kind ns name gone, Homes = homes, Events = sort_key event_time events\<rparr>)"

section \<open>Telling it\<close>

text \<open>Formatting a local time as a day and as a clock are parameters.\<close>

definition event_line :: "(gotime \<Rightarrow> string) \<Rightarrow> event \<Rightarrow> string" where
  "event_line clock e =
     ''  '' @ clock (event_time e) @ '' '' @ (if EType e = ''Warning'' then ''!'' else '' '') @ '' ''
     @ to_lower (EKind e) @ ''/'' @ EName e @ '' '' @ EReason e @ '': '' @ trim_space (EMessage e)
     @ (if ECount e > 1 then '' (x'' @ show_int (ECount e) @ '')'' else []) @ [CHR 0x0A]"

fun event_lines :: "(gotime \<Rightarrow> string) \<Rightarrow> (gotime \<Rightarrow> string) \<Rightarrow> string \<Rightarrow> event list \<Rightarrow> string" where
  "event_lines day_of clock day [] = []"
| "event_lines day_of clock day (e # es) =
     (let d = day_of (event_time e)
      in (if d \<noteq> day then [CHR 0x0A] @ d @ [CHR 0x0A] else []) @ event_line clock e @ event_lines day_of clock d es)"

definition render_story :: "(gotime \<Rightarrow> string) \<Rightarrow> (gotime \<Rightarrow> string) \<Rightarrow> story \<Rightarrow> string" where
  "render_story day_of clock s =
     ''The story of '' @ Title s @ [CHR 0x0A]
     @ (if Homes s \<noteq> [] then ''Lived on: '' @ join '', '' (Homes s) @ [CHR 0x0A] else [])
     @ (if Events s = [] then [CHR 0x0A] @ ''Nothing happened to it that I remember. Quiet life.'' @ [CHR 0x0A]
        else event_lines day_of clock [] (Events s))"

definition runRemember ::
    "(gotime \<Rightarrow> string) \<Rightarrow> (gotime \<Rightarrow> string) \<Rightarrow> (string \<Rightarrow> string \<Rightarrow> story_reads) \<Rightarrow> string \<Rightarrow> string \<Rightarrow> (string + api_error) + string" where
  "runRemember day_of clock reads ns target =
     (case cut (CHR ''/'') target of (kind, name, ok) \<Rightarrow>
        if \<not> ok then Inl (Inl ''I need TYPE/NAME, for example deploy/api'')
        else case collectStory (reads (normalizeKind kind) name) ns (normalizeKind kind) name of
               Inl e \<Rightarrow> Inl (Inr e)
             | Inr s \<Rightarrow> Inr (render_story day_of clock s))"

section \<open>What a story holds\<close>

inductive descends_from :: "string list \<Rightarrow> owned_object list \<Rightarrow> string \<Rightarrow> bool" for roots os where
  root: "u \<in> set roots \<Longrightarrow> descends_from roots os u"
| owned: "b \<in> set os \<Longrightarrow> r \<in> set (OwnedBy b) \<Longrightarrow> descends_from roots os r \<Longrightarrow> descends_from roots os (OwnedUID b)"

lemma adopt_Nil: "adopt uids [] = uids"
  and adopt_Cons: "adopt uids (b # os) =
    adopt (if list_ex (\<lambda>r. r \<in> set uids) (OwnedBy b) then OwnedUID b # uids else uids) os"
  by (simp_all add: adopt_def)

lemma adopt_sound:
  "\<forall>u \<in> set uids. descends_from roots all u \<Longrightarrow> set os \<subseteq> set all \<Longrightarrow> \<forall>u \<in> set (adopt uids os). descends_from roots all u"
proof (induction os arbitrary: uids)
  case Nil
  then show ?case by (simp add: adopt_Nil)
next
  case (Cons b os)
  have os: "set os \<subseteq> set all" using Cons.prems(2) by simp
  show ?case
  proof (cases "list_ex (\<lambda>r. r \<in> set uids) (OwnedBy b)")
    case True
    then obtain r where r: "r \<in> set (OwnedBy b)" "r \<in> set uids" unfolding list_ex_iff by blast
    have "b \<in> set all" using Cons.prems(2) by simp
    then have "descends_from roots all (OwnedUID b)"
      by (rule descends_from.owned [OF _ r(1) bspec [OF Cons.prems(1) r(2)]])
    then have "\<forall>u \<in> set (OwnedUID b # uids). descends_from roots all u" using Cons.prems(1) by auto
    then show ?thesis unfolding adopt_Cons if_P [OF True] using os by (rule Cons.IH)
  next
    case False
    show ?thesis unfolding adopt_Cons if_not_P [OF False] using Cons.prems(1) os by (rule Cons.IH)
  qed
qed

lemma adopt_keeps: "set uids \<subseteq> set (adopt uids os)"
proof (induction os arbitrary: uids)
  case (Cons b os)
  show ?case
    unfolding adopt_Cons using Cons.IH [of uids] Cons.IH [of "OwnedUID b # uids"] by auto
qed (simp add: adopt_Nil)

lemma adopt_owned: "b \<in> set os \<Longrightarrow> r \<in> set (OwnedBy b) \<Longrightarrow> r \<in> set uids \<Longrightarrow> OwnedUID b \<in> set (adopt uids os)"
proof (induction os arbitrary: uids)
  case (Cons a os)
  show ?case
  proof (cases "a = b")
    case True
    then have "list_ex (\<lambda>r. r \<in> set uids) (OwnedBy a)" using Cons.prems by (auto simp: list_ex_iff)
    then show ?thesis unfolding adopt_Cons using adopt_keeps [of "OwnedUID a # uids" os] True by simp
  next
    case False
    then show ?thesis
      unfolding adopt_Cons using Cons.IH [of uids] Cons.IH [of "OwnedUID a # uids"] Cons.prems by simp
  qed
qed simp

lemma read_pages_Inr: "read_pages ps = Inr xs \<Longrightarrow> x \<in> set xs \<longleftrightarrow> (\<exists>p. Inr p \<in> set ps \<and> x \<in> set p)"
proof (induction ps arbitrary: xs rule: read_pages.induct)
  case (3 ys ps)
  then show ?case by (auto split: sum.splits)
qed auto

lemma read_pages_Inl: "read_pages ps = Inl e \<Longrightarrow> Inl e \<in> set ps"
  by (induction ps rule: read_pages.induct) (auto split: sum.splits)

lemma descendant_events_Inr:
  "descendant_events kind name uids reads dks = Inr es \<Longrightarrow>
   e \<in> set es \<longleftrightarrow> (\<exists>dk \<in> set dks. \<exists>p. Inr p \<in> set (KindEvents reads dk) \<and> e \<in> set p \<and> about_descendant kind name uids dk e)"
  by (induction dks arbitrary: es) (auto simp: read_pages_Inr split: sum.splits)

text \<open>The events of the lists that belong into the story of a workload.\<close>

definition belongs :: "string \<Rightarrow> string \<Rightarrow> string list \<Rightarrow> story_reads \<Rightarrow> event \<Rightarrow> bool" where
  "belongs kind name live reads e \<longleftrightarrow>
     (\<exists>p. Inr p \<in> set (OwnEvents reads) \<and> e \<in> set p \<and> EKind e = kind \<and> EName e = name)
     \<or> (\<exists>dk \<in> set (descendantKinds kind). \<exists>p. Inr p \<in> set (KindEvents reads dk) \<and> e \<in> set p
          \<and> EKind e = dk \<and> (EUID e \<in> set live \<or> Descends kind name dk (EName e)))"

definition live_roots :: "string \<Rightarrow> story_reads \<Rightarrow> string list" where
  "live_roots kind reads =
     (case GetObject reads of Inl e \<Rightarrow> [] | Inr b \<Rightarrow> if descendantKinds kind = [] then [] else [RemUID b])"

lemma collect_parts:
  assumes "collectStory reads ns kind name = Inr s"
  obtains gone homes live own es where
    "find_object kind name reads = Inr (gone, live_roots kind reads, homes)"
    "live_uids kind reads (live_roots kind reads) = Inr live" "read_pages (OwnEvents reads) = Inr own"
    "descendant_events kind name live reads (descendantKinds kind) = Inr es"
    "s = \<lparr>Title = story_title kind ns name gone, Homes = homes,
          Events = sort_key event_time (filter (about_object kind name) own @ es)\<rparr>"
    "gone \<longrightarrow> filter (about_object kind name) own @ es \<noteq> []"
proof -
  have r: "uids = live_roots kind reads" if "find_object kind name reads = Inr (gone, uids, homes)" for gone uids homes
    using that by (auto simp: find_object_def live_roots_def split: sum.splits if_splits)
  show ?thesis
    using assms that by (auto simp: collectStory_def Let_def dest: r split: sum.splits prod.splits if_splits)
qed

lemma story_events:
  assumes "collectStory reads ns kind name = Inr s"
  shows "\<exists>live. live_uids kind reads (live_roots kind reads) = Inr live \<and> (\<forall>e. e \<in> set (Events s) \<longleftrightarrow> belongs kind name live reads e)"
proof -
  obtain gone homes live own es where p: "live_uids kind reads (live_roots kind reads) = Inr live"
    "read_pages (OwnEvents reads) = Inr own" "descendant_events kind name live reads (descendantKinds kind) = Inr es"
    and s: "s = \<lparr>Title = story_title kind ns name gone, Homes = homes,
          Events = sort_key event_time (filter (about_object kind name) own @ es)\<rparr>"
    by (rule collect_parts [OF assms])
  have "e \<in> set (Events s) \<longleftrightarrow> belongs kind name live reads e" for e
    unfolding s belongs_def
    by (auto simp: about_object_def about_descendant_def read_pages_Inr [OF p(2)] descendant_events_Inr [OF p(3)])
  then show ?thesis using p(1) by blast
qed

definition listed :: "'a list api list \<Rightarrow> 'a list" where
  "listed ps = concat (map (\<lambda>p. case p of Inl _ \<Rightarrow> [] | Inr xs \<Rightarrow> xs) ps)"

lemma read_pages_listed: "read_pages ps = Inr xs \<Longrightarrow> xs = listed ps"
  by (induction ps arbitrary: xs rule: read_pages.induct) (auto simp: listed_def split: sum.splits)

lemma live_sound:
  assumes "live_uids kind reads roots = Inr live" and "u \<in> set live"
  shows "descends_from roots (listed (ReplicaSetPages reads) @ listed (PodPages reads)) u"
proof (cases "descendantKinds kind = []")
  case True
  then show ?thesis using assms by (auto simp: live_uids_def intro: descends_from.root)
next
  case False
  let ?all = "listed (ReplicaSetPages reads) @ listed (PodPages reads)"
  obtain rss pods where rss: "rss = (if kind = ''Deployment'' then listed (ReplicaSetPages reads) else [])"
    and pods: "pods = listed (PodPages reads)" and live: "live = adopt (adopt roots rss) pods"
    using assms(1) False
    by (auto simp: live_uids_def addLiveDescendants_def dest!: read_pages_listed split: sum.splits if_splits)
  have "\<forall>u \<in> set roots. descends_from roots ?all u" by (auto intro: descends_from.root)
  then have "\<forall>u \<in> set (adopt roots rss). descends_from roots ?all u"
    by (rule adopt_sound) (auto simp: rss split: if_splits)
  then have "\<forall>u \<in> set (adopt (adopt roots rss) pods). descends_from roots ?all u"
    by (rule adopt_sound) (simp add: pods)
  then show ?thesis using assms(2) live by blast
qed

lemma sort_key_Nil: "sort_key f xs = [] \<longleftrightarrow> xs = []"
  by (metis set_empty set_sort)

text \<open>
  The story of a workload is all of it and nothing else: its events, in the order
  they happened, are exactly the events about the object itself, about objects its owner
  references lead to, and about gone objects whose names its controller would generate; the
  owner references are those of the listed ReplicaSets and pods, starting at the object; and
  a workload that is gone has a story only when an event of it is left.
\<close>

theorem remember_tells_the_story:
  assumes "collectStory reads ns kind name = Inr s"
  shows "sorted (map event_time (Events s))
    \<and> (\<exists>live. live_uids kind reads (live_roots kind reads) = Inr live
        \<and> (\<forall>e. e \<in> set (Events s) \<longleftrightarrow> belongs kind name live reads e)
        \<and> (\<forall>u \<in> set live. descends_from (live_roots kind reads) (listed (ReplicaSetPages reads) @ listed (PodPages reads)) u))
    \<and> (GetObject reads = Inl NotFound \<longrightarrow> descendantKinds kind \<noteq> [] \<longrightarrow> Events s \<noteq> [])"
proof (intro conjI)
  obtain gone homes live own es where p: "find_object kind name reads = Inr (gone, live_roots kind reads, homes)"
    and "live_uids kind reads (live_roots kind reads) = Inr live" "read_pages (OwnEvents reads) = Inr own"
      "descendant_events kind name live reads (descendantKinds kind) = Inr es"
    and s: "s = \<lparr>Title = story_title kind ns name gone, Homes = homes,
          Events = sort_key event_time (filter (about_object kind name) own @ es)\<rparr>"
    and g: "gone \<longrightarrow> filter (about_object kind name) own @ es \<noteq> []"
    by (rule collect_parts [OF assms])
  show "sorted (map event_time (Events s))" by (simp add: s)
  show "GetObject reads = Inl NotFound \<longrightarrow> descendantKinds kind \<noteq> [] \<longrightarrow> Events s \<noteq> []"
  proof (intro impI)
    assume "GetObject reads = Inl NotFound" "descendantKinds kind \<noteq> []"
    then have gone using p by (simp add: find_object_def)
    then have "filter (about_object kind name) own @ es \<noteq> []" using g by blast
    then show "Events s \<noteq> []" unfolding s story.simps sort_key_Nil .
  qed
  show "\<exists>live. live_uids kind reads (live_roots kind reads) = Inr live
        \<and> (\<forall>e. e \<in> set (Events s) \<longleftrightarrow> belongs kind name live reads e)
        \<and> (\<forall>u \<in> set live. descends_from (live_roots kind reads) (listed (ReplicaSetPages reads) @ listed (PodPages reads)) u)"
    using story_events [OF assms] live_sound by blast
qed

text \<open>A Deployment that is gone, remembered from a pod of it; the pod of a namesake is not its own.\<close>

definition gone_event :: "string \<Rightarrow> gotime \<Rightarrow> event" where
  "gone_event name t =
     \<lparr>ENamespace = ''shop'', EKind = ''Pod'', EName = name, EUID = ''gone'', EType = ''Normal'', EReason = ''Killing'',
      EMessage = ''Stopping'', ECount = 1, ELastTimestamp = t, EEventTime = zero_time, EFirstTimestamp = t\<rparr>"

definition gone_reads :: story_reads where
  "gone_reads =
     \<lparr>GetObject = Inl NotFound, ReplicaSetPages = [Inr []], PodPages = [Inr [], Inr []], OwnEvents = [Inr []],
      KindEvents = (\<lambda>dk. if dk = ''Pod''
        then [Inr [gone_event ''api-7f9c8d6b5-x2kq4'' 20, gone_event ''api-gateway-7f9c8d6b5-x2kq4'' 5],
              Inr [gone_event ''api-7f9c8d6b5-z5kq4'' 10]] else [])\<rparr>"

lemma gone_story:
  "collectStory gone_reads ''shop'' ''Deployment'' ''api'' =
   Inr \<lparr>Title = ''Deployment shop/api (no longer here)'', Homes = [],
        Events = [gone_event ''api-7f9c8d6b5-z5kq4'' 10, gone_event ''api-7f9c8d6b5-x2kq4'' 20]\<rparr>"
  by code_simp

theorem remember_tells_the_story_witness:
  "\<exists>live. live_uids ''Deployment'' gone_reads [] = Inr live \<and> belongs ''Deployment'' ''api'' live gone_reads (gone_event ''api-7f9c8d6b5-x2kq4'' 20)
     \<and> \<not> belongs ''Deployment'' ''api'' live gone_reads (gone_event ''api-gateway-7f9c8d6b5-x2kq4'' 5)"
proof -
  have r: "live_roots ''Deployment'' gone_reads = []" by (simp add: live_roots_def gone_reads_def)
  let ?P = "\<lambda>live e. e \<in> set [gone_event ''api-7f9c8d6b5-z5kq4'' 10, gone_event ''api-7f9c8d6b5-x2kq4'' 20]
      \<longleftrightarrow> belongs ''Deployment'' ''api'' live gone_reads e"
  have "\<exists>live. live_uids ''Deployment'' gone_reads [] = Inr live \<and> (\<forall>e. ?P live e)"
    using remember_tells_the_story [OF gone_story] unfolding r story.simps by blast
  then obtain live where live: "live_uids ''Deployment'' gone_reads [] = Inr live" and e: "\<forall>e. ?P live e" by blast
  have "gone_event ''api-7f9c8d6b5-x2kq4'' 20 \<in> set [gone_event ''api-7f9c8d6b5-z5kq4'' 10, gone_event ''api-7f9c8d6b5-x2kq4'' 20]"
    by simp
  moreover have "gone_event ''api-gateway-7f9c8d6b5-x2kq4'' 5
      \<notin> set [gone_event ''api-7f9c8d6b5-z5kq4'' 10, gone_event ''api-7f9c8d6b5-x2kq4'' 20]"
    by (simp add: gone_event_def)
  ultimately show ?thesis using live e by blast
qed

end
