(* ===== verification/Immunity.thy ===== *)
theory Immunity
  imports Admission
begin

text \<open>
  \<open>admission/immunity/admission.go\<close>: the Immunity plugin. \<open>Antigens\<close> lists what the
  plugin does not accept in a pod, one value of the datatype \<open>antigen\<close> for each message
  the code formats (two messages are equal exactly when the values are); \<open>NewAntigens\<close>
  takes away those the old pod had, and \<open>Validate\<close> is the whole handler. Optional
  booleans and profiles of the API are options. \<open>strings.ToUpper\<close> is the parameter
  \<open>upper\<close>. \<open>toV1\<close>'s conversion is not modelled: an object that is not a pod is
  \<open>None\<close>. The lemmas show that \<open>Antigens\<close> is empty exactly on pods of the baseline
  profile, spelled out by \<open>baseline_pod\<close>.
\<close>

section \<open>Pods\<close>

datatype profile = Unconfined | OtherProfile string

record security =
  Privileged :: "bool option"
  AllowPrivilegeEscalation :: "bool option"
  CapabilitiesAdd :: "string list option"
  UnmaskedProcMount :: "bool option"
  Seccomp :: "profile option"
  AppArmor :: "profile option"
  HostProcess :: "bool option option"

record container =
  CName :: string
  ImageRef :: string
  HostPorts :: "int list"
  Security :: "security option"

record pod_security =
  PodSeccomp :: "profile option"
  PodAppArmor :: "profile option"
  PodHostProcess :: "bool option option"

record volume =
  VolName :: string
  HasHostPath :: bool

record ipod =
  Annotations :: strmap
  HostNetwork :: bool
  HostPID :: bool
  HostIPC :: bool
  Volumes :: "volume list"
  PodSecurity :: "pod_security option"
  InitContainers :: "container list"
  Containers :: "container list"
  EphemeralContainers :: "container list"

section \<open>Antigens\<close>

datatype kind = InitContainer | RegularContainer | EphemeralContainer

datatype antigen =
    HostNet | HostPid | HostIpc
  | HostPathVolume string
  | PodSeccompOff | PodAppArmorOff | PodWindowsHost
  | BindsHostPort kind string int
  | AppArmorAnnotationOff kind string
  | Unpinned kind string string
  | IsPrivileged kind string
  | AllowsEscalation kind string
  | AddsCapability kind string string
  | ProcUnmasked kind string
  | SeccompOff kind string
  | AppArmorOff kind string
  | WindowsHost kind string

definition BaselineCapabilities :: "string list" where
  "BaselineCapabilities =
     [''AUDIT_WRITE'', ''CHOWN'', ''DAC_OVERRIDE'', ''FOWNER'', ''FSETID'', ''KILL'', ''MKNOD'',
      ''NET_BIND_SERVICE'', ''SETFCAP'', ''SETGID'', ''SETPCAP'', ''SETUID'', ''SYS_CHROOT'']"

definition SelfNamespaces :: "string list" where
  "SelfNamespaces = [''kube-system'', ''kube-public'', ''kube-node-lease'', ''local-path-storage'']"

definition apparmor_prefix :: string where
  "apparmor_prefix = ''container.apparmor.security.beta.kubernetes.io/''"

definition FloatingTag :: "string \<Rightarrow> bool" where
  "FloatingTag img =
     (if CHR 0x40 \<in> set img then False
      else let name = (case last_index (CHR ''/'') img of None \<Rightarrow> img | Some i \<Rightarrow> drop (Suc i) img)
           in case last_index (CHR '':'') name of
                None \<Rightarrow> True
              | Some i \<Rightarrow> drop (Suc i) name = ''latest'')"

definition host_process :: "bool option option \<Rightarrow> bool" where
  "host_process w \<longleftrightarrow> w = Some (Some True)"

definition capability_of :: "(string \<Rightarrow> string) \<Rightarrow> string \<Rightarrow> string" where
  "capability_of upper c = trim_prefix (upper c) ''CAP_''"

definition visit_security :: "(string \<Rightarrow> string) \<Rightarrow> kind \<Rightarrow> string \<Rightarrow> security \<Rightarrow> antigen list" where
  "visit_security upper k name sc =
     (if Privileged sc = Some True then [IsPrivileged k name] else [])
     @ (if AllowPrivilegeEscalation sc = Some True then [AllowsEscalation k name] else [])
     @ (case CapabilitiesAdd sc of
          None \<Rightarrow> []
        | Some cs \<Rightarrow>
            List.map_filter (\<lambda>c. let cap = capability_of upper c
               in if cap \<notin> set BaselineCapabilities then Some (AddsCapability k name cap) else None) cs)
     @ (if UnmaskedProcMount sc = Some True then [ProcUnmasked k name] else [])
     @ (if Seccomp sc = Some Unconfined then [SeccompOff k name] else [])
     @ (if AppArmor sc = Some Unconfined then [AppArmorOff k name] else [])
     @ (if host_process (HostProcess sc) then [WindowsHost k name] else [])"

definition visit :: "(string \<Rightarrow> string) \<Rightarrow> strmap \<Rightarrow> kind \<Rightarrow> container \<Rightarrow> antigen list" where
  "visit upper ann k c =
     map (BindsHostPort k (CName c)) (filter (\<lambda>p. p \<noteq> 0) (HostPorts c))
     @ (if lookup_str ann (apparmor_prefix @ CName c) = ''unconfined'' then [AppArmorAnnotationOff k (CName c)] else [])
     @ (if FloatingTag (ImageRef c) then [Unpinned k (CName c) (ImageRef c)] else [])
     @ (case Security c of None \<Rightarrow> [] | Some sc \<Rightarrow> visit_security upper k (CName c) sc)"

definition Antigens :: "(string \<Rightarrow> string) \<Rightarrow> ipod \<Rightarrow> antigen list" where
  "Antigens upper p =
     (if HostNetwork p then [HostNet] else [])
     @ (if HostPID p then [HostPid] else [])
     @ (if HostIPC p then [HostIpc] else [])
     @ map (\<lambda>v. HostPathVolume (VolName v)) (filter HasHostPath (Volumes p))
     @ (case PodSecurity p of
          None \<Rightarrow> []
        | Some psc \<Rightarrow>
            (if PodSeccomp psc = Some Unconfined then [PodSeccompOff] else [])
            @ (if PodAppArmor psc = Some Unconfined then [PodAppArmorOff] else [])
            @ (if host_process (PodHostProcess psc) then [PodWindowsHost] else []))
     @ concat (map (visit upper (Annotations p) InitContainer) (InitContainers p))
     @ concat (map (visit upper (Annotations p) RegularContainer) (Containers p))
     @ concat (map (visit upper (Annotations p) EphemeralContainer) (EphemeralContainers p))"

definition NewAntigens :: "(string \<Rightarrow> string) \<Rightarrow> ipod option \<Rightarrow> ipod \<Rightarrow> antigen list" where
  "NewAntigens upper old p =
     (case old of
        None \<Rightarrow> Antigens upper p
      | Some q \<Rightarrow> filter (\<lambda>a. a \<notin> set (Antigens upper q)) (Antigens upper p))"

section \<open>The handler\<close>

definition isSelf :: "strmap ns_get \<Rightarrow> strmap ns_get option \<Rightarrow> string \<Rightarrow> api_error + bool" where
  "isSelf cache client ns =
     (if ns \<in> set SelfNamespaces then Inr True
      else case find_namespace cache client ns of
        Inl e \<Rightarrow> if e = NotFound then Inr False else Inl e
      | Inr labels \<Rightarrow> Inr (lookup_str labels SelfLabel = ''true''))"

datatype verdict =
    Allowed
  | NotReady
  | CannotTell api_error
  | Rejected "antigen list"

definition Validate ::
    "(string \<Rightarrow> string) \<Rightarrow> bool \<Rightarrow> strmap ns_get \<Rightarrow> strmap ns_get option \<Rightarrow> attributes
     \<Rightarrow> ipod option \<Rightarrow> ipod option \<Rightarrow> verdict" where
  "Validate upper ready cache client a obj old =
     (if GroupResource a \<noteq> pods_resource then Allowed
      else if Subresource a \<noteq> [] \<and> Subresource a \<noteq> ''ephemeralcontainers'' then Allowed
      else if Subresource a = ''ephemeralcontainers'' \<and> Operation a \<noteq> OpUpdate then Allowed
      else case obj of
        None \<Rightarrow> Allowed
      | Some p \<Rightarrow>
          if Operation a = OpUpdate \<and> old = None then Allowed
          else (let antigens = NewAntigens upper (if Operation a = OpUpdate then old else None) p
                in if antigens = [] then Allowed
                   else if \<not> ready then NotReady
                   else case isSelf cache client (AttrNamespace a) of
                     Inl e \<Rightarrow> CannotTell e
                   | Inr True \<Rightarrow> Allowed
                   | Inr False \<Rightarrow> Rejected antigens))"

section \<open>The baseline profile\<close>

text \<open>What Pod Security's baseline asks of each container and of the pod, spelled out.\<close>

definition pinned_image :: "string \<Rightarrow> bool" where
  "pinned_image img \<longleftrightarrow>
     CHR 0x40 \<in> set img
     \<or> (\<exists>repo name tag. img = repo @ name @ CHR '':'' # tag \<and> CHR '':'' \<notin> set tag
          \<and> CHR ''/'' \<notin> set (name @ CHR '':'' # tag) \<and> (repo = [] \<or> last repo = CHR ''/'')
          \<and> tag \<noteq> ''latest'')"

definition baseline_security :: "(string \<Rightarrow> string) \<Rightarrow> security \<Rightarrow> bool" where
  "baseline_security upper sc \<longleftrightarrow>
     Privileged sc \<noteq> Some True \<and> AllowPrivilegeEscalation sc \<noteq> Some True
     \<and> (\<forall>cs. CapabilitiesAdd sc = Some cs \<longrightarrow> (\<forall>c \<in> set cs. capability_of upper c \<in> set BaselineCapabilities))
     \<and> UnmaskedProcMount sc \<noteq> Some True \<and> Seccomp sc \<noteq> Some Unconfined \<and> AppArmor sc \<noteq> Some Unconfined
     \<and> HostProcess sc \<noteq> Some (Some True)"

definition baseline_container :: "(string \<Rightarrow> string) \<Rightarrow> strmap \<Rightarrow> container \<Rightarrow> bool" where
  "baseline_container upper ann c \<longleftrightarrow>
     (\<forall>p \<in> set (HostPorts c). p = 0) \<and> ann (apparmor_prefix @ CName c) \<noteq> Some ''unconfined''
     \<and> pinned_image (ImageRef c) \<and> (\<forall>sc. Security c = Some sc \<longrightarrow> baseline_security upper sc)"

definition baseline_pod :: "(string \<Rightarrow> string) \<Rightarrow> ipod \<Rightarrow> bool" where
  "baseline_pod upper p \<longleftrightarrow>
     \<not> HostNetwork p \<and> \<not> HostPID p \<and> \<not> HostIPC p \<and> (\<forall>v \<in> set (Volumes p). \<not> HasHostPath v)
     \<and> (\<forall>psc. PodSecurity p = Some psc \<longrightarrow> PodSeccomp psc \<noteq> Some Unconfined
           \<and> PodAppArmor psc \<noteq> Some Unconfined \<and> PodHostProcess psc \<noteq> Some (Some True))
     \<and> (\<forall>c \<in> set (InitContainers p) \<union> set (Containers p) \<union> set (EphemeralContainers p).
           baseline_container upper (Annotations p) c)"

section \<open>Lemmas\<close>

lemma last_index_None: "last_index c s = None \<longleftrightarrow> c \<notin> set s"
  by (induction c s rule: last_index.induct) (auto split: option.splits)

lemma last_index_Some:
  "last_index c s = Some i \<Longrightarrow> s = take i s @ c # drop (Suc i) s \<and> c \<notin> set (drop (Suc i) s)"
proof (induction s arbitrary: i)
  case (Cons x s)
  then show ?case by (cases "last_index c s") (auto simp: last_index_None split: if_splits)
qed simp

lemma last_sep_unique:
  "m @ c # t = m' @ c # t' \<Longrightarrow> c \<notin> set t \<Longrightarrow> c \<notin> set t' \<Longrightarrow> m = m' \<and> t = t'"
  by (auto simp: append_eq_append_conv2 append_eq_Cons_conv Cons_eq_append_conv)

text \<open>The path before the last slash and the last segment of a reference.\<close>

definition segments :: "string \<Rightarrow> string \<Rightarrow> string \<Rightarrow> bool" where
  "segments img repo name \<longleftrightarrow>
     img = repo @ name \<and> CHR ''/'' \<notin> set name \<and> (repo = [] \<or> last repo = CHR ''/'')"

lemma segments_unique: "segments img r n \<Longrightarrow> segments img r' n' \<Longrightarrow> r = r' \<and> n = n'"
proof -
  have l: "CHR ''/'' \<notin> set xs \<Longrightarrow> last xs = CHR ''/'' \<Longrightarrow> xs = []" for xs :: string
    using last_in_set [of xs] by auto
  show "segments img r n \<Longrightarrow> segments img r' n' \<Longrightarrow> r = r' \<and> n = n'"
    by (auto simp: segments_def append_eq_append_conv2 last_append split: if_splits dest: l)
qed

lemma segments_last:
  "segments img (take (length img - length name) img) name"
  if "name = (case last_index (CHR ''/'') img of None \<Rightarrow> img | Some i \<Rightarrow> drop (Suc i) img)"
proof (cases "last_index (CHR ''/'') img")
  case None
  then have "CHR ''/'' \<notin> set img" by (simp add: last_index_None)
  then show ?thesis using that None by (simp add: segments_def)
next
  case (Some i)
  let ?t = "drop (Suc i) img"
  have s: "img = (take i img @ [CHR ''/'']) @ ?t" "CHR ''/'' \<notin> set ?t" using last_index_Some [OF Some] by simp_all
  then have "take (length img - length ?t) img = take i img @ [CHR ''/'']"
    by (metis append_eq_conv_conj append_take_drop_id length_append diff_add_inverse2)
  then show ?thesis using that Some s by (simp add: segments_def)
qed

lemma pinned_segments:
  "segments img repo name \<Longrightarrow> CHR 0x40 \<notin> set img \<Longrightarrow>
   pinned_image img \<longleftrightarrow> (\<exists>m tag. name = m @ CHR '':'' # tag \<and> CHR '':'' \<notin> set tag \<and> tag \<noteq> ''latest'')"
proof
  assume seg: "segments img repo name" and no: "CHR 0x40 \<notin> set img" and "pinned_image img"
  then obtain r m t where p: "segments img r (m @ CHR '':'' # t)" "CHR '':'' \<notin> set t" "t \<noteq> ''latest''"
    unfolding pinned_image_def segments_def by blast
  have "name = m @ CHR '':'' # t" using segments_unique [OF seg p(1)] by simp
  then show "\<exists>m tag. name = m @ CHR '':'' # tag \<and> CHR '':'' \<notin> set tag \<and> tag \<noteq> ''latest''"
    using p by blast
next
  assume "segments img repo name" "\<exists>m tag. name = m @ CHR '':'' # tag \<and> CHR '':'' \<notin> set tag \<and> tag \<noteq> ''latest''"
  then show "pinned_image img" unfolding pinned_image_def segments_def by blast
qed

lemma FloatingTag_iff: "FloatingTag img \<longleftrightarrow> \<not> pinned_image img"
proof (cases "CHR 0x40 \<in> set img")
  case False
  define name where "name = (case last_index (CHR ''/'') img of None \<Rightarrow> img | Some i \<Rightarrow> drop (Suc i) img)"
  note pinned = pinned_segments [OF segments_last [OF name_def] False]
  have float: "FloatingTag img = (case last_index (CHR '':'') name of None \<Rightarrow> True | Some i \<Rightarrow> drop (Suc i) name = ''latest'')"
    using False by (simp add: FloatingTag_def Let_def flip: name_def)
  show ?thesis
  proof (cases "last_index (CHR '':'') name")
    case None
    then have "CHR '':'' \<notin> set name" by (simp add: last_index_None)
    then show ?thesis using None float pinned by auto
  next
    case (Some i)
    note n = last_index_Some [OF Some]
    have "(\<exists>m tag. name = m @ CHR '':'' # tag \<and> CHR '':'' \<notin> set tag \<and> tag \<noteq> ''latest'')
        \<longleftrightarrow> drop (Suc i) name \<noteq> ''latest''"
      using n last_sep_unique by metis
    then show ?thesis using Some float pinned by simp
  qed
qed (simp add: FloatingTag_def pinned_image_def)

lemma visit_security_Nil: "visit_security upper k name sc = [] \<longleftrightarrow> baseline_security upper sc"
  by (auto simp: visit_security_def baseline_security_def host_process_def map_filter_Nil Let_def split: option.splits)

lemma visit_Nil: "visit upper ann k c = [] \<longleftrightarrow> baseline_container upper ann c"
  by (auto simp: visit_def baseline_container_def FloatingTag_iff visit_security_Nil lookup_str_def
      filter_empty_conv split: option.splits)

lemma Antigens_Nil: "Antigens upper p = [] \<longleftrightarrow> baseline_pod upper p"
  by (auto simp: Antigens_def baseline_pod_def visit_Nil host_process_def filter_empty_conv split: option.splits)

lemma NewAntigens_create: "NewAntigens upper None p = Antigens upper p"
  by (simp add: NewAntigens_def)

lemma NewAntigens_update: "set (NewAntigens upper (Some q) p) = set (Antigens upper p) - set (Antigens upper q)"
  by (auto simp: NewAntigens_def)

lemma Validate_pods:
  "GroupResource a = pods_resource \<Longrightarrow> Subresource a = [] \<or> Subresource a = ''ephemeralcontainers'' \<and> Operation a = OpUpdate \<Longrightarrow>
   Operation a = OpUpdate \<longrightarrow> old \<noteq> None \<Longrightarrow>
   Validate upper ready cache client a (Some p) old = Allowed \<longleftrightarrow>
     NewAntigens upper (if Operation a = OpUpdate then old else None) p = []
     \<or> ready \<and> isSelf cache client (AttrNamespace a) = Inr True"
  by (auto simp: Validate_def Let_def split: sum.splits bool.splits)

section \<open>Properties\<close>

text \<open>
  Claim C1. What gets in: a new pod is admitted exactly when it is within the baseline profile
  (no host namespaces, host paths or host ports, no privileged or escalating container, only
  baseline capabilities, nothing unconfined, every image pinned, in init, regular and ephemeral
  containers alike) or when its namespace is known to be self. A failing lookup or an informer
  that is not ready never admits a foreign pod.
\<close>

theorem immunity_admits_exactly:
  assumes "GroupResource a = pods_resource" and "Subresource a = []" and "Operation a = OpCreate"
  shows "Validate upper ready cache client a (Some p) old = Allowed
    \<longleftrightarrow> baseline_pod upper p \<or> ready \<and> isSelf cache client (AttrNamespace a) = Inr True"
  using Validate_pods [of a old upper ready cache client p] assms
  by (simp add: NewAntigens_create Antigens_Nil)

text \<open>Requests on pods, and a pod with one container.\<close>

definition pod_request :: "operation \<Rightarrow> string \<Rightarrow> string \<Rightarrow> attributes" where
  "pod_request opr sub ns = \<lparr>GroupResource = pods_resource, Subresource = sub, Operation = opr,
     AttrNamespace = ns, AttrName = ''p''\<rparr>"

definition plain_security :: security where
  "plain_security = \<lparr>Privileged = None, AllowPrivilegeEscalation = None, CapabilitiesAdd = None,
     UnmaskedProcMount = None, Seccomp = None, AppArmor = None, HostProcess = None\<rparr>"

definition one_container :: "string \<Rightarrow> security option \<Rightarrow> ipod" where
  "one_container img sc =
     \<lparr>Annotations = (\<lambda>_. None), HostNetwork = False, HostPID = False, HostIPC = False, Volumes = [],
      PodSecurity = None, InitContainers = [],
      Containers = [\<lparr>CName = ''app'', ImageRef = img, HostPorts = [], Security = sc\<rparr>],
      EphemeralContainers = []\<rparr>"

theorem immunity_admits_exactly_witness:
  "Validate to_upper True (\<lambda>_. Inl NotFound) None (pod_request OpCreate [] ''shop'')
     (Some (one_container ''registry:5000/app'' None)) None \<noteq> Allowed"
proof -
  have "Antigens to_upper (one_container ''registry:5000/app'' None) \<noteq> []" by code_simp
  moreover have "isSelf (\<lambda>_. Inl NotFound) None ''shop'' = Inr False" by code_simp
  ultimately show ?thesis
    using immunity_admits_exactly [of "pod_request OpCreate [] ''shop''"] Antigens_Nil
    by (simp add: pod_request_def)
qed

text \<open>
  No lockout: an update of a pod (its containers or its ephemeral containers) is
  admitted exactly when it introduces no antigen the old pod did not already carry, or the
  namespace is self. So a pod admitted before, or older than the plugin, can always be updated
  for unrelated reasons, even while namespaces cannot be looked up.
\<close>

theorem immunity_updates:
  assumes "GroupResource a = pods_resource" and "Operation a = OpUpdate"
    and "Subresource a = [] \<or> Subresource a = ''ephemeralcontainers''"
  shows "Validate upper ready cache client a (Some p) (Some q) = Allowed
    \<longleftrightarrow> set (Antigens upper p) \<subseteq> set (Antigens upper q) \<or> ready \<and> isSelf cache client (AttrNamespace a) = Inr True"
proof -
  have "NewAntigens upper (Some q) p = [] \<longleftrightarrow> set (Antigens upper p) \<subseteq> set (Antigens upper q)"
    using NewAntigens_update [of upper q p] by (metis Diff_eq_empty_iff set_empty)
  then show ?thesis using Validate_pods [of a "Some q" upper ready cache client p] assms by simp
qed

theorem immunity_updates_witness:
  "Validate to_upper False (\<lambda>_. Inl Conflict) None (pod_request OpUpdate [] ''shop'')
     (Some (one_container ''app'' (Some plain_security)))
     (Some (one_container ''app'' (Some (plain_security\<lparr>Privileged := Some True\<rparr>)))) = Allowed"
proof -
  have "set (Antigens to_upper (one_container ''app'' (Some plain_security)))
      \<subseteq> set (Antigens to_upper (one_container ''app'' (Some (plain_security\<lparr>Privileged := Some True\<rparr>))))"
    by code_simp
  then show ?thesis
    using immunity_updates [of "pod_request OpUpdate [] ''shop''"] by (simp add: pod_request_def)
qed

end
