(* ===== verification/Diagnose.thy ===== *)
theory Diagnose
  imports Immunity Kyvctl_Names Grouping "HOL-Library.Product_Lexorder"
begin

text \<open>
  \<open>kyvctl/diagnose.go\<close>: which workloads the Immunity plugin is rejecting, read from the
  messages of events, and the messages the plugin writes
  (\<open>admission/immunity/admission.go\<close>), so that the two ends of the protocol meet. Go's
  \<open>%q\<close> is the parameter \<open>quote\<close>; the order a map is visited in is \<open>arrange\<close>.
\<close>

section \<open>The plugin's messages\<close>

definition MessagePrefix :: string where "MessagePrefix = ''kyvernetria immunity''"

fun kind_text :: "kind \<Rightarrow> string" where
  "kind_text InitContainer = ''init container''"
| "kind_text RegularContainer = ''container''"
| "kind_text EphemeralContainer = ''ephemeral container''"

fun antigen_text :: "(string \<Rightarrow> string) \<Rightarrow> antigen \<Rightarrow> string" where
  "antigen_text quote HostNet = ''pod uses the host network''"
| "antigen_text quote HostPid = ''pod uses the host PID namespace''"
| "antigen_text quote HostIpc = ''pod uses the host IPC namespace''"
| "antigen_text quote (HostPathVolume v) = ''volume '' @ quote v @ '' mounts a host path''"
| "antigen_text quote PodSeccompOff = ''pod runs without a seccomp profile (Unconfined)''"
| "antigen_text quote PodAppArmorOff = ''pod runs without an AppArmor profile (Unconfined)''"
| "antigen_text quote PodWindowsHost = ''pod runs as a Windows host process''"
| "antigen_text quote (BindsHostPort k n p) = kind_text k @ '' '' @ quote n @ '' binds host port '' @ show_int p"
| "antigen_text quote (AppArmorAnnotationOff k n) =
     kind_text k @ '' '' @ quote n @ '' runs without an AppArmor profile (unconfined)''"
| "antigen_text quote (Unpinned k n img) =
     kind_text k @ '' '' @ quote n @ '' uses an unpinned image '' @ quote img @ '' (pin a tag other than latest, or a digest)''"
| "antigen_text quote (IsPrivileged k n) = kind_text k @ '' '' @ quote n @ '' is privileged''"
| "antigen_text quote (AllowsEscalation k n) = kind_text k @ '' '' @ quote n @ '' allows privilege escalation''"
| "antigen_text quote (AddsCapability k n c) = kind_text k @ '' '' @ quote n @ '' adds capability '' @ c"
| "antigen_text quote (ProcUnmasked k n) = kind_text k @ '' '' @ quote n @ '' mounts /proc unmasked''"
| "antigen_text quote (SeccompOff k n) = kind_text k @ '' '' @ quote n @ '' runs without a seccomp profile (Unconfined)''"
| "antigen_text quote (AppArmorOff k n) = kind_text k @ '' '' @ quote n @ '' runs without an AppArmor profile (Unconfined)''"
| "antigen_text quote (WindowsHost k n) = kind_text k @ '' '' @ quote n @ '' runs as a Windows host process''"

definition antigens_text :: "(string \<Rightarrow> string) \<Rightarrow> antigen list \<Rightarrow> string" where
  "antigens_text quote as = join ''; '' (map (antigen_text quote) as)"

definition rejection_text :: "(string \<Rightarrow> string) \<Rightarrow> antigen list \<Rightarrow> string \<Rightarrow> string" where
  "rejection_text quote as ns =
     MessagePrefix @ '': '' @ antigens_text quote as
     @ ''. If this is your own workload, mark its namespace as self: kubectl label namespace '' @ ns @ '' ''
     @ SelfLabel @ ''=true''"

section \<open>Rejections\<close>

record rejection =
  RjNamespace :: string
  RjObject :: string
  RjAntigens :: string
  RjCount :: int
  RjLikelySelf :: bool

definition infrastructure :: "string \<Rightarrow> bool" where
  "infrastructure ns \<longleftrightarrow> CHR 0x0A \<notin> set ns
     \<and> (list_ex (has_prefix ns)
          [''kube-'', ''ingress'', ''cilium'', ''calico'', ''tigera'', ''metallb'', ''longhorn'', ''rook'', ''piraeus'',
           ''linstor'', ''flux'', ''cozy-'', ''nvidia'']
        \<or> has_suffix ns ''-system''
        \<or> ns \<in> set [''monitoring'', ''observability'', ''logging'', ''cert-manager'', ''argocd'', ''gpu-operator''])"

definition own_workload :: string where "own_workload = ''. If this is your own workload''"

definition message_antigens :: "string \<Rightarrow> string option" where
  "message_antigens m =
     (case index_of (MessagePrefix @ '': '') m of
        None \<Rightarrow> None
      | Some i \<Rightarrow>
          (let antigens = drop (i + length MessagePrefix + 2) m
           in Some (case index_of own_workload antigens of Some j \<Rightarrow> take j antigens | None \<Rightarrow> antigens)))"

definition tells_rejection :: "(string \<Rightarrow> bool) \<Rightarrow> event \<Rightarrow> bool" where
  "tells_rejection self e \<longleftrightarrow> \<not> (message_antigens (EMessage e) = None \<or> self (ENamespace e))"

definition rejected_object :: "event \<Rightarrow> string" where
  "rejected_object e = to_lower (EKind e) @ ''/'' @ EName e"

definition rejection_key :: "event \<Rightarrow> string" where
  "rejection_key e = ENamespace e @ ''/'' @ rejected_object e"

definition new_rejection :: "event \<Rightarrow> rejection" where
  "new_rejection e =
     \<lparr>RjNamespace = ENamespace e, RjObject = rejected_object e,
      RjAntigens = (case message_antigens (EMessage e) of None \<Rightarrow> [] | Some a \<Rightarrow> a), RjCount = 0,
      RjLikelySelf = infrastructure (ENamespace e)\<rparr>"

definition add_rejection :: "rejection \<Rightarrow> event \<Rightarrow> rejection" where
  "add_rejection r e = r\<lparr>RjCount := i32 (RjCount r + (if ECount e < 1 then 1 else ECount e))\<rparr>"

definition Rejections ::
    "((string \<times> rejection) list \<Rightarrow> (string \<times> rejection) list) \<Rightarrow> event list \<Rightarrow> (string \<Rightarrow> bool) \<Rightarrow> rejection list" where
  "Rejections arrange events self =
     sort_key (\<lambda>r. (\<not> RjLikelySelf r, RjNamespace r @ RjObject r))
       (map snd (arrange (foldl (\<lambda>groups e. if tells_rejection self e then group_step rejection_key new_rejection add_rejection groups e
                                   else groups) [] events)))"

definition renderAutoimmune :: "rejection list \<Rightarrow> string" where
  "renderAutoimmune rs =
     (let nl = [CHR 0x0A] in
      if rs = [] then ''No autoimmune activity: the immune system isn'' @ [CHR 0x27] @ ''t rejecting anything right now.'' @ nl
      else
        let fixes = sort (remdups (map RjNamespace (filter RjLikelySelf rs)))
        in ''The immune system is rejecting '' @ plural (int (length rs)) ''workload'' @ ''; ''
           @ show_nat (length (filter RjLikelySelf rs)) @ '' look like your own tissue.'' @ nl
           @ concat (map (\<lambda>r. nl @ ''  '' @ RjNamespace r @ ''/'' @ RjObject r @ ''  x'' @ show_int (RjCount r) @ ''  ''
               @ (if RjLikelySelf r then ''probably self (autoimmune)'' else ''foreign?'') @ nl @ ''    '' @ RjAntigens r @ nl) rs)
           @ (if fixes = [] then []
              else nl @ ''To restore tolerance for what is yours:'' @ nl
                @ concat (map (\<lambda>ns. ''  kyvctl label namespace '' @ ns @ '' '' @ SelfLabel @ ''=true'' @ nl) fixes)))"

section \<open>What is written is what is read\<close>

lemma has_prefix_short: "has_prefix (p @ q) s \<Longrightarrow> length s \<le> length p \<Longrightarrow> has_prefix p s"
  by (simp add: has_prefix_def)

lemma index_of_first:
  assumes "sub \<noteq> []" and "\<not> contains (a @ butlast sub) sub"
  shows "index_of sub (a @ sub @ b) = Some (length a)"
  using assms(2)
proof (induction a)
  case Nil
  obtain c cs where sub: "sub = c # cs" using assms(1) by (cases sub) auto
  then show ?case using has_prefix_append [of sub b] by (simp add: sub)
next
  case (Cons x a)
  have n: "index_of sub (x # a @ butlast sub) = None" using Cons.prems by (simp add: contains_def)
  have "\<not> has_prefix (x # a @ sub @ b) sub"
  proof
    assume "has_prefix (x # a @ sub @ b) sub"
    moreover have "x # a @ sub @ b = (x # a @ butlast sub) @ (last sub # b)" using assms(1) by simp
    moreover have "length sub \<le> length (x # a @ butlast sub)" using assms(1) by (simp add: Suc_leI)
    ultimately have "has_prefix (x # a @ butlast sub) sub" using has_prefix_short by metis
    then show False using n by simp
  qed
  moreover have "\<not> contains (a @ butlast sub) sub" using n by (auto simp: contains_def split: if_splits)
  ultimately show ?case using Cons.IH by simp
qed

lemma read_back:
  assumes "\<not> contains (pre @ butlast (MessagePrefix @ '': '')) (MessagePrefix @ '': '')"
    and "\<not> contains (antigens_text quote as @ butlast own_workload) own_workload"
  shows "message_antigens (pre @ rejection_text quote as ns @ post) = Some (antigens_text quote as)"
proof -
  let ?p = "MessagePrefix @ '': ''" and ?a = "antigens_text quote as"
  define rest where "rest = '', mark its namespace as self: kubectl label namespace '' @ ns @ '' '' @ SelfLabel @ ''=true'' @ post"
  have m: "pre @ rejection_text quote as ns @ post = pre @ ?p @ ?a @ own_workload @ rest"
    by (simp add: rejection_text_def own_workload_def rest_def)
  have "index_of ?p (pre @ ?p @ ?a @ own_workload @ rest) = Some (length pre)"
    by (rule index_of_first [OF _ assms(1)]) (simp add: MessagePrefix_def)
  moreover have "drop (length pre + length MessagePrefix + 2) (pre @ ?p @ ?a @ own_workload @ rest) = ?a @ own_workload @ rest"
    by simp
  moreover have "index_of own_workload (?a @ own_workload @ rest) = Some (length ?a)"
    by (rule index_of_first [OF _ assms(2)]) (simp add: own_workload_def)
  ultimately show ?thesis unfolding m message_antigens_def Let_def by simp
qed

lemma Rejections_fold:
  "foldl (\<lambda>groups e. if tells_rejection self e then group_step rejection_key new_rejection add_rejection groups e else groups) [] events
   = group_fold rejection_key new_rejection add_rejection (filter (tells_rejection self) events)"
  by (induction events rule: rev_induct) (simp_all add: group_fold_def)

lemma group_rejection:
  "group_value new_rejection add_rejection es =
   (new_rejection (hd es))\<lparr>RjCount := i32 (sum_list (map (\<lambda>e. if ECount e < 1 then 1 else ECount e) es))\<rparr>"
proof -
  have "foldl add_rejection (r\<lparr>RjCount := i32 n\<rparr>) es =
      r\<lparr>RjCount := i32 (n + sum_list (map (\<lambda>e. if ECount e < 1 then 1 else ECount e) es))\<rparr>" for r n
    by (induction es arbitrary: n) (simp_all add: add_rejection_def i32_add_left add.assoc)
  from this [of 0 "new_rejection (hd es)"] show ?thesis
    by (simp add: group_value_def new_rejection_def i32_id in_i32_def)
qed

text \<open>
  What the immune system writes, the diagnosis reads: an event that carries the
  plugin's rejection of a workload of a namespace not marked as self, wrapped in whatever the
  API server and the controllers put around it, makes that workload a rejection of the
  report, with exactly the antigens the plugin named when it is the first such event of the
  workload, counted over all its events; and only workloads with such events are reported.
\<close>

theorem diagnose_reads_rejections:
  assumes "\<forall>m. mset (arrange m) = mset m"
    and "events = before @ e # later" and "\<forall>d \<in> set before. tells_rejection self d \<longrightarrow> rejection_key d \<noteq> rejection_key e"
    and "EMessage e = pre @ rejection_text quote as ns @ post" and "\<not> self (ENamespace e)"
    and "\<not> contains (pre @ butlast (MessagePrefix @ '': '')) (MessagePrefix @ '': '')"
    and "\<not> contains (antigens_text quote as @ butlast own_workload) own_workload"
  shows "\<lparr>RjNamespace = ENamespace e, RjObject = rejected_object e, RjAntigens = antigens_text quote as,
      RjCount = i32 (sum_list (map (\<lambda>d. if ECount d < 1 then 1 else ECount d)
                  (filter (\<lambda>d. tells_rejection self d \<and> rejection_key d = rejection_key e) events))),
      RjLikelySelf = infrastructure (ENamespace e)\<rparr> \<in> set (Rejections arrange events self)
    \<and> (\<forall>r \<in> set (Rejections arrange events self). \<exists>d \<in> set events. tells_rejection self d
      \<and> RjNamespace r = ENamespace d \<and> RjObject r = rejected_object d)"
proof (rule conjI)
  let ?es = "filter (tells_rejection self) events"
  let ?g = "\<lambda>k. group_value new_rejection add_rejection (filter (\<lambda>d. rejection_key d = k) ?es)"
  let ?groups = "group_fold rejection_key new_rejection add_rejection ?es"
  have "set (arrange m) = set m" for m using assms(1) by (metis set_mset_mset)
  then have "set (Rejections arrange events self) = set (map snd ?groups)"
    unfolding Rejections_def Rejections_fold by simp
  also have "\<dots> = ?g ` set (map fst ?groups)" by (subst group_fold_values) (simp only: set_map)
  finally have out: "set (Rejections arrange events self) = ?g ` rejection_key ` set ?es"
    unfolding group_fold_keys .
  have a: "message_antigens (EMessage e) = Some (antigens_text quote as)"
    using read_back [OF assms(6,7)] assms(4) by simp
  have t: "tells_rejection self e" using a assms(5) by (simp add: tells_rejection_def)
  have f: "filter (\<lambda>d. rejection_key d = rejection_key e) ?es =
      filter (\<lambda>d. tells_rejection self d \<and> rejection_key d = rejection_key e) events"
    by (simp add: conj_commute)
  have "hd (filter (\<lambda>d. tells_rejection self d \<and> rejection_key d = rejection_key e) events) = e"
  proof -
    have "filter (\<lambda>d. tells_rejection self d \<and> rejection_key d = rejection_key e) before = []"
      using assms(3) by (simp add: filter_empty_conv)
    then show ?thesis using assms(2) t by simp
  qed
  then have v: "?g (rejection_key e) = \<lparr>RjNamespace = ENamespace e, RjObject = rejected_object e, RjAntigens = antigens_text quote as,
      RjCount = i32 (sum_list (map (\<lambda>d. if ECount d < 1 then 1 else ECount d)
                  (filter (\<lambda>d. tells_rejection self d \<and> rejection_key d = rejection_key e) events))),
      RjLikelySelf = infrastructure (ENamespace e)\<rparr>"
    unfolding f group_rejection by (simp add: new_rejection_def a)
  have "e \<in> set ?es" using assms(2) t by simp
  then have "?g (rejection_key e) \<in> set (Rejections arrange events self)" unfolding out by (intro imageI)
  then show "\<lparr>RjNamespace = ENamespace e, RjObject = rejected_object e, RjAntigens = antigens_text quote as,
      RjCount = i32 (sum_list (map (\<lambda>d. if ECount d < 1 then 1 else ECount d)
                  (filter (\<lambda>d. tells_rejection self d \<and> rejection_key d = rejection_key e) events))),
      RjLikelySelf = infrastructure (ENamespace e)\<rparr> \<in> set (Rejections arrange events self)"
    unfolding v .
  show "\<forall>r \<in> set (Rejections arrange events self). \<exists>d \<in> set events. tells_rejection self d
      \<and> RjNamespace r = ENamespace d \<and> RjObject r = rejected_object d"
  proof
    fix r assume "r \<in> set (Rejections arrange events self)"
    then obtain d0 where d0: "d0 \<in> set ?es" "r = ?g (rejection_key d0)" unfolding out by blast
    define ds where "ds = filter (\<lambda>d. rejection_key d = rejection_key d0) ?es"
    have "ds \<noteq> []" using d0(1) by (auto simp: ds_def filter_empty_conv)
    then have "hd ds \<in> set ds" by simp
    then have "hd ds \<in> set events" "tells_rejection self (hd ds)" by (auto simp: ds_def)
    then show "\<exists>d \<in> set events. tells_rejection self d \<and> RjNamespace r = ENamespace d \<and> RjObject r = rejected_object d"
      using d0(2) [folded ds_def, unfolded group_rejection]
      by (intro bexI [of _ "hd ds"]) (simp_all add: new_rejection_def)
  qed
qed


text \<open>A privileged pod of an infrastructure namespace, refused while its ReplicaSet retries.\<close>

definition refused_event :: event where
  "refused_event =
     \<lparr>ENamespace = ''kube-ovn'', EKind = ''ReplicaSet'', EName = ''ovn-6f9c8d6b5'', EUID = ''u'', EType = ''Warning'',
      EReason = ''FailedCreate'',
      EMessage = ''Error creating: pods is forbidden: ''
        @ rejection_text (\<lambda>n. n) [HostNet, IsPrivileged RegularContainer ''ovn''] ''kube-ovn'' @ [],
      ECount = 4, ELastTimestamp = 9, EEventTime = zero_time, EFirstTimestamp = 9\<rparr>"

theorem diagnose_reads_rejections_witness:
  "\<exists>r \<in> set (Rejections rev [refused_event] (\<lambda>_. False)).
     RjAntigens r = ''pod uses the host network; container ovn is privileged'' \<and> RjCount r = 4 \<and> RjLikelySelf r"
proof -
  have p: "\<forall>m :: (string \<times> rejection) list. mset (rev m) = mset m" by simp
  have m: "EMessage refused_event = ''Error creating: pods is forbidden: ''
        @ rejection_text (\<lambda>n. n) [HostNet, IsPrivileged RegularContainer ''ovn''] ''kube-ovn'' @ []"
    by (simp add: refused_event_def)
  have c1: "\<not> contains (''Error creating: pods is forbidden: '' @ butlast (MessagePrefix @ '': '')) (MessagePrefix @ '': '')"
    by code_simp
  have c2: "\<not> contains (antigens_text (\<lambda>n. n) [HostNet, IsPrivileged RegularContainer ''ovn''] @ butlast own_workload) own_workload"
    by code_simp
  have t: "antigens_text (\<lambda>n. n) [HostNet, IsPrivileged RegularContainer ''ovn''] = ''pod uses the host network; container ovn is privileged''"
    by code_simp
  have n: "i32 (sum_list (map (\<lambda>d. if ECount d < 1 then 1 else ECount d)
      (filter (\<lambda>d. tells_rejection (\<lambda>_. False) d \<and> rejection_key d = rejection_key refused_event) [refused_event]))) = 4"
    by code_simp
  have l: "infrastructure (ENamespace refused_event)" by code_simp
  have "[refused_event] = [] @ refused_event # []" by simp
  note r = diagnose_reads_rejections [OF p this _ m _ c1 c2, of "\<lambda>_. False", THEN conjunct1]
  show ?thesis by (rule bexI [OF _ r]) (simp_all only: rejection.simps n l t not_False_eq_True list.set ball_empty)
qed

end
