(* ===== verification/Mosaic.thy ===== *)
theory Mosaic
  imports Kyvctl_Names "HOL-Library.Product_Lexorder" "HOL-Library.Multiset"
begin

text \<open>
  \<open>kyvctl/mosaic.go\<close>: which allele each control-plane node expresses, from the versions
  the apiservers answer with. Parsing a version (\<open>version.ParseGeneric\<close>) is the parameter
  \<open>minorOf\<close>, decoding the answer of \<open>/version\<close> the parameter \<open>decode\<close>.
\<close>

section \<open>Alleles\<close>

type_synonym mm = "nat \<times> nat"

definition newer :: "mm \<Rightarrow> mm \<Rightarrow> bool" where
  "newer m newest \<longleftrightarrow> fst m > fst newest \<or> fst m = fst newest \<and> snd m > snd newest"

definition minors_of :: "(string \<Rightarrow> mm option) \<Rightarrow> string list \<Rightarrow> mm list" where
  "minors_of minorOf versions = List.map_filter minorOf versions"

definition newest_of :: "mm list \<Rightarrow> mm" where
  "newest_of ms = foldl (\<lambda>newest m. if newer m newest then m else newest) (0, 0) ms"

definition Alleles :: "(string \<Rightarrow> mm option) \<Rightarrow> string list \<Rightarrow> string list \<times> nat" where
  "Alleles minorOf versions =
     (let ms = minors_of minorOf versions; seen = length (remdups ms); newest = newest_of ms
      in (map (\<lambda>v. case minorOf v of
                     None \<Rightarrow> ''?''
                   | Some m \<Rightarrow> if seen < 2 then ''?'' else if m = newest then ''Xm'' else ''Xp'') versions, seen))"

section \<open>Cells\<close>

record cell =
  Node :: string
  Version :: string
  Emulated :: string
  Allele :: string
  Note :: string
  Restarts :: int

record version_info =
  GitVersion :: string
  EmulationMajor :: string
  EmulationMinor :: string

record apiserver_pod =
  APNode :: string
  APRestarts :: "int list"
  APAnswer :: "string + string"

definition firstLine :: "string \<Rightarrow> string" where
  "firstLine s = (case index_byte (CHR 0x0A) s of Some i \<Rightarrow> take i s | None \<Rightarrow> s)"

text \<open>An answer that cannot be decoded leaves in the version what was decoded before the error.\<close>

definition apiserver_cell :: "(string \<Rightarrow> bool \<times> version_info) \<Rightarrow> apiserver_pod \<Rightarrow> cell" where
  "apiserver_cell decode p =
     (let c = \<lparr>Node = APNode p, Version = [], Emulated = [], Allele = [], Note = [],
               Restarts = foldl (\<lambda>n r. i32 (n + r)) 0 (APRestarts p)\<rparr>
      in case APAnswer p of
           Inl err \<Rightarrow> c\<lparr>Note := ''not answering: '' @ firstLine err\<rparr>
         | Inr raw \<Rightarrow>
             (let (ok, v) = decode raw;
                  c = (if ok then c else c\<lparr>Note := ''unreadable /version''\<rparr>);
                  c = c\<lparr>Version := GitVersion v\<rparr>
              in if EmulationMajor v \<noteq> [] \<and> EmulationMinor v \<noteq> []
                 then c\<lparr>Emulated := EmulationMajor v @ ''.'' @ EmulationMinor v\<rparr> else c))"

definition apiserverCells :: "(string \<Rightarrow> bool \<times> version_info) \<Rightarrow> 'e + apiserver_pod list \<Rightarrow> 'e + cell list" where
  "apiserverCells decode pods = (case pods of Inl e \<Rightarrow> Inl e | Inr ps \<Rightarrow> Inr (map (apiserver_cell decode) ps))"

section \<open>The report\<close>

definition pad_right :: "nat \<Rightarrow> string \<Rightarrow> string" where
  "pad_right n s = s @ replicate (n - length s) (CHR '' '')"

definition cell_notes :: "(string \<Rightarrow> mm option) \<Rightarrow> cell \<Rightarrow> string list" where
  "cell_notes minorOf c =
     (if Note c \<noteq> [] then [Note c] else [])
     @ (case minorOf (Version c) of
          None \<Rightarrow> []
        | Some (major, minor) \<Rightarrow>
            if Emulated c \<noteq> [] \<and> Emulated c \<noteq> show_nat major @ ''.'' @ show_nat minor
            then [''emulating '' @ Emulated c] else [])
     @ (if Restarts c > 0 then [show_int (Restarts c) @ '' restarts (an escape switches allele after repeated crashes)''] else [])"

definition mosaic_line :: "string \<Rightarrow> string \<Rightarrow> string \<Rightarrow> string \<Rightarrow> string" where
  "mosaic_line a b c d = pad_right 28 a @ '' '' @ pad_right 6 b @ '' '' @ pad_right 26 c @ '' '' @ d @ [CHR 0x0A]"

definition with_alleles :: "(string \<Rightarrow> mm option) \<Rightarrow> cell list \<Rightarrow> cell list" where
  "with_alleles minorOf cells = map2 (\<lambda>c a. c\<lparr>Allele := a\<rparr>) cells (fst (Alleles minorOf (map Version cells)))"

definition allele_count :: "string \<Rightarrow> cell list \<Rightarrow> nat" where
  "allele_count a cells = length (filter (\<lambda>c. Allele c = a) cells)"

datatype mosaic_verdict = Unanswered nat nat | TwoAlleles nat nat | OneNode | OneMinor

definition mosaic_verdict :: "(string \<Rightarrow> mm option) \<Rightarrow> cell list \<Rightarrow> mosaic_verdict" where
  "mosaic_verdict minorOf cells =
     (let silent = length (filter (\<lambda>c. Version c = []) cells); minors = snd (Alleles minorOf (map Version cells));
          cs = with_alleles minorOf cells
      in if silent > 0 then Unanswered silent (length cells)
         else if minors \<ge> 2 then TwoAlleles (allele_count ''Xm'' cs) (allele_count ''Xp'' cs)
         else if length cells = 1 then OneNode
         else OneMinor)"

definition verdict_text :: "mosaic_verdict \<Rightarrow> string" where
  "verdict_text v = [CHR 0x0A] @
     (case v of
        Unanswered s n \<Rightarrow> show_nat s @ '' of '' @ show_nat n @ '' nodes aren'' @ [CHR 0x27] @ ''t answering, so I can''
          @ [CHR 0x27] @ ''t tell the whole mosaic yet.''
      | TwoAlleles m p \<Rightarrow> ''Mosaic: '' @ show_nat m @ '' Xm, '' @ show_nat p
          @ '' Xp. A bug in either build leaves the other half serving.''
      | OneNode \<Rightarrow> ''One control-plane node, one allele: no mosaic protection. Add control-plane nodes for it.''
      | OneMinor \<Rightarrow> ''Every node runs the same minor, so I can'' @ [CHR 0x27]
          @ ''t tell which allele it is (only one minor answers). Either way they all express the same build, ''
          @ ''and a common-mode bug would hit them all.'') @ [CHR 0x0A]"

definition renderMosaic :: "(string \<Rightarrow> mm option) \<Rightarrow> (cell list \<Rightarrow> cell list) \<Rightarrow> cell list \<Rightarrow> string" where
  "renderMosaic minorOf arrange cells =
     (if cells = [] then ''I can'' @ [CHR 0x27] @ ''t see any apiserver pods in kube-system; this doesn'' @ [CHR 0x27]
          @ ''t look like a kubeadm-style control plane.'' @ [CHR 0x0A]
      else
        let cells = sort_key Node (arrange cells); cs = with_alleles minorOf cells
        in mosaic_line ''NODE'' ''ALLELE'' ''VERSION'' ''NOTE''
           @ concat (map (\<lambda>c. mosaic_line (Node c) (Allele c) (Version c) (join ''; '' (cell_notes minorOf c))) cs)
           @ verdict_text (mosaic_verdict minorOf cells))"

section \<open>Two builds, two alleles\<close>

lemma newest_of_snoc: "newest_of (ms @ [m]) = (if newer m (newest_of ms) then m else newest_of ms)"
  by (simp add: newest_of_def)

lemma newer_iff: "newer m n \<longleftrightarrow> n < m"
  by (cases m, cases n) (auto simp: newer_def less_prod_def)

lemma newest_of_ge: "m \<in> set ms \<Longrightarrow> m \<le> newest_of ms"
  by (induction ms rule: rev_induct) (auto simp: newest_of_snoc newer_iff)

lemma newest_of_mem: "ms \<noteq> [] \<Longrightarrow> newest_of ms \<in> set ms"
proof (induction ms rule: rev_induct)
  case (snoc m ms)
  show ?case
  proof (cases "ms = []")
    case True
    have "(0, 0) \<le> m" by (cases m) (simp add: less_eq_prod_def)
    then show ?thesis using True by (auto simp: newest_of_def newer_iff)
  next
    case False
    then show ?thesis using snoc.IH by (simp add: newest_of_snoc)
  qed
qed simp

lemma newest_of_Max: "ms \<noteq> [] \<Longrightarrow> newest_of ms = Max (set ms)"
  by (rule Max_eqI [symmetric]) (simp_all add: newest_of_ge newest_of_mem)

text \<open>
  The mosaic tells the truth about the builds it sees: the number of minors is the
  number of different ones among the versions that parse; when there are two or more, the
  nodes of the newest minor are Xm and all others that parse are Xp, so at least one node of
  each allele is shown; when there is only one, no node is given an allele; and a version that
  does not parse never gets one.
\<close>

theorem mosaic_names_alleles:
  fixes minorOf :: "string \<Rightarrow> mm option"
  defines "parsed vs \<equiv> {m. \<exists>v \<in> set vs. minorOf v = Some m}"
  shows "snd (Alleles minorOf vs) = card (parsed vs)
    \<and> length (fst (Alleles minorOf vs)) = length vs
    \<and> (\<forall>i < length vs. fst (Alleles minorOf vs) ! i =
         (case minorOf (vs ! i) of
            None \<Rightarrow> ''?''
          | Some m \<Rightarrow> if card (parsed vs) < 2 then ''?'' else if m = Max (parsed vs) then ''Xm'' else ''Xp''))
    \<and> (2 \<le> card (parsed vs) \<longrightarrow> ''Xm'' \<in> set (fst (Alleles minorOf vs)) \<and> ''Xp'' \<in> set (fst (Alleles minorOf vs)))"
proof -
  let ?ms = "minors_of minorOf vs"
  have s: "set ?ms = parsed vs" by (auto simp: minors_of_def parsed_def set_map_filter)
  have c: "length (remdups ?ms) = card (parsed vs)" by (simp add: length_remdups_card_conv s)
  have newest: "newest_of ?ms = Max (parsed vs)" if "2 \<le> card (parsed vs)"
    using newest_of_Max [of ?ms] that s by fastforce
  have nth: "fst (Alleles minorOf vs) ! i = (case minorOf (vs ! i) of
            None \<Rightarrow> ''?''
          | Some m \<Rightarrow> if card (parsed vs) < 2 then ''?'' else if m = Max (parsed vs) then ''Xm'' else ''Xp'')" if "i < length vs" for i
    using that newest by (auto simp: Alleles_def Let_def c split: option.split)
  have both: "''Xm'' \<in> set (fst (Alleles minorOf vs)) \<and> ''Xp'' \<in> set (fst (Alleles minorOf vs))" if two: "2 \<le> card (parsed vs)"
  proof -
    have fin: "finite (parsed vs)" and ne: "parsed vs \<noteq> {}" using two by (auto simp: s [symmetric])
    then have "Max (parsed vs) \<in> parsed vs" by simp
    then obtain v where v: "v \<in> set vs" "minorOf v = Some (Max (parsed vs))" by (auto simp: parsed_def)
    have "parsed vs \<noteq> {x}" for x using two by auto
    then obtain m where "m \<in> parsed vs" "m \<noteq> Max (parsed vs)" using ne by blast
    then obtain w where w: "w \<in> set vs" "minorOf w = Some m" "m \<noteq> Max (parsed vs)" by (auto simp: parsed_def)
    show ?thesis
      using v w two newest [OF two] unfolding Alleles_def Let_def c by force
  qed
  show ?thesis using nth both by (simp add: Alleles_def Let_def c)
qed

definition demo_minor :: "string \<Rightarrow> mm option" where
  "demo_minor v = (if v = ''v1.36.2'' then Some (1, 36) else if v = ''v1.35.9'' then Some (1, 35) else None)"

theorem mosaic_names_alleles_witness:
  "snd (Alleles demo_minor [''v1.35.9'', ''v1.36.2'', []]) = 2
   \<and> fst (Alleles demo_minor [''v1.35.9'', ''v1.36.2'', []]) ! 0 = ''Xp''
   \<and> fst (Alleles demo_minor [''v1.35.9'', ''v1.36.2'', []]) ! 1 = ''Xm''
   \<and> fst (Alleles demo_minor [''v1.35.9'', ''v1.36.2'', []]) ! 2 = ''?''"
proof -
  let ?vs = "[''v1.35.9'', ''v1.36.2'', []]"
  have p: "{m. \<exists>v \<in> set ?vs. demo_minor v = Some m} = {(1, 35), (1, 36)}" by (auto simp: demo_minor_def)
  have x: "Max {(1::nat, 35::nat), (1, 36)} = (1, 36)" by (simp add: max_def less_eq_prod_def)
  have c: "card {(1::nat, 35::nat), (1, 36)} = 2" by simp
  have v: "demo_minor (?vs ! 0) = Some (1, 35)" "demo_minor (?vs ! 1) = Some (1, 36)" "demo_minor (?vs ! 2) = None"
    by (simp_all add: demo_minor_def)
  note t = mosaic_names_alleles [of demo_minor ?vs, unfolded p x c]
  have nth: "\<forall>i < length ?vs. fst (Alleles demo_minor ?vs) ! i = (case demo_minor (?vs ! i) of
      None \<Rightarrow> ''?'' | Some m \<Rightarrow> if (2::nat) < 2 then ''?'' else if m = (1, 36) then ''Xm'' else ''Xp'')"
    using t by blast
  show ?thesis
    using t nth [rule_format, of 0] nth [rule_format, of 1] nth [rule_format, of 2] unfolding v by simp
qed

end
