(* ===== verification/Support.thy ===== *)
theory Support
  imports Mosaic Kube "HOL-Library.AList"
begin

text \<open>
  \<open>kyvctl/support.go\<close>: how long the cluster's Kubernetes minors are supported. A day of
  the calendar table is midnight UTC of the date, as \<open>time.Parse\<close> reads it; a map of
  minors is an association list. Printing a date is the parameter \<open>date\<close>.
\<close>

section \<open>The calendar\<close>

text \<open>Days from 1 January 1970 to a date of 1970 or later.\<close>

definition leap_year :: "int \<Rightarrow> bool" where
  "leap_year y \<longleftrightarrow> y mod 4 = 0 \<and> (y mod 100 \<noteq> 0 \<or> y mod 400 = 0)"

definition days_before_year :: "int \<Rightarrow> int" where
  "days_before_year y = 365 * (y - 1970) + (y - 1969) div 4 - (y - 1901) div 100 + (y - 1601) div 400"

definition days_before_month :: "int \<Rightarrow> int \<Rightarrow> int" where
  "days_before_month y m =
     [0, 31, 59, 90, 120, 151, 181, 212, 243, 273, 304, 334] ! nat (m - 1) + (if m > 2 \<and> leap_year y then 1 else 0)"

definition day :: "string \<Rightarrow> gotime" where
  "day s =
     (let y = int (nat_of_digits (take 4 s)); m = int (nat_of_digits (take 2 (drop 5 s))); d = int (nat_of_digits (take 2 (drop 8 s)))
      in (days_before_year y + days_before_month y m + d - 1) * (24 * hour))"

record lifecycle =
  LcMaintenance :: gotime
  LcEOL :: gotime

definition upstreamLifecycles :: "(nat \<times> lifecycle) list" where
  "upstreamLifecycles =
     [(32, \<lparr>LcMaintenance = zero_time, LcEOL = day ''2026-02-28''\<rparr>),
      (33, \<lparr>LcMaintenance = zero_time, LcEOL = day ''2026-06-28''\<rparr>),
      (34, \<lparr>LcMaintenance = day ''2026-08-27'', LcEOL = day ''2026-10-27''\<rparr>),
      (35, \<lparr>LcMaintenance = day ''2026-12-28'', LcEOL = day ''2027-02-28''\<rparr>),
      (36, \<lparr>LcMaintenance = day ''2027-04-28'', LcEOL = day ''2027-06-28''\<rparr>),
      (37, \<lparr>LcMaintenance = day ''2027-08-28'', LcEOL = day ''2027-10-28''\<rparr>)]"

section \<open>Stages\<close>

datatype stage = Supported | Maintenance | Grace | Unsupported | Unknown

fun stage_text :: "stage \<Rightarrow> string" where
  "stage_text Supported = ''supported''"
| "stage_text Maintenance = ''maintenance mode''"
| "stage_text Grace = ''upgrade grace, no fixes''"
| "stage_text Unsupported = ''out of support''"
| "stage_text Unknown = ''unknown''"

record minor_support =
  Minor :: nat
  Stage :: stage
  UpstreamEOL :: gotime
  Until :: gotime

definition tableRange :: "nat \<times> nat" where
  "tableRange =
     (let ms = map fst upstreamLifecycles
      in (foldl min (hd ms) (tl ms), foldl max (hd ms) (tl ms)))"

definition stage_at :: "lifecycle \<Rightarrow> gotime \<Rightarrow> stage" where
  "stage_at lc now =
     (if \<not> now < t_add (LcEOL lc) SupportGrace then Unsupported
      else if \<not> now < LcEOL lc then Grace
      else if LcMaintenance lc \<noteq> zero_time \<and> \<not> now < LcMaintenance lc then Maintenance
      else Supported)"

definition AssessMinor :: "nat \<Rightarrow> gotime \<Rightarrow> minor_support" where
  "AssessMinor minor now =
     (case map_of upstreamLifecycles minor of
        None \<Rightarrow> \<lparr>Minor = minor, Stage = (if minor < fst tableRange then Unsupported else Unknown),
                  UpstreamEOL = zero_time, Until = zero_time\<rparr>
      | Some lc \<Rightarrow> \<lparr>Minor = minor, Stage = stage_at lc now, UpstreamEOL = LcEOL lc, Until = t_add (LcEOL lc) SupportGrace\<rparr>)"

section \<open>What runs\<close>

record usage =
  Apiservers :: nat
  Kubelets :: nat

definition count_minor :: "(usage \<Rightarrow> usage) \<Rightarrow> (nat \<times> usage) list \<Rightarrow> nat \<Rightarrow> (nat \<times> usage) list" where
  "count_minor bump used minor =
     AList.update minor (bump (case map_of used minor of Some u \<Rightarrow> u | None \<Rightarrow> \<lparr>Apiservers = 0, Kubelets = 0\<rparr>)) used"

definition used_minors :: "(string \<Rightarrow> mm option) \<Rightarrow> cell list \<Rightarrow> string list \<Rightarrow> (nat \<times> usage) list \<times> nat" where
  "used_minors minorOf cells kubelets =
     (let apis = minors_of minorOf (map Version cells);
          used = foldl (count_minor (\<lambda>u. u\<lparr>Apiservers := Apiservers u + 1\<rparr>)) [] (map snd apis);
          used = foldl (count_minor (\<lambda>u. u\<lparr>Kubelets := Kubelets u + 1\<rparr>)) used (map snd (minors_of minorOf kubelets))
      in (used, length cells - length apis))"

section \<open>The verdict\<close>

text \<open>
  \<open>renderSupport\<close> without its table: which minors are gone, which are in grace, and the
  line on how long the cluster is supported. Minors are assessed from the newest down.
\<close>

datatype support_verdict =
    NothingKnown
  | OutOfSupport "nat list"
  | NoDates
  | SupportedUntil minor_support minor_support bool

definition assessed :: "(nat \<times> usage) list \<Rightarrow> gotime \<Rightarrow> minor_support list" where
  "assessed used now = map (\<lambda>m. AssessMinor m now) (rev (sort (map fst used)))"

definition support_verdict :: "(nat \<times> usage) list \<Rightarrow> gotime \<Rightarrow> support_verdict" where
  "support_verdict used now =
     (if used = [] then NothingKnown
      else let ss = assessed used now;
               gone = map Minor (filter (\<lambda>s. Stage s = Unsupported) ss);
               known = filter (\<lambda>s. Until s \<noteq> zero_time) ss
           in if gone \<noteq> [] then OutOfSupport gone
              else if known = [] then NoDates
              else SupportedUntil (last known) (hd known) (list_ex (\<lambda>s. Stage s = Grace) ss))"

definition minor_text :: "nat \<Rightarrow> string" where
  "minor_text m = ''1.'' @ show_nat m"

definition daysLeft :: "duration \<Rightarrow> string" where
  "daysLeft d = plural (go_div d (24 * hour)) ''day''"

definition date_of :: "(gotime \<Rightarrow> string) \<Rightarrow> gotime \<Rightarrow> string" where
  "date_of date t = (if t = zero_time then ''-'' else date t)"

definition support_row :: "(gotime \<Rightarrow> string) \<Rightarrow> usage \<Rightarrow> minor_support \<Rightarrow> string" where
  "support_row date u s =
     (let runs = (if Apiservers u > 0 then [plural (int (Apiservers u)) ''apiserver''] else [])
               @ (if Kubelets u > 0 then [plural (int (Kubelets u)) ''kubelet''] else [])
      in pad_right 6 (minor_text (Minor s)) @ '' '' @ pad_right 26 (join '', '' runs) @ '' ''
         @ pad_right 14 (date_of date (UpstreamEOL s)) @ '' '' @ pad_right 19 (date_of date (Until s)) @ '' ''
         @ stage_text (Stage s) @ [CHR 0x0A])"

definition stage_note :: "(gotime \<Rightarrow> string) \<Rightarrow> minor_support \<Rightarrow> string" where
  "stage_note date s =
     (case Stage s of
        Unknown \<Rightarrow> minor_text (Minor s) @ '' is newer than this kyvctl knows; see https://kubernetes.io/releases/ for its dates.'' @ [CHR 0x0A]
      | Grace \<Rightarrow> minor_text (Minor s) @ '' reached upstream end of life on '' @ date_of date (UpstreamEOL s)
          @ '': nothing is fixed any more, not even security bugs. Kyvernetria still builds and tests it, and the upgrade off it, until ''
          @ date_of date (Until s) @ ''.'' @ [CHR 0x0A]
      | _ \<Rightarrow> [])"

definition support_table :: "(gotime \<Rightarrow> string) \<Rightarrow> (nat \<times> usage) list \<Rightarrow> nat \<Rightarrow> gotime \<Rightarrow> string" where
  "support_table date used silent now =
     pad_right 6 ''MINOR'' @ '' '' @ pad_right 26 ''RUNS'' @ '' '' @ pad_right 14 ''UPSTREAM EOL'' @ '' ''
     @ pad_right 19 ''KYVERNETRIA UNTIL'' @ '' '' @ ''STATUS (as of '' @ date_of date now @ '')'' @ [CHR 0x0A]
     @ concat (map (\<lambda>s. support_row date (the (map_of used (Minor s))) s) (assessed used now)) @ [CHR 0x0A]
     @ (if silent > 0 then plural (int silent) ''apiserver'' @ '' didn'' @ [CHR 0x27] @ ''t answer, so a minor may be missing above.'' @ [CHR 0x0A]
        else [])
     @ concat (map (stage_note date) (assessed used now))"

definition renderSupport :: "(gotime \<Rightarrow> string) \<Rightarrow> (nat \<times> usage) list \<Rightarrow> nat \<Rightarrow> gotime \<Rightarrow> string \<times> string option" where
  "renderSupport date used silent now =
     (case support_verdict used now of
        NothingKnown \<Rightarrow> (''I can'' @ [CHR 0x27] @ ''t tell which Kubernetes versions this cluster runs: no apiserver answered and no node reports a kubelet version.''
          @ [CHR 0x0A], None)
      | OutOfSupport gone \<Rightarrow> (support_table date used silent now,
          Some (''this cluster runs '' @ join '', '' (map minor_text gone)
            @ '', out of support: nothing fixes it any more, and Kyvernetria no longer builds or tests it. ''
            @ ''Upgrade one minor at a time, as docs/OPERATIONS.md describes''))
      | NoDates \<Rightarrow> (support_table date used silent now, None)
      | SupportedUntil oldest newest grace \<Rightarrow> (support_table date used silent now
          @ ''This cluster is supported until '' @ date_of date (Until oldest) @ '', bounded by '' @ minor_text (Minor oldest)
          @ '', its oldest minor ('' @ daysLeft (t_sub (Until oldest) now) @ '' left). ''
          @ (if grace then ''Upgrade now: docs/OPERATIONS.md.''
             else ''Plan the upgrade before '' @ date_of date (UpstreamEOL oldest) @ '', when upstream stops fixing ''
               @ minor_text (Minor oldest) @ ''.'') @ [CHR 0x0A]
          @ (if Minor newest \<noteq> Minor oldest then ''Running two minors costs time: '' @ minor_text (Minor newest)
               @ '' alone would be supported until '' @ date_of date (Until newest) @ ''.'' @ [CHR 0x0A] else []), None))"

section \<open>Support only ends\<close>

fun stage_rank :: "stage \<Rightarrow> nat" where
  "stage_rank Supported = 0"
| "stage_rank Maintenance = 1"
| "stage_rank Grace = 2"
| "stage_rank Unsupported = 3"
| "stage_rank Unknown = 4"

lemma stage_at_mono: "now \<le> later \<Longrightarrow> stage_rank (stage_at lc now) \<le> stage_rank (stage_at lc later)"
  by (simp add: stage_at_def)

lemma stage_mono: "now \<le> later \<Longrightarrow> stage_rank (Stage (AssessMinor m now)) \<le> stage_rank (Stage (AssessMinor m later))"
  by (simp add: AssessMinor_def stage_at_mono split: option.split)

lemma stage_at_not_unknown: "stage_at lc now \<noteq> Unknown"
  by (simp add: stage_at_def)

lemma unsupported_stays: "now \<le> later \<Longrightarrow> Stage (AssessMinor m now) = Unsupported \<Longrightarrow> Stage (AssessMinor m later) = Unsupported"
proof (cases "map_of upstreamLifecycles m")
  case None
  then show "Stage (AssessMinor m now) = Unsupported \<Longrightarrow> Stage (AssessMinor m later) = Unsupported"
    by (simp add: AssessMinor_def)
next
  case (Some lc)
  then show "now \<le> later \<Longrightarrow> Stage (AssessMinor m now) = Unsupported \<Longrightarrow> Stage (AssessMinor m later) = Unsupported"
    by (simp add: AssessMinor_def stage_at_def split: if_splits)
qed

text \<open>The table: later minors end later.\<close>

definition table_until :: "(nat \<times> gotime) list" where
  "table_until = map (\<lambda>(m, lc). (m, t_add (LcEOL lc) SupportGrace)) upstreamLifecycles"

lemma table_sorted: "sorted_wrt (\<lambda>a b. fst a < fst b \<and> snd a < snd b) table_until \<and> list_all (\<lambda>a. snd a \<noteq> zero_time) table_until"
  by code_simp

lemma Until_table:
  "Until (AssessMinor m now) = (case map_of upstreamLifecycles m of None \<Rightarrow> zero_time | Some lc \<Rightarrow> t_add (LcEOL lc) SupportGrace)"
  by (simp add: AssessMinor_def split: option.split)

lemma Until_mem: "Until (AssessMinor m now) \<noteq> zero_time \<Longrightarrow> (m, Until (AssessMinor m now)) \<in> set table_until"
  by (auto simp: Until_table table_until_def split: option.splits dest!: map_of_SomeD intro!: rev_image_eqI)

lemma Until_mono:
  assumes "Until (AssessMinor m now) \<noteq> zero_time" and "Until (AssessMinor n now) \<noteq> zero_time" and "m \<le> n"
  shows "Until (AssessMinor m now) \<le> Until (AssessMinor n now)"
proof (cases "m = n")
  case False
  have s: "(fst a < fst b \<and> snd a < snd b) \<or> a = b \<or> (fst b < fst a \<and> snd b < snd a)"
    if "a \<in> set table_until" "b \<in> set table_until" for a b
    using that table_sorted unfolding sorted_wrt_iff_nth_less in_set_conv_nth by (metis linorder_neqE_nat)
  show ?thesis using s [OF Until_mem [OF assms(1)] Until_mem [OF assms(2)]] False assms(3) by auto
qed simp

lemma Minor_Assess [simp]: "Minor (AssessMinor m now) = m"
  by (simp add: AssessMinor_def split: option.split)

lemma known_before_end:
  "Stage (AssessMinor m now) \<noteq> Unsupported \<Longrightarrow> Until (AssessMinor m now) \<noteq> zero_time \<Longrightarrow> now < Until (AssessMinor m now)"
  by (auto simp: AssessMinor_def stage_at_def split: option.splits if_splits)

lemma last_filter_sorted:
  "sorted_wrt (\<lambda>a b. R b a) xs \<Longrightarrow> (\<And>a. R a a) \<Longrightarrow> x \<in> set xs \<Longrightarrow> R (last xs) x"
  by (induction xs) auto

lemma assessed_set: "set (assessed used now) = (\<lambda>m. AssessMinor m now) ` fst ` set used"
  by (simp add: assessed_def image_image)

lemma assessed_sorted: "sorted_wrt (\<lambda>a b. Minor b \<le> Minor a) (assessed used now)"
  unfolding assessed_def sorted_wrt_map sorted_wrt_rev by simp

text \<open>
  What kyvctl says about support is right and only ever gets worse: the command
  fails exactly when some minor in use is out of support, and once it fails it fails on every
  later day; the date it prints is the earliest end of support among the minors in use it
  knows the calendar of, that of the oldest of them, and lies ahead; and it urges to upgrade
  now exactly when some minor in use is in its grace period.
\<close>

theorem support_verdict_sound:
  "(snd (renderSupport date used silent now) \<noteq> None \<longleftrightarrow> (\<exists>m \<in> fst ` set used. Stage (AssessMinor m now) = Unsupported))
   \<and> (now \<le> later \<longrightarrow> snd (renderSupport date used silent now) \<noteq> None \<longrightarrow> snd (renderSupport date used silent later) \<noteq> None)
   \<and> (\<forall>oldest newest grace. support_verdict used now = SupportedUntil oldest newest grace \<longrightarrow>
        Minor oldest \<in> fst ` set used \<and> now < Until oldest
        \<and> (\<forall>m \<in> fst ` set used. Until (AssessMinor m now) \<noteq> zero_time \<longrightarrow>
             Minor oldest \<le> m \<and> Until oldest \<le> Until (AssessMinor m now))
        \<and> (grace \<longleftrightarrow> (\<exists>m \<in> fst ` set used. Stage (AssessMinor m now) = Grace)))"
proof -
  have fails: "snd (renderSupport date used silent now) \<noteq> None \<longleftrightarrow> (\<exists>m \<in> fst ` set used. Stage (AssessMinor m now) = Unsupported)" for now
  proof -
    have "filter (\<lambda>s. Stage s = Unsupported) (assessed used now) \<noteq> []
        \<longleftrightarrow> (\<exists>m \<in> fst ` set used. Stage (AssessMinor m now) = Unsupported)"
      using assessed_set [of used now] by (auto simp: filter_empty_conv)
    moreover have "used = [] \<Longrightarrow> \<not> (\<exists>m \<in> fst ` set used. Stage (AssessMinor m now) = Unsupported)" by simp
    ultimately show ?thesis by (auto simp: renderSupport_def support_verdict_def Let_def)
  qed
  moreover have "Minor oldest \<in> fst ` set used \<and> now < Until oldest
        \<and> (\<forall>m \<in> fst ` set used. Until (AssessMinor m now) \<noteq> zero_time \<longrightarrow>
             Minor oldest \<le> m \<and> Until oldest \<le> Until (AssessMinor m now))
        \<and> (grace \<longleftrightarrow> (\<exists>m \<in> fst ` set used. Stage (AssessMinor m now) = Grace))"
    if v: "support_verdict used now = SupportedUntil oldest newest grace" for oldest newest grace
  proof -
    let ?known = "filter (\<lambda>s. Until s \<noteq> zero_time) (assessed used now)"
    have none: "filter (\<lambda>s. Stage s = Unsupported) (assessed used now) = []" and ne: "?known \<noteq> []"
      and o: "oldest = last ?known" and g: "grace \<longleftrightarrow> list_ex (\<lambda>s. Stage s = Grace) (assessed used now)"
      using v by (auto simp: support_verdict_def Let_def split: if_splits)
    have "oldest \<in> set ?known" using last_in_set [OF ne] unfolding o .
    then obtain m where m: "m \<in> fst ` set used" "oldest = AssessMinor m now" and z: "Until oldest \<noteq> zero_time"
      using assessed_set [of used now] by auto
    have "Stage oldest \<noteq> Unsupported" using none m assessed_set [of used now] by (auto simp: filter_empty_conv)
    then have "now < Until oldest" using known_before_end z m(2) by simp
    moreover have "m \<le> n \<and> Until oldest \<le> Until (AssessMinor n now)"
      if n: "n \<in> fst ` set used" "Until (AssessMinor n now) \<noteq> zero_time" for n
    proof -
      have "AssessMinor n now \<in> set ?known" using n assessed_set [of used now] by auto
      moreover have "sorted_wrt (\<lambda>a b. Minor b \<le> Minor a) ?known" using assessed_sorted by (rule sorted_wrt_filter)
      ultimately have "Minor (last ?known) \<le> Minor (AssessMinor n now)"
        by (intro last_filter_sorted [where R = "\<lambda>a b. Minor a \<le> Minor b"]) auto
      then have "m \<le> n" unfolding o [symmetric] m(2) Minor_Assess .
      then show ?thesis using Until_mono [of m now n] z n(2) m(2) by simp
    qed
    moreover have "grace \<longleftrightarrow> (\<exists>m \<in> fst ` set used. Stage (AssessMinor m now) = Grace)"
      unfolding g list_ex_iff assessed_set by blast
    ultimately show ?thesis using m by simp
  qed
  ultimately show ?thesis using unsupported_stays by blast
qed

text \<open>A cluster of 1.34 and 1.36 on 1 November 2026, four days after upstream ended 1.34.\<close>

definition demo_used :: "(nat \<times> usage) list" where
  "demo_used = [(36, \<lparr>Apiservers = 1, Kubelets = 2\<rparr>), (34, \<lparr>Apiservers = 2, Kubelets = 0\<rparr>)]"

theorem support_verdict_sound_witness:
  "\<exists>oldest newest. support_verdict demo_used (day ''2026-11-01'') = SupportedUntil oldest newest True
     \<and> Minor oldest = 34 \<and> day ''2026-11-01'' < Until oldest"
proof -
  have v: "support_verdict demo_used (day ''2026-11-01'')
      = SupportedUntil (AssessMinor 34 (day ''2026-11-01'')) (AssessMinor 36 (day ''2026-11-01'')) True"
    by code_simp
  show ?thesis
    using support_verdict_sound [of "\<lambda>_. []" demo_used 0 "day ''2026-11-01''" "day ''2026-11-01''", THEN conjunct2, THEN conjunct2,
        rule_format, OF v] v by auto
qed

end
