(* ===== verification/Command_Line.thy ===== *)
theory Command_Line
  imports Go_Strconv
begin

text \<open>
  \<open>kyvctl/root.go\<close> and the command-line part of \<open>kyvctl/errors.go\<close>: which arguments
  are positional, whether the command line runs one of kyvctl's own commands, and the
  fingerprint of a command line, which leaves out what may be secret. The flags kubectl
  knows are the parameters \<open>takes\<close> (long names) and \<open>short\<close> (one byte): whether the
  flag exists and its value is the next argument. The hash is the parameter \<open>sha\<close>.
\<close>

section \<open>Positional arguments\<close>

definition ownCommands :: "string list" where
  "ownCommands =
     [''remember'', ''relationships'', ''rels'', ''exclude'', ''include'', ''calm'', ''diagnose'', ''mosaic'', ''support'',
      ''conceive'', ''screen'', ''deliver'', ''apgar'', ''growth'']"

text \<open>A group of shorthands: whether the next argument is the value of its first flag with one.\<close>

fun group_takes_next :: "(char \<Rightarrow> bool) \<Rightarrow> string \<Rightarrow> bool" where
  "group_takes_next short [] = False"
| "group_takes_next short (c # cs) = (if short c then cs = [] else group_takes_next short cs)"

definition flag_takes_next :: "(string \<Rightarrow> bool) \<Rightarrow> (char \<Rightarrow> bool) \<Rightarrow> string \<Rightarrow> bool" where
  "flag_takes_next takes short a =
     (if has_prefix a ''--'' then
        (let name = map (\<lambda>c. if c = CHR ''_'' then CHR ''-'' else c) (drop 2 a)
         in CHR ''='' \<notin> set name \<and> takes name)
      else group_takes_next short (drop 1 a))"

fun positionals :: "(string \<Rightarrow> bool) \<Rightarrow> (char \<Rightarrow> bool) \<Rightarrow> string list \<Rightarrow> string list" where
  "positionals takes short [] = []"
| "positionals takes short (a # as) =
     (if a = ''--'' then as
      else if has_prefix a ''--'' \<or> has_prefix a ''-'' \<and> length a > 1 then
        positionals takes short (if flag_takes_next takes short a then drop 1 as else as)
      else a # positionals takes short as)"

definition firstPositional :: "(string \<Rightarrow> bool) \<Rightarrow> (char \<Rightarrow> bool) \<Rightarrow> string list \<Rightarrow> string" where
  "firstPositional takes short args = (case positionals takes short args of [] \<Rightarrow> [] | p # _ \<Rightarrow> p)"

definition invokesOwnCommand :: "(string \<Rightarrow> bool) \<Rightarrow> (char \<Rightarrow> bool) \<Rightarrow> string list \<Rightarrow> bool" where
  "invokesOwnCommand takes short args =
     (let candidate = list_ex (\<lambda>a. a \<in> set ownCommands) (tl args)
      in if \<not> candidate then False else firstPositional takes short (tl args) \<in> set ownCommands)"

lemma positionals_subset: "set (positionals takes short as) \<subseteq> set as"
proof (induction takes short as rule: positionals.induct)
  case (2 takes short a as)
  define rest where "rest = (if flag_takes_next takes short a then drop 1 as else as)"
  have "set rest \<subseteq> set (a # as)" using set_drop_subset [of 1 as] by (auto simp: rest_def)
  moreover have "set (positionals takes short rest) \<subseteq> set rest"
    if "a \<noteq> ''--''" "has_prefix a ''--'' \<or> has_prefix a ''-'' \<and> length a > 1"
    using 2(1) [OF that] unfolding rest_def by (auto split: if_splits)
  ultimately show ?case
    using 2(2) unfolding positionals.simps rest_def [symmetric] by auto
qed simp

lemma invokesOwnCommand_first:
  "invokesOwnCommand takes short args \<longleftrightarrow> firstPositional takes short (tl args) \<in> set ownCommands"
proof -
  have "list_ex (\<lambda>a. a \<in> set ownCommands) (tl args)" if "firstPositional takes short (tl args) \<in> set ownCommands"
    using that positionals_subset [of takes short "tl args"]
    by (auto simp: firstPositional_def list_ex_iff ownCommands_def split: list.splits)
  then show ?thesis by (auto simp: invokesOwnCommand_def)
qed

section \<open>Fingerprints\<close>

definition keptFlagValues :: "string list" where
  "keptFlagValues =
     [''-n'', ''--namespace'', ''--context'', ''--cluster'', ''-o'', ''--output'', ''-l'', ''--selector'', ''-f'', ''--filename'']"

definition flag_like :: "string \<Rightarrow> bool" where
  "flag_like a \<longleftrightarrow> has_prefix a ''-''"

fun kept_args :: "string list \<Rightarrow> string list" where
  "kept_args [] = []"
| "kept_args (a # as) =
     (if a = ''--'' then []
      else if \<not> flag_like a \<or> a = ''-'' then a # kept_args as
      else case cut (CHR ''='') a of (name, _, hasValue) \<Rightarrow>
        let keep = (name \<in> set keptFlagValues)
        in if hasValue then (if keep then a else name) # kept_args as
           else case as of
                  [] \<Rightarrow> [name]
                | v # rest \<Rightarrow>
                    if flag_like v then name # kept_args as
                    else name # (if keep then [v] else []) @ kept_args rest)"

definition Fingerprint :: "(string \<Rightarrow> string) \<Rightarrow> string list \<Rightarrow> string" where
  "Fingerprint sha args = sha (join [CHR 0x00] (kept_args args))"

text \<open>
  Two command lines that differ only in what the fingerprint is to leave out: the value of a
  flag that is not one of the kept ones, after an equals sign or as the next argument, and
  whatever follows a double dash.
\<close>

definition secret_flag :: "string \<Rightarrow> bool" where
  "secret_flag f \<longleftrightarrow> flag_like f \<and> f \<noteq> ''-'' \<and> f \<noteq> ''--'' \<and> CHR ''='' \<notin> set f \<and> f \<notin> set keptFlagValues"

inductive same_command :: "string list \<Rightarrow> string list \<Rightarrow> bool" where
  same_end: "same_command [] []"
| same_after: "same_command (''--'' # as) (''--'' # bs)"
| same_word: "\<not> flag_like a \<or> a = ''-'' \<Longrightarrow> same_command as bs \<Longrightarrow> same_command (a # as) (a # bs)"
| same_flag_value: "flag_like a \<Longrightarrow> CHR ''='' \<in> set a \<Longrightarrow> same_command as bs \<Longrightarrow> same_command (a # as) (a # bs)"
| same_flag_next: "flag_like f \<Longrightarrow> f \<noteq> ''-'' \<Longrightarrow> CHR ''='' \<notin> set f \<Longrightarrow> \<not> flag_like v \<Longrightarrow> same_command as bs
    \<Longrightarrow> same_command (f # v # as) (f # v # bs)"
| same_flag_alone: "flag_like f \<Longrightarrow> f \<noteq> ''-'' \<Longrightarrow> CHR ''='' \<notin> set f \<Longrightarrow> same_command as bs
    \<Longrightarrow> as = [] \<or> flag_like (hd as) \<Longrightarrow> bs = [] \<or> flag_like (hd bs) \<Longrightarrow> same_command (f # as) (f # bs)"
| other_value: "secret_flag f \<Longrightarrow> same_command as bs \<Longrightarrow> same_command ((f @ ''='' @ v) # as) ((f @ ''='' @ w) # bs)"
| other_next: "secret_flag f \<Longrightarrow> \<not> flag_like v \<Longrightarrow> \<not> flag_like w \<Longrightarrow> same_command as bs
    \<Longrightarrow> same_command (f # v # as) (f # w # bs)"

lemma flag_like_append: "flag_like f \<Longrightarrow> flag_like (f @ s)"
  by (auto simp: flag_like_def has_prefix_iff)

lemma cut_eq: "cut (CHR ''='') f = (if CHR ''='' \<in> set f then cut (CHR ''='') f else (f, [], False))"
  by (simp add: cut_none)

lemma same_kept: "same_command as bs \<Longrightarrow> kept_args as = kept_args bs"
proof (induction rule: same_command.induct)
  case (same_flag_value a as bs)
  obtain name v ok where c: "cut (CHR ''='') a = (name, v, ok)" by (cases "cut (CHR ''='') a") auto
  have "ok" using same_flag_value(2) c
  proof (induction a arbitrary: name)
    case (Cons x a)
    then show ?case by (auto split: if_splits prod.splits)
  qed simp
  then show ?case using same_flag_value c by (simp add: Let_def)
next
  case (same_flag_next f v as bs)
  then show ?case by (simp add: cut_none Let_def)
next
  case (same_flag_alone f as bs)
  then show ?case by (auto simp: cut_none Let_def split: list.splits)
next
  case (other_value f as bs v w)
  have f: "f @ ''='' @ u \<noteq> ''--''" "f @ ''='' @ u \<noteq> ''-''" "flag_like (f @ ''='' @ u)" for u
    using other_value(1) by (auto simp: secret_flag_def flag_like_append append_eq_Cons_conv)
  have c: "cut (CHR ''='') (f @ ''='' @ u) = (f, u, True)" for u
    using other_value(1) cut_sep [of "CHR ''=''" f u] by (simp add: secret_flag_def)
  have "kept_args ((f @ ''='' @ u) # cs) = f # kept_args cs" for u cs
    using other_value(1) f [of u] by (simp only: kept_args.simps c) (simp add: secret_flag_def Let_def)
  then show ?case using other_value(3) by simp
next
  case (other_next f v w as bs)
  then show ?case by (simp add: secret_flag_def cut_none Let_def)
qed simp_all

end
