(* ===== verification/Explain.thy ===== *)
theory Explain
  imports Go_Strconv
begin

text \<open>
  \<open>Explain\<close> of \<open>kyvctl/errors.go\<close>: the regular expressions that recognise a common
  error, with the sentence for each. A pattern is a list of items: literal text, a repetition of
  one class of characters, greedy or not, and the marks around a group; each alternative of a
  pattern is a list of its own. The match is Go's: the leftmost one, and of those the one the
  repetitions prefer. The printing of a quoted string (\<open>%q\<close>) is the parameter \<open>q\<close>. A
  class is read on bytes, which is the same for the ASCII characters the classes name.
\<close>

section \<open>Patterns\<close>

datatype item = Text string | Repeat bool nat "char \<Rightarrow> bool" | Open | Close

text \<open>The numbers of characters a repetition may take, in the order it prefers.\<close>

definition choices :: "bool \<Rightarrow> nat \<Rightarrow> (char \<Rightarrow> bool) \<Rightarrow> string \<Rightarrow> nat list" where
  "choices greedy least p s =
     (let most = length (takeWhile p s); ns = [least..<Suc most] in if greedy then rev ns else ns)"

text \<open>The groups of the first match at the beginning of \<open>s\<close>; \<open>open_group\<close> is the group being read.\<close>

fun match_here :: "item list \<Rightarrow> string \<Rightarrow> string option \<Rightarrow> string list \<Rightarrow> string list option" where
  "match_here [] s grp got = Some got"
| "match_here (Text t # is) s grp got =
     (if has_prefix s t then match_here is (drop (length t) s) (map_option (\<lambda>g. g @ t) grp) got else None)"
| "match_here (Open # is) s grp got = match_here is s (Some []) got"
| "match_here (Close # is) s grp got =
     match_here is s None (got @ (case grp of None \<Rightarrow> [] | Some g \<Rightarrow> [g]))"
| "match_here (Repeat greedy least p # is) s grp got =
     foldr (\<lambda>n r. case match_here is (drop n s) (map_option (\<lambda>g. g @ take n s) grp) got of None \<Rightarrow> r | Some m \<Rightarrow> Some m)
       (choices greedy least p s) None"

fun first_match :: "item list \<Rightarrow> string \<Rightarrow> string list option" where
  "first_match is [] = match_here is [] None []"
| "first_match is (c # s) =
     (case match_here is (c # s) None [] of Some m \<Rightarrow> Some m | None \<Rightarrow> first_match is s)"

section \<open>The explanations\<close>

definition not_quote :: "char \<Rightarrow> bool" where "not_quote c \<longleftrightarrow> c \<noteq> CHR 0x22"
definition not_newline :: "char \<Rightarrow> bool" where "not_newline c \<longleftrightarrow> c \<noteq> CHR 0x0A"
definition not_blank :: "char \<Rightarrow> bool" where
  "not_blank c \<longleftrightarrow> c \<notin> {CHR 0x09, CHR 0x0A, CHR 0x0C, CHR 0x0D, CHR '' ''}"
definition word_byte :: "char \<Rightarrow> bool" where
  "word_byte c \<longleftrightarrow> is_digit c \<or> c = CHR ''_'' \<or> (let n = (of_char c :: nat) in 65 \<le> n \<and> n \<le> 90 \<or> 97 \<le> n \<and> n \<le> 122)"

definition dq :: string where "dq = [CHR 0x22]"

datatype explanation = NotAnswering | Forbidden string string string | NotThere string string | NoSuchKind string

definition refused_patterns :: "item list list" where
  "refused_patterns =
     [[Text ''connection refused''], [Text ''dial tcp '', Repeat True 0 not_newline, Text '': connect: '']]"

definition forbidden_pattern :: "item list" where
  "forbidden_pattern =
     [Text ''(Forbidden): '', Repeat True 0 not_newline, Text ('' User '' @ dq), Open, Repeat True 1 not_quote, Close,
      Text (dq @ '' cannot ''), Open, Repeat True 1 word_byte, Close, Text ('' resource '' @ dq),
      Open, Repeat True 1 not_quote, Close, Text dq]"

definition not_found_pattern :: "item list" where
  "not_found_pattern =
     [Text ''(NotFound): '', Open, Repeat False 1 not_blank, Close, Text ('' '' @ dq), Open, Repeat True 1 not_quote, Close,
      Text (dq @ '' not found'')]"

definition no_kind_pattern :: "item list" where
  "no_kind_pattern =
     [Text (''the server doesn't have a resource type '' @ dq), Open, Repeat True 1 not_quote, Close, Text dq]"

text \<open>The first entry of the table that matches anywhere in the message.\<close>

definition explains :: "string \<Rightarrow> explanation option" where
  "explains msg =
     (if list_ex (\<lambda>p. first_match p msg \<noteq> None) refused_patterns then Some NotAnswering
      else case first_match forbidden_pattern msg of
        Some m \<Rightarrow> Some (Forbidden (m ! 0) (m ! 1) (m ! 2))
      | None \<Rightarrow>
          (case first_match not_found_pattern msg of
             Some m \<Rightarrow> Some (NotThere (m ! 0) (m ! 1))
           | None \<Rightarrow> map_option (\<lambda>m. NoSuchKind (m ! 0)) (first_match no_kind_pattern msg)))"

definition explanation_text :: "(string \<Rightarrow> string) \<Rightarrow> explanation \<Rightarrow> string" where
  "explanation_text q e =
     (case e of
        NotAnswering \<Rightarrow> ''The cluster isn't answering yet. If it's still starting up, give it a moment; otherwise check that the kubeconfig points at the right place.''
      | Forbidden user verb res \<Rightarrow> ''You're signed in as '' @ user @ '', and that identity isn't allowed to '' @ verb @ '' '' @ res
          @ '' here. Someone with more access can grant it; `kyvctl auth can-i --list` shows what you can do.''
      | NotThere kind name \<Rightarrow> ''I couldn't find '' @ kind @ '' '' @ q name
          @ '' in this namespace. It may live in another one: try adding -A, or check the name.''
      | NoSuchKind kind \<Rightarrow> ''This cluster doesn't know the kind '' @ q kind @ ''. `kyvctl api-resources` lists the kinds it knows.'')"

definition Explain :: "(string \<Rightarrow> string) \<Rightarrow> string \<Rightarrow> string" where
  "Explain q msg = (case explains msg of None \<Rightarrow> [] | Some e \<Rightarrow> explanation_text q e)"


section \<open>What a message says is read back\<close>

lemma first_choice:
  assumes "\<And>x. x \<in> set xs \<Longrightarrow> f x = None" and "f n = Some m"
  shows "foldr (\<lambda>n r. case f n of None \<Rightarrow> r | Some m \<Rightarrow> Some m) (xs @ n # ys) z = Some m"
  using assms by (induction xs) auto

lemma chosen_repetition:
  assumes "choices greedy least p s = ns @ n # ys"
    and "\<And>k. k \<in> set ns \<Longrightarrow> match_here is (drop k s) (map_option (\<lambda>g. g @ take k s) grp) got = None"
    and "match_here is (drop n s) (map_option (\<lambda>g. g @ take n s) grp) got = Some m"
  shows "match_here (Repeat greedy least p # is) s grp got = Some m"
  unfolding match_here.simps assms(1) using assms(2,3) by (intro first_choice)

lemma takeWhile_stop: "list_all p a \<Longrightarrow> \<not> p c \<Longrightarrow> takeWhile p (a @ c # b) = a"
  by (induction a) auto

lemma greedy_match:
  assumes "list_all p a" and "least \<le> length a" and "\<not> p c"
    and "match_here is (c # b) (map_option (\<lambda>g. g @ a) grp) got = Some m"
  shows "match_here (Repeat True least p # is) (a @ c # b) grp got = Some m"
proof -
  have "choices True least p (a @ c # b) = [] @ length a # rev [least..<length a]"
    using assms(2) by (simp add: choices_def Let_def takeWhile_stop [OF assms(1,3)])
  then show ?thesis
    by (rule chosen_repetition [where ns = "[]" and n = "length a"]) (simp_all add: assms(4))
qed

lemma first_match_skips:
  "list_all (\<lambda>c. c \<noteq> hd t) pre \<Longrightarrow> t \<noteq> [] \<Longrightarrow> first_match (Text t # is) (pre @ s) = first_match (Text t # is) s"
proof (induction pre)
  case (Cons c pre)
  then have "\<not> has_prefix (c # pre @ s) t" by (cases t) (auto simp: has_prefix_def)
  then show ?case using Cons by simp
qed simp

lemma not_found_reads:
  assumes "CHR ''('' \<notin> set pre" and "kind \<noteq> []" and "list_all not_blank kind" and "name \<noteq> []" and "list_all not_quote name"
  shows "first_match not_found_pattern (pre @ ''(NotFound): '' @ kind @ '' '' @ dq @ name @ dq @ '' not found'' @ post)
    = Some [kind, name]"
proof -
  let ?tail = "name @ dq @ '' not found'' @ post"
  let ?s = "kind @ '' '' @ dq @ ?tail"
  let ?is = "[Close, Text ('' '' @ dq), Open, Repeat True 1 not_quote, Close, Text (dq @ '' not found'')]"
  have last_part: "match_here [Repeat True 1 not_quote, Close, Text (dq @ '' not found'')] ?tail (Some []) [kind] = Some [kind, name]"
    using assms(4) unfolding dq_def append_Cons append_Nil
    by (intro greedy_match [OF assms(5)]) (auto simp: not_quote_def Suc_le_eq has_prefix_def)
  have full: "match_here ?is (drop (length kind) ?s) (Some kind) [] = Some [kind, name]"
    using last_part by (simp add: dq_def has_prefix_def)
  have early: "match_here ?is (drop n ?s) (Some (take n ?s)) [] = None" if "1 \<le> n" "n < length kind" for n
  proof -
    have "drop n ?s = kind ! n # drop (Suc n) kind @ '' '' @ dq @ ?tail"
      using that by (simp add: Cons_nth_drop_Suc [symmetric])
    moreover have "kind ! n \<noteq> CHR '' ''" using assms(3) that by (auto simp: list_all_length not_blank_def)
    ultimately show ?thesis by (simp add: has_prefix_def)
  qed
  have "choices False 1 not_blank ?s = [1..<length kind] @ [length kind]"
    using assms(2) takeWhile_stop [OF assms(3), of "CHR '' ''" "dq @ ?tail"]
    by (simp add: choices_def Let_def not_blank_def Suc_le_eq)
  then have "match_here (Repeat False 1 not_blank # ?is) ?s (Some []) [] = Some [kind, name]"
  proof (rule chosen_repetition [where n = "length kind" and ns = "[1..<length kind]" and ys = "[]"])
    show "match_here ?is (drop k ?s) (map_option (\<lambda>g. g @ take k ?s) (Some [])) [] = None"
      if "k \<in> set [1..<length kind]" for k
      using early [of k] that by (simp del: match_here.simps drop_append take_append)
    show "match_here ?is (drop (length kind) ?s) (map_option (\<lambda>g. g @ take (length kind) ?s) (Some [])) [] = Some [kind, name]"
      using full by (simp del: match_here.simps)
  qed
  then have "match_here not_found_pattern (''(NotFound): '' @ ?s) None [] = Some [kind, name]"
    by (simp add: not_found_pattern_def has_prefix_def)
  then have here: "first_match not_found_pattern (''(NotFound): '' @ ?s) = Some [kind, name]" by simp
  have "list_all (\<lambda>c. c \<noteq> hd ''(NotFound): '') pre" using assms(1) by (auto simp: list_all_iff)
  then show ?thesis
    using first_match_skips [of "''(NotFound): ''" pre "tl not_found_pattern" "''(NotFound): '' @ ?s"] here
    by (simp add: not_found_pattern_def)
qed

text \<open>
  A missing object is explained by its kind and its name, whatever the object is called, unless
  the message speaks of a refused connection or of a missing permission as well.
\<close>

lemma explains_not_found:
  assumes "CHR ''('' \<notin> set pre" and "kind \<noteq> []" and "list_all not_blank kind" and "name \<noteq> []" and "list_all not_quote name"
    and "msg = pre @ ''(NotFound): '' @ kind @ '' '' @ dq @ name @ dq @ '' not found'' @ post"
    and "\<forall>p \<in> set refused_patterns. first_match p msg = None" and "first_match forbidden_pattern msg = None"
  shows "explains msg = Some (NotThere kind name)"
  using not_found_reads [OF assms(1-5), of post] assms(6-8) by (auto simp: explains_def list_ex_iff)

end
