(* ===== verification/Failures.thy ===== *)
theory Failures
  imports Command_Line Explain
begin

text \<open>
  \<open>kyvctl/errors.go\<close>: the memory of recent failures behind \<open>Comfort\<close>. The history is
  a file of lines, a Unix time, a tab and a fingerprint; \<open>Record\<close> reads it, drops what is
  too old or cannot be read, counts the same command and writes the rest back. What the file
  system answers is a record of results for one invocation. Lines of 64 KiB and more, which
  the scanner stops at and the program does not write, are not modelled.
\<close>

section \<open>The file\<close>

definition failureWindow :: duration where "failureWindow = 3 * minute"

text \<open>\<open>bufio.ScanLines\<close>: lines without their newline, and without a carriage return before it.\<close>

definition drop_cr :: "string \<Rightarrow> string" where
  "drop_cr l = (if l \<noteq> [] \<and> last l = CHR 0x0D then butlast l else l)"

definition scan_lines :: "string \<Rightarrow> string list" where
  "scan_lines s =
     (let ls = split_on (CHR 0x0A) s in map drop_cr (if last ls = [] then butlast ls else ls))"

definition recent_failure :: "gotime \<Rightarrow> duration \<Rightarrow> string \<Rightarrow> string option" where
  "recent_failure now window l =
     (case cut (CHR 0x09) l of (ts, prev, ok) \<Rightarrow>
        if \<not> ok then None
        else case parse_int ts of
               None \<Rightarrow> None
             | Some sec \<Rightarrow> if t_sub now (unix_time sec) > window then None else Some prev)"

definition failure_line :: "gotime \<Rightarrow> string \<Rightarrow> string" where
  "failure_line now cmd = show_int (unix_sec now) @ [CHR 0x09] @ cmd"

section \<open>The directory\<close>

record dir_info =
  IsDir :: bool
  Owned :: bool
  Mode :: nat

record dir_calls =
  MkdirAll :: "string option"
  Lstat :: "string + dir_info"
  Chmod :: "string option"

definition open_to_others :: "nat \<Rightarrow> bool" where
  "open_to_others mode \<longleftrightarrow> mode mod 64 \<noteq> 0"

text \<open>The error of \<open>privateDir\<close> and whether it changed the mode to \<open>0700\<close>.\<close>

definition privateDir :: "string \<Rightarrow> dir_calls \<Rightarrow> string option \<times> bool" where
  "privateDir dir c =
     (case MkdirAll c of Some e \<Rightarrow> (Some e, False) | None \<Rightarrow>
      case Lstat c of Inl e \<Rightarrow> (Some e, False) | Inr i \<Rightarrow>
      if \<not> IsDir i then (Some (dir @ '' is not a directory''), False)
      else if \<not> Owned i then (Some (dir @ '' belongs to someone else''), False)
      else if open_to_others (Mode i) then (Chmod c, Chmod c = None)
      else (None, False))"

text \<open>The error of \<open>writeAtomically\<close>, what is at the path, and whether the temporary file stays.\<close>

record write_calls =
  CreateTemp :: "string option"
  WriteAll :: "string option"
  CloseFile :: "string option"
  RenameFile :: "string option"
  RemoveTemp :: bool

definition writeAtomically :: "write_calls \<Rightarrow> string option \<Rightarrow> string \<Rightarrow> string option \<times> string option \<times> bool" where
  "writeAtomically c old data =
     (case CreateTemp c of Some e \<Rightarrow> (Some e, old, False) | None \<Rightarrow>
      case WriteAll c of Some e \<Rightarrow> (Some e, old, \<not> RemoveTemp c) | None \<Rightarrow>
      case CloseFile c of Some e \<Rightarrow> (Some e, old, \<not> RemoveTemp c) | None \<Rightarrow>
      case RenameFile c of Some e \<Rightarrow> (Some e, old, \<not> RemoveTemp c) | None \<Rightarrow> (None, Some data, False))"

section \<open>Recording a failure\<close>

text \<open>
  The history the path holds (None when there is none), what opening it without following a
  symbolic link gives, and the calls of one invocation.
\<close>

record failure_calls =
  DirCalls :: dir_calls
  CanOpen :: bool
  WriteCalls :: write_calls

record failures =
  Path :: string
  Window :: duration

definition history_lines :: "bool \<Rightarrow> string option \<Rightarrow> string list" where
  "history_lines can_open file = (case file of None \<Rightarrow> [] | Some s \<Rightarrow> if can_open then scan_lines s else [])"

definition Record ::
    "(string \<Rightarrow> string) \<Rightarrow> failures \<Rightarrow> gotime \<Rightarrow> string list \<Rightarrow> failure_calls \<Rightarrow> string option \<Rightarrow> nat \<times> string option" where
  "Record sha f now args calls file =
     (if Path f = [] then (1, file)
      else let cmd = Fingerprint sha args
           in if fst (privateDir (Path f) (DirCalls calls)) \<noteq> None then (1, file)
              else let lines = history_lines (CanOpen calls) file;
                       kept = filter (\<lambda>l. recent_failure now (Window f) l \<noteq> None) lines;
                       same = length (filter (\<lambda>l. recent_failure now (Window f) l = Some cmd) lines);
                       data = join [CHR 0x0A] (kept @ [failure_line now cmd]) @ [CHR 0x0A]
                   in (1 + same, fst (snd (writeAtomically (WriteCalls calls) file data))))"

definition Comfort :: "(string \<Rightarrow> bool) \<Rightarrow> (char \<Rightarrow> bool) \<Rightarrow> nat \<Rightarrow> string list \<Rightarrow> string" where
  "Comfort takes short n args =
     (if n < 3 then []
      else let args = takeWhile (\<lambda>a. a \<noteq> ''--'') args;
               names = (\<lambda>a. CHR ''/'' \<in> set a \<and> \<not> has_prefix a ''/'' \<and> \<not> has_prefix a ''.'');
               hint = (case List.find names (positionals takes short args) of
                         Some a \<Rightarrow> ''`kyvctl remember '' @ a @ ''` shows what has been happening to it''
                       | None \<Rightarrow> ''`kyvctl calm` summarizes what'' @ [CHR 0x27] @ ''s going wrong around you'')
           in ''That'' @ [CHR 0x27] @ ''s '' @ show_nat n @ '' times in the last few minutes. Let'' @ [CHR 0x27]
              @ ''s step back instead of retrying: '' @ hint @ ''.'')"

text \<open>
  \<open>Fatal\<close>, the fatal-error behaviour: what is written to the terminal, and the history
  after. \<open>q\<close> prints a quoted string.
\<close>

definition with_newline :: "string \<Rightarrow> string" where
  "with_newline msg = (if has_suffix msg [CHR 0x0A] then msg else msg @ [CHR 0x0A])"

definition Fatal ::
    "(string \<Rightarrow> string) \<Rightarrow> (string \<Rightarrow> bool) \<Rightarrow> (char \<Rightarrow> bool) \<Rightarrow> (string \<Rightarrow> string) \<Rightarrow> failures \<Rightarrow> gotime
     \<Rightarrow> string list \<Rightarrow> failure_calls \<Rightarrow> string option \<Rightarrow> string \<Rightarrow> string \<times> string option" where
  "Fatal q takes short sha f now args calls file msg =
     (let said = Explain q (with_newline msg);
          (n, file) = Record sha f now args calls file;
          comfort = Comfort takes short n args
      in ((if msg \<noteq> [] then with_newline msg @ (if said \<noteq> [] then [CHR 0x0A] @ said @ [CHR 0x0A] else []) else [])
          @ (if comfort \<noteq> [] then [CHR 0x0A] @ comfort @ [CHR 0x0A] else []), file))"

section \<open>The history as a list\<close>

type_synonym past = "(gotime \<times> string) list"

definition still_recent :: "gotime \<Rightarrow> duration \<Rightarrow> gotime \<times> string \<Rightarrow> bool" where
  "still_recent now window p \<longleftrightarrow> now - unix_sec (fst p) * second \<le> window"

definition past_after :: "gotime \<Rightarrow> duration \<Rightarrow> string \<Rightarrow> past \<Rightarrow> past" where
  "past_after now window cmd past = filter (still_recent now window) past @ [(now, cmd)]"

definition past_count :: "gotime \<Rightarrow> duration \<Rightarrow> string \<Rightarrow> past \<Rightarrow> nat" where
  "past_count now window cmd past = 1 + length (filter (\<lambda>p. still_recent now window p \<and> snd p = cmd) past)"

definition past_file :: "past \<Rightarrow> string option" where
  "past_file past =
     (if past = [] then None else Some (join [CHR 0x0A] (map (\<lambda>(t, cmd). failure_line t cmd) past) @ [CHR 0x0A]))"

definition hex_text :: "string \<Rightarrow> bool" where
  "hex_text s \<longleftrightarrow> s \<noteq> [] \<and> list_all (\<lambda>c. is_digit c \<or> c \<in> set ''abcdef'') s"

definition sane_past :: "past \<Rightarrow> bool" where
  "sane_past past \<longleftrightarrow> (\<forall>(t, cmd) \<in> set past. sane_sec (t div second) \<and> hex_text cmd)"

section \<open>The file holds the list\<close>

lemma split_lines:
  "ls \<noteq> [] \<Longrightarrow> \<forall>l \<in> set ls. c \<notin> set l \<Longrightarrow> split_on c (join [c] ls @ [c]) = ls @ [[]]"
proof (induction "[c]" ls rule: join.induct)
  case (2 x)
  then show ?case using split_on_sep [of c x "[]"] by simp
next
  case (3 x y ys)
  then show ?case using split_on_sep [of c x "join [c] (y # ys) @ [c]"] by simp
qed simp

lemma scan_written:
  assumes "ls \<noteq> []" and "\<forall>l \<in> set ls. CHR 0x0A \<notin> set l \<and> CHR 0x0D \<notin> set l"
  shows "scan_lines (join [CHR 0x0A] ls @ [CHR 0x0A]) = ls"
proof -
  have s: "split_on (CHR 0x0A) (join [CHR 0x0A] ls @ [CHR 0x0A]) = ls @ [[]]"
    using assms by (intro split_lines) auto
  have "map drop_cr ls = ls"
    by (rule map_idI) (use assms(2) last_in_set in \<open>fastforce simp: drop_cr_def\<close>)
  then show ?thesis by (simp add: scan_lines_def s)
qed

lemma hex_plain: "hex_text s \<Longrightarrow> CHR 0x09 \<notin> set s \<and> CHR 0x0A \<notin> set s \<and> CHR 0x0D \<notin> set s"
  by (auto simp: hex_text_def list_all_iff is_digit_def)

lemma show_int_plain: "CHR 0x09 \<notin> set (show_int n) \<and> CHR 0x0A \<notin> set (show_int n) \<and> CHR 0x0D \<notin> set (show_int n)"
  using show_int_chars [of _ n] by (fastforce simp: is_digit_def)

lemma failure_line_plain: "hex_text cmd \<Longrightarrow> CHR 0x0A \<notin> set (failure_line t cmd) \<and> CHR 0x0D \<notin> set (failure_line t cmd)"
  using hex_plain [of cmd] show_int_plain [of "unix_sec t"] by (simp add: failure_line_def)

lemma recent_written:
  assumes "sane_sec (t div second)"
  shows "recent_failure now failureWindow (failure_line t cmd) = (if still_recent now failureWindow (t, cmd) then Some cmd else None)"
proof -
  have u: "unix_sec t = t div second" using assms by (rule unix_sec_sane)
  have "cut (CHR 0x09) (failure_line t cmd) = (show_int (unix_sec t), cmd, True)"
    using cut_sep [of "CHR 0x09" "show_int (unix_sec t)" cmd] show_int_plain by (simp add: failure_line_def)
  moreover have "parse_int (show_int (unix_sec t)) = Some (unix_sec t)"
    using assms u by (intro parse_show) (simp add: sane_sec_i64)
  moreover have "unix_time (unix_sec t) = unix_sec t * second" using assms u by (simp add: unix_time_sane)
  moreover have "t_sub now (unix_sec t * second) > failureWindow \<longleftrightarrow> \<not> now - unix_sec t * second \<le> failureWindow"
    using t_sub_le_iff [of failureWindow now "unix_sec t * second"] by (simp add: failureWindow_def flip: not_le)
  ultimately show ?thesis by (simp add: recent_failure_def still_recent_def)
qed

definition quiet_calls :: "failure_calls \<Rightarrow> bool" where
  "quiet_calls c \<longleftrightarrow> fst (privateDir [] (DirCalls c)) = None \<and> CanOpen c
     \<and> CreateTemp (WriteCalls c) = None \<and> WriteAll (WriteCalls c) = None \<and> CloseFile (WriteCalls c) = None
     \<and> RenameFile (WriteCalls c) = None"

lemma privateDir_any: "fst (privateDir d c) = None \<longleftrightarrow> fst (privateDir [] c) = None"
  by (auto simp: privateDir_def split: option.splits sum.splits if_splits)

lemma past_lines:
  "sane_past past \<Longrightarrow> history_lines True (past_file past) = map (\<lambda>(t, cmd). failure_line t cmd) past"
proof (cases "past = []")
  case False
  assume a: "sane_past past"
  have "\<forall>l \<in> set (map (\<lambda>(t, cmd). failure_line t cmd) past). CHR 0x0A \<notin> set l \<and> CHR 0x0D \<notin> set l"
  proof
    fix l assume "l \<in> set (map (\<lambda>(t, cmd). failure_line t cmd) past)"
    then obtain t cmd where l: "l = failure_line t cmd" "(t, cmd) \<in> set past" by auto
    then have "hex_text cmd" using a by (auto simp: sane_past_def)
    then show "CHR 0x0A \<notin> set l \<and> CHR 0x0D \<notin> set l" unfolding l(1) by (rule failure_line_plain)
  qed
  then show ?thesis using False scan_written by (simp add: history_lines_def past_file_def)
qed (simp add: history_lines_def past_file_def)

lemma kept_lines:
  "sane_past past \<Longrightarrow> filter (\<lambda>l. recent_failure now failureWindow l \<noteq> None) (map (\<lambda>(t, cmd). failure_line t cmd) past)
   = map (\<lambda>(t, cmd). failure_line t cmd) (filter (still_recent now failureWindow) past)"
  by (induction past) (auto simp: sane_past_def recent_written)

lemma same_lines:
  "sane_past past \<Longrightarrow> length (filter (\<lambda>l. recent_failure now failureWindow l = Some cmd) (map (\<lambda>(t, cmd). failure_line t cmd) past))
   = length (filter (\<lambda>p. still_recent now failureWindow p \<and> snd p = cmd) past)"
  by (induction past) (auto simp: sane_past_def recent_written split: if_splits)

text \<open>
  Claim C38. The history file is the list of recent failures: when the calls of an invocation
  succeed, recording a failure over the file of a list leaves the file of the list without
  what is older than three minutes and with the new failure at its end, and returns how often
  the same command failed within the window, this time included; the message of comfort
  appears exactly from the third failure on.
\<close>

theorem failures_are_remembered:
  assumes "Path f \<noteq> []" and "Window f = failureWindow" and "quiet_calls calls" and "sane_past past"
    and "sane_sec (now div second)" and "hex_text (Fingerprint sha args)"
  defines "cmd \<equiv> Fingerprint sha args"
  shows "Record sha f now args calls (past_file past)
      = (past_count now failureWindow cmd past, past_file (past_after now failureWindow cmd past))
    \<and> sane_past (past_after now failureWindow cmd past)
    \<and> (Comfort takes short (fst (Record sha f now args calls (past_file past))) args \<noteq> []
        \<longleftrightarrow> 3 \<le> past_count now failureWindow cmd past)"
proof -
  have q: "fst (privateDir (Path f) (DirCalls calls)) = None" "CanOpen calls"
    using assms(3) by (auto simp: quiet_calls_def privateDir_any [of "Path f"])
  have w: "fst (snd (writeAtomically (WriteCalls calls) old data)) = Some data" for old data
    using assms(3) by (simp add: quiet_calls_def writeAtomically_def)
  have r: "Record sha f now args calls (past_file past)
      = (past_count now failureWindow cmd past, past_file (past_after now failureWindow cmd past))"
    using assms(1,2) past_lines [OF assms(4)] kept_lines [OF assms(4), of now] same_lines [OF assms(4), of now cmd]
    by (simp add: Record_def q w Let_def past_count_def past_after_def past_file_def cmd_def)
  moreover have "sane_past (past_after now failureWindow cmd past)"
    using assms(4-6) by (auto simp: sane_past_def past_after_def cmd_def)
  moreover have "Comfort takes short n args \<noteq> [] \<longleftrightarrow> 3 \<le> n" for n
    by (simp add: Comfort_def)
  ultimately show ?thesis by simp
qed

text \<open>
  Claim C39. Secrets leave no trace: two command lines that differ only in the values of flags
  the history does not keep, given after an equals sign or as the next argument, or in what
  follows a double dash, have the same effect on the history and the same count, whatever the
  file system answers.
\<close>

theorem history_keeps_no_secret:
  assumes "same_command as bs"
  shows "Record sha f now as calls file = Record sha f now bs calls file"
  using same_kept [OF assms] by (simp add: Record_def Fingerprint_def)


text \<open>
  What the redaction does not reach: a value attached to a short flag, and a value that
  itself starts with a dash, are part of what is hashed.
\<close>

lemma attached_value_is_hashed:
  "kept_args [''login'', ''-ps3cret''] = [''login'', ''-ps3cret'']"
  "kept_args [''login'', ''--token'', ''-s3cret''] = [''login'', ''--token'', ''-s3cret'']"
  by (simp_all add: flag_like_def has_prefix_def keptFlagValues_def)

text \<open>The same deployment fails to be reached three times, with a token on the command line.\<close>

definition demo_calls :: failure_calls where
  "demo_calls =
     \<lparr>DirCalls = \<lparr>MkdirAll = None, Lstat = Inr \<lparr>IsDir = True, Owned = True, Mode = 448\<rparr>, Chmod = None\<rparr>, CanOpen = True,
      WriteCalls = \<lparr>CreateTemp = None, WriteAll = None, CloseFile = None, RenameFile = None, RemoveTemp = True\<rparr>\<rparr>"

definition demo_args :: "string \<Rightarrow> string list" where
  "demo_args token = [''get'', ''deploy/web'', ''--token'', token]"

definition demo_past :: past where
  "demo_past = [(1000 * second, ''ab''), (1090 * second, ''ab''), (1100 * second, ''cd'')]"

theorem failures_are_remembered_witness:
  "Record (\<lambda>_. ''ab'') \<lparr>Path = ''f'', Window = failureWindow\<rparr> (1200 * second) (demo_args ''t'') demo_calls (past_file demo_past)
     = (2, past_file [(1090 * second, ''ab''), (1100 * second, ''cd''), (1200 * second, ''ab'')])
   \<and> fst (Record (\<lambda>_. ''ab'') \<lparr>Path = ''f'', Window = failureWindow\<rparr> (1150 * second) (demo_args ''t'') demo_calls (past_file demo_past)) = 3"
proof -
  have p: "Path \<lparr>Path = ''f'', Window = failureWindow\<rparr> \<noteq> []" "Window \<lparr>Path = ''f'', Window = failureWindow\<rparr> = failureWindow"
    by simp_all
  have q: "quiet_calls demo_calls" by (simp add: quiet_calls_def demo_calls_def privateDir_def open_to_others_def)
  have s: "sane_past demo_past" by (simp add: sane_past_def demo_past_def sane_sec_def hex_text_def is_digit_def)
  have n: "sane_sec ((1200 * second) div second)" "sane_sec ((1150 * second) div second)" by (simp_all add: sane_sec_def)
  have h: "hex_text (Fingerprint (\<lambda>_. ''ab'') (demo_args ''t''))" by (simp add: hex_text_def Fingerprint_def is_digit_def)
  have a: "past_after (1200 * second) failureWindow (Fingerprint (\<lambda>_. ''ab'') (demo_args ''t'')) demo_past
      = [(1090 * second, ''ab''), (1100 * second, ''cd''), (1200 * second, ''ab'')]"
    and c: "past_count (1200 * second) failureWindow (Fingerprint (\<lambda>_. ''ab'') (demo_args ''t'')) demo_past = 2"
    and d: "past_count (1150 * second) failureWindow (Fingerprint (\<lambda>_. ''ab'') (demo_args ''t'')) demo_past = 3"
    by code_simp+
  show ?thesis
    using failures_are_remembered [OF p q s n(1) h] failures_are_remembered [OF p q s n(2) h] unfolding a c d by simp
qed

theorem history_keeps_no_secret_witness:
  "snd (Record (\<lambda>s. s) \<lparr>Path = ''f'', Window = failureWindow\<rparr> (1200 * second) (demo_args ''s3cret'') demo_calls None)
   = snd (Record (\<lambda>s. s) \<lparr>Path = ''f'', Window = failureWindow\<rparr> (1200 * second) (demo_args ''other'') demo_calls None)"
proof -
  have "secret_flag ''--token''" by (simp add: secret_flag_def flag_like_def has_prefix_def keptFlagValues_def)
  moreover have "\<not> flag_like ''get''" "\<not> flag_like ''deploy/web''" "\<not> flag_like ''s3cret''" "\<not> flag_like ''other''"
    by (simp_all add: flag_like_def has_prefix_def)
  ultimately have "same_command (demo_args ''s3cret'') (demo_args ''other'')"
    unfolding demo_args_def by (intro same_word other_next same_end) simp_all
  then show ?thesis by (rule arg_cong [OF history_keeps_no_secret])
qed

text \<open>
  The message itself is always printed first and whole, and comfort comes only from the third
  of the same failures on.
\<close>

lemma fatal_prints_message:
  "msg \<noteq> [] \<Longrightarrow> has_prefix (fst (Fatal q takes short sha f now args calls file msg)) msg"
  by (auto simp: Fatal_def Let_def case_prod_beta with_newline_def has_prefix_iff)

lemma fatal_comforts_late:
  "fst (Record sha f now args calls file) < 3 \<Longrightarrow> explains (with_newline msg) = None \<Longrightarrow>
   fst (Fatal q takes short sha f now args calls file msg) = (if msg = [] then [] else with_newline msg)"
  by (simp add: Fatal_def Explain_def Let_def case_prod_beta Comfort_def)

end
