(* ===== verification/Image_Check.thy ===== *)
theory Image_Check
  imports Screening Kube
begin

text \<open>
  \<open>controller/gestation/lookup.go\<close>: the answers screening gets from the cluster, and the
  check of an image, first on the nodes, then by asking its registry without credentials.
  The requests sent are a log and the \<open>n\<close>-th request's answer is \<open>net n\<close> of it. Image
  references (\<open>distribution/reference\<close>), URLs (\<open>net/url\<close>) and JSON are fields of the
  record \<open>refs\<close>.
\<close>

section \<open>The other world\<close>

record named =
  FamiliarName :: string
  Domain :: string
  RepoPath :: string
  Digest :: "string option"
  Tag :: string
  Tagged :: string
  Normalized :: string

record url =
  Scheme :: string
  UrlHost :: string

record request =
  Method :: string
  ReqURL :: string
  Bearer :: "string option"

record response =
  StatusCode :: nat
  WWWAuthenticate :: string
  ContentDigest :: string
  Body :: string

record refs =
  ParseNamed :: "string \<Rightarrow> string + named"
  ValidURL :: "string \<Rightarrow> string option"
  ParseURL :: "string \<Rightarrow> url option"
  WithQuery :: "string \<Rightarrow> (string \<times> string) list \<Rightarrow> string"
  DecodeToken :: "string \<Rightarrow> (string \<times> string) option"

type_synonym net = "nat \<Rightarrow> request \<Rightarrow> string + response"

record node_images =
  NodeName :: string
  ImageNames :: "string list list"

record image_checker =
  Nodes :: "(string + node_images list) option"
  HasHTTP :: bool
  CheckScheme :: string

section \<open>On the nodes\<close>

definition wanted_image :: "named \<Rightarrow> string" where
  "wanted_image n = (case Digest n of Some d \<Rightarrow> FamiliarName n @ ''@'' @ d | None \<Rightarrow> Tagged n)"

definition names_image :: "refs \<Rightarrow> string \<Rightarrow> string \<Rightarrow> bool" where
  "names_image R want name \<longleftrightarrow>
     name = want \<or> (case ParseNamed R name of Inl _ \<Rightarrow> False | Inr norm \<Rightarrow> Normalized norm = want)"

definition onNode :: "refs \<Rightarrow> image_checker \<Rightarrow> named \<Rightarrow> string" where
  "onNode R i n =
     (case Nodes i of None \<Rightarrow> [] | Some (Inl _) \<Rightarrow> []
      | Some (Inr nodes) \<Rightarrow>
          (case List.find (\<lambda>d. list_ex (names_image R (wanted_image n)) (concat (ImageNames d))) nodes of
             None \<Rightarrow> [] | Some d \<Rightarrow> NodeName d))"

section \<open>Asking the registry\<close>

text \<open>\<open>(\w+)="([^"]*)"\<close>, every match from left to right.\<close>

definition word_char :: "char \<Rightarrow> bool" where
  "word_char c \<longleftrightarrow> (let n = (of_char c :: nat) in 48 \<le> n \<and> n \<le> 57 \<or> 65 \<le> n \<and> n \<le> 90 \<or> 97 \<le> n \<and> n \<le> 122 \<or> n = 95)"

definition quote_char :: char where "quote_char = CHR 0x22"

function challenge_params :: "string \<Rightarrow> (string \<times> string) list" where
  "challenge_params [] = []"
| "challenge_params (c # cs) =
     (if \<not> word_char c then challenge_params cs
      else let w = takeWhile word_char (c # cs); r = dropWhile word_char (c # cs); t = drop 2 r
           in if has_prefix r [CHR ''='', quote_char] \<and> quote_char \<in> set t
              then (w, takeWhile (\<lambda>x. x \<noteq> quote_char) t) # challenge_params (drop 1 (dropWhile (\<lambda>x. x \<noteq> quote_char) t))
              else challenge_params r)"
  by pat_completeness auto
termination
proof (relation "measure length", simp, simp)
  fix c cs w r t
  assume "\<not> \<not> word_char c" "w = takeWhile word_char (c # cs)" "r = dropWhile word_char (c # cs)" "t = drop 2 r"
    "has_prefix r [CHR ''='', quote_char] \<and> quote_char \<in> set t"
  then have "length r \<le> length cs" using length_dropWhile_le [of word_char cs] by simp
  then show "(drop 1 (dropWhile (\<lambda>x. x \<noteq> quote_char) t), c # cs) \<in> measure length"
    using \<open>t = drop 2 r\<close> length_dropWhile_le [of "\<lambda>x. x \<noteq> quote_char" t] by simp
next
  fix c cs w r t
  assume "\<not> \<not> word_char c" "r = dropWhile word_char (c # cs)"
  then show "(r, c # cs) \<in> measure length" using length_dropWhile_le [of word_char cs] by simp
qed

definition param :: "string \<Rightarrow> string \<Rightarrow> string" where
  "param challenge k =
     (case List.find (\<lambda>p. to_lower (fst p) = k) (rev (challenge_params challenge)) of None \<Rightarrow> [] | Some p \<Rightarrow> snd p)"

definition send :: "net \<Rightarrow> request \<Rightarrow> request list \<Rightarrow> (string + response) \<times> request list" where
  "send net r log = (net (length log) r, log @ [r])"

definition head_manifest :: "refs \<Rightarrow> net \<Rightarrow> string \<Rightarrow> string \<Rightarrow> request list \<Rightarrow> (string + response) \<times> request list" where
  "head_manifest R net u token log =
     (case ValidURL R u of
        Some e \<Rightarrow> (Inl e, log)
      | None \<Rightarrow> send net \<lparr>Method = ''HEAD'', ReqURL = u, Bearer = (if token \<noteq> [] then Some token else None)\<rparr> log)"

definition token_of :: "refs \<Rightarrow> response \<Rightarrow> string option" where
  "token_of R resp =
     (if StatusCode resp \<noteq> 200 then None
      else case DecodeToken R (Body resp) of
             None \<Rightarrow> None
           | Some (token, access) \<Rightarrow> if token \<noteq> [] then Some token else if access \<noteq> [] then Some access else None)"

definition realm_request :: "refs \<Rightarrow> string \<Rightarrow> string \<Rightarrow> string option" where
  "realm_request R challenge scheme =
     (if \<not> has_prefix (to_lower challenge) ''bearer '' then None
      else case ParseURL R (param challenge ''realm'') of
             None \<Rightarrow> None
           | Some u \<Rightarrow>
               if Scheme u \<noteq> scheme \<or> UrlHost u = [] then None
               else let q = filter (\<lambda>kv. snd kv \<noteq> []) (map (\<lambda>k. (k, param challenge k)) [''service'', ''scope''])
                    in Some (WithQuery R (param challenge ''realm'') q))"

definition anonymousToken ::
    "refs \<Rightarrow> net \<Rightarrow> string \<Rightarrow> string \<Rightarrow> request list \<Rightarrow> string option \<times> request list" where
  "anonymousToken R net challenge scheme log =
     (case realm_request R challenge scheme of
        None \<Rightarrow> (None, log)
      | Some u \<Rightarrow>
          if ValidURL R u \<noteq> None then (None, log)
          else case send net \<lparr>Method = ''GET'', ReqURL = u, Bearer = None\<rparr> log of
                 (Inl e, log) \<Rightarrow> (None, log)
               | (Inr resp, log) \<Rightarrow> (token_of R resp, log))"

definition registry_host :: "named \<Rightarrow> string" where
  "registry_host n = (if Domain n = ''docker.io'' then ''registry-1.docker.io'' else Domain n)"

definition check_scheme :: "image_checker \<Rightarrow> string" where
  "check_scheme i = (if CheckScheme i = [] then ''https'' else CheckScheme i)"

definition manifest_url :: "image_checker \<Rightarrow> named \<Rightarrow> string" where
  "manifest_url i n =
     check_scheme i @ ''://'' @ registry_host n @ ''/v2/'' @ RepoPath n @ ''/manifests/''
     @ (case Digest n of Some d \<Rightarrow> d | None \<Rightarrow> Tag n)"

text \<open>What the registry's last answer says of the image.\<close>

definition registry_answer :: "named \<Rightarrow> string \<Rightarrow> string + response \<Rightarrow> screen_result \<times> string" where
  "registry_answer n img ans =
     (case ans of
        Inl e \<Rightarrow> (ResultInfo, ''couldn'' @ [CHR 0x27] @ ''t reach '' @ registry_host n @ '' to check '' @ img @ '': '' @ e)
      | Inr resp \<Rightarrow>
          if StatusCode resp = 200 then
            (ResultClear, ''the registry knows '' @ img
               @ (if ContentDigest resp \<noteq> [] \<and> CHR 0x40 \<notin> set img then '' ('' @ ContentDigest resp @ '')'' else []))
          else if StatusCode resp = 404 then
            (ResultFail, ''the registry says '' @ img @ '' doesn'' @ [CHR 0x27] @ ''t exist'')
          else if StatusCode resp = 401 \<or> StatusCode resp = 403 then
            (ResultInfo, img @ '' is private. I don'' @ [CHR 0x27] @ ''t read pull secrets, so I can'' @ [CHR 0x27]
               @ ''t check it; the kubelet will try with them at birth'')
          else (ResultInfo, ''the registry answered '' @ show_nat (StatusCode resp) @ '' for '' @ img))"

definition ask_registry :: "refs \<Rightarrow> net \<Rightarrow> image_checker \<Rightarrow> named \<Rightarrow> (string + response) \<times> request list" where
  "ask_registry R net i n =
     (case head_manifest R net (manifest_url i n) [] [] of
        (Inl e, log) \<Rightarrow> (Inl e, log)
      | (Inr resp, log) \<Rightarrow>
          if StatusCode resp = 401 then
            (case anonymousToken R net (WWWAuthenticate resp) (check_scheme i) log of
               (None, log) \<Rightarrow> (Inr resp, log)
             | (Some token, log) \<Rightarrow> head_manifest R net (manifest_url i n) token log)
          else (Inr resp, log))"

definition check_image :: "refs \<Rightarrow> (string \<Rightarrow> string) \<Rightarrow> net \<Rightarrow> image_checker \<Rightarrow> string \<Rightarrow> (screen_result \<times> string) \<times> request list" where
  "check_image R quote net i img =
     (case ParseNamed R img of
        Inl e \<Rightarrow> ((ResultFail, quote img @ '' is not a valid image reference: '' @ e), [])
      | Inr n \<Rightarrow>
          if onNode R i n \<noteq> [] then ((ResultClear, img @ '' is already on node '' @ onNode R i n), [])
          else if \<not> HasHTTP i then
            ((ResultInfo, img @ '' is not on any node yet; its first pull happens at birth''), [])
          else case ask_registry R net i n of (ans, log) \<Rightarrow> (registry_answer n img ans, log))"

section \<open>Lookups\<close>

definition lookup_exists :: "bool \<Rightarrow> 'o api \<Rightarrow> (api_error option + bool)" where
  "lookup_exists has_metadata get =
     (if \<not> has_metadata then Inl None
      else case get of Inl NotFound \<Rightarrow> Inr False | Inl e \<Rightarrow> Inl (Some e) | Inr _ \<Rightarrow> Inr True)"

definition found_or_none :: "'o api \<Rightarrow> api_error + 'o option" where
  "found_or_none get = (case get of Inl NotFound \<Rightarrow> Inr None | Inl e \<Rightarrow> Inl e | Inr b \<Rightarrow> Inr (Some b))"

definition defaultClassAnnotations :: "string list" where
  "defaultClassAnnotations = [''storageclass.kubernetes.io/is-default-class'', ''storageclass.beta.kubernetes.io/is-default-class'']"

definition lookup_storage_class ::
    "('c \<Rightarrow> strmap) \<Rightarrow> string \<Rightarrow> (string \<Rightarrow> 'c api) \<Rightarrow> 'c list api \<Rightarrow> api_error + 'c option" where
  "lookup_storage_class anns name get all =
     (if name \<noteq> [] then found_or_none (get name)
      else case all of Inl e \<Rightarrow> Inl e
           | Inr cs \<Rightarrow> Inr (List.find (\<lambda>c. list_ex (\<lambda>a. lookup_str (anns c) a = ''true'') defaultClassAnnotations) cs))"

section \<open>No credentials leave\<close>

text \<open>A token the registry's realm gave to a request without credentials, earlier in the log.\<close>

definition anonymous_grant :: "refs \<Rightarrow> net \<Rightarrow> request list \<Rightarrow> nat \<Rightarrow> string \<Rightarrow> bool" where
  "anonymous_grant R net log k token \<longleftrightarrow>
     (\<exists>j < k. Method (log ! j) = ''GET'' \<and> Bearer (log ! j) = None
        \<and> (\<exists>resp. net j (log ! j) = Inr resp \<and> token_of R resp = Some token))"

lemma token_of_nonempty: "token_of R resp = Some t \<Longrightarrow> t \<noteq> []"
  by (auto simp: token_of_def split: if_splits option.splits)

lemma send_simps [simp]: "fst (send net r log) = net (length log) r" "snd (send net r log) = log @ [r]"
  by (simp_all add: send_def)

text \<open>The whole run of the registry's part, request by request.\<close>

lemma ask_registry_cases:
  fixes R :: refs and net :: net and i :: image_checker and n :: named
  defines "first \<equiv> \<lparr>Method = ''HEAD'', ReqURL = manifest_url i n, Bearer = None\<rparr>"
  obtains (none) e where "ask_registry R net i n = (Inl e, [])"
  | (one) ans where "ask_registry R net i n = (ans, [first])" "ans = net 0 first"
  | (refused) resp u where "net 0 first = Inr resp" "StatusCode resp = 401"
      "realm_request R (WWWAuthenticate resp) (check_scheme i) = Some u"
      "ask_registry R net i n = (Inr resp, [first, \<lparr>Method = ''GET'', ReqURL = u, Bearer = None\<rparr>])"
  | (granted) resp u token grant where "net 0 first = Inr resp" "StatusCode resp = 401"
      "realm_request R (WWWAuthenticate resp) (check_scheme i) = Some u"
      "net 1 \<lparr>Method = ''GET'', ReqURL = u, Bearer = None\<rparr> = Inr grant" "token_of R grant = Some token"
      "ask_registry R net i n =
         (net 2 \<lparr>Method = ''HEAD'', ReqURL = manifest_url i n, Bearer = Some token\<rparr>,
          [first, \<lparr>Method = ''GET'', ReqURL = u, Bearer = None\<rparr>,
           \<lparr>Method = ''HEAD'', ReqURL = manifest_url i n, Bearer = Some token\<rparr>])"
proof (cases "ValidURL R (manifest_url i n)")
  case (Some e)
  then show ?thesis by (intro none [of e]) (simp add: ask_registry_def head_manifest_def)
next
  case None
  have h: "head_manifest R net (manifest_url i n) [] [] = (net 0 first, [first])"
    by (simp add: head_manifest_def None send_def first_def)
  show ?thesis
  proof (cases "\<exists>resp u. net 0 first = Inr resp \<and> StatusCode resp = 401
      \<and> realm_request R (WWWAuthenticate resp) (check_scheme i) = Some u \<and> ValidURL R u = None")
    case False
    then have "ask_registry R net i n = (net 0 first, [first])"
      by (auto simp: ask_registry_def h anonymousToken_def split: sum.splits option.splits)
    then show ?thesis by (rule one) simp
  next
    case True
    then obtain resp u where u: "net 0 first = Inr resp" "StatusCode resp = 401"
      "realm_request R (WWWAuthenticate resp) (check_scheme i) = Some u" "ValidURL R u = None" by blast
    let ?get = "\<lparr>Method = ''GET'', ReqURL = u, Bearer = None\<rparr>"
    have a: "anonymousToken R net (WWWAuthenticate resp) (check_scheme i) [first] =
        (case net 1 ?get of Inl e \<Rightarrow> None | Inr g \<Rightarrow> token_of R g, [first, ?get])"
      by (simp add: anonymousToken_def u(3,4) send_def split: sum.split)
    show ?thesis
    proof (cases "\<exists>g token. net 1 ?get = Inr g \<and> token_of R g = Some token")
      case False
      then have "ask_registry R net i n = (Inr resp, [first, ?get])"
        by (auto simp: ask_registry_def h u(1,2) a split: sum.split)
      then show ?thesis by (rule refused [OF u(1-3)])
    next
      case True
      then obtain g token where g: "net 1 ?get = Inr g" "token_of R g = Some token" by blast
      have "ask_registry R net i n = head_manifest R net (manifest_url i n) token [first, ?get]"
        using g by (simp add: ask_registry_def h u(1,2) a)
      also have "\<dots> = (net 2 \<lparr>Method = ''HEAD'', ReqURL = manifest_url i n, Bearer = Some token\<rparr>,
          [first, ?get, \<lparr>Method = ''HEAD'', ReqURL = manifest_url i n, Bearer = Some token\<rparr>])"
        using token_of_nonempty [OF g(2)] by (simp add: head_manifest_def None send_def numeral_2_eq_2)
      finally show ?thesis by (rule granted [OF u(1-3) g])
    qed
  qed
qed

text \<open>
  Claim C21. Checking an image sends no credentials and cries wolf never: whatever the registry
  and the realm answer, at most three requests are sent and none when a node has the image;
  every request asks for the manifest of the image or is an anonymous one to a realm of the
  same scheme; a bearer token is only ever one that such an anonymous request was given
  before; and the check fails only for a reference that does not parse or an image the
  registry, asked for its manifest, said it does not have.
\<close>

theorem image_check_is_anonymous:
  fixes R :: refs and quote :: "string \<Rightarrow> string" and net :: net and i :: image_checker and img :: string
  defines "log \<equiv> snd (check_image R quote net i img)" and "result \<equiv> fst (fst (check_image R quote net i img))"
  shows "length log \<le> 3
    \<and> (\<forall>k < length log. \<forall>n. ParseNamed R img = Inr n \<longrightarrow>
         Method (log ! k) = ''HEAD'' \<and> ReqURL (log ! k) = manifest_url i n
         \<or> Method (log ! k) = ''GET'' \<and> Bearer (log ! k) = None
           \<and> (\<exists>c. realm_request R c (check_scheme i) = Some (ReqURL (log ! k))))
    \<and> (\<forall>k < length log. \<forall>token. Bearer (log ! k) = Some token \<longrightarrow> anonymous_grant R net log k token)
    \<and> (\<forall>n. ParseNamed R img = Inr n \<longrightarrow> onNode R i n \<noteq> [] \<longrightarrow> log = [] \<and> result = ResultClear)
    \<and> (result = ResultFail \<longrightarrow> (\<exists>e. ParseNamed R img = Inl e)
         \<or> (\<exists>k < length log. \<exists>resp. Method (log ! k) = ''HEAD'' \<and> net k (log ! k) = Inr resp \<and> StatusCode resp = 404))
    \<and> result \<noteq> ResultWarn"
proof (cases "\<exists>n. ParseNamed R img = Inr n \<and> onNode R i n = [] \<and> HasHTTP i")
  case False
  then show ?thesis
    by (auto simp: log_def result_def check_image_def split: sum.splits)
next
  case True
  then obtain n where n: "ParseNamed R img = Inr n" "onNode R i n = []" "HasHTTP i" by blast
  have c: "check_image R quote net i img = (registry_answer n img (fst (ask_registry R net i n)), snd (ask_registry R net i n))"
    by (simp add: check_image_def n split: prod.split)
  have fail: "fst (registry_answer n img ans) = ResultFail \<Longrightarrow> \<exists>resp. ans = Inr resp \<and> StatusCode resp = 404"
    and warn: "fst (registry_answer n img ans) \<noteq> ResultWarn" for ans
    by (auto simp: registry_answer_def split: sum.splits if_splits)
  show ?thesis
  proof (cases rule: ask_registry_cases [of R net i n])
    case none
    then show ?thesis using n c fail warn by (force simp: log_def result_def)
  next
    case (one ans)
    then show ?thesis using n c fail [of ans] warn [of ans] by (auto simp: log_def result_def)
  next
    case (refused resp u)
    then show ?thesis
      using n c fail [of "Inr resp"] warn [of "Inr resp"] by (auto simp: log_def result_def less_Suc_eq)
  next
    case (granted resp u token g)
    then show ?thesis
      using n c fail [of "net 2 \<lparr>Method = ''HEAD'', ReqURL = manifest_url i n, Bearer = Some token\<rparr>"]
        warn [of "net 2 \<lparr>Method = ''HEAD'', ReqURL = manifest_url i n, Bearer = Some token\<rparr>"]
      by (auto simp: log_def result_def less_Suc_eq anonymous_grant_def numeral_2_eq_2)
  qed
qed


text \<open>A public image behind a token, as on the public registry.\<close>

definition demo_refs :: refs where
  "demo_refs =
     \<lparr>ParseNamed = (\<lambda>s. if s = ''nginx'' then Inr \<lparr>FamiliarName = ''docker.io/library/nginx'', Domain = ''docker.io'',
                     RepoPath = ''library/nginx'', Digest = None, Tag = ''latest'', Tagged = ''docker.io/library/nginx:latest'',
                     Normalized = ''docker.io/library/nginx''\<rparr> else Inl ''invalid''),
      ValidURL = (\<lambda>_. None), ParseURL = (\<lambda>u. Some \<lparr>Scheme = ''https'', UrlHost = u\<rparr>),
      WithQuery = (\<lambda>u q. u @ ''?'' @ join ''&'' (map (\<lambda>(k, v). k @ ''='' @ v) q)), DecodeToken = (\<lambda>b. Some (b, []))\<rparr>"

definition demo_challenge :: string where
  "demo_challenge = ''Bearer realm='' @ [quote_char] @ ''https://auth/token'' @ [quote_char] @ '',scope='' @ [quote_char]
     @ ''pull'' @ [quote_char]"

definition demo_net :: net where
  "demo_net k r =
     (if Method r = ''GET'' then Inr \<lparr>StatusCode = 200, WWWAuthenticate = [], ContentDigest = [], Body = ''t0k''\<rparr>
      else if Bearer r = Some ''t0k'' then Inr \<lparr>StatusCode = 404, WWWAuthenticate = [], ContentDigest = [], Body = []\<rparr>
      else Inr \<lparr>StatusCode = 401, WWWAuthenticate = demo_challenge, ContentDigest = [], Body = []\<rparr>)"

definition demo_checker :: image_checker where
  "demo_checker = \<lparr>Nodes = Some (Inr []), HasHTTP = True, CheckScheme = []\<rparr>"

lemma demo_check_run:
  "map Bearer (snd (check_image demo_refs (\<lambda>s. s) demo_net demo_checker ''nginx'')) = [None, None, Some ''t0k'']"
  "map ReqURL (snd (check_image demo_refs (\<lambda>s. s) demo_net demo_checker ''nginx'')) ! 1 = ''https://auth/token?scope=pull''"
  "fst (fst (check_image demo_refs (\<lambda>s. s) demo_net demo_checker ''nginx'')) = ResultFail"
  by code_simp+

theorem image_check_is_anonymous_witness:
  "anonymous_grant demo_refs demo_net (snd (check_image demo_refs (\<lambda>s. s) demo_net demo_checker ''nginx'')) 2 ''t0k''
   \<and> (\<exists>k < 3. \<exists>resp. demo_net k (snd (check_image demo_refs (\<lambda>s. s) demo_net demo_checker ''nginx'') ! k) = Inr resp
        \<and> StatusCode resp = 404)"
proof -
  let ?log = "snd (check_image demo_refs (\<lambda>s. s) demo_net demo_checker ''nginx'')"
  note t = image_check_is_anonymous [of demo_refs "\<lambda>s. s" demo_net demo_checker "''nginx''"]
  have l: "length ?log = 3" using arg_cong [OF demo_check_run(1), of length] by simp
  have "map Bearer ?log ! 2 = Some ''t0k''" unfolding demo_check_run(1) by simp
  then have b: "Bearer (?log ! 2) = Some ''t0k''" using l by simp
  have "\<forall>k < length ?log. \<forall>token. Bearer (?log ! k) = Some token \<longrightarrow> anonymous_grant demo_refs demo_net ?log k token"
    using t by blast
  then have "anonymous_grant demo_refs demo_net ?log 2 ''t0k''" using l b by simp
  moreover have "\<nexists>e. ParseNamed demo_refs ''nginx'' = Inl e" by (simp add: demo_refs_def)
  moreover have "(\<exists>e. ParseNamed demo_refs ''nginx'' = Inl e)
      \<or> (\<exists>k < length ?log. \<exists>resp. Method (?log ! k) = ''HEAD'' \<and> demo_net k (?log ! k) = Inr resp \<and> StatusCode resp = 404)"
    using t demo_check_run(3) by blast
  ultimately show ?thesis unfolding l by blast
qed

end
