(* ===== verification/Crd.thy ===== *)
theory Crd
  imports Kube
begin

text \<open>
  The installation of the two custom resources: \<open>ensureCRD\<close> of
  \<open>controller/gestation/controller.go\<close> and of \<open>controller/relationships/controller.go\<close>
  (with \<open>specUpToDate\<close>). The part of a definition the controllers own is a value of any
  type, the conversion and the preservation of unknown fields, which the server may default,
  are kept apart. The two controllers write the same contract in two ways; the locale
  \<open>crd_installer\<close> states it, and both are interpretations.
\<close>

section \<open>Definitions and answers\<close>

record ('o, 'c) crd_spec =
  Owned :: 'o
  Conversion :: 'c
  PreserveUnknown :: bool

record ('o, 'c) crd_object =
  CrdSpec :: "('o, 'c) crd_spec"
  CrdConditions :: "(string \<times> string) list"

datatype 's crd_write = CrdCreate 's | CrdUpdate 's

datatype crd_result = CrdReady | CrdCreated | CrdUpdated | CrdNotEstablished | CrdFailed api_error

definition established :: "(string \<times> string) list \<Rightarrow> bool" where
  "established cs \<longleftrightarrow> list_ex (\<lambda>c. c = (''Established'', ''True'')) cs"

definition specUpToDate :: "('o, 'c) crd_spec \<Rightarrow> ('o, 'c) crd_spec \<Rightarrow> bool" where
  "specUpToDate existing want \<longleftrightarrow>
     existing = want\<lparr>Conversion := Conversion existing, PreserveUnknown := PreserveUnknown existing\<rparr>"

text \<open>The relationships controller keeps the server's conversion when it renews the definition.\<close>

definition renew_relationships :: "('o, 'c) crd_spec \<Rightarrow> ('o, 'c) crd_spec \<Rightarrow> ('o, 'c) crd_spec" where
  "renew_relationships want existing = want\<lparr>Conversion := Conversion existing\<rparr>"

definition ensureRelationshipCRD ::
    "('o, 'c) crd_spec \<Rightarrow> ('o, 'c) crd_object api \<Rightarrow> api_error option \<Rightarrow> crd_result \<times> ('o, 'c) crd_spec crd_write option" where
  "ensureRelationshipCRD want existing err =
     (case existing of
        Inl e \<Rightarrow>
          if e = NotFound then (case err of None \<Rightarrow> CrdCreated | Some x \<Rightarrow> CrdFailed x, Some (CrdCreate want))
          else (CrdFailed e, None)
      | Inr b \<Rightarrow>
          if \<not> specUpToDate (CrdSpec b) want then
            (case err of None \<Rightarrow> CrdUpdated | Some x \<Rightarrow> CrdFailed x, Some (CrdUpdate (renew_relationships want (CrdSpec b))))
          else if established (CrdConditions b) then (CrdReady, None)
          else (CrdNotEstablished, None))"

text \<open>The gestation controller keeps both defaulted fields, and writes what it compared with.\<close>

definition wanted_gestations :: "('o, 'c) crd_spec \<Rightarrow> ('o, 'c) crd_spec \<Rightarrow> ('o, 'c) crd_spec" where
  "wanted_gestations crd existing = crd\<lparr>Conversion := Conversion existing, PreserveUnknown := PreserveUnknown existing\<rparr>"

definition ensureGestationCRD ::
    "('o, 'c) crd_spec \<Rightarrow> ('o, 'c) crd_object api \<Rightarrow> api_error option \<Rightarrow> crd_result \<times> ('o, 'c) crd_spec crd_write option" where
  "ensureGestationCRD crd existing err =
     (case existing of
        Inl e \<Rightarrow>
          if e = NotFound then (case err of None \<Rightarrow> CrdCreated | Some x \<Rightarrow> CrdFailed x, Some (CrdCreate crd))
          else (CrdFailed e, None)
      | Inr b \<Rightarrow>
          (let want = wanted_gestations crd (CrdSpec b)
           in if CrdSpec b \<noteq> want then
                (case err of None \<Rightarrow> CrdUpdated | Some x \<Rightarrow> CrdFailed x, Some (CrdUpdate want))
              else if established (CrdConditions b) then (CrdReady, None)
              else (CrdNotEstablished, None)))"

section \<open>The server\<close>

text \<open>
  The server holds a definition or none; \<open>defaults\<close> is what it makes of a written
  specification; a write removes the conditions, and at the \<open>n\<close>-th pass the definition it
  holds is established when \<open>est n\<close>.
\<close>

type_synonym ('o, 'c) installer =
  "('o, 'c) crd_object api \<Rightarrow> api_error option \<Rightarrow> crd_result \<times> ('o, 'c) crd_spec crd_write option"

definition answer :: "bool \<Rightarrow> ('o, 'c) crd_spec option \<Rightarrow> ('o, 'c) crd_object api" where
  "answer est held =
     (case held of None \<Rightarrow> Inl NotFound
      | Some s \<Rightarrow> Inr \<lparr>CrdSpec = s, CrdConditions = (if est then [(''Established'', ''True'')] else [])\<rparr>)"

fun written :: "('s \<Rightarrow> 's) \<Rightarrow> 's crd_write option \<Rightarrow> 's option \<Rightarrow> 's option" where
  "written defaults None held = held"
| "written defaults (Some (CrdCreate s)) held = Some (defaults s)"
| "written defaults (Some (CrdUpdate s)) held = Some (defaults s)"

fun held_after ::
    "('o, 'c) installer \<Rightarrow> (('o, 'c) crd_spec \<Rightarrow> ('o, 'c) crd_spec) \<Rightarrow> (nat \<Rightarrow> bool) \<Rightarrow> ('o, 'c) crd_spec option \<Rightarrow> nat
     \<Rightarrow> ('o, 'c) crd_spec option" where
  "held_after ensure defaults est held 0 = held"
| "held_after ensure defaults est held (Suc n) =
     (let h = held_after ensure defaults est held n in written defaults (snd (ensure (answer (est n) h) None)) h)"

definition pass_result ::
    "('o, 'c) installer \<Rightarrow> (('o, 'c) crd_spec \<Rightarrow> ('o, 'c) crd_spec) \<Rightarrow> (nat \<Rightarrow> bool) \<Rightarrow> ('o, 'c) crd_spec option \<Rightarrow> nat
     \<Rightarrow> crd_result \<times> ('o, 'c) crd_spec crd_write option" where
  "pass_result ensure defaults est held n = ensure (answer (est n) (held_after ensure defaults est held n)) None"

section \<open>The contract of an installer\<close>

locale crd_installer =
  fixes ensure :: "('o, 'c) installer" and uptodate :: "('o, 'c) crd_spec \<Rightarrow> bool"
    and defaults :: "('o, 'c) crd_spec \<Rightarrow> ('o, 'c) crd_spec"
  assumes creates: "\<exists>s. ensure (Inl NotFound) None = (CrdCreated, Some (CrdCreate s)) \<and> uptodate (defaults s)"
    and renews: "\<not> uptodate (CrdSpec b) \<Longrightarrow>
      \<exists>s. ensure (Inr b) None = (CrdUpdated, Some (CrdUpdate s)) \<and> uptodate (defaults s)"
    and rests: "uptodate (CrdSpec b) \<Longrightarrow>
      ensure (Inr b) None = (if established (CrdConditions b) then CrdReady else CrdNotEstablished, None)"
begin

lemma up_after: "\<exists>s. held_after ensure defaults est held (Suc n) = Some s \<and> uptodate s"
proof (induction n)
  case 0
  show ?case
  proof (cases held)
    case None
    then show ?thesis using creates by (auto simp: answer_def)
  next
    case (Some s)
    let ?b = "\<lparr>CrdSpec = s, CrdConditions = (if est 0 then [(''Established'', ''True'')] else [])\<rparr>"
    show ?thesis using renews [of ?b] rests [of ?b] Some by (cases "uptodate s") (auto simp: answer_def)
  qed
next
  case (Suc n)
  then obtain s where s: "held_after ensure defaults est held (Suc n) = Some s" "uptodate s" by blast
  then show ?case
    using rests [of "\<lparr>CrdSpec = s, CrdConditions = (if est (Suc n) then [(''Established'', ''True'')] else [])\<rparr>"]
    unfolding held_after.simps(2) [of _ _ _ _ "Suc n"] Let_def s(1) by (simp add: answer_def)
qed

lemma later_passes:
  "pass_result ensure defaults est held (Suc n) = (if est (Suc n) then CrdReady else CrdNotEstablished, None)"
proof -
  obtain s where s: "held_after ensure defaults est held (Suc n) = Some s" "uptodate s" using up_after by blast
  show ?thesis
    unfolding pass_result_def s(1)
    using s(2) rests [of "\<lparr>CrdSpec = s, CrdConditions = (if est (Suc n) then [(''Established'', ''True'')] else [])\<rparr>"]
    by (simp add: answer_def established_def)
qed

lemma eventually_ready:
  assumes "\<forall>n \<ge> k. est n" and "k < n"
  shows "pass_result ensure defaults est held n = (CrdReady, None)"
  using later_passes [of est held "n - 1"] assms by simp

lemma first_pass_ready: "fst (pass_result ensure defaults est held 0) = CrdReady \<Longrightarrow> est 0 \<and> (\<exists>s. held = Some s \<and> uptodate s)"
proof (cases held)
  case (Some s)
  let ?b = "\<lparr>CrdSpec = s, CrdConditions = (if est 0 then [(''Established'', ''True'')] else [])\<rparr>"
  show "fst (pass_result ensure defaults est held 0) = CrdReady \<Longrightarrow> ?thesis"
    using renews [of ?b] rests [of ?b] Some
    by (cases "uptodate s") (auto simp: pass_result_def answer_def established_def split: if_splits)
next
  case None
  show "fst (pass_result ensure defaults est held 0) = CrdReady \<Longrightarrow> ?thesis"
    using creates None by (auto simp: pass_result_def answer_def)
qed

lemma ready_serves:
  assumes "fst (pass_result ensure defaults est held n) = CrdReady"
  shows "est n \<and> (\<exists>s. held_after ensure defaults est held n = Some s \<and> uptodate s)"
proof (cases n)
  case 0
  with assms have "fst (pass_result ensure defaults est held 0) = CrdReady" by simp
  from first_pass_ready [OF this] 0 show ?thesis by simp
next
  case (Suc m)
  then show ?thesis using later_passes [of est held m] up_after [of est held m] assms by (simp split: if_splits)
qed

end

text \<open>What the server does to a specification: it may default the two fields, nothing else.\<close>

definition only_defaults :: "(('o, 'c) crd_spec \<Rightarrow> ('o, 'c) crd_spec) \<Rightarrow> bool" where
  "only_defaults defaults \<longleftrightarrow> (\<forall>s. Owned (defaults s) = Owned s)"

definition default_conversion :: "'c \<Rightarrow> ('o, 'c) crd_spec \<Rightarrow> ('o, 'c) crd_spec" where
  "default_conversion c s = s\<lparr>Conversion := c\<rparr>"

lemma uptodate_iff: "specUpToDate existing want \<longleftrightarrow> Owned existing = Owned want"
  by (cases existing, cases want) (auto simp: specUpToDate_def)

lemma wanted_iff: "existing = wanted_gestations crd existing \<longleftrightarrow> Owned existing = Owned crd"
  by (cases existing, cases crd) (auto simp: wanted_gestations_def)

lemma owned_wanted: "Owned (wanted_gestations crd existing) = Owned crd"
  by (simp add: wanted_gestations_def)

lemma relationship_installer:
  "only_defaults defaults \<Longrightarrow>
   crd_installer (ensureRelationshipCRD want) (\<lambda>s. Owned s = Owned want) defaults"
  by unfold_locales
     (auto simp: ensureRelationshipCRD_def uptodate_iff renew_relationships_def only_defaults_def)

lemma gestation_installer:
  "only_defaults defaults \<Longrightarrow> crd_installer (ensureGestationCRD crd) (\<lambda>s. Owned s = Owned crd) defaults"
  by unfold_locales
     (auto simp: ensureGestationCRD_def Let_def wanted_iff only_defaults_def owned_wanted)

interpretation relationship_crd: crd_installer "ensureRelationshipCRD want" "\<lambda>s. Owned s = Owned want" "default_conversion c"
  for want :: "('o, 'c) crd_spec" and c
  by (rule relationship_installer) (simp add: only_defaults_def default_conversion_def)

interpretation gestation_crd: crd_installer "ensureGestationCRD crd" "\<lambda>s. Owned s = Owned crd" "default_conversion c"
  for crd :: "('o, 'c) crd_spec" and c
  by (rule gestation_installer) (simp add: only_defaults_def default_conversion_def)


section \<open>Both controllers get there\<close>

text \<open>The server at the \<open>n\<close>-th pass serves a definition with the wanted content.\<close>

definition serves_definition ::
    "('o, 'c) installer \<Rightarrow> (('o, 'c) crd_spec \<Rightarrow> ('o, 'c) crd_spec) \<Rightarrow> (nat \<Rightarrow> bool) \<Rightarrow> ('o, 'c) crd_spec option \<Rightarrow> nat \<Rightarrow> 'o \<Rightarrow> bool" where
  "serves_definition ensure defaults est held n w \<longleftrightarrow>
     est n \<and> (case held_after ensure defaults est held n of None \<Rightarrow> False | Some s \<Rightarrow> Owned s = w)"

text \<open>
  Claim C22. The custom resources get installed: whatever definition the server starts with,
  none, an old one or the right one, and whatever it defaults, both controllers write at most
  in their first pass; once the server establishes the definitions it holds, every later pass
  finds its API ready; and a pass takes its API for ready only when the server holds the
  definition the controller wants, established.
\<close>

theorem crds_get_installed:
  assumes "only_defaults defaults" and "\<forall>n \<ge> k. est n"
    and "ensure = ensureGestationCRD crd \<or> ensure = ensureRelationshipCRD crd"
  shows "(\<forall>n > k. pass_result ensure defaults est held n = (CrdReady, None))
    \<and> (\<forall>n > 0. snd (pass_result ensure defaults est held n) = None)
    \<and> (\<forall>n. fst (pass_result ensure defaults est held n) = CrdReady \<longrightarrow> serves_definition ensure defaults est held n (Owned crd))"
proof -
  have i: "crd_installer ensure (\<lambda>s. Owned s = Owned crd) defaults"
    using assms(3) gestation_installer [OF assms(1)] relationship_installer [OF assms(1)] by blast
  have "pass_result ensure defaults est held n = (CrdReady, None)" if "n > k" for n
    using crd_installer.eventually_ready [OF i assms(2) that] .
  moreover have "snd (pass_result ensure defaults est held n) = None" if "n > 0" for n
    using crd_installer.later_passes [OF i, of est held "n - 1"] that by simp
  moreover have "serves_definition ensure defaults est held n (Owned crd)"
    if "fst (pass_result ensure defaults est held n) = CrdReady" for n
    using crd_installer.ready_serves [OF i that] by (auto simp: serves_definition_def)
  ultimately show ?thesis by blast
qed

text \<open>A server with the definition of an older release, which defaults the conversion.\<close>

definition demo_crd :: "(string, string) crd_spec" where
  "demo_crd = \<lparr>Owned = ''gestations v2'', Conversion = [], PreserveUnknown = False\<rparr>"

theorem crds_get_installed_witness:
  "pass_result (ensureGestationCRD demo_crd) (default_conversion ''None'') (\<lambda>n. 3 \<le> n)
     (Some \<lparr>Owned = ''gestations v1'', Conversion = ''None'', PreserveUnknown = True\<rparr>) 5 = (CrdReady, None)"
proof -
  have "only_defaults (default_conversion ''None'' :: (string, string) crd_spec \<Rightarrow> _)"
    by (simp add: only_defaults_def default_conversion_def)
  then show ?thesis
    using crds_get_installed [of "default_conversion ''None''" 3 "\<lambda>n. 3 \<le> n" "ensureGestationCRD demo_crd" demo_crd] by simp
qed

end
