(* ===== verification/Passes.thy ===== *)
theory Passes
  imports Launch_Examples
begin

text \<open>
  A pass as its observers see it: which delivery it is on and which screening it has answered
  are changed by the first and the last step of a pass only (\<open>redelivery\<close> and
  \<open>screen_requested\<close>), its calls come after those before it, and what changed is written
  to the API. Below, what a pass does while a service is expected: its room is put in place.
\<close>

section \<open>The marks of a status, and the calls\<close>

definition marks :: "status \<Rightarrow> int \<times> gotime option \<times> gotime option" where
  "marks s = (Delivery s, DeliveryStarted s, ScreenedRequest s)"

named_theorems pass_marks

lemma marks_upd [pass_marks]:
  "marks (s\<lparr>Phase := p\<rparr>) = marks s" "marks (s\<lparr>Msg := m\<rparr>) = marks s" "marks (s\<lparr>Birth := b\<rparr>) = marks s"
  "marks (s\<lparr>Care := x\<rparr>) = marks s" "marks (s\<lparr>Scores := l\<rparr>) = marks s" "marks (s\<lparr>StReserved := i\<rparr>) = marks s"
  "marks (s\<lparr>StTrimester := t\<rparr>) = marks s" "marks (s\<lparr>StScreening := r\<rparr>) = marks s"
  "marks (s\<lparr>ScreenedTrimester := t\<rparr>) = marks s" "marks (s\<lparr>Caregivers := cg\<rparr>) = marks s"
  "marks (s\<lparr>StGrowth := gr\<rparr>) = marks s" "marks (s\<lparr>GrowthNote := n\<rparr>) = marks s" "marks (set_care f s) = marks s"
  by (simp_all add: marks_def set_care_def)

lemma calls_basic [pass_marks]:
  "n \<le> Calls c \<Longrightarrow> n \<le> Calls (snd (ask f c))" "n \<le> Calls c \<Longrightarrow> n \<le> Calls (snd (do_write k e c))"
  by simp_all

lemma placentaPods_calls [pass_marks]: "n \<le> Calls c \<Longrightarrow> n \<le> Calls (snd (placentaPods k c))"
  by (simp add: placentaPods_def case_prod_beta)

lemma screen_pass [pass_marks]:
  "marks (St (screen L k g d r t c)) = marks (St c)" "n \<le> Calls c \<Longrightarrow> n \<le> Calls (screen L k g d r t c)"
  by (simp_all add: screen_def Let_def case_prod_beta pass_marks le_SucI)

lemma ensurePlacenta_calls [pass_marks]: "n \<le> Calls c \<Longrightarrow> n \<le> Calls (snd (ensurePlacenta L k g r sz t c))"
  by (simp add: ensurePlacenta_def Let_def case_prod_beta split: sum.splits api_error.splits)

lemma pregnancy_pass [pass_marks]:
  "marks (St (snd (pregnancy L k g d t c))) = marks (St c)" "n \<le> Calls c \<Longrightarrow> n \<le> Calls (snd (pregnancy L k g d t c))"
  by (simp_all add: pregnancy_def Let_def case_prod_beta pass_marks split: option.splits sum.splits)

lemma releasePlacenta_calls [pass_marks]: "n \<le> Calls c \<Longrightarrow> n \<le> Calls (snd (releasePlacenta k g c))"
  by (simp add: releasePlacenta_def Let_def case_prod_beta pass_marks le_SucI
      split: sum.splits api_error.splits option.splits)

lemma setNewborn_calls [pass_marks]: "n \<le> Calls c \<Longrightarrow> n \<le> Calls (snd (setNewborn L k ns sel cls c))"
  by (simp add: setNewborn_def patchNewborns_def Let_def case_prod_beta split: sum.splits)

lemma budget_calls [pass_marks]: "n \<le> Calls c \<Longrightarrow> n \<le> Calls (snd (budget L k g d want c))"
  by (simp add: budget_def createPDB_def Let_def case_prod_beta split: sum.splits)

lemma prepareBirth_calls [pass_marks]: "n \<le> Calls c \<Longrightarrow> n \<le> Calls (snd (prepareBirth L k g d c))"
  by (simp add: prepareBirth_def Let_def case_prod_beta pass_marks le_SucI split: option.splits sum.splits)

lemma commitBirth_pass [pass_marks]:
  "marks (St (snd (commitBirth L k d t plan c))) = marks (St c)"
  "n \<le> Calls c \<Longrightarrow> n \<le> Calls (snd (commitBirth L k d t plan c))"
  by (simp_all add: commitBirth_def Let_def case_prod_beta pass_marks split: option.splits)

lemma giveBirth_pass [pass_marks]:
  "marks (St (snd (giveBirth L k g d t c))) = marks (St c)" "n \<le> Calls c \<Longrightarrow> n \<le> Calls (snd (giveBirth L k g d t c))"
  by (simp_all add: giveBirth_def case_prod_beta pass_marks split: sum.splits)

lemma deliver_pass [pass_marks]:
  "marks (St (snd (deliver L k g d t c))) = marks (St c)" "n \<le> Calls c \<Longrightarrow> n \<le> Calls (snd (deliver L k g d t c))"
  by (simp_all add: deliver_def Let_def case_prod_beta pass_marks split: sum.splits option.splits)

lemma deletePDB_calls [pass_marks]: "n \<le> Calls c \<Longrightarrow> n \<le> Calls (snd (deletePDB k c))"
  by (simp add: deletePDB_def Let_def case_prod_beta split: sum.splits option.splits)

lemma resolve_pass [pass_marks]:
  "marks (St (snd (resolveRevisions L k d b c))) = marks (St c)"
  "n \<le> Calls c \<Longrightarrow> n \<le> Calls (snd (resolveRevisions L k d b c))"
  by (simp_all add: resolveRevisions_def Let_def case_prod_beta pass_marks split: sum.splits)

lemma rollback_pass [pass_marks]:
  "marks (St (snd (rollback k d b c))) = marks (St c)" "n \<le> Calls c \<Longrightarrow> n \<le> Calls (snd (rollback k d b c))"
  by (simp_all add: rollback_def Let_def case_prod_beta pass_marks le_SucI split: sum.splits option.splits)

lemma tell_pass [pass_marks]:
  "marks (St (tell_score d sc why c)) = marks (St c)" "Calls (tell_score d sc why c) = Calls c"
  by (simp_all add: tell_score_def pass_marks)

lemma apgar_pass [pass_marks]:
  "marks (St (snd (apgar_step k g d b t c))) = marks (St c)" "n \<le> Calls c \<Longrightarrow> n \<le> Calls (snd (apgar_step k g d b t c))"
  by (simp_all add: apgar_step_def Let_def case_prod_beta pass_marks le_SucI split: sum.splits option.splits)

lemma discharge_pass [pass_marks]:
  "marks (St (snd (discharge L k d b t cg c))) = marks (St c)"
  "n \<le> Calls c \<Longrightarrow> n \<le> Calls (snd (discharge L k d b t cg c))"
  by (simp_all add: discharge_def Let_def case_prod_beta pass_marks le_SucI split: option.splits)

lemma care_pass [pass_marks]:
  "marks (St (snd (care_step L k d b t c))) = marks (St c)" "n \<le> Calls c \<Longrightarrow> n \<le> Calls (snd (care_step L k d b t c))"
  by (simp_all add: care_step_def Let_def case_prod_beta pass_marks split: option.splits)

lemma depart_pass [pass_marks]:
  "marks (St (snd (depart L k g b t c))) = marks (St c)" "n \<le> Calls c \<Longrightarrow> n \<le> Calls (snd (depart L k g b t c))"
  by (simp_all add: depart_def Let_def case_prod_beta pass_marks)

lemma measure_pass [pass_marks]:
  "marks (St (measure_step k nb t c)) = marks (St c)" "n \<le> Calls c \<Longrightarrow> n \<le> Calls (measure_step k nb t c)"
  by (simp_all add: measure_step_def Let_def case_prod_beta pass_marks split: sum.splits)

lemma remember_calls [pass_marks]: "n \<le> Calls c \<Longrightarrow> n \<le> Calls (remember L k d c)"
  by (simp add: remember_def Let_def case_prod_beta)

lemma tend_pass [pass_marks]:
  "marks (St (snd (tend L k g d b t c))) = marks (St c)" "n \<le> Calls c \<Longrightarrow> n \<le> Calls (snd (tend L k g d b t c))"
  by (simp_all add: tend_def Let_def case_prod_beta pass_marks)

lemma look_after_pass [pass_marks]:
  "marks (St (snd (look_after L k g d b t c))) = marks (St c)"
  "n \<le> Calls c \<Longrightarrow> n \<le> Calls (snd (look_after L k g d b t c))"
  by (simp_all add: look_after_def Let_def case_prod_beta pass_marks)

lemma advance_pass [pass_marks]:
  "marks (St (snd (advance L k g d t c))) = marks (St c)" "n \<le> Calls c \<Longrightarrow> n \<le> Calls (snd (advance L k g d t c))"
  by (simp_all add: advance_def afterBirth_def Let_def case_prod_beta pass_marks split: option.splits)

section \<open>A pass that can read the Deployment, or finds none\<close>

definition finds_deployment :: "('q, 'x) cluster \<Rightarrow> ('q, 'x) ctl \<Rightarrow> gestation \<Rightarrow> bool" where
  "finds_deployment k c g \<longleftrightarrow>
     (case GetDeployment k (Calls c) (SpecDeployment (GSpec g)) of Inl e \<Rightarrow> e = NotFound | Inr _ \<Rightarrow> True)"

definition deployment_found :: "('q, 'x) cluster \<Rightarrow> ('q, 'x) ctl \<Rightarrow> gestation \<Rightarrow> ('q, 'x) deployment option" where
  "deployment_found k c g =
     (case GetDeployment k (Calls c) (SpecDeployment (GSpec g)) of Inl _ \<Rightarrow> None | Inr d \<Rightarrow> Some d)"

definition pass_start :: "('q, 'x) cluster \<Rightarrow> gestation \<Rightarrow> gotime \<Rightarrow> ('q, 'x) ctl \<Rightarrow> ('q, 'x) ctl" where
  "pass_start k g t c = upd (redelivery g t) (snd (ask (\<lambda>n. GetDeployment k n (SpecDeployment (GSpec g))) c))"

lemma pass_start_simps [simp]:
  "St (pass_start k g t c) = redelivery g t (St c)" "Log (pass_start k g t c) = Log c"
  "Calls (pass_start k g t c) = Suc (Calls c)"
  by (simp_all add: pass_start_def)

definition pass_end :: "('q, 'x) library \<Rightarrow> ('q, 'x) cluster \<Rightarrow> gestation \<Rightarrow> gotime \<Rightarrow> ('q, 'x) ctl \<Rightarrow> ('q, 'x) ctl" where
  "pass_end L k g t c =
     screen_requested L k g (deployment_found k c g) t (snd (advance L k g (deployment_found k c g) t (pass_start k g t c)))"

lemma reconcile_found:
  assumes "finds_deployment k c g"
  shows "reconcile L k g t c =
    (let es = fst (advance L k g (deployment_found k c g) t (pass_start k g t c)); c' = pass_end L k g t c
     in if stored (St c') = stored (St c) then (es, c')
        else (es @ errs (Write k (Calls c')), snd (do_write k (UpdateStatus (GName g) (stored (St c'))) c')))"
  using assms
  by (auto simp: reconcile_def finds_deployment_def deployment_found_def pass_start_def pass_end_def Let_def case_prod_beta
      split: sum.splits)

lemma reconcile_end: "finds_deployment k c g \<Longrightarrow> St (snd (reconcile L k g t c)) = St (pass_end L k g t c)"
  by (simp add: reconcile_found Let_def)

text \<open>What changed is written to the API; a write that is refused is an error of the pass.\<close>

lemma reconcile_writes:
  assumes "finds_deployment k c g" and "stored (St (snd (reconcile L k g t c))) \<noteq> stored (St c)"
  shows "\<exists>ok. (UpdateStatus (GName g) (stored (St (snd (reconcile L k g t c)))), ok) \<in> set (Log (snd (reconcile L k g t c)))
    \<and> (ok \<or> fst (reconcile L k g t c) \<noteq> [])"
  using assms(2) unfolding reconcile_found [OF assms(1)]
  by (cases "Write k (Calls (pass_end L k g t c))") (auto simp: Let_def errs_def)

lemma screen_requested_marks:
  "Delivery (St (screen_requested L k g d t c)) = Delivery (St c)"
  "DeliveryStarted (St (screen_requested L k g d t c)) = DeliveryStarted (St c)"
  using screen_pass(1) [of L k g d "''requested''" t c]
  by (auto simp: screen_requested_def marks_def split: option.splits)

lemma advance_marks:
  "Delivery (St (snd (advance L k g d t c))) = Delivery (St c)"
  "DeliveryStarted (St (snd (advance L k g d t c))) = DeliveryStarted (St c)"
  "ScreenedRequest (St (snd (advance L k g d t c))) = ScreenedRequest (St c)"
  using advance_pass(1) [of L k g d t c] by (simp_all add: marks_def)

lemma reconcile_delivery:
  assumes "finds_deployment k c g"
  shows "Delivery (St (snd (reconcile L k g t c))) = Delivery (redelivery g t (St c))"
    and "DeliveryStarted (St (snd (reconcile L k g t c))) = DeliveryStarted (redelivery g t (St c))"
  by (simp_all add: reconcile_end [OF assms] pass_end_def screen_requested_marks advance_marks)

section \<open>The screening of a request\<close>

text \<open>The placeholders that hold their room, as the \<open>n\<close>-th answer lists them.\<close>

definition holding :: "('q, 'x) cluster \<Rightarrow> nat \<Rightarrow> 'q placeholder list" where
  "holding k n =
     (case PlacentaPods k n of
        Inl _ \<Rightarrow> []
      | Inr ps \<Rightarrow> filter (\<lambda>p. HoldPhase p \<noteq> PodSucceeded \<and> HoldPhase p \<noteq> PodFailed) ps)"

definition requested_screening ::
    "('q, 'x) library \<Rightarrow> ('q, 'x) cluster \<Rightarrow> gestation \<Rightarrow> ('q, 'x) deployment option \<Rightarrow> gotime \<Rightarrow> nat \<Rightarrow> nat \<Rightarrow> screening" where
  "requested_screening L k g d t n m =
     \<lparr>ScreenTime = t, ScreenReason = ''requested'',
      Findings = Screen (Quantities L) (ParseQuantity L) (AsSelector L)
        \<lparr>InNamespace = GNamespace g, InSpec = GSpec g, InDeployment = map_option screened_of d,
         InPlacenta = placentaUsage (Quantities L) (holding k n)\<rparr> (LookupAt k m)\<rparr>"

lemma screen_run:
  "StScreening (St (screen L k g d ''requested'' t c)) = Some (requested_screening L k g d t (Calls c) (Suc (Calls c)))"
  by (simp add: screen_def requested_screening_def placentaPods_def holding_def Let_def case_prod_beta)

lemma reconcile_screens:
  assumes "finds_deployment k c g" and "ScreenRequested (GSpec g) = Some r" and "ScreenedRequest (St c) \<noteq> Some r"
  shows "\<exists>n. Calls c < n \<and>
    StScreening (St (snd (reconcile L k g t c))) = Some (requested_screening L k g (deployment_found k c g) t n (Suc n))"
proof -
  let ?a = "snd (advance L k g (deployment_found k c g) t (pass_start k g t c))"
  have "Suc (Calls c) \<le> Calls ?a" by (rule advance_pass(2)) simp
  moreover have "ScreenedRequest (St ?a) = ScreenedRequest (St c)"
    by (simp add: advance_marks redelivery_def)
  then have "StScreening (St (pass_end L k g t c))
      = Some (requested_screening L k g (deployment_found k c g) t (Calls ?a) (Suc (Calls ?a)))"
    using assms(2, 3) by (simp add: pass_end_def screen_requested_def screen_run)
  ultimately show ?thesis
    by (intro exI [of _ "Calls ?a"]) (simp add: reconcile_end [OF assms(1)])
qed

lemma reconcile_screened:
  assumes "finds_deployment k c g" and "ScreenRequested (GSpec g) = Some r"
  shows "ScreenedRequest (St (snd (reconcile L k g t c))) = Some r"
  by (simp add: reconcile_end [OF assms(1)] pass_end_def screen_requested_def assms(2))

section \<open>The room of an expected service\<close>

text \<open>
  The placeholders a pass wants: their Deployment and the mark of everything in it but the
  number of replicas. They are in place when the API has them as they should be, or has just
  confirmed that it creates or changes them.
\<close>

definition wanted_room ::
    "('q, 'x) library \<Rightarrow> gestation \<Rightarrow> int \<Rightarrow> 'q \<times> 'q \<Rightarrow> ('q, 'x) deployment option \<Rightarrow> ('q, 'x) room" where
  "wanted_room L g reserved sz d =
     Placenta (GName g) (GNamespace g) (SpecDeployment (GSpec g)) (GUID g) reserved sz (map_option (PTSched \<circ> DepTemplate) d)"

definition room_mark :: "('q, 'x) library \<Rightarrow> ('q, 'x) room \<Rightarrow> string" where
  "room_mark L want = RoomHash L (want\<lparr>PlReplicas := 0\<rparr>)"

definition as_wanted :: "int \<Rightarrow> string \<Rightarrow> ('q, 'x) deployment \<Rightarrow> bool" where
  "as_wanted reserved mark p \<longleftrightarrow>
     ptr_deref (DepReplicas p) 1 = reserved \<and> lookup_str (DepAnnotations p) placentaHashAnnotation = mark"

definition room_in_place ::
    "('q, 'x) library \<Rightarrow> ('q, 'x) cluster \<Rightarrow> gestation \<Rightarrow> ('q, 'x) room \<Rightarrow> int \<Rightarrow> nat \<Rightarrow> (('q, 'x) effect \<times> bool) list \<Rightarrow> bool" where
  "room_in_place L k g want reserved n l \<longleftrightarrow>
     (case GetDeployment k n (PlName want) of
        Inl e \<Rightarrow> e = NotFound \<and> (CreatePlacenta want (room_mark L want), True) \<in> set l
      | Inr p \<Rightarrow> DepController p = Some (GUID g) \<and>
          (as_wanted reserved (room_mark L want) p
           \<or> (\<exists>u room. (UpdatePlacenta u room, True) \<in> set l \<and> DepName u = DepName p \<and> as_wanted reserved (room_mark L want) u
                \<and> (room = Some want \<or> lookup_str (DepAnnotations p) placentaHashAnnotation = room_mark L want))))"

text \<open>Why it may not be: it cannot be read, belongs to someone else, or a write was refused.\<close>

definition room_missing ::
    "('q, 'x) cluster \<Rightarrow> gestation \<Rightarrow> string \<Rightarrow> nat \<Rightarrow> (('q, 'x) effect \<times> bool) list \<Rightarrow> bool" where
  "room_missing k g name n l \<longleftrightarrow>
     (case GetDeployment k n name of Inl e \<Rightarrow> e \<noteq> NotFound | Inr p \<Rightarrow> DepController p \<noteq> Some (GUID g))
     \<or> (\<exists>e. (e, False) \<in> set l)"

lemma ensurePlacenta_room:
  fixes c :: "('q, 'x) ctl"
  assumes "want = wanted_room L g reserved sz d" and "r = ensurePlacenta L k g reserved sz (map_option DepTemplate d) c"
  shows "\<exists>l. Log (snd r) = Log c @ l
    \<and> (fst r = None \<longrightarrow> room_in_place L k g want reserved (Calls c) l)
    \<and> (fst r \<noteq> None \<longrightarrow> room_missing k g (PlName want) (Calls c) l)"
proof -
  have want: "Placenta (GName g) (GNamespace g) (SpecDeployment (GSpec g)) (GUID g) reserved sz
      (map_option PTSched (map_option DepTemplate d)) = want"
    by (simp add: assms(1) wanted_room_def option.map_comp)
  show ?thesis
  proof (cases "GetDeployment k (Calls c) (PlName want)")
    case (Inl e)
    show ?thesis
      unfolding assms(2) ensurePlacenta_def Let_def want
      using Inl by (cases e) (auto simp: room_in_place_def room_missing_def room_mark_def case_prod_beta)
  next
    case (Inr p)
    show ?thesis
      unfolding assms(2) ensurePlacenta_def Let_def want
      using Inr
      by (auto simp: room_in_place_def room_missing_def room_mark_def as_wanted_def case_prod_beta ptr_deref_def lookup_str_def)
  qed
qed

lemma room_in_place_mono:
  assumes "room_in_place L k g want reserved n l" and "set l \<subseteq> set l'"
  shows "room_in_place L k g want reserved n l'"
  using assms unfolding room_in_place_def by (cases "GetDeployment k n (PlName want)") (simp_all, blast+)

lemma room_missing_mono: "room_missing k g name n l \<Longrightarrow> set l \<subseteq> set l' \<Longrightarrow> room_missing k g name n l'"
  unfolding room_missing_def by blast

lemma screen_room:
  "StTrimester (St (screen L k g d r t c)) = StTrimester (St c)" "StReserved (St (screen L k g d r t c)) = StReserved (St c)"
  "extends c (screen L k g d r t c)"
  by (simp_all add: screen_def extends_def Let_def case_prod_beta)

lemma screen_requested_room:
  "StTrimester (St (screen_requested L k g d t c)) = StTrimester (St c)"
  "StReserved (St (screen_requested L k g d t c)) = StReserved (St c)"
  by (simp_all add: screen_requested_def screen_room split: option.splits)

text \<open>What the status says while a service is expected.\<close>

definition expects :: "gestation \<Rightarrow> gotime \<Rightarrow> gotime \<Rightarrow> status \<Rightarrow> bool" where
  "expects g due t s \<longleftrightarrow>
     Phase s = PhaseExpecting \<and> Birth s = None \<and> StTrimester s = Trimester (GCreated g) due t
     \<and> StReserved s = Reserved (StTrimester s) (SpecReplicas (GSpec g))"

lemma pregnancy_expects:
  assumes "DueTime (ParseDate L) (GSpec g) = Some due" and "Trimester (GCreated g) due t \<noteq> 0"
    and "ParseSize (ParseQuantity L) (QSign (Quantities L)) (Size (GSpec g)) = Inr sz" and "Birth (St c) = None"
    and "e = ensurePlacenta L k g (Reserved (Trimester (GCreated g) due t) (SpecReplicas (GSpec g))) sz (map_option DepTemplate d) c"
  shows "expects g due t (St (snd (pregnancy L k g d t c))) \<and> fst (pregnancy L k g d t c) = fst e
    \<and> extends (snd e) (snd (pregnancy L k g d t c))"
  using assms(1-4) unfolding assms(5)
  by (simp add: pregnancy_def expects_def Let_def case_prod_beta screen_room)
    (simp add: screen_def extends_def Let_def case_prod_beta)

lemma expecting_pass:
  fixes c :: "('q, 'x) ctl"
  assumes found: "finds_deployment k c g"
    and expecting: "Birth (St c) = None" "Phase (St c) \<noteq> PhaseDelivering" "SpecDelivery (GSpec g) \<le> Delivery (St c)"
    and due: "DueTime (ParseDate L) (GSpec g) = Some due" "Trimester (GCreated g) due t \<noteq> 0"
    and sz: "ParseSize (ParseQuantity L) (QSign (Quantities L)) (Size (GSpec g)) = Inr sz"
    and room: "reserved = Reserved (Trimester (GCreated g) due t) (SpecReplicas (GSpec g))"
      "want = wanted_room L g reserved sz (deployment_found k c g)"
  shows "expects g due t (St (snd (reconcile L k g t c)))
    \<and> (\<exists>l. Log (snd (reconcile L k g t c)) = Log c @ l
         \<and> (fst (reconcile L k g t c) = [] \<longrightarrow> room_in_place L k g want reserved (Suc (Calls c)) l)
         \<and> (fst (reconcile L k g t c) \<noteq> [] \<longrightarrow> room_missing k g (PlName want) (Suc (Calls c)) l))"
proof -
  let ?d = "deployment_found k c g" and ?c0 = "pass_start k g t c"
  have st: "St ?c0 = St c" using expecting by (simp add: redelivery_def)
  define e where "e = ensurePlacenta L k g reserved sz (map_option DepTemplate ?d) ?c0"
  define c1 where "c1 = snd (pregnancy L k g ?d t ?c0)"
  have p: "expects g due t (St c1)" "fst (pregnancy L k g ?d t ?c0) = fst e" "extends (snd e) c1"
    using pregnancy_expects [OF due sz, of ?c0 e k ?d] expecting(1) st unfolding e_def c1_def room(1) by simp_all
  have adv: "advance L k g ?d t ?c0 = (errs (fst e), c1)"
    using expecting st p(2) by (simp add: advance_def case_prod_beta c1_def)
  let ?c2 = "pass_end L k g t c"
  have c2: "?c2 = screen_requested L k g ?d t c1" by (simp add: pass_end_def adv)
  have s2: "expects g due t (St ?c2)" using p(1) by (simp add: c2 expects_def screen_requested_room)
  obtain l1 where l1: "Log (snd e) = Log c @ l1"
    "fst e = None \<longrightarrow> room_in_place L k g want reserved (Suc (Calls c)) l1"
    "fst e \<noteq> None \<longrightarrow> room_missing k g (PlName want) (Suc (Calls c)) l1"
    using ensurePlacenta_room [OF room(2), of e k ?c0] by (auto simp: e_def)
  have "extends (snd e) ?c2" unfolding c2 by (rule extends_trans [OF p(3) extends_screen_requested])
  then obtain l2 where l2: "Log ?c2 = Log c @ l1 @ l2" using l1(1) by (auto simp: extends_def)
  let ?w = "if stored (St ?c2) = stored (St c) then [] else [(UpdateStatus (GName g) (stored (St ?c2)), Write k (Calls ?c2) = None)]"
  have log: "Log (snd (reconcile L k g t c)) = Log c @ (l1 @ l2 @ ?w)"
    unfolding reconcile_found [OF found] by (simp add: Let_def l2)
  have es: "fst (reconcile L k g t c) = errs (fst e) @ (if stored (St ?c2) = stored (St c) then [] else errs (Write k (Calls ?c2)))"
    unfolding reconcile_found [OF found] by (simp add: Let_def adv)
  have sub: "set l1 \<subseteq> set (l1 @ l2 @ ?w)" by simp
  have ok: "room_in_place L k g want reserved (Suc (Calls c)) (l1 @ l2 @ ?w)" if "fst (reconcile L k g t c) = []"
    using that l1(2) room_in_place_mono [OF _ sub] by (cases "fst e") (simp_all add: es errs_def)
  have bad: "room_missing k g (PlName want) (Suc (Calls c)) (l1 @ l2 @ ?w)" if "fst (reconcile L k g t c) \<noteq> []"
  proof (cases "fst e")
    case None
    then have "(UpdateStatus (GName g) (stored (St ?c2)), False) \<in> set (l1 @ l2 @ ?w)"
      using that by (auto simp: es errs_def split: if_splits)
    then show ?thesis unfolding room_missing_def by blast
  next
    case (Some x)
    then show ?thesis using l1(3) room_missing_mono [OF _ sub] by simp
  qed
  show ?thesis using s2 reconcile_end [OF found] log ok bad by auto
qed

end
