(* ===== verification/Kyvctl_Plan.thy ===== *)
theory Kyvctl_Plan
  imports Passes Remember
begin

text \<open>
  The commands that steer a gestation (\<open>kyvctl/gestation.go\<close>): \<open>getGestation\<close>,
  \<open>Conceive\<close>, \<open>Screen\<close> with its wait for the controller, \<open>Deliver\<close> and
  \<open>findGestation\<close>. An object of the API is a value of type \<open>'u\<close>, read by the
  converter of the library, the parameter \<open>convert\<close>. A message of the code is a
  constructor of \<open>refusal\<close> with the values the code formats into it; a nil pointer the
  code would follow is \<open>NilDereference\<close>. The answers of the API during the wait are a
  function of the number of the poll. The properties compose the commands with the passes of
  the gestation controller.
\<close>

section \<open>Answers\<close>

datatype refusal =
    NoGestationAPI
  | NoSuchGestation string string
  | ApiRefused api_error
  | Unreadable
  | DueNeedsDate
  | DueNotInFuture string
  | SizeNeedsBoth
  | SizeBad string
  | ReplicasAtLeastOne
  | AlreadyOnItsWay string string
  | WentBackBefore string string
  | HasLeft string
  | WasBornOn string gotime
  | NotAnsweredYet
  | Interrupted
  | CannotLookUpBy string
  | NoneForDeployment string string
  | NilDereference

type_synonym planned = "gestation \<times> status"

definition from_unstructured :: "('u \<Rightarrow> planned option) \<Rightarrow> 'u \<Rightarrow> refusal + planned" where
  "from_unstructured convert u = (case convert u of None \<Rightarrow> Inl Unreadable | Some g \<Rightarrow> Inr g)"

definition getGestation ::
    "('u \<Rightarrow> planned option) \<Rightarrow> 'u api \<Rightarrow> unit api \<Rightarrow> string \<Rightarrow> string \<Rightarrow> refusal + planned" where
  "getGestation convert got served ns name =
     (case got of
        Inl e \<Rightarrow>
          if e = NotFound then
            if served = Inl NotFound then Inl NoGestationAPI else Inl (NoSuchGestation name ns)
          else Inl (ApiRefused e)
      | Inr u \<Rightarrow> from_unstructured convert u)"

section \<open>Conceive\<close>

record conceive_options =
  OptDue :: string
  OptSize :: string
  OptReplicas :: int
  OptDeployment :: string
  OptNoRollback :: bool

definition conceive_size ::
    "(string \<Rightarrow> 'q option) \<Rightarrow> ('q \<Rightarrow> int) \<Rightarrow> string \<Rightarrow> refusal + size" where
  "conceive_size parse_quantity sign_of text =
     (let (cpu, mem, ok) = cut (CHR ''/'') text
      in if \<not> ok then Inl SizeNeedsBoth
         else
           let s = \<lparr>SizeCPU = trim_space cpu, SizeMemory = trim_space mem\<rparr>
           in case ParseSize parse_quantity sign_of s of Inl e \<Rightarrow> Inl (SizeBad e) | Inr _ \<Rightarrow> Inr s)"

definition conceive_spec ::
    "(string \<Rightarrow> gotime option) \<Rightarrow> (string \<Rightarrow> 'q option) \<Rightarrow> ('q \<Rightarrow> int) \<Rightarrow> string \<Rightarrow> conceive_options \<Rightarrow> gotime
     \<Rightarrow> refusal + spec" where
  "conceive_spec parse_date parse_quantity sign_of name opts now =
     (case parse_date (OptDue opts) of
        None \<Rightarrow> Inl DueNeedsDate
      | Some due \<Rightarrow>
          if \<not> now < due then Inl (DueNotInFuture (OptDue opts))
          else case conceive_size parse_quantity sign_of (OptSize opts) of
            Inl e \<Rightarrow> Inl e
          | Inr s \<Rightarrow>
              if OptReplicas opts < 1 then Inl ReplicasAtLeastOne
              else Inr \<lparr>SpecDeployment = (if OptDeployment opts = [] then name else OptDeployment opts),
                        Due = OptDue opts, Size = s, SpecReplicas = OptReplicas opts, ScreenRequested = None,
                        SpecDelivery = 0, AutoRollback = (if OptNoRollback opts then Some False else None)\<rparr>)"

text \<open>What is sent to be created, and the result; \<open>create\<close> is the API's answer.\<close>

type_synonym 'u creation = "string \<times> string \<times> spec \<Rightarrow> 'u api"

definition Conceive ::
    "('u \<Rightarrow> planned option) \<Rightarrow> (string \<Rightarrow> gotime option) \<Rightarrow> (string \<Rightarrow> 'q option) \<Rightarrow> ('q \<Rightarrow> int) \<Rightarrow> 'u creation
     \<Rightarrow> string \<Rightarrow> string \<Rightarrow> conceive_options \<Rightarrow> gotime \<Rightarrow> (refusal + planned) \<times> (string \<times> string \<times> spec) option" where
  "Conceive convert parse_date parse_quantity sign_of create ns name opts now =
     (case conceive_spec parse_date parse_quantity sign_of name opts now of
        Inl e \<Rightarrow> (Inl e, None)
      | Inr sp \<Rightarrow>
          (case create (ns, name, sp) of
             Inl NotFound \<Rightarrow> Inl NoGestationAPI
           | Inl AlreadyExists \<Rightarrow> Inl (AlreadyOnItsWay ns name)
           | Inl e \<Rightarrow> Inl (ApiRefused e)
           | Inr u \<Rightarrow> from_unstructured convert u,
           Some (ns, name, sp)))"

section \<open>Screen\<close>

text \<open>
  The wait: the \<open>n\<close>-th poll reads the object and then the clock, and then the wait for
  the next poll ends by time or by an interruption. The first reading of the clock, number 0,
  gives the deadline. The loop has no bound of its own, so it is a partial function.
\<close>

record 'u watch =
  WGet :: "nat \<Rightarrow> 'u api"
  WList :: "nat \<Rightarrow> unit api"
  WPatch :: "gotime \<Rightarrow> api_error option"
  WNow :: "nat \<Rightarrow> gotime"
  WInterrupted :: "nat \<Rightarrow> bool"

partial_function (option) await ::
    "('u \<Rightarrow> planned option) \<Rightarrow> 'u watch \<Rightarrow> gotime \<Rightarrow> gotime \<Rightarrow> string \<Rightarrow> string \<Rightarrow> nat \<Rightarrow> (refusal + planned) option" where
  "await convert w asked deadline ns name n =
     (case getGestation convert (WGet w n) (WList w n) ns name of
        Inl e \<Rightarrow> Some (Inl e)
      | Inr g \<Rightarrow>
          if ScreenedRequest (snd g) = Some asked then Some (Inr g)
          else if \<not> WNow w n < deadline then Some (Inl NotAnsweredYet)
          else if WInterrupted w n then Some (Inl Interrupted)
          else await convert w asked deadline ns name (Suc n))"

text \<open>The request is a time in whole seconds, as the API stores it.\<close>

definition asked_at :: "gotime \<Rightarrow> gotime" where
  "asked_at now = to_second now"

definition ask_screening ::
    "('u \<Rightarrow> planned option) \<Rightarrow> 'u watch \<Rightarrow> string \<Rightarrow> string \<Rightarrow> gotime \<Rightarrow> duration \<Rightarrow> (refusal + planned) option" where
  "ask_screening convert w ns name now timeout =
     (case getGestation convert (WGet w 0) (WList w 0) ns name of
        Inl e \<Rightarrow> Some (Inl e)
      | Inr _ \<Rightarrow>
          (case WPatch w (asked_at now) of
             Some e \<Rightarrow> Some (Inl (ApiRefused e))
           | None \<Rightarrow> await convert w (asked_at now) (t_add (WNow w 0) timeout) ns name 1))"

section \<open>Deliver\<close>

definition gestation_born :: "status \<Rightarrow> bool" where
  "gestation_born s \<longleftrightarrow> Birth s \<noteq> None \<and> Phase s \<noteq> PhaseRolledBack"

definition deliver_guard :: "bool \<Rightarrow> planned \<Rightarrow> refusal option" where
  "deliver_guard again g =
     (let (obj, s) = g
      in if Phase s = PhaseRolledBack \<and> \<not> again then
           Some (case Birth s of None \<Rightarrow> NilDereference
                 | Some b \<Rightarrow> WentBackBefore (SpecDeployment (GSpec obj)) (RolledBackTo b))
         else if Phase s = PhaseDeparted then Some (HasLeft (SpecDeployment (GSpec obj)))
         else if gestation_born s \<and> Phase s \<noteq> PhaseRolledBack then
           Some (case Birth s of None \<Rightarrow> NilDereference
                 | Some b \<Rightarrow> WasBornOn (SpecDeployment (GSpec obj)) (BirthTime b))
         else None)"

text \<open>The patch raises the number of the delivery asked for.\<close>

definition Deliver ::
    "('u \<Rightarrow> planned option) \<Rightarrow> 'u api \<Rightarrow> unit api \<Rightarrow> (int \<Rightarrow> 'u api) \<Rightarrow> string \<Rightarrow> string \<Rightarrow> bool
     \<Rightarrow> (refusal + planned) \<times> int option" where
  "Deliver convert got served patch ns name again =
     (case getGestation convert got served ns name of
        Inl e \<Rightarrow> (Inl e, None)
      | Inr g \<Rightarrow>
          (case deliver_guard again g of
             Some e \<Rightarrow> (Inl e, None)
           | None \<Rightarrow>
               if SpecDelivery (GSpec (fst g)) > Delivery (snd g) then (Inr g, None)
               else
                 let nxt = i32 (Delivery (snd g) + 1)
                 in (case patch nxt of Inl e \<Rightarrow> Inl (ApiRefused e) | Inr u \<Rightarrow> from_unstructured convert u, Some nxt)))"

section \<open>findGestation\<close>

definition born_later :: "status \<Rightarrow> status \<Rightarrow> bool" where
  "born_later s f \<longleftrightarrow>
     (case Birth s of None \<Rightarrow> False
      | Some b \<Rightarrow> (case Birth f of None \<Rightarrow> True | Some b' \<Rightarrow> BirthTime b' < BirthTime b))"

definition pick_birth :: "planned option \<Rightarrow> planned \<Rightarrow> planned option" where
  "pick_birth found g =
     (case found of None \<Rightarrow> Some g | Some f \<Rightarrow> if born_later (snd g) (snd f) then Some g else Some f)"

definition gestations_of :: "('u \<Rightarrow> planned option) \<Rightarrow> string \<Rightarrow> 'u list \<Rightarrow> planned list" where
  "gestations_of convert name items = filter (\<lambda>g. SpecDeployment (GSpec (fst g)) = name) (List.map_filter convert items)"

definition findGestation ::
    "('u \<Rightarrow> planned option) \<Rightarrow> (string \<Rightarrow> 'u api) \<Rightarrow> unit api \<Rightarrow> 'u list api \<Rightarrow> string \<Rightarrow> string \<Rightarrow> refusal + planned" where
  "findGestation convert get served items ns arg =
     (let (kind, name, ok) = cut (CHR ''/'') arg
      in if \<not> ok then getGestation convert (get arg) served ns arg
         else if normalizeKind kind \<noteq> ''Deployment'' then Inl (CannotLookUpBy kind)
         else case items of
             Inl e \<Rightarrow> if e = NotFound then Inl NoGestationAPI else Inl (ApiRefused e)
           | Inr us \<Rightarrow>
               (case foldl pick_birth None (gestations_of convert name us) of
                  None \<Rightarrow> Inl (NoneForDeployment ns name)
                | Some g \<Rightarrow> Inr g))"


section \<open>The wait ends\<close>

lemma await_ends:
  assumes "0 < poll" and "\<forall>n \<ge> 1. WNow w n + poll \<le> WNow w (Suc n)" and "1 \<le> n"
  shows "\<exists>r. await convert w asked deadline ns name n = Some r"
  using assms(3)
proof (induction "nat (deadline - WNow w n)" arbitrary: n rule: less_induct)
  case less
  show ?case
  proof (cases "WNow w n < deadline")
    case True
    have "WNow w n + poll \<le> WNow w (Suc n)" using assms(2) less.prems by blast
    then have "nat (deadline - WNow w (Suc n)) < nat (deadline - WNow w n)" using True assms(1) by linarith
    then obtain r where "await convert w asked deadline ns name (Suc n) = Some r"
      using less.hyps [of "Suc n"] by auto
    then show ?thesis
      by (subst await.simps) (auto split: sum.splits)
  next
    case False
    then show ?thesis by (subst await.simps) (auto split: sum.splits)
  qed
qed

definition answers ::
    "('u \<Rightarrow> planned option) \<Rightarrow> 'u watch \<Rightarrow> gotime \<Rightarrow> string \<Rightarrow> string \<Rightarrow> nat \<Rightarrow> refusal + planned \<Rightarrow> bool" where
  "answers convert w asked ns name n r \<longleftrightarrow>
     (case r of Inl _ \<Rightarrow> True
      | Inr g \<Rightarrow> ScreenedRequest (snd g) = Some asked
          \<and> (\<exists>m \<ge> n. getGestation convert (WGet w m) (WList w m) ns name = Inr g))"

lemma await_answers:
  assumes returned: "await convert w asked deadline ns name n = Some r"
  shows "answers convert w asked ns name n r"
proof (rule await.raw_induct
    [where P = "\<lambda>convert w asked deadline ns name n r. answers convert w asked ns name n r", OF _ returned])
  fix self :: "('u \<Rightarrow> planned option) \<Rightarrow> 'u watch \<Rightarrow> gotime \<Rightarrow> gotime \<Rightarrow> string \<Rightarrow> string \<Rightarrow> nat \<Rightarrow> (refusal + planned) option"
    and convert w asked deadline ns name n r
  assume ih: "\<And>convert w asked deadline ns name n r.
      self convert w asked deadline ns name n = Some r \<Longrightarrow> answers convert w asked ns name n r"
    and e: "(case getGestation convert (WGet w n) (WList w n) ns name of
        Inl e \<Rightarrow> Some (Inl e)
      | Inr g \<Rightarrow>
          if ScreenedRequest (snd g) = Some asked then Some (Inr g)
          else if \<not> WNow w n < deadline then Some (Inl NotAnsweredYet)
          else if WInterrupted w n then Some (Inl Interrupted)
          else self convert w asked deadline ns name (Suc n)) = Some r"
  have step: "answers convert w asked ns name (Suc n) r \<Longrightarrow> answers convert w asked ns name n r"
    by (auto simp: answers_def split: sum.splits) (meson Suc_leD)
  show "answers convert w asked ns name n r"
  proof (cases "getGestation convert (WGet w n) (WList w n) ns name")
    case (Inl x)
    with e have "r = Inl x" by simp
    then show ?thesis by (simp add: answers_def)
  next
    case (Inr g)
    show ?thesis
    proof (cases "ScreenedRequest (snd g) = Some asked")
      case True
      with e Inr have "r = Inr g" by simp
      then show ?thesis using True Inr unfolding answers_def by (simp del: split_paired_Ex) blast
    next
      case False
      show ?thesis
      proof (cases "WNow w n < deadline \<and> \<not> WInterrupted w n")
        case True
        with e Inr False have "self convert w asked deadline ns name (Suc n) = Some r" by simp
        then show ?thesis by (rule step [OF ih])
      next
        case stop: False
        with e Inr False have "r = Inl NotAnsweredYet \<or> r = Inl Interrupted"
          by (cases "WNow w n < deadline") simp_all
        then show ?thesis by (auto simp: answers_def)
      qed
    qed
  qed
qed

text \<open>An answer that is there before the deadline is returned.\<close>

lemma await_finds:
  assumes "n \<le> m" and "getGestation convert (WGet w m) (WList w m) ns name = Inr g"
    and "ScreenedRequest (snd g) = Some asked"
    and "\<forall>i. n \<le> i \<and> i < m \<longrightarrow> WNow w i < deadline \<and> \<not> WInterrupted w i
           \<and> (\<exists>x. getGestation convert (WGet w i) (WList w i) ns name = Inr x)"
  shows "\<exists>x. await convert w asked deadline ns name n = Some (Inr x)"
  using assms(1, 4)
proof (induction "m - n" arbitrary: n)
  case 0
  then have "n = m" by simp
  then show ?case using assms(2, 3) by (subst await.simps) simp
next
  case (Suc k)
  then have lt: "n < m" by simp
  then obtain x where x: "getGestation convert (WGet w n) (WList w n) ns name = Inr x"
      "WNow w n < deadline" "\<not> WInterrupted w n"
    using Suc.prems(2) by blast
  have "\<exists>x. await convert w asked deadline ns name (Suc n) = Some (Inr x)"
    using Suc.hyps(1) [of "Suc n"] Suc.hyps(2) Suc.prems lt by auto
  then show ?case using x by (subst await.simps) auto
qed

section \<open>The latest birth\<close>

definition latest_of :: "planned list \<Rightarrow> planned \<Rightarrow> bool" where
  "latest_of gs f \<longleftrightarrow> f \<in> set gs \<and> (\<forall>g \<in> set gs. \<not> born_later (snd g) (snd f))"

lemma born_later_trans:
  "born_later (snd g) (snd f) \<Longrightarrow> \<not> born_later (snd h) (snd f) \<Longrightarrow> \<not> born_later (snd h) (snd g)"
  by (auto simp: born_later_def split: option.splits)

lemma born_later_irrefl: "\<not> born_later s s"
  by (simp add: born_later_def split: option.splits)

lemma pick_birth_simps [simp]:
  "pick_birth None g = Some g"
  "pick_birth (Some f) g = (if born_later (snd g) (snd f) then Some g else Some f)"
  by (simp_all add: pick_birth_def)

lemma pick_latest:
  "gs \<noteq> [] \<Longrightarrow> \<exists>f. foldl pick_birth None gs = Some f \<and> latest_of gs f"
proof (induction gs rule: rev_induct)
  case (snoc g gs)
  show ?case
  proof (cases "gs = []")
    case True
    then show ?thesis by (simp add: latest_of_def born_later_irrefl)
  next
    case False
    then obtain f where f: "foldl pick_birth None gs = Some f" "latest_of gs f" using snoc.IH by blast
    show ?thesis
    proof (cases "born_later (snd g) (snd f)")
      case True
      then have "latest_of (gs @ [g]) g"
        using f(2) born_later_trans [OF True] by (auto simp: latest_of_def born_later_irrefl)
      then show ?thesis using f True by (intro exI [of _ g]) simp
    next
      case False
      then have "latest_of (gs @ [g]) f" using f(2) by (auto simp: latest_of_def)
      then show ?thesis using f False by (intro exI [of _ f]) simp
    qed
  qed
qed simp

section \<open>What a conceived gestation promises the controller\<close>

text \<open>A size as it is asked for: two positive quantities around a slash.\<close>

definition size_asked :: "(string \<Rightarrow> 'q option) \<Rightarrow> ('q \<Rightarrow> int) \<Rightarrow> string \<Rightarrow> 'q \<times> 'q \<Rightarrow> bool" where
  "size_asked parse_quantity sign_of asked sz \<longleftrightarrow>
     (\<exists>cpu mem. asked = cpu @ ''/'' @ mem \<and> CHR ''/'' \<notin> set cpu
        \<and> parse_quantity (trim_space cpu) = Some (fst sz) \<and> parse_quantity (trim_space mem) = Some (snd sz)
        \<and> 0 < sign_of (fst sz) \<and> 0 < sign_of (snd sz))"

definition plan_ok ::
    "(string \<Rightarrow> gotime option) \<Rightarrow> (string \<Rightarrow> 'q option) \<Rightarrow> ('q \<Rightarrow> int) \<Rightarrow> conceive_options \<Rightarrow> gotime \<Rightarrow> bool" where
  "plan_ok parse_date parse_quantity sign_of opts now \<longleftrightarrow>
     (case parse_date (OptDue opts) of None \<Rightarrow> False | Some due \<Rightarrow> now < due)
     \<and> 1 \<le> OptReplicas opts
     \<and> (\<exists>sz. size_asked parse_quantity sign_of (OptSize opts) sz)"

lemma cut_joined: "c \<notin> set a \<Longrightarrow> cut c (a @ c # b) = (a, b, True)"
  by (induction a) auto

lemma cut_found: "cut c s = (a, b, True) \<Longrightarrow> s = a @ c # b \<and> c \<notin> set a"
proof (induction s arbitrary: a b)
  case (Cons x s)
  obtain a' b' t where r: "cut c s = (a', b', t)" by (cases "cut c s")
  show ?case using Cons r by (cases "x = c") auto
qed simp

lemma conceive_size_reads:
  assumes "conceive_size parse_quantity sign_of arg = Inr s"
  shows "\<exists>sz. size_asked parse_quantity sign_of arg sz \<and> ParseSize parse_quantity sign_of s = Inr sz"
proof -
  obtain cpu mem ok where c: "cut (CHR ''/'') arg = (cpu, mem, ok)" by (cases "cut (CHR ''/'') arg")
  with assms have ok by (auto simp: conceive_size_def split: if_splits)
  then have "arg = cpu @ ''/'' @ mem" "CHR ''/'' \<notin> set cpu" using c cut_found [of "CHR ''/''" arg cpu mem] by auto
  moreover obtain q m where "parse_quantity (trim_space cpu) = Some q" "parse_quantity (trim_space mem) = Some m"
      "0 < sign_of q" "0 < sign_of m" "ParseSize parse_quantity sign_of s = Inr (q, m)"
    using assms c \<open>ok\<close> by (auto simp: conceive_size_def ParseSize_def Let_def not_le split: option.splits if_splits)
  ultimately show ?thesis
    by (intro exI [of _ "(q, m)"] conjI) (unfold size_asked_def, intro exI [of _ cpu] exI [of _ mem], simp_all)
qed

lemma conceive_size_ok:
  "(\<exists>s. conceive_size parse_quantity sign_of arg = Inr s) \<longleftrightarrow> (\<exists>sz. size_asked parse_quantity sign_of arg sz)"
    (is "?l \<longleftrightarrow> ?r")
proof
  assume ?l
  then show ?r using conceive_size_reads by blast
next
  assume ?r
  then obtain cpu mem q m where "arg = cpu @ CHR ''/'' # mem" "CHR ''/'' \<notin> set cpu"
      "parse_quantity (trim_space cpu) = Some q" "parse_quantity (trim_space mem) = Some m"
      "0 < sign_of q" "0 < sign_of m" by (auto simp: size_asked_def)
  then show ?l by (simp add: conceive_size_def cut_joined ParseSize_def)
qed

lemma conceive_spec_ok:
  "(\<exists>sp. conceive_spec parse_date parse_quantity sign_of name opts now = Inr sp)
   \<longleftrightarrow> plan_ok parse_date parse_quantity sign_of opts now"
proof -
  have "(\<exists>sp. conceive_spec parse_date parse_quantity sign_of name opts now = Inr sp) \<longleftrightarrow>
      (case parse_date (OptDue opts) of None \<Rightarrow> False | Some due \<Rightarrow> now < due) \<and> 1 \<le> OptReplicas opts
      \<and> (\<exists>s. conceive_size parse_quantity sign_of (OptSize opts) = Inr s)"
    by (auto simp: conceive_spec_def not_less split: option.splits sum.splits)
  then show ?thesis unfolding plan_ok_def conceive_size_ok by simp
qed

text \<open>What the controller reads in the specification that was sent.\<close>

lemma conceive_spec_reads:
  assumes "conceive_spec parse_date parse_quantity sign_of name opts now = Inr sp"
  shows "(\<exists>due. DueTime parse_date sp = Some due \<and> now < due)
    \<and> (\<exists>sz. size_asked parse_quantity sign_of (OptSize opts) sz \<and> ParseSize parse_quantity sign_of (Size sp) = Inr sz)
    \<and> 1 \<le> SpecReplicas sp
    \<and> SpecReplicas sp = OptReplicas opts \<and> Due sp = OptDue opts \<and> RollbackEnabled sp = (\<not> OptNoRollback opts) \<and> SpecDelivery sp = 0
    \<and> SpecDeployment sp = (if OptDeployment opts = [] then name else OptDeployment opts)"
  using assms conceive_size_reads [of parse_quantity sign_of "OptSize opts" "Size sp"]
  by (auto simp: conceive_spec_def DueTime_def RollbackEnabled_def split: option.splits sum.splits if_splits)


text \<open>
  What a pass makes of a plan: the status says that the service is expected and in which
  trimester, with the room of that trimester reserved; and a pass without an error has the
  placeholders for that room in place.
\<close>

definition carries_plan ::
    "('q, 'x) library \<Rightarrow> ('q, 'x) cluster \<Rightarrow> conceive_options \<Rightarrow> gestation \<Rightarrow> gotime \<Rightarrow> gotime \<Rightarrow> ('q, 'x) ctl \<Rightarrow> bool" where
  "carries_plan L k opts g due t c \<longleftrightarrow>
     (\<exists>sz. size_asked (ParseQuantity L) (QSign (Quantities L)) (OptSize opts) sz \<and>
       (let (es, c') = reconcile L k g t c;
            reserved = Reserved (StTrimester (St c')) (OptReplicas opts);
            want = wanted_room L g reserved sz (deployment_found k c g)
        in Phase (St c') = PhaseExpecting \<and> Birth (St c') = None
           \<and> StTrimester (St c') = Trimester (GCreated g) due t \<and> 1 \<le> StTrimester (St c') \<and> StTrimester (St c') \<le> 3
           \<and> StReserved (St c') = reserved
           \<and> (\<exists>l. Log c' = Log c @ l
               \<and> (es = [] \<longrightarrow> room_in_place L k g want reserved (Suc (Calls c)) l)
               \<and> (es \<noteq> [] \<longrightarrow> room_missing k g (PlName want) (Suc (Calls c)) l))))"

definition not_yet_born :: "status \<Rightarrow> bool" where
  "not_yet_born s \<longleftrightarrow> Birth s = None \<and> Phase s \<noteq> PhaseDelivering \<and> 0 \<le> Delivery s"

lemma reconcile_carries:
  assumes spec: "conceive_spec (ParseDate L) (ParseQuantity L) (QSign (Quantities L)) name opts now = Inr (GSpec g)"
    and due: "ParseDate L (OptDue opts) = Some due" "t < due" "3 * (due - GCreated g) < 2 ^ 63"
    and pass: "not_yet_born (St c)" "finds_deployment k c g"
  shows "carries_plan L k opts g due t c"
proof -
  have tri: "1 \<le> Trimester (GCreated g) due t" "Trimester (GCreated g) due t \<le> 3"
    using trimester_range [OF due(2, 3)] by auto
  have sp: "Due (GSpec g) = OptDue opts" "SpecReplicas (GSpec g) = OptReplicas opts" "SpecDelivery (GSpec g) = 0"
    using conceive_spec_reads [OF spec] by simp_all
  obtain sz where sz: "size_asked (ParseQuantity L) (QSign (Quantities L)) (OptSize opts) sz"
    "ParseSize (ParseQuantity L) (QSign (Quantities L)) (Size (GSpec g)) = Inr sz"
    using conceive_spec_reads [OF spec] by blast
  have d: "DueTime (ParseDate L) (GSpec g) = Some due" using due(1) sp by (simp add: DueTime_def)
  have s: "Birth (St c) = None" "Phase (St c) \<noteq> PhaseDelivering" "SpecDelivery (GSpec g) \<le> Delivery (St c)"
    using pass(1) sp(3) by (simp_all add: not_yet_born_def)
  have "Trimester (GCreated g) due t \<noteq> 0" using tri by simp
  note e = expecting_pass [OF pass(2) s d this sz(2) refl refl]
  show ?thesis
    unfolding carries_plan_def
    by (intro exI [of _ sz] conjI sz(1)) (use e tri in \<open>simp add: expects_def sp(2) Let_def case_prod_beta\<close>)
qed


section \<open>The properties\<close>

text \<open>
  Claim C25. What conceive plans, the controller carries: a Gestation is sent for creation
  exactly when the due date is a date after now, the size is two positive quantities around a
  slash and there is at least one replica; nothing is sent otherwise. Whatever the cluster
  answers, every pass of the controller over a gestation with that plan before the due date,
  while the service is not yet delivered, that can read its Deployment or finds none, says that
  the service is expected in one of its three trimesters and reserves the room of that
  trimester; the placeholders for exactly that number of replicas of that size are in place
  after it, as the API had them or confirmed them, unless the pass reports an error, and then
  their Deployment could not be read, belongs to someone else or a write was refused.
\<close>

theorem conceived_plans_are_carried:
  fixes L :: "('q, 'x) library"
  shows "(snd (Conceive convert (ParseDate L) (ParseQuantity L) (QSign (Quantities L)) create ns name opts now) \<noteq> None
      \<longleftrightarrow> plan_ok (ParseDate L) (ParseQuantity L) (QSign (Quantities L)) opts now)
    \<and> (\<forall>ns' name' sp.
        snd (Conceive convert (ParseDate L) (ParseQuantity L) (QSign (Quantities L)) create ns name opts now) = Some (ns', name', sp) \<longrightarrow>
          ns' = ns \<and> name' = name \<and> RollbackEnabled sp = (\<not> OptNoRollback opts)
          \<and> SpecDeployment sp = (if OptDeployment opts = [] then name else OptDeployment opts)
          \<and> (\<forall>due g k t c. ParseDate L (OptDue opts) = Some due \<and> GSpec g = sp \<and> t < due \<and> 3 * (due - GCreated g) < 2 ^ 63
                 \<and> not_yet_born (St c) \<and> finds_deployment k c g
               \<longrightarrow> carries_plan L k opts g due t (c :: ('q, 'x) ctl)))"
    (is "?sent \<and> ?carried")
proof
  let ?spec = "conceive_spec (ParseDate L) (ParseQuantity L) (QSign (Quantities L)) name opts now"
  have sent: "snd (Conceive convert (ParseDate L) (ParseQuantity L) (QSign (Quantities L)) create ns name opts now)
      = (case ?spec of Inl _ \<Rightarrow> None | Inr sp \<Rightarrow> Some (ns, name, sp))"
    by (simp add: Conceive_def split: sum.splits)
  show ?sent
    unfolding sent conceive_spec_ok [of "ParseDate L" "ParseQuantity L" "QSign (Quantities L)" name opts now, symmetric]
    by (simp split: sum.splits)
  show ?carried
  proof (intro allI impI)
    fix ns' name' sp
    assume "snd (Conceive convert (ParseDate L) (ParseQuantity L) (QSign (Quantities L)) create ns name opts now) = Some (ns', name', sp)"
    then have e: "?spec = Inr sp" "ns' = ns" "name' = name" unfolding sent by (simp_all split: sum.splits)
    show "ns' = ns \<and> name' = name \<and> RollbackEnabled sp = (\<not> OptNoRollback opts)
          \<and> SpecDeployment sp = (if OptDeployment opts = [] then name else OptDeployment opts)
          \<and> (\<forall>due g k t c. ParseDate L (OptDue opts) = Some due \<and> GSpec g = sp \<and> t < due \<and> 3 * (due - GCreated g) < 2 ^ 63
                 \<and> not_yet_born (St c) \<and> finds_deployment k c g
               \<longrightarrow> carries_plan L k opts g due t (c :: ('q, 'x) ctl))"
      using conceive_spec_reads [OF e(1)] e reconcile_carries [of L name opts now] by blast
  qed
qed

definition demo_options :: conceive_options where
  "demo_options = \<lparr>OptDue = ''2026-11-01'', OptSize = ''500m/512Mi'', OptReplicas = 3, OptDeployment = [],
     OptNoRollback = False\<rparr>"

definition demo_plan :: spec where
  "demo_plan = \<lparr>SpecDeployment = ''web'', Due = ''2026-11-01'', Size = \<lparr>SizeCPU = ''500m'', SizeMemory = ''512Mi''\<rparr>,
     SpecReplicas = 3, ScreenRequested = None, SpecDelivery = 0, AutoRollback = None\<rparr>"

theorem conceived_plans_are_carried_witness:
  "snd (Conceive (\<lambda>u. None) (ParseDate demo_library) (ParseQuantity demo_library) (QSign (Quantities demo_library))
     (\<lambda>_. Inl Conflict) ''prod'' ''web'' demo_options 0) = Some (''prod'', ''web'', demo_plan)
   \<and> carries_plan demo_library demo_cluster demo_options (demo_gestation\<lparr>GSpec := demo_plan\<rparr>) (1000 * hour) 0 unborn"
proof -
  have sent: "snd (Conceive (\<lambda>u. None) (ParseDate demo_library) (ParseQuantity demo_library) (QSign (Quantities demo_library))
      (\<lambda>_. Inl Conflict) ''prod'' ''web'' demo_options 0) = Some (''prod'', ''web'', demo_plan)"
    by code_simp
  have "ParseDate demo_library (OptDue demo_options) = Some (1000 * hour)" by (simp add: demo_library_def)
  moreover have "finds_deployment demo_cluster unborn (demo_gestation\<lparr>GSpec := demo_plan\<rparr>)"
    by (simp add: finds_deployment_def demo_cluster_def demo_plan_def)
  moreover have "not_yet_born (St unborn)" by (simp add: not_yet_born_def unborn_def new_status_def)
  moreover have "\<forall>due g k t c. ParseDate demo_library (OptDue demo_options) = Some due \<and> GSpec g = demo_plan \<and> t < due
      \<and> 3 * (due - GCreated g) < 2 ^ 63 \<and> not_yet_born (St c) \<and> finds_deployment k c g
      \<longrightarrow> carries_plan demo_library k demo_options g due t c"
    using conjunct2 [OF conceived_plans_are_carried
        [of "\<lambda>u. None" demo_library "\<lambda>_. Inl Conflict" "''prod''" "''web''" demo_options 0]] sent
    by blast
  moreover have "3 * (1000 * hour - GCreated (demo_gestation\<lparr>GSpec := demo_plan\<rparr>)) < 2 ^ 63"
    by (simp add: demo_gestation_def)
  ultimately have "carries_plan demo_library demo_cluster demo_options (demo_gestation\<lparr>GSpec := demo_plan\<rparr>) (1000 * hour) 0 unborn"
    by simp
  then show ?thesis using sent by simp
qed


text \<open>What may still be delivered: the service is not there, or was rolled back and asked for again.\<close>

definition may_be_delivered :: "bool \<Rightarrow> status \<Rightarrow> bool" where
  "may_be_delivered again s \<longleftrightarrow> Birth s = None \<or> (Phase s = PhaseRolledBack \<and> again)"

lemma guard_on_consistent:
  assumes "consistent s"
  shows "deliver_guard again (g, s) = None \<longleftrightarrow> may_be_delivered again s"
    and "deliver_guard again (g, s) \<noteq> Some NilDereference"
  using assms
  by (cases "Phase s"; cases "Birth s";
      auto simp: deliver_guard_def gestation_born_def may_be_delivered_def consistent_def split: if_splits)+

lemma next_delivery_starts:
  assumes "may_be_delivered again s" and "SpecDelivery (GSpec g) > Delivery s"
  shows "Phase (redelivery g now s) = PhaseDelivering \<and> Birth (redelivery g now s) = None
    \<and> Delivery (redelivery g now s) = SpecDelivery (GSpec g) \<and> DeliveryStarted (redelivery g now s) = Some now"
  using assms by (auto simp: redelivery_def may_be_delivered_def)

text \<open>
  A delivery under way: its number and its start are in the status, which the pass writes, and
  the service is being delivered still or is born.
\<close>

definition delivery_starts ::
    "('q, 'x) library \<Rightarrow> ('q, 'x) cluster \<Rightarrow> gestation \<Rightarrow> gotime \<Rightarrow> ('q, 'x) ctl \<Rightarrow> bool" where
  "delivery_starts L k g now c \<longleftrightarrow>
     (let (es, c') = reconcile L k g now c
      in Delivery (St c') = SpecDelivery (GSpec g) \<and> DeliveryStarted (St c') = Some now
         \<and> (Phase (St c') = PhaseDelivering \<and> Birth (St c') = None \<or> newborn (St c'))
         \<and> (\<exists>ok. (UpdateStatus (GName g) (stored (St c')), ok) \<in> set (Log c') \<and> (ok \<or> es \<noteq> [])))"

lemma reconcile_delivers:
  assumes may: "may_be_delivered again (St c)" "Delivery (St c) < SpecDelivery (GSpec g)" and found: "finds_deployment k c g"
  shows "delivery_starts L k g now c"
proof -
  let ?c0 = "pass_start k g now c" and ?d = "deployment_found k c g"
  note s0 = next_delivery_starts [OF may, of now]
  let ?c1 = "snd (deliver L k g ?d now ?c0)"
  have adv: "snd (advance L k g ?d now ?c0) = ?c1" using s0 by (simp add: advance_def case_prod_beta)
  have life: "Phase (St ?c1) = PhaseDelivering \<and> Birth (St ?c1) = None \<or> newborn (St ?c1)"
    using deliver_life [of ?c0 L k g ?d now] s0 by (auto simp: same_life_def)
  have e: "St (snd (reconcile L k g now c)) = St (screen_requested L k g ?d now ?c1)"
    by (simp add: reconcile_end [OF found] pass_end_def adv)
  have life': "Phase (St (snd (reconcile L k g now c))) = PhaseDelivering \<and> Birth (St (snd (reconcile L k g now c))) = None
      \<or> newborn (St (snd (reconcile L k g now c)))"
    using life unfolding e by (simp add: newborn_def)
  have del: "Delivery (St (snd (reconcile L k g now c))) = SpecDelivery (GSpec g)"
    "DeliveryStarted (St (snd (reconcile L k g now c))) = Some now"
    using reconcile_delivery [OF found, of L now] s0 by simp_all
  then have "Delivery (stored (St (snd (reconcile L k g now c)))) \<noteq> Delivery (stored (St c))"
    using may(2) by (simp add: stored_def)
  then have "stored (St (snd (reconcile L k g now c))) \<noteq> stored (St c)" by auto
  then show ?thesis
    using reconcile_writes [OF found, of L now] life' del by (auto simp: delivery_starts_def case_prod_beta)
qed

text \<open>The gestation after the patch, when it was sent.\<close>

definition with_delivery :: "int option \<Rightarrow> gestation \<Rightarrow> gestation" where
  "with_delivery p g = (case p of None \<Rightarrow> g | Some n \<Rightarrow> g\<lparr>GSpec := GSpec g\<lparr>SpecDelivery := n\<rparr>\<rparr>)"

text \<open>
  Claim C23. Asking for a delivery, for every status the controller can have stored: the command
  refuses exactly a service that was born and not rolled back, one rolled back without
  \<open>--again\<close>, and one that left; a refusal writes nothing and follows no nil pointer. When the
  delivery was asked for already it returns the gestation and writes nothing; otherwise it
  sends the next number, exactly once, and returns what the API answers, a refusal of the API
  included. When it was asked for already or the API took the patch, the next pass over a
  gestation with the number asked for, on the status the command read, that can read the
  Deployment or finds none, starts the delivery under that number, which is greater than every
  number delivered before, and writes so.
\<close>

theorem delivery_asked_is_delivered:
  fixes L :: "('q, 'x) library"
  assumes "reached L s" and "getGestation convert got served ns name = Inr (g, s)"
    and "Delivery s < 2 ^ 31 - 1" and "- (2 ^ 31) \<le> Delivery s"
  shows "(if \<not> may_be_delivered again s then
       (\<exists>e. Deliver convert got served patch ns name again = (Inl e, None) \<and> e \<noteq> NilDereference)
     else Deliver convert got served patch ns name again =
       (if Delivery s < SpecDelivery (GSpec g) then (Inr (g, s), None)
        else (case patch (Delivery s + 1) of Inl e \<Rightarrow> Inl (ApiRefused e) | Inr u \<Rightarrow> from_unstructured convert u,
              Some (Delivery s + 1))))
    \<and> (\<forall>k g' now (c :: ('q, 'x) ctl).
         may_be_delivered again s \<and> St c = s \<and> finds_deployment k c g'
         \<and> (case snd (Deliver convert got served patch ns name again) of
              None \<Rightarrow> SpecDelivery (GSpec g') = SpecDelivery (GSpec g)
            | Some n \<Rightarrow> SpecDelivery (GSpec g') = n \<and> (\<exists>u. patch n = Inr u))
         \<longrightarrow> Delivery s < SpecDelivery (GSpec g') \<and> delivery_starts L k g' now c)"
    (is "?answer \<and> ?delivered")
proof -
  have c: "consistent s" by (rule reached_consistent [OF assms(1)])
  have n: "i32 (Delivery s + 1) = Delivery s + 1"
    using assms(3, 4) by (intro i32_id) (simp add: in_i32_def)
  have ok: "Deliver convert got served patch ns name again =
       (if Delivery s < SpecDelivery (GSpec g) then (Inr (g, s), None)
        else (case patch (Delivery s + 1) of Inl e \<Rightarrow> Inl (ApiRefused e) | Inr u \<Rightarrow> from_unstructured convert u,
              Some (Delivery s + 1)))" if "may_be_delivered again s"
    using that guard_on_consistent(1) [OF c, of again g] n assms(2) by (simp add: Deliver_def Let_def)
  have no: "\<exists>e. Deliver convert got served patch ns name again = (Inl e, None) \<and> e \<noteq> NilDereference"
    if "\<not> may_be_delivered again s"
    using that guard_on_consistent [OF c, of again g] assms(2)
    by (cases "deliver_guard again (g, s)") (auto simp: Deliver_def)
  have ?answer using ok no by simp
  moreover have ?delivered
  proof (intro allI impI)
    fix k :: "('q, 'x) cluster" and g' :: gestation and now and c' :: "('q, 'x) ctl"
    assume a: "may_be_delivered again s \<and> St c' = s \<and> finds_deployment k c' g'
         \<and> (case snd (Deliver convert got served patch ns name again) of
              None \<Rightarrow> SpecDelivery (GSpec g') = SpecDelivery (GSpec g)
            | Some n \<Rightarrow> SpecDelivery (GSpec g') = n \<and> (\<exists>u. patch n = Inr u))"
    then have "Delivery s < SpecDelivery (GSpec g')"
      using ok by (auto split: if_splits)
    then show "Delivery s < SpecDelivery (GSpec g') \<and> delivery_starts L k g' now c'"
      using a reconcile_delivers [of again c' g' k L now] by simp
  qed
  ultimately show ?thesis ..
qed

theorem delivery_asked_is_delivered_witness:
  "snd (Deliver (\<lambda>u. Some u) (Inr (demo_gestation, new_status)) (Inr ())
       (\<lambda>n. Inr (with_delivery (Some n) demo_gestation, new_status)) ''prod'' ''web'' False) = Some 1
   \<and> delivery_starts demo_library demo_cluster (with_delivery (Some 1) demo_gestation) 7 unborn"
proof -
  let ?patch = "\<lambda>n. Inr (with_delivery (Some n) demo_gestation, new_status)"
  have asked: "snd (Deliver (\<lambda>u. Some u) (Inr (demo_gestation, new_status)) (Inr ()) ?patch ''prod'' ''web'' False) = Some 1"
    by (simp add: Deliver_def getGestation_def from_unstructured_def deliver_guard_def gestation_born_def new_status_def
        demo_gestation_def three_replicas_def i32_id in_i32_def)
  have "finds_deployment demo_cluster unborn (with_delivery (Some 1) demo_gestation)"
    by (simp add: finds_deployment_def demo_cluster_def with_delivery_def demo_gestation_def three_replicas_def)
  then show ?thesis
    using asked delivery_asked_is_delivered [OF reached.first [of demo_library], of "\<lambda>u. Some u" "Inr (demo_gestation, new_status)"
        "Inr ()" "''prod''" "''web''" demo_gestation False ?patch]
    by (simp add: getGestation_def from_unstructured_def may_be_delivered_def with_delivery_def unborn_def new_status_def)
qed

section \<open>A screening asked for\<close>

text \<open>A poll that reads a gestation and is neither late nor interrupted.\<close>

definition quiet_poll :: "('u \<Rightarrow> planned option) \<Rightarrow> 'u watch \<Rightarrow> gotime \<Rightarrow> string \<Rightarrow> string \<Rightarrow> nat \<Rightarrow> bool" where
  "quiet_poll convert w deadline ns name i \<longleftrightarrow>
     WNow w i < deadline \<and> \<not> WInterrupted w i
     \<and> (\<exists>x. getGestation convert (WGet w i) (WList w i) ns name = Inr x)"

lemma to_second_idem [simp]: "to_second (to_second t) = to_second t"
  by (simp add: to_second_def)

lemma answering_pass:
  assumes "ScreenRequested (GSpec g) = Some (asked_at now)" and "finds_deployment k c g"
  shows "ScreenedRequest (stored (St (snd (reconcile L k g t c)))) = Some (asked_at now)
    \<and> (ScreenedRequest (stored (St c)) \<noteq> Some (asked_at now) \<longrightarrow>
        (\<exists>n. Calls c < n \<and> StScreening (stored (St (snd (reconcile L k g t c))))
            = Some (requested_screening L k g (deployment_found k c g) (to_second t) n (Suc n)))
        \<and> (\<exists>ok. (UpdateStatus (GName g) (stored (St (snd (reconcile L k g t c)))), ok) \<in> set (Log (snd (reconcile L k g t c)))
             \<and> (ok \<or> fst (reconcile L k g t c) \<noteq> [])))"
proof -
  let ?s = "St (snd (reconcile L k g t c))"
  have marked: "ScreenedRequest (stored ?s) = Some (asked_at now)"
    using reconcile_screened [OF assms(2, 1), of L t] by (simp add: stored_def asked_at_def)
  have run: "\<exists>n. Calls c < n \<and> StScreening (stored ?s)
      = Some (requested_screening L k g (deployment_found k c g) (to_second t) n (Suc n))"
    if "ScreenedRequest (stored (St c)) \<noteq> Some (asked_at now)"
  proof -
    have "ScreenedRequest (St c) \<noteq> Some (asked_at now)" using that by (auto simp: stored_def asked_at_def)
    then obtain n where "Calls c < n" "StScreening ?s = Some (requested_screening L k g (deployment_found k c g) t n (Suc n))"
      using reconcile_screens [OF assms(2, 1), of L t] by blast
    then show ?thesis by (intro exI [of _ n]) (simp add: stored_def requested_screening_def)
  qed
  have "stored ?s \<noteq> stored (St c)" if "ScreenedRequest (stored (St c)) \<noteq> Some (asked_at now)"
    using marked that by auto
  then show ?thesis using marked run reconcile_writes [OF assms(2), of L t] by blast
qed

text \<open>
  Claim C24. A screening asked for is answered: the wait of the command always ends when its
  clock advances by the polling interval at each poll, whatever the API answers; what it returns
  as the result carries the answer to this request. A pass of the controller that can read the
  Deployment, or finds none, leaves exactly that answer in the status; and when the status did
  not carry it, the pass has run the prenatal screening for the request, of the gestation's
  specification, the Deployment it found and the placeholders and cluster it read in this pass,
  and writes its findings with the answer. When a poll before the deadline reads an answered
  status, after polls that could be read, the command returns a result.
\<close>

theorem screening_asked_is_answered:
  assumes "0 < poll" and "\<forall>n \<ge> 1. WNow w n + poll \<le> WNow w (Suc n)"
  shows "(\<exists>r. ask_screening convert w ns name now timeout = Some r
        \<and> (case r of Inl _ \<Rightarrow> True | Inr g \<Rightarrow> ScreenedRequest (snd g) = Some (asked_at now)))
    \<and> (\<forall>(L :: ('q, 'x) library) k g t c. ScreenRequested (GSpec g) = Some (asked_at now) \<and> finds_deployment k c g \<longrightarrow>
        ScreenedRequest (stored (St (snd (reconcile L k g t c)))) = Some (asked_at now)
        \<and> (ScreenedRequest (stored (St c)) \<noteq> Some (asked_at now) \<longrightarrow>
            (\<exists>n. Calls c < n \<and> StScreening (stored (St (snd (reconcile L k g t c))))
                = Some (requested_screening L k g (deployment_found k c g) (to_second t) n (Suc n)))
            \<and> (\<exists>ok. (UpdateStatus (GName g) (stored (St (snd (reconcile L k g t c)))), ok) \<in> set (Log (snd (reconcile L k g t c)))
                 \<and> (ok \<or> fst (reconcile L k g t c) \<noteq> []))))
    \<and> (\<forall>m g. 1 \<le> m \<and> getGestation convert (WGet w m) (WList w m) ns name = Inr g
        \<and> ScreenedRequest (snd g) = Some (asked_at now) \<and> WPatch w (asked_at now) = None
        \<and> (\<exists>x. getGestation convert (WGet w 0) (WList w 0) ns name = Inr x)
        \<and> (\<forall>i. 1 \<le> i \<and> i < m \<longrightarrow> quiet_poll convert w (t_add (WNow w 0) timeout) ns name i)
        \<longrightarrow> (\<exists>x. ask_screening convert w ns name now timeout = Some (Inr x)))"
    (is "?ends \<and> ?passes \<and> ?found")
proof (intro conjI)
  let ?await = "await convert w (asked_at now) (t_add (WNow w 0) timeout) ns name 1"
  obtain r where r: "?await = Some r" using await_ends [OF assms] by blast
  show ?ends
    using r await_answers [OF r] by (auto simp: ask_screening_def answers_def split: sum.splits option.splits)
  show ?passes using answering_pass by blast
  show ?found
  proof (intro allI impI)
    fix m g
    assume a: "1 \<le> m \<and> getGestation convert (WGet w m) (WList w m) ns name = Inr g
        \<and> ScreenedRequest (snd g) = Some (asked_at now) \<and> WPatch w (asked_at now) = None
        \<and> (\<exists>x. getGestation convert (WGet w 0) (WList w 0) ns name = Inr x)
        \<and> (\<forall>i. 1 \<le> i \<and> i < m \<longrightarrow> quiet_poll convert w (t_add (WNow w 0) timeout) ns name i)"
    then have "\<exists>x. ?await = Some (Inr x)"
      using await_finds [of 1 m convert w ns name g "asked_at now" "t_add (WNow w 0) timeout"]
      unfolding quiet_poll_def by blast
    then show "\<exists>x. ask_screening convert w ns name now timeout = Some (Inr x)"
      using a by (auto simp: ask_screening_def)
  qed
qed


text \<open>A watch whose third poll reads the answer, and one that never does.\<close>

definition demo_watch :: "planned watch" where
  "demo_watch =
     \<lparr>WGet = (\<lambda>n. Inr (demo_gestation, if n < 3 then new_status else new_status\<lparr>ScreenedRequest := Some (7 * second)\<rparr>)),
      WList = (\<lambda>_. Inr ()), WPatch = (\<lambda>_. None), WNow = (\<lambda>n. int n * second), WInterrupted = (\<lambda>_. False)\<rparr>"

definition demo_asking :: gestation where
  "demo_asking = demo_gestation\<lparr>GSpec := three_replicas\<lparr>ScreenRequested := Some (7 * second)\<rparr>\<rparr>"

theorem screening_asked_is_answered_witness:
  "(\<exists>g. ask_screening (\<lambda>u. Some u) demo_watch ''prod'' ''web'' (7 * second + 5) (30 * second) = Some (Inr g))
   \<and> (\<exists>n. StScreening (stored (St (snd (reconcile demo_library demo_cluster demo_asking (9 * second) unborn))))
        = Some (requested_screening demo_library demo_cluster demo_asking (Some demo_deployment) (9 * second) n (Suc n)))"
proof -
  have asking: "ScreenRequested (GSpec demo_asking) = Some (asked_at (7 * second + 5))"
    "ScreenedRequest (stored (St unborn)) \<noteq> Some (asked_at (7 * second + 5))"
    "finds_deployment demo_cluster unborn demo_asking"
    "deployment_found demo_cluster unborn demo_asking = Some demo_deployment" "to_second (9 * second) = 9 * second"
    by (simp_all add: demo_asking_def asked_at_def to_second_def unborn_def new_status_def stored_def finds_deployment_def
        deployment_found_def demo_cluster_def demo_gestation_def three_replicas_def)
  let ?s = "new_status\<lparr>ScreenedRequest := Some (7 * second)\<rparr>"
  have a: "asked_at (7 * second + 5) = 7 * second" by (simp add: asked_at_def to_second_def)
  have c: "\<forall>n \<ge> 1. WNow demo_watch n + second \<le> WNow demo_watch (Suc n)" by (simp add: demo_watch_def algebra_simps)
  have r: "getGestation (\<lambda>u. Some u) (WGet demo_watch 3) (WList demo_watch 3) ''prod'' ''web'' = Inr (demo_gestation, ?s)"
    by (simp add: getGestation_def from_unstructured_def demo_watch_def)
  have q: "quiet_poll (\<lambda>u. Some u) demo_watch (t_add (WNow demo_watch 0) (30 * second)) ''prod'' ''web'' i"
    if "i < 3" for i
    using that by (simp add: quiet_poll_def getGestation_def from_unstructured_def demo_watch_def t_add_def)
  have g: "\<exists>x. getGestation (\<lambda>u. Some u) (WGet demo_watch 0) (WList demo_watch 0) ''prod'' ''web'' = Inr x"
    by (simp add: getGestation_def from_unstructured_def demo_watch_def)
  have p: "WPatch demo_watch (asked_at (7 * second + 5)) = None" by (simp add: demo_watch_def)
  have l: "ScreenedRequest (snd (demo_gestation, ?s)) = Some (asked_at (7 * second + 5))"
    by (simp add: asked_at_def to_second_def)
  have s: "0 < second" by simp
  note claim = screening_asked_is_answered [where w = demo_watch and poll = second and convert = "\<lambda>u. Some u"
        and ns = "''prod''" and name = "''web''" and now = "7 * second + 5" and timeout = "30 * second", OF s c]
  have "\<exists>x. ask_screening (\<lambda>u. Some u) demo_watch ''prod'' ''web'' (7 * second + 5) (30 * second) = Some (Inr x)"
    using conjunct2 [OF conjunct2 [OF claim]] r q g p l by (metis one_le_numeral)
  moreover have "\<exists>n. StScreening (stored (St (snd (reconcile demo_library demo_cluster demo_asking (9 * second) unborn))))
        = Some (requested_screening demo_library demo_cluster demo_asking (Some demo_deployment) (9 * second) n (Suc n))"
    using conjunct1 [OF conjunct2 [OF claim]] asking by metis
  ultimately show ?thesis ..
qed


section \<open>A gestation looked up by its Deployment\<close>

text \<open>
  What is found is for that Deployment, and none of its gestations was born later; nothing is
  found exactly when none of the readable ones is for it.
\<close>

lemma find_gestation_latest:
  assumes "cut (CHR ''/'') arg = (kind, name, True)" and "normalizeKind kind = ''Deployment''"
  shows "case findGestation convert get served (Inr us) ns arg of
      Inl e \<Rightarrow> e = NoneForDeployment ns name \<and> gestations_of convert name us = []
    | Inr g \<Rightarrow> latest_of (gestations_of convert name us) g"
  using assms pick_latest [of "gestations_of convert name us"]
  by (cases "gestations_of convert name us = []") (auto simp: findGestation_def)

end
