(* ===== verification/Kyvctl_Charts.thy ===== *)
theory Kyvctl_Charts
  imports Kyvctl_Plan
begin

text \<open>
  What the gestation commands print (\<open>kyvctl/gestation.go\<close>): \<open>renderConceived\<close>,
  \<open>renderScreening\<close>, \<open>renderApgar\<close>, \<open>Growth\<close> and \<open>renderGrowth\<close>,
  \<open>Memory\<close> and \<open>renderMemory\<close>. A table is the list of its rows, each a list of
  cells: the alignment of \<open>tabwriter\<close> is the parameter \<open>table\<close>. Local dates are the
  parameter \<open>local_time\<close>, quantities keep their parameters. The code divides durations by
  the hour in \<open>float64\<close>; for whole seconds, which is what the API stores, that truncates as
  the integer division does. \<open>%.1f\<close> of a number of bytes over \<open>1 << 30\<close> is exact
  below \<open>2 ^ 53\<close> bytes, and the tie goes to the even tenth.
\<close>

abbreviation nl :: string where "nl \<equiv> [CHR 0x0A]"

definition orDefault :: "string \<Rightarrow> string \<Rightarrow> string" where
  "orDefault s d = (if s = [] then d else s)"

definition phase_name :: "phase \<Rightarrow> string" where
  "phase_name p =
     (case p of NoPhase \<Rightarrow> [] | PhaseExpecting \<Rightarrow> ''Expecting'' | PhaseDue \<Rightarrow> ''Due'' | PhaseDelivering \<Rightarrow> ''Delivering''
      | PhaseNewbornCare \<Rightarrow> ''NewbornCare'' | PhaseNeedsCaregivers \<Rightarrow> ''NeedsCaregivers'' | PhaseGrown \<Rightarrow> ''Grown''
      | PhaseRolledBack \<Rightarrow> ''RolledBack'' | PhaseDeparted \<Rightarrow> ''Departed'')"

section \<open>Conceived and screened\<close>

definition renderConceived :: "(string \<Rightarrow> gotime option) \<Rightarrow> gestation \<Rightarrow> gotime \<Rightarrow> string" where
  "renderConceived parse_date g now =
     (let due = (case DueTime parse_date (GSpec g) of None \<Rightarrow> zero_time | Some t \<Rightarrow> t);
          days = go_div (t_sub due now) (24 * hour) + 1
      in ''Conceived '' @ GNamespace g @ ''/'' @ GName g @ '', due '' @ Due (GSpec g) @ '' (in '' @ Kyvctl_Names.plural days ''day'' @ '').'' @ nl
         @ ''Room for its '' @ show_int (SpecReplicas (GSpec g)) @ '' replicas, and one more for newborn care, is reserved in trimester steps.'' @ nl
         @ ''It is screened every trimester; for a look now: kyvctl screen '' @ GName g @ '' -n '' @ GNamespace g @ nl)"

definition result_name :: "screen_result \<Rightarrow> string" where
  "result_name r = (case r of ResultClear \<Rightarrow> ''clear'' | ResultInfo \<Rightarrow> ''info'' | ResultWarn \<Rightarrow> ''warn'' | ResultFail \<Rightarrow> ''fail'')"



definition renderScreening :: "(gotime \<Rightarrow> string) \<Rightarrow> (string list list \<Rightarrow> string) \<Rightarrow> planned \<Rightarrow> string" where
  "renderScreening local_time table g =
     (case StScreening (snd g) of
        None \<Rightarrow> GNamespace (fst g) @ ''/'' @ GName (fst g) @ '' hasn't been screened yet.'' @ nl
      | Some s \<Rightarrow>
          ''Prenatal screening of '' @ GNamespace (fst g) @ ''/'' @ GName (fst g) @ '' ('' @ ScreenReason s @ '', ''
          @ local_time (ScreenTime s) @ '')'' @ nl @ nl
          @ table (map (\<lambda>f. [''  '' @ result_name (Result f), Check f, Message f]) (Findings s))
          @ nl @ snd (Summarize (ScreenReason s) (Findings s)) @ nl)"

section \<open>The Apgar chart\<close>

definition sign_titles :: "string list" where
  "sign_titles = [''Appearance'', ''Pulse'', ''Grimace'', ''Activity'', ''Respiration'']"

definition sign_value :: "apgar \<Rightarrow> nat \<Rightarrow> int" where
  "sign_value a i = [Appearance a, Pulse a, Grimace a, Activity a, Respiration a] ! i"

definition sign_row :: "apgar list \<Rightarrow> nat \<Rightarrow> string list" where
  "sign_row scores i =
     (let newest = last scores; note = (if i < length (Notes newest) then Notes newest ! i else [])
      in sign_titles ! i # map (\<lambda>a. show_int (sign_value a i)) scores @ [''   '' @ note])"

definition apgar_table :: "apgar list \<Rightarrow> string list list" where
  "apgar_table scores =
     ([] # map (\<lambda>a. show_int (Minute a) @ '' min'') scores @ [[]])
     # map (sign_row scores) [0..<5]
     @ [''Total'' # map (\<lambda>a. show_int (TotalScore a)) scores @ [[]]]"

datatype apgar_verdict = WellBefore string | ArrivedAt int int | NeedsCareAt int | TooSoon

definition apgar_verdict :: "birth \<Rightarrow> apgar list \<Rightarrow> apgar_verdict" where
  "apgar_verdict b scores =
     (let newest = last scores
      in if RolledBackTo b \<noteq> [] then WellBefore (RolledBackTo b)
         else if Minute newest \<ge> 5 \<and> TotalScore newest \<ge> Reassuring then ArrivedAt (TotalScore newest) (Minute newest)
         else if TotalScore newest < Reassuring then NeedsCareAt (Minute newest)
         else TooSoon)"

definition apgar_verdict_text :: "string \<Rightarrow> apgar_verdict \<Rightarrow> string" where
  "apgar_verdict_text name v =
     (case v of
        WellBefore r \<Rightarrow> nl @ ''Below 7 at five minutes: it went back to revision '' @ r @ '', where it was well.'' @ nl
      | ArrivedAt t m \<Rightarrow> nl @ name @ '' arrived. Apgar '' @ show_int t @ '' at '' @ MinuteWords m @ ''. Welcome.'' @ nl
      | NeedsCareAt m \<Rightarrow> nl @ ''Below 7 at '' @ MinuteWords m @ ''. It needs looking after.'' @ nl
      | TooSoon \<Rightarrow> [])"

definition renderApgar :: "(gotime \<Rightarrow> string) \<Rightarrow> (string list list \<Rightarrow> string) \<Rightarrow> planned \<Rightarrow> string" where
  "renderApgar local_time table g =
     (case Birth (snd g) of
        None \<Rightarrow> GNamespace (fst g) @ ''/'' @ GName (fst g) @ '' isn't born yet (''
          @ to_lower (orDefault (phase_name (Phase (snd g))) ''expecting'')
          @ ''). Its Apgar score comes one minute after kyvctl deliver.'' @ nl
      | Some b \<Rightarrow>
          SpecDeployment (GSpec (fst g)) @ '' ('' @ GNamespace (fst g) @ ''), born '' @ local_time (BirthTime b)
          @ '', revision '' @ orDefault (Revision b) ''not known yet'' @ nl
          @ (if Gestation_Types.Scores (snd g) = [] then nl @ ''No score yet: the first comes at one minute.'' @ nl
             else
               let scores = map snd (Gestation_Types.Scores (snd g))
               in table (apgar_table scores)
                  @ apgar_verdict_text (SpecDeployment (GSpec (fst g))) (apgar_verdict b scores)))"


section \<open>Amounts\<close>

definition gib_tenths :: "int \<Rightarrow> int" where
  "gib_tenths b =
     (let q = (10 * b) div 2 ^ 30; r = (10 * b) mod 2 ^ 30
      in if r > 2 ^ 29 \<or> (r = 2 ^ 29 \<and> odd q) then q + 1 else q)"

definition formatMemory :: "int \<Rightarrow> string" where
  "formatMemory b =
     (if b \<ge> 2 ^ 30 then show_int (gib_tenths b div 10) @ ''.'' @ show_int (gib_tenths b mod 10) @ ''Gi''
      else if b \<ge> 2 ^ 20 then show_int (b div 2 ^ 20) @ ''Mi''
      else show_int (b div 2 ^ 10) @ ''Ki'')"

definition humanSpan :: "duration \<Rightarrow> string" where
  "humanSpan d =
     (if d \<ge> 48 * hour then show_int (go_div d (24 * hour)) @ '' days''
      else if d \<ge> 2 * hour then show_int (go_div d hour) @ '' hours''
      else show_int (go_div d minute) @ '' minutes'')"

section \<open>The growth chart\<close>

text \<open>\<open>milli\<close> and \<open>whole\<close> read a quantity; a missing request is the zero quantity.\<close>

definition requested :: "'q qops \<Rightarrow> ('q \<Rightarrow> int) \<Rightarrow> ('q \<Rightarrow> int) \<Rightarrow> 'q container list \<Rightarrow> int \<times> int" where
  "requested Q milli whole cs =
     (foldl (\<lambda>s c. i64 (s + milli (q_at Q (CtrRequests c) ''cpu''))) 0 cs,
      foldl (\<lambda>s c. i64 (s + whole (q_at Q (CtrRequests c) ''memory''))) 0 cs)"

text \<open>The use right now, when there are metrics, a selector and pods.\<close>

definition live_sample :: "bool \<Rightarrow> birth \<Rightarrow> pod_usage list list api \<Rightarrow> sample option" where
  "live_sample has_metrics b answer =
     (if has_metrics \<and> BirthSelector b \<noteq> [] then
        (case answer of Inl _ \<Rightarrow> None | Inr ps \<Rightarrow> if ps = [] then None else Some (average_usage zero_time ps))
      else None)"

definition hint_text :: "hint \<Rightarrow> string" where
  "hint_text h =
     (case h of
        Outgrowing p \<Rightarrow> ''outgrowing its requests: it uses '' @ show_int p @ ''% of what it asks for. Raise the request before it is squeezed''
      | OutgrowingMostly \<Rightarrow> ''outgrowing its requests: most of the time it uses more than 90% of what it asks for''
      | TooEarly n \<Rightarrow> ''too early to chart: '' @ show_nat n @ '' of '' @ show_nat MinSamples @ '' measurements so far''
      | FallingBehind \<Rightarrow> ''falling behind its own curve '' @ [CHR 0xE2, CHR 0x80, CHR 0x94]
          @ '' check: it uses less than almost ever before. Is it still getting work?''
      | AboveCurve \<Rightarrow> ''above its own curve: it is growing faster than it ever has''
      | PlentyOfRoom \<Rightarrow> ''plenty of room: it has never used more than a quarter of its request''
      | OnCurve \<Rightarrow> ''on its curve'')"

definition chart_name :: "assessment \<Rightarrow> string" where
  "chart_name a = (if AssessedResource a = ''memory'' then ''Memory'' else ''CPU'')"

definition chart_row :: "(int \<Rightarrow> string) \<Rightarrow> assessment \<Rightarrow> string list" where
  "chart_row formatCPU a =
     (let f = (if AssessedResource a = ''memory'' then formatMemory else formatCPU); b = BandsOf a
      in [chart_name a, f (Current a), f (P3 b), f (P15 b), f (P50 b), f (P85 b), f (P97 b),
          (if RequestOf a > 0 then f (RequestOf a) else ''none'')])"

definition growth_span :: "sample list \<Rightarrow> string" where
  "growth_span ss =
     (if length ss > 1 then '' over '' @ humanSpan (t_sub (SampleTime (last ss)) (SampleTime (hd ss))) else [])"

definition renderGrowth ::
    "(int \<Rightarrow> string) \<Rightarrow> (string list list \<Rightarrow> string) \<Rightarrow> planned \<Rightarrow> assessment list \<Rightarrow> bool \<Rightarrow> string" where
  "renderGrowth formatCPU table g charts live =
     ''Growth of '' @ SpecDeployment (GSpec (fst g)) @ '' ('' @ GNamespace (fst g) @ ''): ''
       @ Kyvctl_Names.plural (int (length (StGrowth (snd g)))) ''measurement'' @ growth_span (StGrowth (snd g)) @ '', per pod'' @ nl @ nl
     @ table ([[], (if live then ''now'' else ''latest''), ''P3'', ''P15'', ''P50'', ''P85'', ''P97'', ''request'']
              # map (chart_row formatCPU) charts) @ nl
     @ concat (map (\<lambda>a. chart_name a @ '': '' @ hint_text (HintOf a) @ ''.'' @ nl) charts)"

definition no_metrics_note :: string where
  "no_metrics_note = ''No measurements: the cluster serves no metrics API (metrics.k8s.io; install metrics-server to chart growth).''"

definition growth_note :: "status \<Rightarrow> string" where
  "growth_note s =
     (if GrowthNote s then no_metrics_note else ''No measurements yet; the first comes within ten minutes of birth.'')"

definition Growth ::
    "'q qops \<Rightarrow> ('q \<Rightarrow> int) \<Rightarrow> ('q \<Rightarrow> int) \<Rightarrow> (int \<Rightarrow> string) \<Rightarrow> (string list list \<Rightarrow> string) \<Rightarrow> 'q container list api
     \<Rightarrow> bool \<Rightarrow> pod_usage list list api \<Rightarrow> planned \<Rightarrow> string" where
  "Growth Q milli whole formatCPU table containers has_metrics metrics g =
     (case Birth (snd g) of
        None \<Rightarrow> GNamespace (fst g) @ ''/'' @ GName (fst g) @ '' isn't born yet, so it hasn't grown.'' @ nl
      | Some b \<Rightarrow>
          let (cpu, mem) = (case containers of Inl _ \<Rightarrow> (0, 0) | Inr cs \<Rightarrow> requested Q milli whole cs);
              live = live_sample has_metrics b metrics
          in if StGrowth (snd g) = [] \<and> live = None then
               ''Growth of '' @ SpecDeployment (GSpec (fst g)) @ '' ('' @ GNamespace (fst g) @ '')'' @ nl @ nl
                 @ growth_note (snd g) @ nl
             else renderGrowth formatCPU table g (AssessGrowth (StGrowth (snd g)) cpu mem live) (live \<noteq> None))"

section \<open>The memory of services that left\<close>

definition Memory :: "(string \<Rightarrow> life option) \<Rightarrow> data api \<Rightarrow> life list api" where
  "Memory unmarshal answer =
     (case answer of
        Inl e \<Rightarrow> if e = NotFound then Inr [] else Inl e
      | Inr d \<Rightarrow> Inr (Records unmarshal d))"

text \<open>\<open>time.Parse(RFC3339, s)\<close> and the local date are the parameters.\<close>

definition shortDate :: "(string \<Rightarrow> gotime option) \<Rightarrow> (gotime \<Rightarrow> string) \<Rightarrow> string \<Rightarrow> string" where
  "shortDate parse_stamp local_date stamp =
     (case parse_stamp stamp of None \<Rightarrow> stamp | Some t \<Rightarrow> local_date t)"

definition memory_row :: "(string \<Rightarrow> string) \<Rightarrow> life \<Rightarrow> string list" where
  "memory_row date r =
     [LifeNamespace r @ ''/'' @ LifeName r, date (Born r),
      (if ServiceMemory.Departed r then date (Left r) else ''still here''),
      orDefault (join '', '' (Owners r)) ''-'', orDefault (join '', '' (Dependencies r)) ''-'',
      orDefault (ConfigDigest r) ''-'']"

definition Remembrance :: string where
  "Remembrance = ''You were here once. I keep a little of you.''"

definition shown_records :: "bool \<Rightarrow> life list \<Rightarrow> life list" where
  "shown_records every records = filter (\<lambda>r. every \<or> ServiceMemory.Departed r) records"

definition renderMemory :: "(string \<Rightarrow> string) \<Rightarrow> (string list list \<Rightarrow> string) \<Rightarrow> life list \<Rightarrow> bool \<Rightarrow> string" where
  "renderMemory date table records every =
     (let shown = shown_records every records
      in if shown = [] then
           (if every then ''No service has been born here yet.'' @ nl
            else ''No service born here has left yet. (kyvctl remember --all lists the ones still here.)'' @ nl)
         else table ([''SERVICE'', ''BORN'', ''LEFT'', ''CAREGIVERS'', ''DEPENDED ON'', ''LAST CONFIG''] # map (memory_row date) shown)
              @ nl @ Remembrance @ nl)"


section \<open>The chart and the scoring agree\<close>

lemma score_run_scored:
  "\<forall>a \<in> set scores. \<exists>m s. a = ApgarScore m s \<Longrightarrow> a \<in> set (score_run ss scores) \<Longrightarrow> \<exists>m s. a = ApgarScore m s"
proof (induction ss arbitrary: scores)
  case (Cons s ss)
  have "\<forall>a \<in> set (scores @ [ApgarScore (NextMinute scores) s]). \<exists>m s. a = ApgarScore m s"
    using Cons.prems(1) by auto
  from Cons.IH [OF this] Cons.prems show ?case by (cases "NextMinute scores = 0") auto
qed simp

lemma score_run_grows: "length scores \<le> length (score_run ss scores)"
proof (induction ss arbitrary: scores)
  case (Cons s ss)
  then show ?case using Cons.IH [of "scores @ [ApgarScore (NextMinute scores) s]"] by simp
qed simp

lemma score_run_some: "ss \<noteq> [] \<Longrightarrow> score_run ss [] \<noteq> []"
  using score_run_grows [of "[ApgarScore 1 (hd ss)]" "tl ss"] by (cases ss) (auto simp: NextMinute_def)

text \<open>The total of a column is the sum of its five signs.\<close>

lemma column_adds_up: "TotalScore (ApgarScore m s) = (\<Sum>i<5. sign_value (ApgarScore m s) i)"
  using score_range [of m s] by (simp add: sign_value_def ApgarScore_def eval_nat_numeral)

lemma first_minute: "on_schedule scores \<Longrightarrow> scores \<noteq> [] \<Longrightarrow> Minute (last scores) < 5 \<longleftrightarrow> length scores = 1"
proof -
  assume a: "on_schedule scores" "scores \<noteq> []"
  then have "length scores \<le> 5" by (simp add: on_schedule_def)
  then consider "length scores = 1" | "length scores = 2" | "length scores = 3" | "length scores = 4" | "length scores = 5"
    using a(2) length_cases_5 by auto
  then show ?thesis
    using on_schedule_last [OF a] by cases (simp_all add: schedule_def)
qed

lemma verdict_cases:
  assumes "on_schedule scores" and "scores \<noteq> []"
  shows "apgar_verdict b scores = TooSoon \<longleftrightarrow>
      RolledBackTo b = [] \<and> length scores = 1 \<and> Reassuring \<le> TotalScore (last scores)"
    and "apgar_verdict b scores = ArrivedAt t m \<longleftrightarrow>
      RolledBackTo b = [] \<and> 1 < length scores \<and> t = TotalScore (last scores) \<and> m = Minute (last scores) \<and> Reassuring \<le> t"
    and "apgar_verdict b scores = NeedsCareAt m \<longleftrightarrow>
      RolledBackTo b = [] \<and> TotalScore (last scores) < Reassuring \<and> m = Minute (last scores)"
    and "NextMinute scores = 0 \<Longrightarrow> apgar_verdict b scores \<noteq> TooSoon"
proof -
  have l: "Minute (last scores) < 5 \<longleftrightarrow> length scores = 1" by (rule first_minute [OF assms])
  have p: "length scores = 1 \<or> 1 < length scores" using assms(2) by (cases scores) auto
  show "apgar_verdict b scores = TooSoon \<longleftrightarrow>
      RolledBackTo b = [] \<and> length scores = 1 \<and> Reassuring \<le> TotalScore (last scores)"
    using l by (auto simp: apgar_verdict_def Let_def)
  show "apgar_verdict b scores = ArrivedAt t m \<longleftrightarrow>
      RolledBackTo b = [] \<and> 1 < length scores \<and> t = TotalScore (last scores) \<and> m = Minute (last scores) \<and> Reassuring \<le> t"
    using l p by (auto simp: apgar_verdict_def Let_def)
  show "apgar_verdict b scores = NeedsCareAt m \<longleftrightarrow>
      RolledBackTo b = [] \<and> TotalScore (last scores) < Reassuring \<and> m = Minute (last scores)"
    by (auto simp: apgar_verdict_def Let_def)
  show "NextMinute scores = 0 \<Longrightarrow> apgar_verdict b scores \<noteq> TooSoon"
    using assms(2) by (auto simp: apgar_verdict_def NextMinute_def Let_def split: if_splits)
qed

text \<open>
  The chart of a launch agrees with its scoring: for the scores of any run of the
  controller, every column's total is the sum of the five signs above it and every row has one
  value per score; once the scoring is over there is a verdict, arrived exactly when a score of
  at least 7 was taken at five minutes or later on a service that was not rolled back, needs
  looking after exactly when the newest score is below 7, and none exactly while only a good
  first score exists.
\<close>

theorem apgar_report_agrees:
  assumes "ss \<noteq> []" and "scores = score_run ss []"
  shows "(\<forall>a \<in> set scores. TotalScore a = (\<Sum>i<5. sign_value a i))
    \<and> (\<forall>row \<in> set (apgar_table scores). length row = length scores + 2)
    \<and> (NextMinute scores = 0 \<longrightarrow> apgar_verdict b scores \<noteq> TooSoon)
    \<and> (apgar_verdict b scores = TooSoon \<longleftrightarrow>
         RolledBackTo b = [] \<and> length scores = 1 \<and> Reassuring \<le> TotalScore (last scores))
    \<and> (\<forall>t m. apgar_verdict b scores = ArrivedAt t m \<longleftrightarrow>
         RolledBackTo b = [] \<and> 1 < length scores \<and> t = TotalScore (last scores) \<and> m = Minute (last scores) \<and> Reassuring \<le> t)
    \<and> (\<forall>m. apgar_verdict b scores = NeedsCareAt m \<longleftrightarrow>
         RolledBackTo b = [] \<and> TotalScore (last scores) < Reassuring \<and> m = Minute (last scores))"
proof -
  have on: "on_schedule scores" unfolding assms(2) by (rule score_run_schedule) (simp add: on_schedule_def)
  have ne: "scores \<noteq> []" using score_run_some assms by simp
  have "\<forall>a \<in> set scores. TotalScore a = (\<Sum>i<5. sign_value a i)"
    using score_run_scored [of "[]" _ ss] assms(2) column_adds_up by fastforce
  moreover have "\<forall>row \<in> set (apgar_table scores). length row = length scores + 2"
    by (auto simp: apgar_table_def sign_row_def Let_def)
  ultimately show ?thesis using verdict_cases [OF on ne] by blast
qed

theorem apgar_report_agrees_witness:
  "apgar_verdict demo_birth (score_run [signs_of 2 0, signs_of 2 0] []) \<noteq> TooSoon"
proof -
  have "NextMinute (score_run [signs_of 2 0, signs_of 2 0] []) = 0" by code_simp
  then show ?thesis using apgar_report_agrees [of "[signs_of 2 0, signs_of 2 0]" _ demo_birth, OF _ refl] by blast
qed

end
