(* ===== verification/Dependencies.thy ===== *)
theory Dependencies
  imports Screening Relationships
begin

text \<open>
  Who reads the relationships: \<open>dependencies\<close> of \<open>controller/gestation/memory.go\<close>,
  what a service needs by name, and the map of \<open>kyvctl/relationships.go\<close>. A Relationship
  object is the \<open>relationship\<close> its specification holds (a missing field is the empty
  string); the objects a namespace lists are those whose first party lives there, as
  \<open>Relationship_Sync\<close> creates them. Two properties follow the graph to its readers.
\<close>

section \<open>What a service needs\<close>

definition dependency_name :: "string \<Rightarrow> party \<Rightarrow> string" where
  "dependency_name ns p =
     (let kind = (if PKind p = ''Service'' then ''svc'' else PKind p);
          name = (if PNamespace p \<noteq> [] \<and> PNamespace p \<noteq> ns then PNamespace p @ ''/'' @ PName p else PName p)
      in kind @ ''/'' @ name)"

definition talks_of :: "string \<Rightarrow> relationship list \<Rightarrow> relationship list" where
  "talks_of name rels =
     filter (\<lambda>r. PKind (RelFrom r) = ''Deployment'' \<and> PName (RelFrom r) = name \<and> RelType r = ''talks-to'') rels"

text \<open>\<open>None\<close> is a controller without the dynamic client.\<close>

definition dependencies ::
    "'q template \<Rightarrow> string \<Rightarrow> string \<Rightarrow> relationship list api option \<Rightarrow> string list" where
  "dependencies t ns name answer =
     (let (secrets, configmaps) = References t;
          out = map (\<lambda>s. ''secret/'' @ s) secrets @ map (\<lambda>s. ''configmap/'' @ s) configmaps
      in case answer of
           None \<Rightarrow> out
         | Some (Inl _) \<Rightarrow> out
         | Some (Inr rels) \<Rightarrow> out @ map (\<lambda>r. dependency_name ns (RelTo r)) (talks_of name rels))"

text \<open>
  \<open>ConfigDigest\<close> of \<open>gestation/memory.go\<close>: JSON and the hexadecimal SHA-256 are the
  parameters; a template that cannot be printed has no digest.
\<close>

definition ConfigDigest :: "('t \<Rightarrow> string option) \<Rightarrow> (string \<Rightarrow> string) \<Rightarrow> 't \<Rightarrow> string" where
  "ConfigDigest marshal sha256_hex t =
     (case marshal t of None \<Rightarrow> [] | Some raw \<Rightarrow> ''sha256:'' @ take 12 (sha256_hex raw))"

section \<open>The map of relationships\<close>

record edge =
  EdgeNamespace :: string
  EdgeFrom :: string
  EdgeRel :: string
  EdgeTo :: string
  EdgeEvidence :: string

definition shortKind :: "string \<Rightarrow> string" where
  "shortKind k =
     (if k = ''Deployment'' then ''deploy'' else if k = ''StatefulSet'' then ''sts''
      else if k = ''DaemonSet'' then ''ds'' else if k = ''Service'' then ''svc'' else k)"

definition party_text :: "party \<Rightarrow> string" where
  "party_text p = shortKind (PKind p) @ ''/'' @ PName p"

text \<open>An item is the namespace of the object with its specification.\<close>

definition edgeOf :: "string \<times> relationship \<Rightarrow> edge" where
  "edgeOf u =
     (let (ns, r) = u
      in \<lparr>EdgeNamespace = ns, EdgeFrom = party_text (RelFrom r), EdgeRel = RelType r,
          EdgeTo = party_text (RelTo r)
            @ (if PNamespace (RelTo r) \<noteq> [] \<and> PNamespace (RelTo r) \<noteq> ns then '' ('' @ PNamespace (RelTo r) @ '')'' else []),
          EdgeEvidence = Evidence r\<rparr>)"

fun hasName :: "string \<Rightarrow> string \<Rightarrow> bool" where
  "hasName [] name = False"
| "hasName (c # rest) name =
     ((c = CHR ''/'' \<and> has_prefix rest name
         \<and> (length rest = length name \<or> rest ! length name = CHR '' ''))
      \<or> hasName rest name)"

definition map_edges :: "string \<Rightarrow> (string \<times> relationship) list \<Rightarrow> edge list" where
  "map_edges focus items =
     filter (\<lambda>e. focus = [] \<or> hasName (EdgeFrom e) focus \<or> hasName (EdgeTo e) focus) (map edgeOf items)"

definition edge_line :: "edge \<Rightarrow> string" where
  "edge_line e = ''  '' @ EdgeFrom e @ replicate (24 - length (EdgeFrom e)) (CHR '' '') @ '' --'' @ EdgeRel e @ ''--> ''
     @ EdgeTo e @ [CHR 0x0A]"

fun edge_lines :: "string \<Rightarrow> edge list \<Rightarrow> string" where
  "edge_lines ns [] = []"
| "edge_lines ns (e # es) =
     (if EdgeNamespace e \<noteq> ns then EdgeNamespace e @ [CHR 0x0A] else []) @ edge_line e @ edge_lines (EdgeNamespace e) es"

text \<open>
  \<open>sort.Slice\<close> need not be stable: \<open>arrange\<close> is the order it leaves equal edges in.
\<close>

definition renderRelationships :: "(edge list \<Rightarrow> edge list) \<Rightarrow> string \<Rightarrow> (string \<times> relationship) list \<Rightarrow> string" where
  "renderRelationships arrange focus items =
     (let edges = map_edges focus items
      in if edges = [] then ''No relationships yet. Services and workloads here don't refer to each other.'' @ [CHR 0x0A]
         else edge_lines [CHR 0x00]
                (sort_key EdgeNamespace (sort_key EdgeFrom (sort_key EdgeTo (arrange edges)))))"

definition runRelationships ::
    "(edge list \<Rightarrow> edge list) \<Rightarrow> string \<Rightarrow> (string \<times> relationship) list api \<Rightarrow> string api" where
  "runRelationships arrange focus answered_items =
     (case answered_items of Inl e \<Rightarrow> Inl e | Inr items \<Rightarrow> Inr (renderRelationships arrange focus items))"

section \<open>A name in the map\<close>

lemma hasName_no_slash: "CHR ''/'' \<notin> set s \<Longrightarrow> \<not> hasName s name"
  by (induction s) auto

lemma hasName_prefix: "CHR ''/'' \<notin> set k \<Longrightarrow> hasName (k @ s) name \<longleftrightarrow> hasName s name"
  by (induction k) auto

lemma word_of: "CHR '' '' \<notin> set n \<Longrightarrow> t = [] \<or> hd t = CHR '' '' \<Longrightarrow> takeWhile (\<lambda>c. c \<noteq> CHR '' '') (n @ t) = n"
  by (cases t) (auto simp: takeWhile_append)

lemma named_here:
  assumes "CHR '' '' \<notin> set n" and "CHR '' '' \<notin> set name" and "t = [] \<or> hd t = CHR '' ''"
  shows "has_prefix (n @ t) name \<and> (length (n @ t) = length name \<or> (n @ t) ! length name = CHR '' '') \<longleftrightarrow> n = name"
proof
  assume l: "has_prefix (n @ t) name \<and> (length (n @ t) = length name \<or> (n @ t) ! length name = CHR '' '')"
  then obtain z where z: "n @ t = name @ z" by (auto simp: has_prefix_iff)
  then have "z = [] \<or> hd z = CHR '' ''" using l by (cases z) (auto simp: nth_append)
  then show "n = name" using word_of [OF assms(1, 3)] word_of [OF assms(2), of z] z by simp
next
  assume "n = name"
  then show "has_prefix (n @ t) name \<and> (length (n @ t) = length name \<or> (n @ t) ! length name = CHR '' '')"
    using assms(3) by (cases t) (auto simp: nth_append has_prefix_iff)
qed

text \<open>Names and kinds hold no slash and no blank, so a party is found exactly by its name.\<close>

lemma hasName_exact:
  assumes "CHR ''/'' \<notin> set k" and "CHR ''/'' \<notin> set (n @ t)" and "CHR '' '' \<notin> set n"
    and "CHR '' '' \<notin> set name" and "t = [] \<or> hd t = CHR '' ''"
  shows "hasName (k @ ''/'' @ n @ t) name \<longleftrightarrow> n = name"
  using hasName_prefix [OF assms(1), of "CHR ''/'' # (n @ t)" name] hasName_no_slash [OF assms(2), of name]
    named_here [OF assms(3, 4, 5)] by simp


definition plain_party :: "party \<Rightarrow> bool" where
  "plain_party p \<longleftrightarrow> CHR ''/'' \<notin> set (PKind p) \<and> CHR ''/'' \<notin> set (PName p) \<and> CHR '' '' \<notin> set (PName p)
     \<and> CHR ''/'' \<notin> set (PNamespace p)"

lemma shortKind_plain: "CHR ''/'' \<notin> set k \<Longrightarrow> CHR ''/'' \<notin> set (shortKind k)"
  by (simp add: shortKind_def)

lemma edge_names:
  assumes "plain_party (RelFrom r)" and "plain_party (RelTo r)" and "CHR '' '' \<notin> set name"
  shows "hasName (EdgeFrom (edgeOf (ns, r))) name \<longleftrightarrow> PName (RelFrom r) = name"
    and "hasName (EdgeTo (edgeOf (ns, r))) name \<longleftrightarrow> PName (RelTo r) = name"
proof -
  show "hasName (EdgeFrom (edgeOf (ns, r))) name \<longleftrightarrow> PName (RelFrom r) = name"
    using hasName_exact [of "shortKind (PKind (RelFrom r))" "PName (RelFrom r)" "[]" name] assms shortKind_plain
    by (simp add: edgeOf_def party_text_def plain_party_def)
  let ?t = "if PNamespace (RelTo r) \<noteq> [] \<and> PNamespace (RelTo r) \<noteq> ns then '' ('' @ PNamespace (RelTo r) @ '')'' else []"
  show "hasName (EdgeTo (edgeOf (ns, r))) name \<longleftrightarrow> PName (RelTo r) = name"
    using hasName_exact [of "shortKind (PKind (RelTo r))" "PName (RelTo r)" ?t name] assms shortKind_plain
    by (simp add: edgeOf_def party_text_def plain_party_def)
qed

text \<open>
  With a name, the edges drawn are exactly those of the relationships that have it on either
  side, in the order of the list, and without one all of them; a namespace, a kind or the
  beginning of another name never matches.
\<close>

lemma map_edges_focus:
  assumes "\<forall>(ns, r) \<in> set items. plain_party (RelFrom r) \<and> plain_party (RelTo r)" and "CHR '' '' \<notin> set focus"
  shows "map_edges focus items =
    map edgeOf (filter (\<lambda>(ns, r). focus = [] \<or> PName (RelFrom r) = focus \<or> PName (RelTo r) = focus) items)"
  using assms(1)
proof (induction items)
  case (Cons u items)
  obtain ns r where u: "u = (ns, r)" by (cases u)
  have p: "plain_party (RelFrom r)" "plain_party (RelTo r)" using Cons.prems u by auto
  have "map_edges focus (u # items) =
      (if focus = [] \<or> hasName (EdgeFrom (edgeOf u)) focus \<or> hasName (EdgeTo (edgeOf u)) focus then [edgeOf u] else [])
      @ map_edges focus items"
    by (simp add: map_edges_def)
  then show ?case using Cons edge_names [OF p assms(2), of ns] u by simp
qed (simp add: map_edges_def)

section \<open>From the graph to the memory\<close>

lemma talks_edges_to:
  "r \<in> set (talks_edges idx served w seen ts) \<Longrightarrow>
   \<exists>s tok. lookup_token idx tok (PNamespace w) = Some s \<and> RelTo r = svc_party s"
  by (induction idx served w seen ts rule: talks_edges.induct) (auto split: option.splits if_splits)

text \<open>What the API lists in a namespace when it holds the graph.\<close>

definition listed_in :: "string \<Rightarrow> relationship list \<Rightarrow> relationship list" where
  "listed_in ns rels = filter (\<lambda>r. PNamespace (RelFrom r) = ns) rels"

definition unique_parties :: "workload list \<Rightarrow> bool" where
  "unique_parties ws \<longleftrightarrow> distinct (map (\<lambda>w. (PKind (WRef w), PNamespace (WRef w), PName (WRef w))) ws)"

lemma unique_party:
  assumes "unique_parties ws" and "w \<in> set ws" and "w' \<in> set ws"
    and "PKind (WRef w') = PKind (WRef w)" and "PNamespace (WRef w') = PNamespace (WRef w)" and "PName (WRef w') = PName (WRef w)"
  shows "w' = w"
  using assms by (auto simp: unique_parties_def distinct_map dest: inj_onD)

lemma unique_refs: "unique_parties ws \<Longrightarrow> distinct (map WRef ws)"
  using unique_party by (auto simp: unique_parties_def distinct_map intro!: inj_onI)

lemma talks_in_graph:
  assumes "dns_services svcs" and "unique_parties ws" and "w \<in> set ws" and "PKind (WRef w) = ''Deployment''"
    and "CHR ''/'' \<notin> set (PNamespace (WRef w))"
    and "r \<in> set (talks_of (PName (WRef w)) (listed_in (PNamespace (WRef w)) (Graph lower upper hash10 svcs ws)))"
  shows "\<exists>s \<in> set svcs. r = \<lparr>RelFrom = WRef w, RelTo = svc_party s, RelType = TalksTo, Evidence = Evidence r\<rparr>"
proof -
  have r: "r \<in> set (Graph lower upper hash10 svcs ws)" "PKind (RelFrom r) = ''Deployment''" "PName (RelFrom r) = PName (WRef w)"
      "RelType r = TalksTo" "PNamespace (RelFrom r) = PNamespace (WRef w)"
    using assms(6) by (auto simp: talks_of_def listed_in_def TalksTo_def)
  have "r \<notin> set (serves_edges svcs ws)" using r(4) by (auto simp: serves_edges_def Serves_def TalksTo_def)
  then obtain w' where w': "w' \<in> set ws"
      "r \<in> set (talks_edges (newServiceIndex svcs) (served_pairs svcs ws) (WRef w') [] (workload_tokens lower upper w'))"
    using r(1) by (auto simp: Graph_def)
  have from_w: "RelFrom r = WRef w'" using talks_from [OF w'(2)] by simp
  then have "w' = w" using unique_party [OF assms(2,3) w'(1)] r assms(4) by simp
  obtain s tok where s: "lookup_token (newServiceIndex svcs) tok (PNamespace (WRef w')) = Some s" "RelTo r = svc_party s"
    using talks_edges_to [OF w'(2)] by blast
  have "s \<in> set svcs" using lookup_resolves [OF assms(1,5)] s(1) \<open>w' = w\<close> by simp
  then show ?thesis using s(2) from_w r(4) \<open>w' = w\<close> by (cases r) auto
qed


text \<open>The services a workload needs: it names them as a host, and they do not serve it.\<close>

definition needs_service ::
    "(string \<Rightarrow> string) \<Rightarrow> (string \<Rightarrow> string) \<Rightarrow> workload \<Rightarrow> rservice \<Rightarrow> bool" where
  "needs_service lower upper w s \<longleftrightarrow>
     \<not> is_served s w \<and> (\<exists>l tok. (l, tok) \<in> set (workload_tokens lower upper w) \<and> resolves tok (PNamespace (WRef w)) s)"

definition service_label :: "string \<Rightarrow> rservice \<Rightarrow> string" where
  "service_label ns s = ''svc/'' @ (if RSvcNamespace s = ns then RSvcName s else RSvcNamespace s @ ''/'' @ RSvcName s)"

text \<open>
  The memory of a service names what it needs: when the API holds the graph the
  relationships controller computes, the dependencies remembered of a Deployment are exactly the
  Secrets and ConfigMaps its pod template refers to without calling them optional, and the
  Services that its environment, arguments or command name as a host and that do not serve it;
  when the API has no relationships, the former only.
\<close>

theorem dependencies_exact:
  assumes "dns_services svcs" and "unique_parties ws" and "w \<in> set ws" and "PKind (WRef w) = ''Deployment''"
    and "CHR ''/'' \<notin> set (PNamespace (WRef w))" and "\<forall>s \<in> set svcs. RSvcNamespace s \<noteq> []"
  shows "(x \<in> set (dependencies t (PNamespace (WRef w)) (PName (WRef w))
            (Some (Inr (listed_in (PNamespace (WRef w)) (Graph lower upper hash10 svcs ws)))))
      \<longleftrightarrow> (\<exists>n \<in> set (fst (References t)). x = ''secret/'' @ n) \<or> (\<exists>n \<in> set (snd (References t)). x = ''configmap/'' @ n)
        \<or> (\<exists>s \<in> set svcs. needs_service lower upper w s \<and> x = service_label (PNamespace (WRef w)) s))
    \<and> (x \<in> set (dependencies t (PNamespace (WRef w)) (PName (WRef w)) (Some (Inl e)))
      \<longleftrightarrow> (\<exists>n \<in> set (fst (References t)). x = ''secret/'' @ n) \<or> (\<exists>n \<in> set (snd (References t)). x = ''configmap/'' @ n))"
proof -
  let ?ns = "PNamespace (WRef w)" and ?g = "Graph lower upper hash10 svcs ws"
  let ?talks = "talks_of (PName (WRef w)) (listed_in ?ns ?g)"
  let ?edge = "\<lambda>s e. \<lparr>RelFrom = WRef w, RelTo = svc_party s, RelType = TalksTo, Evidence = e\<rparr>"
  have edges: "(\<exists>e. ?edge s e \<in> set ?g) \<longleftrightarrow> needs_service lower upper w s" if "s \<in> set svcs" for s
    using talks_to_exactly [OF assms(1) unique_refs [OF assms(2)] that assms(3,5)] by (simp add: needs_service_def)
  have label: "dependency_name ?ns (svc_party s) = service_label ?ns s" if "s \<in> set svcs" for s
    using assms(6) that by (auto simp: dependency_name_def svc_party_def service_label_def)
  have "x \<in> (\<lambda>r. dependency_name ?ns (RelTo r)) ` set ?talks
      \<longleftrightarrow> (\<exists>s \<in> set svcs. needs_service lower upper w s \<and> x = service_label ?ns s)" (is "?l \<longleftrightarrow> ?r")
  proof
    assume ?l
    then obtain r where r: "r \<in> set ?talks" "x = dependency_name ?ns (RelTo r)" by blast
    obtain s where s: "s \<in> set svcs" "r = ?edge s (Evidence r)" using talks_in_graph [OF assms(1-5) r(1)] by blast
    have "r \<in> set ?g" using r(1) by (simp add: talks_of_def listed_in_def)
    then have "needs_service lower upper w s" using edges [OF s(1)] s(2) by metis
    moreover have "RelTo r = svc_party s" using s(2) by (metis relationship.select_convs(2))
    ultimately show ?r using s(1) r(2) label by auto
  next
    assume ?r
    then obtain s where s: "s \<in> set svcs" "needs_service lower upper w s" "x = service_label ?ns s" by blast
    then obtain e where "?edge s e \<in> set ?g" using edges by blast
    then have "?edge s e \<in> set ?talks" using assms(4) by (simp add: talks_of_def listed_in_def TalksTo_def)
    then show ?l using label [OF s(1)] s(3) by (intro image_eqI [of _ _ "?edge s e"]) simp_all
  qed
  then show ?thesis by (auto simp: dependencies_def case_prod_beta)
qed

definition demo_bare :: "int template" where
  "demo_bare = \<lparr>TmplLabels = (\<lambda>_. None), ImagePullSecrets = [], Volumes = [], InitContainers = [], Containers = []\<rparr>"

theorem dependencies_exact_witness:
  "''svc/db'' \<in> set (dependencies demo_bare ''shop'' ''front'' (Some (Inr (listed_in ''shop'' (demo_graph [demo_db] [demo_front, demo_backend])))))"
proof -
  have f: "PNamespace (WRef demo_front) = ''shop''" "PName (WRef demo_front) = ''front''" "PKind (WRef demo_front) = ''Deployment''"
    by (simp_all add: demo_front_def demo_workload_def)
  have u: "unique_parties [demo_front, demo_backend]"
    by (simp add: unique_parties_def demo_front_def demo_backend_def demo_workload_def)
  have "(''container web env DB_host'', \<lparr>Host = ''db'', Strong = True\<rparr>) \<in> set (workload_tokens to_lower to_upper demo_front)"
    by (simp add: demo_tokens)
  moreover have "resolves \<lparr>Host = ''db'', Strong = True\<rparr> ''shop'' demo_db" by code_simp
  ultimately have "needs_service to_lower to_upper demo_front demo_db"
    unfolding needs_service_def f by (auto simp: is_served_def demo_db_def demo_front_def demo_workload_def)
  moreover have "service_label ''shop'' demo_db = ''svc/db''" by (simp add: service_label_def demo_db_def)
  ultimately show ?thesis
    using dependencies_exact [OF demo_dns u, of demo_front "''svc/db''" demo_bare to_lower to_upper "\<lambda>_. ''0123456789''" NotFound]
    unfolding f demo_graph_def [symmetric] by (simp add: demo_db_def)
qed

end
