(* ===== verification/Roles.thy ===== *)
theory Roles
  imports Gestation_World Relationship_Sync Placement Crd
begin

text \<open>
  The roles of the controllers (\<open>bootstrappolicy/kyvernetria.go\<close>) against what the
  controllers ask the API for, and \<open>kyvctl exclude\<close> (\<open>kyvctl/exclude.go\<close>). The
  names of the API groups, the rule for events and the reading of a rule are upstream: the
  first two are the record \<open>upstream\<close>, the last is the parameter \<open>allows\<close>, with
  its documented meaning for rules without wildcards as the hypothesis \<open>rule_semantics\<close>.
\<close>

section \<open>Rules and requests\<close>

record policy_rule =
  Verbs :: "string list"
  Groups :: "string list"
  Resources :: "string list"
  ResourceNames :: "string list"

record api_request =
  Verb :: string
  ReqGroup :: string
  Resource :: string
  ReqName :: string

record upstream =
  AppsGroup :: string
  PolicyGroup :: string
  SchedulingGroup :: string
  AutoscalingGroup :: string
  LegacyGroup :: string
  StorageGroup :: string
  ResMetricsGroup :: string
  ReadVerbs :: "string list"
  EventsRule :: policy_rule

definition kyvernetriaGroup :: string where "kyvernetriaGroup = ''kyvernetria.io''"
definition kyvernetriaExtensionsGroup :: string where "kyvernetriaExtensionsGroup = ''apiextensions.k8s.io''"

definition rule :: "string list \<Rightarrow> string \<Rightarrow> string list \<Rightarrow> policy_rule" where
  "rule verbs g resources = \<lparr>Verbs = verbs, Groups = [g], Resources = resources, ResourceNames = []\<rparr>"

definition kyvernetriaSchedulerRules :: "upstream \<Rightarrow> policy_rule list" where
  "kyvernetriaSchedulerRules U = [rule (ReadVerbs U) (AppsGroup U) [''deployments'']]"

definition gestation_role :: "upstream \<Rightarrow> policy_rule list" where
  "gestation_role U =
     [rule [''get'', ''create'', ''update''] kyvernetriaExtensionsGroup [''customresourcedefinitions''],
      rule [''get'', ''list'', ''watch''] kyvernetriaGroup [''gestations''],
      rule [''update''] kyvernetriaGroup [''gestations/status''],
      rule [''list'', ''watch''] kyvernetriaGroup [''relationships''],
      rule [''get'', ''create'', ''update'', ''delete''] (AppsGroup U) [''deployments''],
      rule [''get'', ''list'', ''watch'', ''create'', ''delete''] (PolicyGroup U) [''poddisruptionbudgets''],
      rule [''get'', ''create''] (SchedulingGroup U) [''priorityclasses''],
      rule [''list'', ''watch''] (AutoscalingGroup U) [''horizontalpodautoscalers''],
      rule [''get'', ''create'', ''patch''] (LegacyGroup U) [''namespaces''],
      rule [''get''] (LegacyGroup U) [''secrets'', ''configmaps'', ''persistentvolumeclaims''],
      rule [''list'', ''watch''] (LegacyGroup U) [''resourcequotas'', ''events''],
      rule [''get'', ''list'', ''watch''] (StorageGroup U) [''storageclasses''],
      rule [''create''] (LegacyGroup U) [''configmaps''],
      (rule [''update''] (LegacyGroup U) [''configmaps''])\<lparr>ResourceNames := [''kyvernetria-microchimerism'']\<rparr>,
      rule [''list'', ''watch''] (ResMetricsGroup U) [''pods''],
      EventsRule U]"

definition place_memory_role :: "upstream \<Rightarrow> policy_rule list" where
  "place_memory_role U =
     [rule [''get'', ''patch''] (AppsGroup U) [''deployments'', ''statefulsets'', ''replicasets''], EventsRule U]"

definition relationships_role :: "upstream \<Rightarrow> policy_rule list" where
  "relationships_role U =
     [rule [''get'', ''create'', ''update''] kyvernetriaExtensionsGroup [''customresourcedefinitions''],
      rule [''get'', ''list'', ''watch'', ''create'', ''update'', ''delete''] kyvernetriaGroup [''relationships''],
      EventsRule U]"

definition worry_role :: "upstream \<Rightarrow> policy_rule list" where
  "worry_role U = [rule [''patch''] (LegacyGroup U) [''nodes''], EventsRule U]"

text \<open>The cluster roles the code registers, by service account.\<close>

definition addKyvernetriaControllerRoles :: "upstream \<Rightarrow> (string \<times> policy_rule list) list" where
  "addKyvernetriaControllerRoles U =
     [(''kyvernetria-gestation'', gestation_role U), (''kyvernetria-place-memory'', place_memory_role U),
      (''kyvernetria-relationships'', relationships_role U), (''kyvernetria-worry'', worry_role U)]"

section \<open>What the controllers ask for\<close>

definition MemoryConfigMap :: string where "MemoryConfigMap = ''kyvernetria-microchimerism''"

text \<open>The calls of the gestation controller behind its writes; a creation has no name to check.\<close>

fun effect_request :: "upstream \<Rightarrow> ('q, 'x) effect \<Rightarrow> api_request" where
  "effect_request U (CreatePlacenta r h) = \<lparr>Verb = ''create'', ReqGroup = AppsGroup U, Resource = ''deployments'', ReqName = []\<rparr>"
| "effect_request U (UpdatePlacenta d r) = \<lparr>Verb = ''update'', ReqGroup = AppsGroup U, Resource = ''deployments'', ReqName = DepName d\<rparr>"
| "effect_request U (DeletePlacenta n u) = \<lparr>Verb = ''delete'', ReqGroup = AppsGroup U, Resource = ''deployments'', ReqName = n\<rparr>"
| "effect_request U (PatchNewborns ns v) = \<lparr>Verb = ''patch'', ReqGroup = LegacyGroup U, Resource = ''namespaces'', ReqName = ns\<rparr>"
| "effect_request U (CreatePDB a b c n x) = \<lparr>Verb = ''create'', ReqGroup = PolicyGroup U, Resource = ''poddisruptionbudgets'', ReqName = []\<rparr>"
| "effect_request U (DeletePDB n u) = \<lparr>Verb = ''delete'', ReqGroup = PolicyGroup U, Resource = ''poddisruptionbudgets'', ReqName = n\<rparr>"
| "effect_request U (UpdateDeployment d) = \<lparr>Verb = ''update'', ReqGroup = AppsGroup U, Resource = ''deployments'', ReqName = DepName d\<rparr>"
| "effect_request U (DeployEvent n w r) = \<lparr>Verb = ''create'', ReqGroup = LegacyGroup U, Resource = ''events'', ReqName = []\<rparr>"
| "effect_request U (GestationEvent n w r) = \<lparr>Verb = ''create'', ReqGroup = LegacyGroup U, Resource = ''events'', ReqName = []\<rparr>"
| "effect_request U (UpdateStatus n s) = \<lparr>Verb = ''update'', ReqGroup = kyvernetriaGroup, Resource = ''gestations/status'', ReqName = n\<rparr>"
| "effect_request U (CreatePriorityClass n v) = \<lparr>Verb = ''create'', ReqGroup = SchedulingGroup U, Resource = ''priorityclasses'', ReqName = []\<rparr>"
| "effect_request U CreateSystemNamespace = \<lparr>Verb = ''create'', ReqGroup = LegacyGroup U, Resource = ''namespaces'', ReqName = []\<rparr>"
| "effect_request U (CreateMemory d) = \<lparr>Verb = ''create'', ReqGroup = LegacyGroup U, Resource = ''configmaps'', ReqName = []\<rparr>"
| "effect_request U (UpdateMemory d) = \<lparr>Verb = ''update'', ReqGroup = LegacyGroup U, Resource = ''configmaps'', ReqName = MemoryConfigMap\<rparr>"

fun rel_request :: "rel_effect \<Rightarrow> api_request" where
  "rel_request (RelDelete ns n) = \<lparr>Verb = ''delete'', ReqGroup = kyvernetriaGroup, Resource = ''relationships'', ReqName = n\<rparr>"
| "rel_request (RelUpdate b) = \<lparr>Verb = ''update'', ReqGroup = kyvernetriaGroup, Resource = ''relationships'', ReqName = ObjName b\<rparr>"
| "rel_request (RelCreate b) = \<lparr>Verb = ''create'', ReqGroup = kyvernetriaGroup, Resource = ''relationships'', ReqName = []\<rparr>"

fun crd_request :: "string \<Rightarrow> 's crd_write \<Rightarrow> api_request" where
  "crd_request n (CrdCreate s) = \<lparr>Verb = ''create'', ReqGroup = kyvernetriaExtensionsGroup, Resource = ''customresourcedefinitions'', ReqName = []\<rparr>"
| "crd_request n (CrdUpdate s) = \<lparr>Verb = ''update'', ReqGroup = kyvernetriaExtensionsGroup, Resource = ''customresourcedefinitions'', ReqName = n\<rparr>"


definition holder_resource :: "string \<Rightarrow> string option" where
  "holder_resource k =
     (if k = Deployment then Some ''deployments'' else if k = StatefulSet then Some ''statefulsets''
      else if k = ReplicaSet then Some ''replicasets'' else None)"

text \<open>\<open>get\<close> and the patch of the place-memory controller; an unknown kind asks nothing.\<close>

definition holder_request :: "upstream \<Rightarrow> string \<Rightarrow> holder \<Rightarrow> api_request option" where
  "holder_request U verb h =
     map_option (\<lambda>r. \<lparr>Verb = verb, ReqGroup = AppsGroup U, Resource = r, ReqName = Name h\<rparr>) (holder_resource (Kind h))"

definition worry_request :: "upstream \<Rightarrow> string \<Rightarrow> api_request" where
  "worry_request U node = \<lparr>Verb = ''patch'', ReqGroup = LegacyGroup U, Resource = ''nodes'', ReqName = node\<rparr>"

section \<open>What the roles allow\<close>

definition may :: "(policy_rule \<Rightarrow> api_request \<Rightarrow> bool) \<Rightarrow> policy_rule list \<Rightarrow> api_request \<Rightarrow> bool" where
  "may allows role q \<longleftrightarrow> list_ex (\<lambda>r. allows r q) role"

definition names_request :: "policy_rule \<Rightarrow> api_request \<Rightarrow> bool" where
  "names_request r q \<longleftrightarrow> Verb q \<in> set (Verbs r) \<and> ReqGroup q \<in> set (Groups r) \<and> Resource q \<in> set (Resources r)
     \<and> (ResourceNames r = [] \<or> ReqName q \<in> set (ResourceNames r))"

definition no_wildcard :: "policy_rule \<Rightarrow> bool" where
  "no_wildcard r \<longleftrightarrow> ''*'' \<notin> set (Verbs r) \<union> set (Groups r) \<union> set (Resources r)"

definition rule_semantics :: "(policy_rule \<Rightarrow> api_request \<Rightarrow> bool) \<Rightarrow> bool" where
  "rule_semantics allows \<longleftrightarrow> (\<forall>r q. no_wildcard r \<longrightarrow> allows r q = names_request r q)"

text \<open>No group of the API is called \<open>*\<close>; the upstream rule for events is one on events only.\<close>

definition plain_upstream :: "upstream \<Rightarrow> bool" where
  "plain_upstream U \<longleftrightarrow>
     ''*'' \<notin> {AppsGroup U, PolicyGroup U, SchedulingGroup U, AutoscalingGroup U, LegacyGroup U, StorageGroup U, ResMetricsGroup U}
     \<and> no_wildcard (EventsRule U) \<and> ''create'' \<in> set (Verbs (EventsRule U)) \<and> LegacyGroup U \<in> set (Groups (EventsRule U))
     \<and> Resources (EventsRule U) = [''events''] \<and> ResourceNames (EventsRule U) = []"

lemma role_rules:
  assumes "plain_upstream U" and "rule_semantics allows"
    and "role = gestation_role U \<or> role = place_memory_role U \<or> role = relationships_role U \<or> role = worry_role U"
  shows "may allows role q = list_ex (\<lambda>r. names_request r q) role"
proof -
  have "list_all no_wildcard role"
    using assms(1, 3)
    by (auto simp: plain_upstream_def gestation_role_def place_memory_role_def relationships_role_def worry_role_def
        no_wildcard_def rule_def kyvernetriaGroup_def kyvernetriaExtensionsGroup_def)
  then show ?thesis
    using assms(2) unfolding may_def rule_semantics_def by (induction role) auto
qed

lemmas rule_simps = names_request_def rule_def gestation_role_def place_memory_role_def relationships_role_def worry_role_def

lemma events_rule:
  assumes "plain_upstream U"
  shows "''create'' \<in> set (Verbs (EventsRule U))" "LegacyGroup U \<in> set (Groups (EventsRule U))"
    "Resources (EventsRule U) = [''events'']" "ResourceNames (EventsRule U) = []"
  using assms by (simp_all add: plain_upstream_def)

lemma gestation_writes: "plain_upstream U \<Longrightarrow> list_ex (\<lambda>r. names_request r (effect_request U e)) (gestation_role U)"
  by (cases e) (simp_all add: rule_simps events_rule MemoryConfigMap_def)

lemma crd_writes:
  "list_ex (\<lambda>r. names_request r (crd_request n w)) (gestation_role U)"
  "list_ex (\<lambda>r. names_request r (crd_request n w)) (relationships_role U)"
  by (cases w; simp add: rule_simps)+

lemma rel_writes: "list_ex (\<lambda>r. names_request r (rel_request x)) (relationships_role U)"
  by (cases x) (simp_all add: rule_simps)

lemma holder_calls:
  "v = ''get'' \<or> v = ''patch'' \<Longrightarrow> holder_request U v h = Some q \<Longrightarrow> list_ex (\<lambda>r. names_request r q) (place_memory_role U)"
  by (auto simp: rule_simps holder_request_def holder_resource_def split: if_splits)

lemma worry_writes: "list_ex (\<lambda>r. names_request r (worry_request U node)) (worry_role U)"
  by (simp add: rule_simps worry_request_def)

text \<open>What the gestation controller is kept from.\<close>

definition modest :: "upstream \<Rightarrow> api_request \<Rightarrow> bool" where
  "modest U q \<longleftrightarrow>
     (Resource q = ''secrets'' \<longrightarrow> Verb q = ''get'')
     \<and> (Resource q = ''configmaps'' \<longrightarrow> Verb q \<in> {''get'', ''create''} \<or> (Verb q = ''update'' \<and> ReqName q = MemoryConfigMap))
     \<and> (Resource q = ''pods'' \<longrightarrow> ReqGroup q = ResMetricsGroup U \<and> Verb q \<in> {''list'', ''watch''})"

lemma gestation_modest:
  assumes "plain_upstream U" and l: "list_ex (\<lambda>r. names_request r q) (gestation_role U)"
  shows "modest U q"
  unfolding modest_def
proof (intro conjI impI)
  show "Verb q = ''get''" if "Resource q = ''secrets''"
    using l that by (simp add: rule_simps events_rule [OF assms(1)])
  show "Verb q \<in> {''get'', ''create''} \<or> (Verb q = ''update'' \<and> ReqName q = MemoryConfigMap)"
    if "Resource q = ''configmaps''"
    using l that by (simp add: rule_simps events_rule [OF assms(1)] MemoryConfigMap_def) argo
  show "ReqGroup q = ResMetricsGroup U" if "Resource q = ''pods''"
    using l that by (simp add: rule_simps events_rule [OF assms(1)])
  show "Verb q \<in> {''list'', ''watch''}" if "Resource q = ''pods''"
    using l that by (simp add: rule_simps events_rule [OF assms(1)])
qed

text \<open>
  Claim C26. The controllers may do what they do, and no more of the dangerous things: with the
  documented meaning of a rule, every write the gestation controller can make, the installation
  of both custom resources, every write to a Relationship, every read and patch of a workload's
  memory and every patch of a worried node is allowed by the role of its service account;
  and the gestation controller, which may read Secrets to screen, can do nothing else with them,
  can change no ConfigMap but its own memory, and has no access to pods except their metrics.
\<close>

theorem roles_fit_the_controllers:
  fixes e :: "('q, 'x) effect"
  assumes "plain_upstream U" and "rule_semantics allows"
  shows "may allows (gestation_role U) (effect_request U e)
    \<and> may allows (gestation_role U) (crd_request n w) \<and> may allows (relationships_role U) (crd_request n w)
    \<and> may allows (relationships_role U) (rel_request x)
    \<and> (\<forall>v q. (v = ''get'' \<or> v = ''patch'') \<and> holder_request U v h = Some q \<longrightarrow> may allows (place_memory_role U) q)
    \<and> may allows (worry_role U) (worry_request U node)
    \<and> (\<forall>q. may allows (gestation_role U) q \<longrightarrow> modest U q)"
proof -
  have r: "may allows role q = list_ex (\<lambda>r. names_request r q) role"
    if "role \<in> {gestation_role U, place_memory_role U, relationships_role U, worry_role U}" for role q
    using role_rules [OF assms, of role] that by blast
  have g: "may allows (gestation_role U) q = list_ex (\<lambda>r. names_request r q) (gestation_role U)"
    and p: "may allows (place_memory_role U) q = list_ex (\<lambda>r. names_request r q) (place_memory_role U)"
    and l: "may allows (relationships_role U) q = list_ex (\<lambda>r. names_request r q) (relationships_role U)"
    and w: "may allows (worry_role U) q = list_ex (\<lambda>r. names_request r q) (worry_role U)" for q
    by (rule r; simp)+
  show ?thesis
    unfolding g p l w
    using gestation_writes [OF assms(1)] crd_writes rel_writes holder_calls worry_writes gestation_modest [OF assms(1)]
    by (intro conjI allI impI) (assumption | elim conjE | blast)+
qed

definition demo_upstream :: upstream where
  "demo_upstream = \<lparr>AppsGroup = ''apps'', PolicyGroup = ''policy'', SchedulingGroup = ''scheduling.k8s.io'',
     AutoscalingGroup = ''autoscaling'', LegacyGroup = [], StorageGroup = ''storage.k8s.io'', ResMetricsGroup = ''metrics.k8s.io'',
     ReadVerbs = [''get'', ''list'', ''watch''],
     EventsRule = \<lparr>Verbs = [''create'', ''update'', ''patch''], Groups = [[], ''events.k8s.io''], Resources = [''events''], ResourceNames = []\<rparr>\<rparr>"

theorem roles_fit_the_controllers_witness:
  "may names_request (gestation_role demo_upstream) (effect_request demo_upstream (UpdateMemory [] :: (int, unit) effect))"
proof -
  have "plain_upstream demo_upstream" by (simp add: plain_upstream_def demo_upstream_def no_wildcard_def)
  moreover have "rule_semantics names_request" by (simp add: rule_semantics_def)
  ultimately show ?thesis using roles_fit_the_controllers by blast
qed

section \<open>Leaving a pod out\<close>

text \<open>
  The annotation patch of \<open>runExclude\<close>: the namespace and the client are there, \<open>patch\<close>
  is the API's answer; \<open>None\<close> as the value removes the annotation.
\<close>

datatype exclude_error = OnlyPods string | PatchRefused api_error

definition pod_target :: "string \<Rightarrow> string" where
  "pod_target arg = trim_prefix (trim_prefix arg ''pod/'') ''pods/''"

definition exclude_text :: "bool \<Rightarrow> string \<Rightarrow> string" where
  "exclude_text exclude name =
     (if exclude then
        ''pod/'' @ name @ '' is left out. It keeps running and stays Ready, but no Service sends it traffic.'' @ [CHR 0x0A]
        @ ''Nobody killed it. Bring it back with: kyvctl include pod/'' @ name @ [CHR 0x0A]
      else ''pod/'' @ name @ '' is back in. Services will send it traffic again.'' @ [CHR 0x0A])"

definition runExclude ::
    "(string \<times> string option \<Rightarrow> api_error option) \<Rightarrow> string \<Rightarrow> bool
     \<Rightarrow> (exclude_error + string) \<times> (string \<times> string option) option" where
  "runExclude patch arg exclude =
     (let name = pod_target arg; p = (name, if exclude then Some ''true'' else None)
      in if CHR ''/'' \<in> set name then (Inl (OnlyPods arg), None)
         else (case patch p of Some e \<Rightarrow> Inl (PatchRefused e) | None \<Rightarrow> Inr (exclude_text exclude name), Some p))"

definition annotated :: "strmap \<Rightarrow> (string \<times> string option) option \<Rightarrow> strmap" where
  "annotated m p = (case p of None \<Rightarrow> m | Some (_, v) \<Rightarrow> m(ExcludedAnnotation := v))"

text \<open>Including a pod that was left out gives its annotations back as they were.\<close>

lemma include_undoes_exclude:
  "m ExcludedAnnotation = None \<Longrightarrow>
   annotated (annotated m (snd (runExclude patch arg True))) (snd (runExclude patch' arg False)) = m"
  by (auto simp: runExclude_def annotated_def Let_def fun_eq_iff)

end
