(* ===== verification/Schemas.thy ===== *)
theory Schemas
  imports Crd Kyvctl_Plan Relationships
begin

text \<open>
  The two custom resources as data (\<open>gestation/crd.go\<close>, \<open>CRD\<close> of
  \<open>controller/relationships/controller.go\<close>) and the objects the program sends for them.
  The API server's validation is the parameter \<open>accepts\<close>; \<open>conforms\<close> is the documented
  meaning of the schema keywords that are used, and the hypothesis \<open>sound_validation\<close> says that
  what the server accepts conforms. Numbers of a schema are whole; a pattern is a predicate.
\<close>

section \<open>Values and schemas\<close>

datatype json = JStr string | JInt int | JBool bool | JObj "(string \<times> json) list"

datatype schema =
    SObject "string list" "(string \<times> schema) list"
  | SFree
  | SString nat "nat option" "(string \<Rightarrow> bool) option"
  | SEnum "string list"
  | SInteger "int option" "int option"
  | SBoolean

definition str_schema :: schema where "str_schema = SString 0 None None"

text \<open>
  The limits of a string count the characters of its UTF-8, its bytes but the continuation bytes.
  Missing properties are allowed unless required; unknown ones are dropped by the server.
\<close>

definition rune_count :: "string \<Rightarrow> nat" where
  "rune_count s = length (filter (\<lambda>c. \<not> (128 \<le> (of_char c :: nat) \<and> (of_char c :: nat) < 192)) s)"

lemma rune_count_Nil [simp]: "rune_count [] = 0"
  by (simp add: rune_count_def)

fun conforms :: "schema \<Rightarrow> json \<Rightarrow> bool" and conforms_props :: "(string \<times> schema) list \<Rightarrow> (string \<times> json) list \<Rightarrow> bool" where
  "conforms (SObject req props) (JObj fs) \<longleftrightarrow>
     list_all (\<lambda>k. map_of fs k \<noteq> None) req \<and> conforms_props props fs"
| "conforms (SObject req props) _ = False"
| "conforms SFree j = (case j of JObj _ \<Rightarrow> True | _ \<Rightarrow> False)"
| "conforms (SString lo hi p) j =
     (case j of JStr s \<Rightarrow> lo \<le> rune_count s \<and> (case hi of None \<Rightarrow> True | Some h \<Rightarrow> rune_count s \<le> h)
                  \<and> (case p of None \<Rightarrow> True | Some f \<Rightarrow> f s)
      | _ \<Rightarrow> False)"
| "conforms (SEnum vs) j = (case j of JStr s \<Rightarrow> s \<in> set vs | _ \<Rightarrow> False)"
| "conforms (SInteger lo hi) j =
     (case j of JInt n \<Rightarrow> (case lo of None \<Rightarrow> True | Some l \<Rightarrow> l \<le> n) \<and> (case hi of None \<Rightarrow> True | Some h \<Rightarrow> n \<le> h)
      | _ \<Rightarrow> False)"
| "conforms SBoolean j = (case j of JBool _ \<Rightarrow> True | _ \<Rightarrow> False)"
| "conforms_props [] fs = True"
| "conforms_props ((k, s) # props) fs \<longleftrightarrow>
     (case map_of fs k of None \<Rightarrow> True | Some j \<Rightarrow> conforms s j) \<and> conforms_props props fs"

section \<open>The definitions\<close>

record crd_column =
  ColName :: string
  ColType :: string
  ColPath :: string
  ColPriority :: int

record crd_definition =
  CrdName :: string
  CrdManagedBy :: string
  CrdGroup :: string
  CrdNamespaced :: bool
  Plural :: string
  Singular :: string
  CrdKind :: string
  ListKind :: string
  ShortNames :: "string list"
  Categories :: "string list"
  CrdVersion :: string
  Served :: bool
  Stored :: bool
  StatusSubresource :: bool
  CrdSchema :: schema
  Columns :: "crd_column list"

definition ApiGroup :: string where "ApiGroup = ''kyvernetria.io''"
definition ApiVersion :: string where "ApiVersion = ''v1alpha1''"
definition GestationResource :: string where "GestationResource = ''gestations''"
definition GestationKind :: string where "GestationKind = ''Gestation''"
definition RelationshipResource :: string where "RelationshipResource = ''relationships''"
definition RelationshipKind :: string where "RelationshipKind = ''Relationship''"

text \<open>\<open>^[0-9]{4}-[0-9]{2}-[0-9]{2}$\<close>\<close>

definition date_shaped :: "string \<Rightarrow> bool" where
  "date_shaped s \<longleftrightarrow>
     length s = 10 \<and> s ! 4 = CHR ''-'' \<and> s ! 7 = CHR ''-'' \<and> list_all (\<lambda>i. is_digit (s ! i)) [0, 1, 2, 3, 5, 6, 8, 9]"

definition gestation_spec_schema :: schema where
  "gestation_spec_schema =
     SObject [''deployment'', ''due'', ''size'', ''replicas'']
       [(''deployment'', SString 1 (Some 253) None),
        (''due'', SString 0 None (Some date_shaped)),
        (''size'', SObject [''cpu'', ''memory''] [(''cpu'', str_schema), (''memory'', str_schema)]),
        (''replicas'', SInteger (Some 1) (Some 1000)),
        (''screenRequested'', str_schema),
        (''delivery'', SInteger (Some 0) None),
        (''autoRollback'', SBoolean)]"

definition object_schema :: "(string \<times> schema) list \<Rightarrow> schema" where
  "object_schema parts = SObject [] ([(''apiVersion'', str_schema), (''kind'', str_schema), (''metadata'', SFree)] @ parts)"

definition GestationCRD :: crd_definition where
  "GestationCRD =
     \<lparr>CrdName = GestationResource @ ''.'' @ ApiGroup, CrdManagedBy = ''gestation-controller'', CrdGroup = ApiGroup,
      CrdNamespaced = True, Plural = GestationResource, Singular = ''gestation'', CrdKind = GestationKind,
      ListKind = GestationKind @ ''List'', ShortNames = [''gest''], Categories = [], CrdVersion = ApiVersion,
      Served = True, Stored = True, StatusSubresource = True,
      CrdSchema = object_schema [(''spec'', gestation_spec_schema), (''status'', SFree)],
      Columns =
        [\<lparr>ColName = ''Deployment'', ColType = ''string'', ColPath = ''.spec.deployment'', ColPriority = 0\<rparr>,
         \<lparr>ColName = ''Due'', ColType = ''string'', ColPath = ''.spec.due'', ColPriority = 0\<rparr>,
         \<lparr>ColName = ''Phase'', ColType = ''string'', ColPath = ''.status.phase'', ColPriority = 0\<rparr>,
         \<lparr>ColName = ''Reserved'', ColType = ''integer'', ColPath = ''.status.reserved'', ColPriority = 0\<rparr>,
         \<lparr>ColName = ''Message'', ColType = ''string'', ColPath = ''.status.message'', ColPriority = 1\<rparr>,
         \<lparr>ColName = ''Age'', ColType = ''date'', ColPath = ''.metadata.creationTimestamp'', ColPriority = 0\<rparr>]\<rparr>"

definition ref_schema :: schema where
  "ref_schema = SObject [''kind'', ''name''] [(''kind'', str_schema), (''namespace'', str_schema), (''name'', str_schema)]"

definition relationship_spec_schema :: schema where
  "relationship_spec_schema =
     SObject [''from'', ''to'', ''type'']
       [(''from'', ref_schema), (''to'', ref_schema), (''type'', SEnum [Serves, TalksTo]), (''evidence'', str_schema)]"

definition RelationshipCRD :: crd_definition where
  "RelationshipCRD =
     \<lparr>CrdName = RelationshipResource @ ''.'' @ ApiGroup, CrdManagedBy = ''relationships-controller'', CrdGroup = ApiGroup,
      CrdNamespaced = True, Plural = RelationshipResource, Singular = ''relationship'', CrdKind = RelationshipKind,
      ListKind = RelationshipKind @ ''List'', ShortNames = [''rel'', ''rels''], Categories = [], CrdVersion = ApiVersion,
      Served = True, Stored = True, StatusSubresource = False,
      CrdSchema = object_schema [(''spec'', relationship_spec_schema)],
      Columns =
        [\<lparr>ColName = ''From'', ColType = ''string'', ColPath = ''.spec.from.name'', ColPriority = 0\<rparr>,
         \<lparr>ColName = ''Relationship'', ColType = ''string'', ColPath = ''.spec.type'', ColPriority = 0\<rparr>,
         \<lparr>ColName = ''To'', ColType = ''string'', ColPath = ''.spec.to.name'', ColPriority = 0\<rparr>,
         \<lparr>ColName = ''Evidence'', ColType = ''string'', ColPath = ''.spec.evidence'', ColPriority = 1\<rparr>,
         \<lparr>ColName = ''Age'', ColType = ''date'', ColPath = ''.metadata.creationTimestamp'', ColPriority = 0\<rparr>]\<rparr>"

section \<open>The objects as JSON\<close>

text \<open>The JSON of a specification by its tags; an empty optional field is left out.\<close>

definition gestation_json :: "(gotime \<Rightarrow> string) \<Rightarrow> string \<Rightarrow> string \<Rightarrow> spec \<Rightarrow> json" where
  "gestation_json stamp ns name s =
     JObj [(''apiVersion'', JStr (ApiGroup @ ''/'' @ ApiVersion)), (''kind'', JStr GestationKind),
       (''metadata'', JObj [(''name'', JStr name), (''namespace'', JStr ns)]),
       (''spec'', JObj
         ([(''deployment'', JStr (SpecDeployment s)), (''due'', JStr (Due s)),
           (''size'', JObj [(''cpu'', JStr (SizeCPU (Size s))), (''memory'', JStr (SizeMemory (Size s)))]),
           (''replicas'', JInt (SpecReplicas s))]
          @ (case ScreenRequested s of None \<Rightarrow> [] | Some t \<Rightarrow> [(''screenRequested'', JStr (stamp t))])
          @ (if SpecDelivery s = 0 then [] else [(''delivery'', JInt (SpecDelivery s))])
          @ (case AutoRollback s of None \<Rightarrow> [] | Some b \<Rightarrow> [(''autoRollback'', JBool b)])))]"

definition party_json :: "party \<Rightarrow> json" where
  "party_json p = JObj [(''kind'', JStr (PKind p)), (''namespace'', JStr (PNamespace p)), (''name'', JStr (PName p))]"

definition relationship_json :: "string \<Rightarrow> relationship \<Rightarrow> json" where
  "relationship_json name r =
     JObj [(''apiVersion'', JStr (ApiGroup @ ''/'' @ ApiVersion)), (''kind'', JStr RelationshipKind),
       (''metadata'', JObj [(''name'', JStr name), (''namespace'', JStr (PNamespace (RelFrom r)))]),
       (''spec'', JObj [(''from'', party_json (RelFrom r)), (''to'', party_json (RelTo r)),
                        (''type'', JStr (RelType r)), (''evidence'', JStr (Evidence r))])]"


section \<open>What the schemas promise\<close>

definition sound_validation :: "(schema \<Rightarrow> json \<Rightarrow> bool) \<Rightarrow> bool" where
  "sound_validation accepts \<longleftrightarrow> (\<forall>s j. accepts s j \<longrightarrow> conforms s j)"

lemma gestation_conforms:
  "conforms (CrdSchema GestationCRD) (gestation_json stamp ns name s) \<longleftrightarrow>
     1 \<le> rune_count (SpecDeployment s) \<and> rune_count (SpecDeployment s) \<le> 253 \<and> date_shaped (Due s)
     \<and> 1 \<le> SpecReplicas s \<and> SpecReplicas s \<le> 1000 \<and> 0 \<le> SpecDelivery s"
  by (cases "ScreenRequested s"; cases "AutoRollback s")
    (auto simp: GestationCRD_def object_schema_def gestation_json_def gestation_spec_schema_def str_schema_def)

lemma relationship_conforms:
  "conforms (CrdSchema RelationshipCRD) (relationship_json name r) \<longleftrightarrow> RelType r = Serves \<or> RelType r = TalksTo"
  by (simp add: RelationshipCRD_def object_schema_def relationship_json_def relationship_spec_schema_def ref_schema_def
      party_json_def str_schema_def)

lemma graph_types: "r \<in> set (Graph lower upper hash10 svcs ws) \<Longrightarrow> RelType r = Serves \<or> RelType r = TalksTo"
  using talks_from by (fastforce simp: Graph_def serves_edges_def)

lemma reserved_small:
  assumes "1 \<le> replicas" and "replicas \<le> 1000"
  shows "1 \<le> Reserved t replicas \<and> Reserved t replicas \<le> replicas + 1"
proof -
  have r: "0 \<le> replicas" "replicas < 2 ^ 30 - 2" using assms by simp_all
  consider "t = 1" | "t = 2" | "t \<noteq> 1 \<and> t \<noteq> 2" by blast
  then show ?thesis using reserved_values [OF r] assms by cases auto
qed

text \<open>
  Claim C14. The API keeps plans in bounds: a gestation whose specification the API server
  accepts, when it accepts only what conforms to the installed schema, asks for 1 to 1000
  replicas of a named Deployment and no negative delivery, so that in every trimester the room
  reserved is between one placeholder and one more than the replicas, without wrapping; what
  conceive sends conforms exactly when the name fits, the date has its digits and there are at
  most 1000 replicas; and every edge of the graph conforms to the schema of relationships.
\<close>

theorem schemas_keep_bounds:
  assumes "sound_validation accepts" and "accepts (CrdSchema GestationCRD) (gestation_json stamp ns name s)"
    and "conceive_spec parse_date parse_quantity sign_of name' opts now = Inr sp"
    and "r \<in> set (Graph lower upper hash10 svcs ws)"
  shows "1 \<le> SpecReplicas s \<and> SpecReplicas s \<le> 1000 \<and> SpecDeployment s \<noteq> [] \<and> 0 \<le> SpecDelivery s
    \<and> (\<forall>t. 1 \<le> Reserved t (SpecReplicas s) \<and> Reserved t (SpecReplicas s) \<le> SpecReplicas s + 1)
    \<and> (conforms (CrdSchema GestationCRD) (gestation_json stamp ns name sp) \<longleftrightarrow>
         1 \<le> rune_count (SpecDeployment sp) \<and> rune_count (SpecDeployment sp) \<le> 253 \<and> date_shaped (OptDue opts) \<and> OptReplicas opts \<le> 1000)
    \<and> conforms (CrdSchema RelationshipCRD) (relationship_json name r)"
proof -
  have c: "conforms (CrdSchema GestationCRD) (gestation_json stamp ns name s)"
    using assms(1, 2) by (simp add: sound_validation_def)
  then have n: "1 \<le> SpecReplicas s" "SpecReplicas s \<le> 1000" "1 \<le> rune_count (SpecDeployment s)" "0 \<le> SpecDelivery s"
    unfolding gestation_conforms by blast+
  have sp: "1 \<le> SpecReplicas sp" "SpecReplicas sp = OptReplicas opts" "Due sp = OptDue opts" "SpecDelivery sp = 0"
    using conceive_spec_reads [OF assms(3)] by simp_all
  have "conforms (CrdSchema GestationCRD) (gestation_json stamp ns name sp) \<longleftrightarrow>
         1 \<le> rune_count (SpecDeployment sp) \<and> rune_count (SpecDeployment sp) \<le> 253 \<and> date_shaped (OptDue opts) \<and> OptReplicas opts \<le> 1000"
    unfolding gestation_conforms using sp by auto
  moreover have "conforms (CrdSchema RelationshipCRD) (relationship_json name r)"
    unfolding relationship_conforms by (rule graph_types [OF assms(4)])
  moreover have "SpecDeployment s \<noteq> []" using n(3) by auto
  ultimately show ?thesis using n reserved_small [OF n(1, 2)] by blast
qed

definition demo_spec :: spec where
  "demo_spec = \<lparr>SpecDeployment = ''web'', Due = ''2026-11-01'', Size = \<lparr>SizeCPU = ''500m'', SizeMemory = ''512Mi''\<rparr>,
     SpecReplicas = 3, ScreenRequested = None, SpecDelivery = 0, AutoRollback = None\<rparr>"

definition demo_edge :: relationship where
  "demo_edge = \<lparr>RelFrom = svc_party demo_db, RelTo = WRef demo_backend, RelType = Serves, Evidence = ''selector app=db''\<rparr>"

theorem schemas_keep_bounds_witness:
  "Reserved 2 (SpecReplicas demo_spec) \<le> 4 \<and> conforms (CrdSchema RelationshipCRD) (relationship_json ''web'' demo_edge)"
proof -
  have v: "sound_validation conforms" by (simp add: sound_validation_def)
  have g: "conforms (CrdSchema GestationCRD) (gestation_json (\<lambda>_. []) ''prod'' ''web'' demo_spec)"
    unfolding gestation_conforms by (simp add: demo_spec_def date_shaped_def is_digit_def rune_count_def)
  have t: "trim_space ''500m'' = ''500m''" "trim_space ''512Mi'' = ''512Mi''" by code_simp+
  have c: "conceive_spec (\<lambda>_. Some 100) (\<lambda>_. Some (5::int)) id ''web'' demo_options 0 = Inr demo_spec"
    by (simp add: conceive_spec_def conceive_size_def ParseSize_def demo_options_def demo_spec_def t)
  have "is_served demo_db demo_backend" by (simp add: is_served_def demo_db_def demo_backend_def demo_workload_def)
  then have "demo_edge \<in> set (serves_edges [demo_db] [demo_backend])"
    by (simp add: serves_edges_def demo_edge_def) (simp add: demo_db_def)
  then have e: "demo_edge \<in> set (Graph to_lower to_upper (\<lambda>_. ''0123456789'') [demo_db] [demo_backend])"
    unfolding Graph_def set_sort set_append by (rule UnI1)
  from schemas_keep_bounds [OF v g c e] show ?thesis by (simp add: demo_spec_def)
qed


section \<open>A whole pass of the gestation controller\<close>

text \<open>
  \<open>Controller.Sync\<close> from its beginning: nothing before the resource is served, the priority
  classes before the list is known, and every readable gestation after it. The errors of objects
  that cannot be read are counted.
\<close>

datatype 'r sync_outcome = NotServed crd_result | ListFailed api_error | Passed nat 'r

definition whole_sync ::
    "('q, 'x) library \<Rightarrow> ('q, 'x) cluster \<Rightarrow> ('u \<Rightarrow> planned option) \<Rightarrow> crd_result \<Rightarrow> 'u list api \<Rightarrow> ('q, 'x) ctl
     \<Rightarrow> (api_error list \<times> planned list) sync_outcome \<times> ('q, 'x) ctl" where
  "whole_sync L k convert crd listing c =
     (if crd \<noteq> CrdReady then (NotServed crd, c)
      else case listing of
             Inl e \<Rightarrow> (ListFailed e, snd (ensurePriorityClasses k c))
           | Inr us \<Rightarrow>
               (let gs = List.map_filter convert us; (es, all, c) = Sync L k gs c
                in (Passed (length us - length gs) (es, all), c)))"

text \<open>A controller whose resource is not served yet asks the API for nothing else.\<close>

lemma nothing_before_served:
  "crd \<noteq> CrdReady \<Longrightarrow> whole_sync L k convert crd listing c = (NotServed crd, c)"
  by (simp add: whole_sync_def)

end
