(* ===== verification/Delivery_Race.thy ===== *)
theory Delivery_Race
  imports Kyvctl_Plan
begin

text \<open>
  People and the controller at once: several \<open>kyvctl deliver\<close> commands, other patches of
  the specification and the passes of the gestation controller over one stored gestation, in any
  order. A command reads and patches in two steps (\<open>Deliver\<close>), a merge patch that any state
  accepts; a pass reads, works on its copy (\<open>reconcile\<close>) and writes the status only when
  nobody wrote in between, as the resource version of \<open>UpdateStatus\<close> demands. The API keeps
  the number of a delivery at zero or more, as its schema says.
\<close>

section \<open>A pass and the number of the delivery\<close>

lemma Delivery_reconcile:
  "Delivery (stored (St (snd (reconcile L k g now c)))) \<in> {Delivery (St c), Delivery (redelivery g now (St c))}"
  using reconcile_St [of L k g now c] by (auto simp: Let_def stored_def advance_marks screen_requested_marks)


section \<open>The stored gestation, its readers and its writers\<close>

record race =
  RSpec :: spec
  RStatus :: status
  RVersion :: nat
  RSeen :: "nat \<Rightarrow> (spec \<times> status) option"
  RHeld :: "(spec \<times> status \<times> nat) option"
  RStarted :: "int list"
  RAsked :: nat

text \<open>What the command of a person who read this wants to patch, and what it says.\<close>

definition asks_for :: "gestation \<Rightarrow> spec \<times> status \<Rightarrow> bool \<Rightarrow> (refusal + planned) \<times> int option" where
  "asks_for g seen again =
     Deliver Some (Inr (g\<lparr>GSpec := fst seen\<rparr>, snd seen)) (Inr ()) (\<lambda>_. Inr (g\<lparr>GSpec := fst seen\<rparr>, snd seen))
       (GNamespace g) (GName g) again"

definition race_start :: "spec \<Rightarrow> race" where
  "race_start sp = \<lparr>RSpec = sp\<lparr>SpecDelivery := 0\<rparr>, RStatus = new_status, RVersion = 0, RSeen = (\<lambda>_. None), RHeld = None,
     RStarted = [], RAsked = 0\<rparr>"

definition stored_pass :: "spec \<Rightarrow> status \<Rightarrow> status \<Rightarrow> race \<Rightarrow> race" where
  "stored_pass sp s s' st =
     st\<lparr>RStatus := s', RVersion := Suc (RVersion st), RHeld := None,
        RStarted := (if Delivery s' = Delivery s then RStarted st else RStarted st @ [Delivery s'])\<rparr>"

inductive race_step :: "('q, 'x) library \<Rightarrow> gestation \<Rightarrow> race \<Rightarrow> race \<Rightarrow> bool" for L :: "('q, 'x) library" and g :: gestation where
  person_reads: "race_step L g st (st\<lparr>RSeen := (RSeen st)(i \<mapsto> (RSpec st, RStatus st))\<rparr>)"
| person_asks: "RSeen st i = Some seen \<Longrightarrow> snd (asks_for g seen again) = Some n \<Longrightarrow> 0 \<le> n \<Longrightarrow>
    race_step L g st (st\<lparr>RSpec := (RSpec st)\<lparr>SpecDelivery := n\<rparr>, RVersion := Suc (RVersion st),
      RSeen := (RSeen st)(i := None), RAsked := Suc (RAsked st)\<rparr>)"
| person_leaves: "race_step L g st (st\<lparr>RSeen := (RSeen st)(i := None)\<rparr>)"
| spec_changes: "SpecDelivery sp = SpecDelivery (RSpec st) \<Longrightarrow>
    race_step L g st (st\<lparr>RSpec := sp, RVersion := Suc (RVersion st)\<rparr>)"
| pass_reads: "race_step L g st (st\<lparr>RHeld := Some (RSpec st, RStatus st, RVersion st)\<rparr>)"
| pass_writes: "RHeld st = Some (sp, St c, RVersion st) \<Longrightarrow>
    race_step L g st (stored_pass sp (St c) (stored (St (snd (reconcile L k (g\<lparr>GSpec := sp\<rparr>) now c)))) st)"
| pass_lost: "race_step L g st (st\<lparr>RHeld := None\<rparr>)"

inductive race_run :: "('q, 'x) library \<Rightarrow> gestation \<Rightarrow> race \<Rightarrow> bool" for L :: "('q, 'x) library" and g :: gestation where
  race_begins: "race_run L g (race_start sp)"
| race_goes_on: "race_run L g st \<Longrightarrow> race_step L g st st' \<Longrightarrow> race_run L g st'"

section \<open>The invariant\<close>

definition small_number :: "int \<Rightarrow> bool" where
  "small_number n \<longleftrightarrow> 0 \<le> n \<and> n < 2 ^ 31"

definition race_ok :: "('q, 'x) library \<Rightarrow> race \<Rightarrow> bool" where
  "race_ok L st \<longleftrightarrow>
     reached L (RStatus st) \<and> small_number (Delivery (RStatus st)) \<and> small_number (SpecDelivery (RSpec st))
     \<and> SpecDelivery (RSpec st) \<le> Delivery (RStatus st) + 1
     \<and> (\<forall>i sp s. RSeen st i = Some (sp, s) \<longrightarrow>
          reached L s \<and> small_number (Delivery s) \<and> Delivery s \<le> Delivery (RStatus st))
     \<and> (\<forall>sp s v. RHeld st = Some (sp, s, v) \<longrightarrow> v \<le> RVersion st \<and> (v = RVersion st \<longrightarrow> sp = RSpec st \<and> s = RStatus st))
     \<and> RStarted st = map int [1..<Suc (nat (Delivery (RStatus st)))]
     \<and> Delivery (RStatus st) + (if SpecDelivery (RSpec st) > Delivery (RStatus st) then 1 else 0) \<le> int (RAsked st)"

lemma next_number:
  assumes "small_number d" and "0 \<le> i32 (d + 1)"
  shows "i32 (d + 1) = d + 1 \<and> small_number (d + 1)"
proof (cases "d = 2 ^ 31 - 1")
  case True
  then have "i32 (d + 1) = - (2 ^ 31)" by (simp add: i32_def)
  then show ?thesis using assms(2) by simp
next
  case False
  then have "small_number (d + 1)" using assms(1) by (simp add: small_number_def)
  then show ?thesis by (simp add: i32_id in_i32_def small_number_def)
qed

lemma asked_number: "snd (asks_for g (sp, s) again) = Some n \<Longrightarrow> n = i32 (Delivery s + 1)"
  by (simp add: asks_for_def Deliver_def getGestation_def from_unstructured_def Let_def split: option.splits if_splits)

lemma race_ok_start: "race_ok L (race_start sp)"
  using reached.first [of L] by (simp add: race_ok_def race_start_def small_number_def new_status_def)


lemma race_ok_seen:
  "race_ok L st \<Longrightarrow> RSeen st i = Some (sp, s) \<Longrightarrow> reached L s \<and> small_number (Delivery s) \<and> Delivery s \<le> Delivery (RStatus st)"
  unfolding race_ok_def by blast

lemma asks_ok:
  assumes ok: "race_ok L st" and seen: "RSeen st i = Some seen" and n: "snd (asks_for g seen again) = Some n" "0 \<le> n"
  shows "race_ok L (st\<lparr>RSpec := (RSpec st)\<lparr>SpecDelivery := n\<rparr>, RVersion := Suc (RVersion st),
      RSeen := (RSeen st)(i := None), RAsked := Suc (RAsked st)\<rparr>)"
proof -
  obtain sp s where s: "seen = (sp, s)" by (cases seen)
  have d: "small_number (Delivery s)" "Delivery s \<le> Delivery (RStatus st)"
    using race_ok_seen [OF ok] seen s by blast+
  have "n = i32 (Delivery s + 1)" using asked_number n(1) s by blast
  then have e: "n = Delivery s + 1" "small_number n" using next_number [OF d(1)] n(2) by simp_all
  have "Delivery (RStatus st) \<le> int (RAsked st)" using ok by (simp add: race_ok_def split: if_splits)
  then show ?thesis
    using ok e d by (auto simp: race_ok_def)
qed

lemma stored_pass_ok:
  assumes ok: "race_ok L st" and held: "RHeld st = Some (sp, St c, RVersion st)"
  shows "race_ok L (stored_pass sp (St c) (stored (St (snd (reconcile L k (g\<lparr>GSpec := sp\<rparr>) now c)))) st)"
proof -
  let ?s = "stored (St (snd (reconcile L k (g\<lparr>GSpec := sp\<rparr>) now c)))"
  have e: "sp = RSpec st" "St c = RStatus st" using ok held by (auto simp: race_ok_def)
  have r: "reached L ?s" using ok e(2) by (intro reached.pass) (simp add: race_ok_def)
  have d: "Delivery ?s = Delivery (RStatus st)
      \<or> (SpecDelivery (RSpec st) = Delivery (RStatus st) + 1 \<and> Delivery ?s = Delivery (RStatus st) + 1)"
    using Delivery_reconcile [of L k "g\<lparr>GSpec := sp\<rparr>" now c] ok e
    by (auto simp: redelivery_def race_ok_def split: if_splits)
  have seen: "reached L s \<and> small_number (Delivery s) \<and> Delivery s \<le> Delivery ?s" if "RSeen st i = Some (sp', s)" for i sp' s
    using race_ok_seen [OF ok that] d by auto
  show ?thesis
  proof (cases "Delivery ?s = Delivery (RStatus st)")
    case True
    then show ?thesis using ok r seen e by (auto simp: race_ok_def stored_pass_def)
  next
    case False
    then have n: "Delivery ?s = Delivery (RStatus st) + 1" "SpecDelivery (RSpec st) = Delivery (RStatus st) + 1" using d by auto
    have pos: "0 \<le> Delivery (RStatus st)" using ok by (simp add: race_ok_def small_number_def)
    have "[1..<Suc (nat (Delivery (RStatus st) + 1))] = [1..<Suc (nat (Delivery (RStatus st)))] @ [nat (Delivery (RStatus st) + 1)]"
      using pos by (simp add: nat_add_distrib)
    then have l: "map int [1..<Suc (nat (Delivery ?s))] = RStarted st @ [Delivery ?s]"
      using ok n pos by (simp add: race_ok_def)
    have "small_number (Delivery ?s)" using ok n by (simp add: race_ok_def)
    moreover have "Delivery ?s \<le> int (RAsked st)" using ok n by (simp add: race_ok_def)
    ultimately show ?thesis
      using ok r seen e n l False by (simp add: race_ok_def stored_pass_def)
  qed
qed

lemma race_step_ok: "race_step L g st st' \<Longrightarrow> race_ok L st \<Longrightarrow> race_ok L st'"
proof (induction rule: race_step.induct)
  case (person_asks st i seen again n)
  then show ?case using asks_ok by blast
next
  case (pass_writes st sp c k now)
  then show ?case using stored_pass_ok by blast
qed (auto simp: race_ok_def)

lemma race_run_ok: "race_run L g st \<Longrightarrow> race_ok L st"
  by (induction rule: race_run.induct) (auto simp: race_ok_start intro: race_step_ok)

text \<open>
  Claim C8. Asking at once delivers once: however many people run the command, however their
  reads and patches fall between each other, other patches and the passes of the controller,
  and whichever writes are lost, the deliveries the stored status records are the numbers 1,
  2, 3 and so on, each once and in order, never more than were asked for; the number asked for
  never runs ahead of the next delivery; people who read the same status ask for the same
  delivery; and no command follows a nil pointer.
\<close>

theorem asking_at_once_delivers_once:
  assumes "race_run L g st"
  shows "RStarted st = map int [1..<Suc (nat (Delivery (RStatus st)))] \<and> length (RStarted st) \<le> RAsked st
    \<and> SpecDelivery (RSpec st) \<le> Delivery (RStatus st) + 1
    \<and> (\<forall>i j n m a b. RSeen st i \<noteq> None \<and> RSeen st i = RSeen st j
         \<and> snd (asks_for g (the (RSeen st i)) a) = Some n \<and> snd (asks_for g (the (RSeen st j)) b) = Some m \<longrightarrow> n = m)
    \<and> (\<forall>i seen again. RSeen st i = Some seen \<longrightarrow> fst (asks_for g seen again) \<noteq> Inl NilDereference)"
proof -
  have ok: "race_ok L st" by (rule race_run_ok [OF assms])
  have "length (RStarted st) \<le> RAsked st" using ok by (auto simp: race_ok_def split: if_splits)
  moreover have "n = m" if "RSeen st i = RSeen st j" "snd (asks_for g (the (RSeen st i)) a) = Some n"
      "snd (asks_for g (the (RSeen st j)) b) = Some m" for i j n m a b
    using that asked_number [of g "fst (the (RSeen st j))" "snd (the (RSeen st j))" a n]
      asked_number [of g "fst (the (RSeen st j))" "snd (the (RSeen st j))" b m] by simp
  moreover have "fst (asks_for g seen again) \<noteq> Inl NilDereference" if "RSeen st i = Some seen" for i seen again
  proof -
    obtain sp s where s: "seen = (sp, s)" by (cases seen)
    have "consistent s" using race_ok_seen [OF ok, of i sp s] that s reached_consistent by blast
    then show ?thesis
      using guard_on_consistent(2) [of s again "g\<lparr>GSpec := sp\<rparr>"] s
      by (auto simp: asks_for_def Deliver_def getGestation_def from_unstructured_def Let_def split: option.splits)
  qed
  moreover have "RStarted st = map int [1..<Suc (nat (Delivery (RStatus st)))]" "SpecDelivery (RSpec st) \<le> Delivery (RStatus st) + 1"
    using ok by (auto simp: race_ok_def)
  ultimately show ?thesis by blast
qed

text \<open>Two people read the same plan and both ask; the controller delivers once.\<close>

definition demo_ctl :: "(int, unit) ctl" where
  "demo_ctl = \<lparr>St = new_status, Mem = None, Calls = 0, Log = []\<rparr>"

definition demo_asked :: spec where
  "demo_asked = (GSpec demo_gestation)\<lparr>SpecDelivery := 1\<rparr>"

lemma demo_pass_delivers:
  "Delivery (stored (St (snd (reconcile demo_library demo_cluster (demo_gestation\<lparr>GSpec := demo_asked\<rparr>) 0 demo_ctl)))) = 1"
  by code_simp

theorem asking_at_once_delivers_once_witness:
  "\<exists>st. race_run demo_library demo_gestation st \<and> RAsked st = 2 \<and> RStarted st = [1]"
proof -
  let ?g = demo_gestation
  let ?seen = "(GSpec ?g, new_status)"
  have no: "SpecDelivery (GSpec ?g) = 0" by (simp add: demo_gestation_def three_replicas_def)
  then have start: "race_run demo_library ?g (race_start (GSpec ?g))" by (rule_tac race_begins)
  have sp: "RSpec (race_start (GSpec ?g)) = GSpec ?g" using no by (simp add: race_start_def)
  have ask: "snd (asks_for ?g ?seen False) = Some 1"
    using no by (simp add: asks_for_def Deliver_def getGestation_def from_unstructured_def deliver_guard_def
        gestation_born_def new_status_def i32_id in_i32_def)
  obtain st where r: "race_run demo_library ?g st" and s: "RSeen st 0 = Some ?seen" "RSeen st 1 = Some ?seen"
      "RSpec st = GSpec ?g" "RStatus st = new_status" "RAsked st = 0" "RStarted st = []"
    using race_goes_on [OF race_goes_on [OF start person_reads [of _ _ _ 0]] person_reads [of _ _ _ 1]] sp
    by (auto simp: race_start_def)
  obtain st2 where r2: "race_run demo_library ?g st2" and s2: "RSpec st2 = demo_asked" "RStatus st2 = new_status"
      "RAsked st2 = 2" "RStarted st2 = []"
  proof -
    have a: "race_run demo_library ?g (st\<lparr>RSpec := (RSpec st)\<lparr>SpecDelivery := 1\<rparr>, RVersion := Suc (RVersion st),
        RSeen := (RSeen st)(0 := None), RAsked := Suc (RAsked st)\<rparr>)" (is "race_run _ _ ?st1")
      by (rule race_goes_on [OF r person_asks [OF s(1) ask]]) simp
    have "RSeen ?st1 1 = Some ?seen" using s(2) by simp
    from race_goes_on [OF a person_asks [OF this ask]]
    have b: "race_run demo_library ?g (?st1\<lparr>RSpec := (RSpec ?st1)\<lparr>SpecDelivery := 1\<rparr>, RVersion := Suc (RVersion ?st1),
        RSeen := (RSeen ?st1)(1 := None), RAsked := Suc (RAsked ?st1)\<rparr>)" by simp
    show thesis by (rule that [OF b]) (simp_all add: s demo_asked_def)
  qed
  have h: "race_run demo_library ?g (st2\<lparr>RHeld := Some (RSpec st2, RStatus st2, RVersion st2)\<rparr>)" (is "race_run _ _ ?st3")
    by (rule race_goes_on [OF r2 pass_reads])
  have "RHeld ?st3 = Some (demo_asked, St demo_ctl, RVersion ?st3)" by (simp add: s2 demo_ctl_def)
  from race_goes_on [OF h pass_writes [OF this, where k = demo_cluster and now = 0]]
  have w: "race_run demo_library ?g
      (stored_pass demo_asked (St demo_ctl) (stored (St (snd (reconcile demo_library demo_cluster (?g\<lparr>GSpec := demo_asked\<rparr>) 0 demo_ctl)))) ?st3)"
    (is "race_run _ _ ?st4") .
  have "Delivery (RStatus ?st4) = 1" using demo_pass_delivers by (simp add: stored_pass_def)
  then have "RStarted ?st4 = [1]" using asking_at_once_delivers_once [OF w] by simp
  moreover have "RAsked ?st4 = 2" by (simp add: stored_pass_def s2)
  ultimately show ?thesis using w by blast
qed

end
