(* ===== verification/Place_Queue.thy ===== *)
theory Place_Queue
  imports PlaceMemory
begin

text \<open>
  The place-memory controller as a system: the watches that tell it of pods and of the holder,
  the work queue, and a \<open>sync\<close> between its reads and its write, for one holder \<open>h\<close>
  (the queue never gives one key to two workers). The handlers are \<open>enqueuePod\<close> and the
  two of \<open>New\<close>; a step of a \<open>sync\<close> is one pass of its loop. Everyone else may change
  the holder, but leaves the annotation to the controller. A version is a number here; equal
  numbers mean the same content.
\<close>

section \<open>The system\<close>

type_synonym version = "strmap \<times> nat"

text \<open>A sync that read the cached holder, and one that listed the pods as well.\<close>

datatype sync_phase = Idle | Reading version | Trying running version nat

record place_system =
  Stored :: version
  Watched :: version
  Pods :: "pod list"
  Told :: "pod list"
  Dirty :: bool
  Later :: bool
  Phase :: sync_phase

abbreviation memory :: "version \<Rightarrow> string" where
  "memory c \<equiv> lookup_str (fst c) RememberedNodesAnnotation"

text \<open>The listers when the cache holds these annotations of the holder.\<close>

definition viewing :: "listers \<Rightarrow> holder \<Rightarrow> strmap \<Rightarrow> listers" where
  "viewing L h ann =
     (let seen = (\<lambda>old ns name. if ns = Namespace h \<and> name = Name h then Inr ann else old ns name)
      in L\<lparr>deploy_annotations := (if Kind h = Deployment then seen (deploy_annotations L) else deploy_annotations L),
           sts_annotations := (if Kind h = StatefulSet then seen (sts_annotations L) else sts_annotations L),
           rs_annotations := (if Kind h = ReplicaSet then seen (rs_annotations L) else rs_annotations L)\<rparr>)"

text \<open>What the server holds after the merge patch of \<open>write\<close>.\<close>

definition patched :: "string \<Rightarrow> version \<Rightarrow> version" where
  "patched want c = ((fst c)(RememberedNodesAnnotation := (if want = [] then None else Some want)), Suc (snd c))"

definition recalled :: "holder \<Rightarrow> running \<Rightarrow> version \<Rightarrow> string" where
  "recalled h run c = Recall (Kind h) (memory c) run"

text \<open>One pass of the loop of \<open>sync\<close>: a conflict goes on from the live object.\<close>

definition sync_try :: "holder \<Rightarrow> place_system \<Rightarrow> place_system" where
  "sync_try h st =
     (case Phase st of
        Trying run c (Suc n) \<Rightarrow>
          (if recalled h run c = memory c then st\<lparr>Phase := Idle\<rparr>
           else if snd c = snd (Stored st) then st\<lparr>Stored := patched (recalled h run c) (Stored st), Phase := Idle\<rparr>
           else st\<lparr>Phase := Trying run (Stored st) n\<rparr>)
      | Trying run c 0 \<Rightarrow> st\<lparr>Phase := Idle, Later := True\<rparr>
      | _ \<Rightarrow> st)"

text \<open>
  What may happen: the pod cache loses some pods and takes others, whose handlers are due, one handler runs, the holder's
  watch catches up, the holder is scaled, someone else edits it, a worker takes the key, lists the
  pods, goes once round the loop, fails (the patch may have been applied all the same), or the
  delay of a failed key ends.
\<close>

datatype place_event =
    PodsChange "pod \<Rightarrow> bool" "pod list" | Edited strmap | ScaledTo | Handle | Watch
  | Begin | ListPods | Try | Fails bool | Retry

definition place_step :: "listers \<Rightarrow> holder \<Rightarrow> place_event \<Rightarrow> place_system \<Rightarrow> place_system option" where
  "place_step L h e st =
     (case e of
        PodsChange keep changed \<Rightarrow> Some (st\<lparr>Pods := filter keep (Pods st) @ changed, Told := Told st @ changed\<rparr>)
      | Edited ann \<Rightarrow>
          (if lookup_str ann RememberedNodesAnnotation = memory (Stored st)
           then Some (st\<lparr>Stored := (ann, Suc (snd (Stored st)))\<rparr>) else None)
      | ScaledTo \<Rightarrow> Some (st\<lparr>Dirty := True\<rparr>)
      | Handle \<Rightarrow>
          (case Told st of
             [] \<Rightarrow> None
           | p # rest \<Rightarrow> Some (st\<lparr>Told := rest,
               Dirty := (Dirty st \<or> enqueuePod (viewing L h (fst (Watched st))) p = Some (Holder_String h))\<rparr>))
      | Watch \<Rightarrow> if snd (Watched st) = snd (Stored st) then None else Some (st\<lparr>Watched := Stored st\<rparr>)
      | Begin \<Rightarrow>
          (case Phase st of
             Idle \<Rightarrow> if Dirty st then Some (st\<lparr>Dirty := False, Phase := Reading (Watched st)\<rparr>) else None
           | _ \<Rightarrow> None)
      | ListPods \<Rightarrow>
          (case Phase st of
             Reading c \<Rightarrow> Some (st\<lparr>Phase := Trying (runningPods L h (Pods st)) c 5\<rparr>) | _ \<Rightarrow> None)
      | Try \<Rightarrow> (case Phase st of Trying run c n \<Rightarrow> Some (sync_try h st) | _ \<Rightarrow> None)
      | Fails applied \<Rightarrow>
          (case Phase st of
             Idle \<Rightarrow> None
           | Reading c \<Rightarrow> Some (st\<lparr>Phase := Idle, Later := True\<rparr>)
           | Trying run c n \<Rightarrow>
               Some (st\<lparr>Phase := Idle, Later := True,
                 Stored := (if applied \<and> n > 0 \<and> recalled h run c \<noteq> memory c \<and> snd c = snd (Stored st)
                   then patched (recalled h run c) (Stored st) else Stored st)\<rparr>))
      | Retry \<Rightarrow> if Later st then Some (st\<lparr>Later := False, Dirty := True\<rparr>) else None)"

definition place_start :: "version \<Rightarrow> place_system" where
  "place_start c = \<lparr>Stored = c, Watched = c, Pods = [], Told = [], Dirty = False, Later = False, Phase = Idle\<rparr>"

text \<open>The runs whose steps satisfy \<open>ok\<close>.\<close>

inductive place_run ::
    "listers \<Rightarrow> holder \<Rightarrow> (place_event \<Rightarrow> place_system \<Rightarrow> place_system \<Rightarrow> bool) \<Rightarrow> place_system \<Rightarrow> place_event list \<Rightarrow> place_system \<Rightarrow> bool"
  for L h ok where
  place_rests: "place_run L h ok st [] st"
| place_moves: "place_run L h ok st es st1 \<Longrightarrow> place_step L h e st1 = Some st' \<Longrightarrow> ok e st1 st' \<Longrightarrow>
    place_run L h ok st (es @ [e]) st'"

section \<open>Current reads\<close>

text \<open>
  Current caches: the memory the cache shows is the one stored when a worker takes the key, and
  when a handler drops an event.
\<close>

definition current_reads :: "listers \<Rightarrow> holder \<Rightarrow> place_event \<Rightarrow> place_system \<Rightarrow> place_system \<Rightarrow> bool" where
  "current_reads L h e st st' \<longleftrightarrow>
     (case e of
        Handle \<Rightarrow> Dirty st' \<or> memory (Watched st) = memory (Stored st)
      | Begin \<Rightarrow> memory (Watched st) = memory (Stored st)
      | _ \<Rightarrow> True)"

text \<open>
  That is not enough: a pod that comes back to its remembered node while a sync has listed it
  elsewhere, and is still to write that, has its event dropped (\<open>return_is_missed\<close> below).
  So the second condition: the event of a pod is not dropped while a sync under way has listed
  that pod elsewhere, or not at all.
\<close>

definition listed_there :: "listers \<Rightarrow> holder \<Rightarrow> running \<Rightarrow> pod \<Rightarrow> bool" where
  "listed_there L h run p \<longleftrightarrow>
     (if running_pod p \<and> holder_for L p = Some h
      then (case pod_ordinal h p of None \<Rightarrow> True | Some i \<Rightarrow> list_ex (\<lambda>(n, os). n = NodeName p \<and> i \<in> set os) run)
      else True)"

definition not_overtaken :: "listers \<Rightarrow> holder \<Rightarrow> place_event \<Rightarrow> place_system \<Rightarrow> place_system \<Rightarrow> bool" where
  "not_overtaken L h e st st' \<longleftrightarrow>
     (case e of
        Handle \<Rightarrow> Dirty st' \<or>
          (case Phase st of Trying run c n \<Rightarrow> list_all (listed_there L h run) (take 1 (Told st)) | _ \<Rightarrow> True)
      | _ \<Rightarrow> True)"


definition fits :: "listers \<Rightarrow> holder \<Rightarrow> pod list \<Rightarrow> bool" where
  "fits L h pods \<longleftrightarrow>
     (\<forall>p \<in> set pods. CHR '','' \<notin> set (NodeName p)) \<and> length (runningPods L h pods) \<le> MaxRememberedNodes
     \<and> (Kind h = StatefulSet \<longrightarrow> distinct (current_ords (runningPods L h pods)))"




definition remembered_all :: "listers \<Rightarrow> holder \<Rightarrow> place_system \<Rightarrow> bool" where
  "remembered_all L h st \<longleftrightarrow> (\<forall>p \<in> set (Pods st). \<forall>i. counted L h p i \<longrightarrow> remembers h (fst (Stored st)) p)"

section \<open>The invariant\<close>


lemma memory_patched [simp]: "memory (patched want c) = want"
  by (simp add: patched_def lookup_str_def)

lemma holder_for_viewing [simp]: "holder_for (viewing L h ann) p = holder_for L p"
  by (simp add: viewing_def Let_def)




text \<open>A counted pod whose event is not on its way to a sync.\<close>

definition unattended :: "listers \<Rightarrow> holder \<Rightarrow> place_system \<Rightarrow> pod \<Rightarrow> int \<Rightarrow> bool" where
  "unattended L h st p i \<longleftrightarrow>
     p \<in> set (Pods st) \<and> counted L h p i \<and> p \<notin> set (Told st) \<and> \<not> Dirty st \<and> \<not> Later st"












lemma unattended_congs [simp]:
  "unattended L h (st\<lparr>Phase := x\<rparr>) = unattended L h st"
  "unattended L h (st\<lparr>Stored := s\<rparr>) = unattended L h st"
  "unattended L h (st\<lparr>Watched := s\<rparr>) = unattended L h st"
  "\<not> unattended L h (st\<lparr>Dirty := True\<rparr>) p i"
  "\<not> unattended L h (st\<lparr>Later := True\<rparr>) p i"
  by (simp_all add: unattended_def fun_eq_iff)














section \<open>Quiet\<close>





definition quiet :: "place_system \<Rightarrow> bool" where
  "quiet st \<longleftrightarrow> Told st = [] \<and> \<not> Dirty st \<and> \<not> Later st \<and> Phase st = Idle \<and> snd (Watched st) = snd (Stored st)"







lemma place_moves_first:
  "place_run L h ok s es st' \<Longrightarrow> place_step L h e st = Some s \<Longrightarrow> ok e st s \<Longrightarrow> place_run L h ok st (e # es) st'"
proof (induction rule: place_run.induct)
  case (place_rests s)
  then show ?case using place_moves [OF place_run.place_rests, of L h e st s ok] by simp
next
  case (place_moves s es s1 e' s')
  then show ?case using place_run.place_moves [of L h ok st "e # es" s1 e' s'] by simp
qed



section \<open>The steps are those of sync\<close>

text \<open>The API server of one holder, with nobody else writing; \<open>enc\<close> prints a version.\<close>

definition live_object :: "(nat \<Rightarrow> string) \<Rightarrow> version \<Rightarrow> live_holder" where
  "live_object enc c = \<lparr>HolderAnnotations = fst c, ResourceVersion = enc (snd c)\<rparr>"

definition server :: "(nat \<Rightarrow> string) \<Rightarrow> version client" where
  "server enc =
     \<lparr>patch_memory = (\<lambda>h rv v s.
        if rv = enc (snd s) then (None, patched (case v of None \<Rightarrow> [] | Some w \<Rightarrow> w) s) else (Some Conflict, s)),
      get_holder = (\<lambda>h s. (Inr (live_object enc s), s))\<rparr>"

lemma sync_is_its_steps:
  assumes "inj enc"
  shows "Phase st = Trying run c n \<Longrightarrow> \<exists>k. (sync_try h ^^ k) st =
    (case sync_attempts (server enc) h run n (live_object enc c) (Stored st) of
       (r, s) \<Rightarrow> st\<lparr>Stored := s, Phase := Idle, Later := (Later st \<or> r \<noteq> None)\<rparr>)"
proof (induction n arbitrary: st c)
  case 0
  then show ?case by (intro exI [of _ 1]) (simp add: sync_try_def)
next
  case (Suc n)
  have e: "enc (snd c) = enc (snd (Stored st)) \<longleftrightarrow> snd c = snd (Stored st)" using assms by (simp add: inj_eq)
  consider (same) "recalled h run c = memory c"
    | (wins) "recalled h run c \<noteq> memory c" "snd c = snd (Stored st)"
    | (loses) "recalled h run c \<noteq> memory c" "snd c \<noteq> snd (Stored st)" by blast
  then show ?case
  proof cases
    case same
    then show ?thesis using Suc.prems
      by (intro exI [of _ 1]) (simp add: sync_try_def recalled_def live_object_def Let_def)
  next
    case wins
    then show ?thesis using Suc.prems
      by (intro exI [of _ 1])
        (auto simp: sync_try_def recalled_def live_object_def Let_def write_memory_def server_def)
  next
    case loses
    let ?s = "st\<lparr>Phase := Trying run (Stored st) n\<rparr>"
    have t: "sync_try h st = ?s" using loses Suc.prems by (simp add: sync_try_def)
    have a: "sync_attempts (server enc) h run (Suc n) (live_object enc c) (Stored st)
        = sync_attempts (server enc) h run n (live_object enc (Stored st)) (Stored st)"
      using loses e by (simp add: recalled_def live_object_def Let_def write_memory_def server_def)
    obtain k where "(sync_try h ^^ k) ?s =
        (case sync_attempts (server enc) h run n (live_object enc (Stored st)) (Stored st) of
           (r, s) \<Rightarrow> ?s\<lparr>Stored := s, Phase := Idle, Later := (Later ?s \<or> r \<noteq> None)\<rparr>)"
      using Suc.IH [of ?s "Stored st"] by auto
    then have "(sync_try h ^^ Suc k) st =
        (case sync_attempts (server enc) h run (Suc n) (live_object enc c) (Stored st) of
           (r, s) \<Rightarrow> st\<lparr>Stored := s, Phase := Idle, Later := (Later st \<or> r \<noteq> None)\<rparr>)"
      unfolding a funpow_Suc_right comp_apply t by (simp add: case_prod_beta)
    then show ?thesis by blast
  qed
qed

section \<open>Properties\<close>



section \<open>Runs\<close>

text \<open>A run that is checked step by step.\<close>

fun checked ::
    "listers \<Rightarrow> holder \<Rightarrow> (place_event \<Rightarrow> place_system \<Rightarrow> place_system \<Rightarrow> bool) \<Rightarrow> place_event list \<Rightarrow> place_system \<Rightarrow> place_system option" where
  "checked L h ok [] st = Some st"
| "checked L h ok (e # es) st =
     (case place_step L h e st of None \<Rightarrow> None | Some s \<Rightarrow> if ok e st s then checked L h ok es s else None)"

lemma checked_run: "checked L h ok es st = Some st' \<Longrightarrow> place_run L h ok st es st'"
proof (induction es arbitrary: st)
  case Nil
  then show ?case by (simp add: place_rests)
next
  case (Cons e es)
  then obtain s where s: "place_step L h e st = Some s" "ok e st s" "checked L h ok es s = Some st'"
    by (auto split: option.splits if_splits)
  show ?case by (rule place_moves_first [OF Cons.IH [OF s(3)] s(1,2)])
qed

text \<open>A pod of the ReplicaSet \<open>web\<close> starts on a node, and is remembered.\<close>

definition web :: holder where "web = \<lparr>Kind = ReplicaSet, Namespace = ''ns'', Name = ''web''\<rparr>"

definition web_pod :: "string \<Rightarrow> pod" where "web_pod node = test_pod ReplicaSet ''web'' node node"

abbreviation web_listers :: listers where "web_listers \<equiv> test_listers []"





text \<open>
  What the conditions are for. A workload on more than 16 nodes is not remembered, and when
  it is scaled down the key is queued at once, while its pods still run; the pods that go later
  queue nothing (a pod that is being deleted is not running), so those that stay are not
  remembered until another event of one of them.
\<close>

lemma leaving_pods_queue_nothing: "PodDeleting p \<Longrightarrow> enqueuePod L p = None"
  by (simp add: enqueuePod_def running_pod_def)

definition node_of :: "nat \<Rightarrow> string" where "node_of n = replicate (Suc n) CHR ''n''"

definition shrinking :: "place_event list" where
  "shrinking = [PodsChange (\<lambda>_. True) (map (\<lambda>n. web_pod (node_of n)) [0..<17])] @ replicate 17 Handle @ [Begin, ListPods, Try]
     @ [ScaledTo, Begin, ListPods, Try] @ [PodsChange (\<lambda>p. NodeName p = node_of 0) []]"

definition idle_memory :: "listers \<Rightarrow> holder \<Rightarrow> place_system \<Rightarrow> bool \<times> string \<times> bool" where
  "idle_memory L h st =
     (Told st = [] \<and> \<not> Dirty st \<and> \<not> Later st \<and> (case Phase st of Idle \<Rightarrow> True | _ \<Rightarrow> False) \<and> snd (Watched st) = snd (Stored st),
      memory (Stored st), list_ex (\<lambda>p. counted L h p (-1) \<and> \<not> remembers h (fst (Stored st)) p) (Pods st))"

lemma idle_forgets:
  "idle_memory L h st = (True, m, True) \<Longrightarrow> quiet st \<and> \<not> remembered_all L h st"
  by (auto simp: idle_memory_def quiet_def remembered_all_def list_ex_iff split: sync_phase.splits)

lemma shrink_run: "map_option (idle_memory web_listers web)
    (checked web_listers web (\<lambda>e st st'. current_reads web_listers web e st st' \<and> not_overtaken web_listers web e st st') shrinking (place_start (Map.empty, 0))) = Some (True, [], True)"
  by code_simp

lemma shrink_is_missed:
  "\<exists>st. place_run web_listers web (\<lambda>e st st'. current_reads web_listers web e st st' \<and> not_overtaken web_listers web e st st') (place_start (Map.empty, 0)) shrinking st
     \<and> quiet st \<and> \<not> remembered_all web_listers web st"
  using shrink_run by (auto simp: map_option_eq_Some dest!: checked_run idle_forgets)

text \<open>
  And a StatefulSet pod that moves and comes back before the watch shows the memory of the move is
  taken for remembered where it runs, while the memory stored is that of the move.
\<close>

definition db :: holder where "db = \<lparr>Kind = StatefulSet, Namespace = ''ns'', Name = ''db''\<rparr>"

definition moving :: "place_event list" where
  "moving = [PodsChange (\<lambda>_. False) [test_pod StatefulSet ''db'' ''db-0'' ''b''], Handle, Begin, ListPods, Try,
     PodsChange (\<lambda>_. False) [test_pod StatefulSet ''db'' ''db-0'' ''a''], Handle, Watch]"

definition counted_zero :: "place_system \<Rightarrow> bool \<times> string \<times> bool" where
  "counted_zero st =
     (fst (idle_memory web_listers db st), memory (Stored st),
      list_ex (\<lambda>p. counted web_listers db p 0 \<and> \<not> remembers db (fst (Stored st)) p) (Pods st))"

lemma move_run: "map_option counted_zero
    (checked web_listers db (\<lambda>e st st'. not_overtaken web_listers db e st st' \<and> fits web_listers db (Pods st')) moving
      (place_start ([RememberedNodesAnnotation \<mapsto> ''0=a''], 0))) = Some (True, ''0=b'', True)"
  by code_simp


lemma move_is_missed:
  "\<exists>st p. place_run web_listers db (\<lambda>e st st'. not_overtaken web_listers db e st st' \<and> fits web_listers db (Pods st'))
       (place_start ([RememberedNodesAnnotation \<mapsto> ''0=a''], 0)) moving st
     \<and> Told st = [] \<and> \<not> Dirty st \<and> \<not> Later st \<and> Phase st = Idle
     \<and> p \<in> set (Pods st) \<and> counted web_listers db p 0 \<and> \<not> remembers db (fst (Stored st)) p"
  using move_run
  by (fastforce simp: map_option_eq_Some counted_zero_def idle_memory_def list_ex_iff dest!: checked_run split: sync_phase.splits)

text \<open>
  With current caches at every step, the pod comes back while a sync that listed it on the other
  node has still to write: its event is dropped, since the memory of the old node is still there,
  and then the sync writes the other node.
\<close>

definition returning :: "place_event list" where
  "returning = [PodsChange (\<lambda>_. False) [test_pod StatefulSet ''db'' ''db-0'' ''b''], Handle, Begin, ListPods,
     PodsChange (\<lambda>_. False) [test_pod StatefulSet ''db'' ''db-0'' ''a''], Handle, Try, Watch]"

lemma return_run: "map_option counted_zero
    (checked web_listers db (\<lambda>e st st'. current_reads web_listers db e st st' \<and> fits web_listers db (Pods st')) returning
      (place_start ([RememberedNodesAnnotation \<mapsto> ''0=a''], 0))) = Some (True, ''0=b'', True)"
  by code_simp

lemma return_is_missed:
  "\<exists>st p. place_run web_listers db (\<lambda>e st st'. current_reads web_listers db e st st' \<and> fits web_listers db (Pods st'))
       (place_start ([RememberedNodesAnnotation \<mapsto> ''0=a''], 0)) returning st
     \<and> quiet st \<and> p \<in> set (Pods st) \<and> counted web_listers db p 0 \<and> \<not> remembers db (fst (Stored st)) p"
  using return_run
  by (fastforce simp: map_option_eq_Some counted_zero_def idle_memory_def quiet_def list_ex_iff
      dest!: checked_run split: sync_phase.splits)

end
