(* ===== verification/Cluster_Lookup.thy ===== *)
theory Cluster_Lookup
  imports Image_Check
begin

text \<open>
  \<open>clusterLookup\<close> of \<open>controller/gestation/lookup.go\<close>: the interface screening asks,
  answered from the API. Secrets and ConfigMaps are asked for as metadata, which carries no
  data: the type of an answer is \<open>unit\<close>. The lemmas put the lookup under the screening, so
  that a warning is stated over what the API and the registry answered.
\<close>

section \<open>The API\<close>

record ('q, 'ls, 'c) cluster_api =
  HasMetadata :: bool
  GetSecretMeta :: "string \<Rightarrow> string \<Rightarrow> unit api"
  GetConfigMapMeta :: "string \<Rightarrow> string \<Rightarrow> unit api"
  GetClaim :: "string \<Rightarrow> string \<Rightarrow> 'q claim api"
  GetClass :: "string \<Rightarrow> 'c api"
  ListClasses :: "'c list api"
  ListQuotas :: "string \<Rightarrow> 'q quota list api"
  ListPDBs :: "string \<Rightarrow> 'ls pdb list api"
  ClassAnnotations :: "'c \<Rightarrow> strmap"
  ClassName :: "'c \<Rightarrow> string"
  ErrorText :: "api_error option \<Rightarrow> string"

text \<open>\<open>ptrs\<close>: pointers to the elements of a slice, which keep their order.\<close>

definition ptrs :: "'a list \<Rightarrow> 'a list" where
  "ptrs items = map (\<lambda>i. items ! i) [0..<length items]"

definition listed_in :: "('q, 'ls, 'c) cluster_api \<Rightarrow> 'a list api \<Rightarrow> string + 'a list" where
  "listed_in E answer = (case answer of Inl e \<Rightarrow> Inl (ErrorText E (Some e)) | Inr items \<Rightarrow> Inr (ptrs items))"

definition clusterLookup ::
    "refs \<Rightarrow> (string \<Rightarrow> string) \<Rightarrow> (string \<Rightarrow> net) \<Rightarrow> image_checker \<Rightarrow> ('q, 'ls, 'c) cluster_api \<Rightarrow> ('q, 'ls) lookup_api" where
  "clusterLookup R quote net i E =
     \<lparr>SecretExists = (\<lambda>ns n. map_sum (ErrorText E) id (lookup_exists (HasMetadata E) (GetSecretMeta E ns n))),
      ConfigMapExists = (\<lambda>ns n. map_sum (ErrorText E) id (lookup_exists (HasMetadata E) (GetConfigMapMeta E ns n))),
      PVC = (\<lambda>ns n. map_sum (\<lambda>e. ErrorText E (Some e)) id (found_or_none (GetClaim E ns n))),
      StorageClass = (\<lambda>n. map_sum (\<lambda>e. ErrorText E (Some e)) (map_option (ClassName E))
        (lookup_storage_class (ClassAnnotations E) n (GetClass E) (ListClasses E))),
      ResourceQuotas = (\<lambda>ns. listed_in E (ListQuotas E ns)),
      PDBs = (\<lambda>ns. listed_in E (ListPDBs E ns)),
      ImageCheck = (\<lambda>img. fst (check_image R quote (net img) i img))\<rparr>"

section \<open>What the answers mean\<close>

lemma ptrs_id [simp]: "ptrs xs = xs"
  by (simp add: ptrs_def map_nth)

lemma exists_False [simp]:
  "map_sum f id (lookup_exists meta answer) = Inr False \<longleftrightarrow> meta \<and> answer = Inl NotFound"
  by (cases answer) (auto simp: lookup_exists_def split: api_error.splits)

lemma listed_Inr [simp]: "listed_in E answer = Inr xs \<longleftrightarrow> answer = Inr xs"
  by (auto simp: listed_in_def split: sum.splits)

lemma found_Inr [simp]:
  "map_sum f id (found_or_none answer) = Inr None \<longleftrightarrow> answer = Inl NotFound"
  "map_sum f id (found_or_none answer) = Inr (Some c) \<longleftrightarrow> answer = Inr c"
  by (cases answer; auto simp: found_or_none_def split: api_error.splits)+

text \<open>The class a claim would get is known to be missing.\<close>

definition no_class :: "('q, 'ls, 'c) cluster_api \<Rightarrow> string \<Rightarrow> bool" where
  "no_class E name \<longleftrightarrow>
     (if name \<noteq> [] then GetClass E name = Inl NotFound
      else \<exists>cs. ListClasses E = Inr cs
        \<and> (\<forall>c \<in> set cs. \<forall>a \<in> set defaultClassAnnotations. lookup_str (ClassAnnotations E c) a \<noteq> ''true''))"

lemma class_None:
  "map_sum f (map_option g) (lookup_storage_class (ClassAnnotations E) name (GetClass E) (ListClasses E)) = Inr None
    \<longleftrightarrow> no_class E name"
proof (cases "name = []")
  case True
  then show ?thesis
    by (auto simp: lookup_storage_class_def no_class_def find_None_iff list_ex_iff split: sum.splits)
next
  case False
  then show ?thesis
    by (cases "GetClass E name") (auto simp: lookup_storage_class_def no_class_def found_or_none_def split: api_error.splits)
qed

text \<open>The image is known to be wrong: the reference does not parse, or the registry's last answer is 404.\<close>

definition image_refused :: "refs \<Rightarrow> net \<Rightarrow> image_checker \<Rightarrow> string \<Rightarrow> bool" where
  "image_refused R net i img \<longleftrightarrow>
     (case ParseNamed R img of
        Inl _ \<Rightarrow> True
      | Inr n \<Rightarrow> onNode R i n = [] \<and> HasHTTP i
          \<and> (\<exists>resp. fst (ask_registry R net i n) = Inr resp \<and> StatusCode resp = 404))"

lemma image_alarm: "fst (fst (check_image R quote net i img)) \<in> {ResultFail, ResultWarn} \<longleftrightarrow> image_refused R net i img"
  by (auto simp: check_image_def image_refused_def registry_answer_def split: sum.splits prod.splits if_splits)


text \<open>The volume cannot be provisioned, by what the API said of its claim and its class.\<close>

definition claim_refused :: "'q qops \<Rightarrow> ('q, 'ls, 'c) cluster_api \<Rightarrow> 'q claim_spec \<Rightarrow> bool" where
  "claim_refused Q E cs \<longleftrightarrow>
     (case ClaimRequests cs ResourceStorage of
        None \<Rightarrow> True
      | Some sz \<Rightarrow> QSign Q sz \<le> 0 \<or> QCmp Q sz (QMustParse Q ''64Ti'') > 0
          \<or> (StorageClassName cs = None \<and> no_class E [])
          \<or> (\<exists>c. StorageClassName cs = Some c \<and> c \<noteq> [] \<and> GetClass E c = Inl NotFound))"

definition volume_refused :: "'q qops \<Rightarrow> ('q, 'ls, 'c) cluster_api \<Rightarrow> string \<Rightarrow> 'q Screening.volume \<Rightarrow> bool" where
  "volume_refused Q E ns v \<longleftrightarrow>
     (case VolPVC v of
        Some name \<Rightarrow> GetClaim E ns name = Inl NotFound
          \<or> (\<exists>c. GetClaim E ns name = Inr c \<and> ClaimPhase c \<noteq> ClaimBound \<and> claim_refused Q E (ClaimSpec c))
      | None \<Rightarrow> (\<exists>cs. VolEphemeral v = Some (Some cs) \<and> claim_refused Q E cs))"

lemma claim_problem_cluster: "claim_problem Q cs (clusterLookup R quote net i E) \<longleftrightarrow> claim_refused Q E cs"
proof (cases "StorageClassName cs")
  case None
  then show ?thesis
    by (simp add: claim_problem_def claim_refused_def clusterLookup_def class_None split: option.split)
next
  case (Some c)
  then show ?thesis
    by (simp add: claim_problem_def claim_refused_def clusterLookup_def class_None no_class_def split: option.split)
qed

lemma volume_problem_cluster:
  "volume_problem Q ns (clusterLookup R quote net i E) v \<longleftrightarrow> volume_refused Q E ns v"
proof (cases "VolPVC v")
  case None
  then show ?thesis
    by (auto simp: volume_problem_def volume_refused_def claim_problem_cluster split: option.splits)
next
  case (Some name)
  have "PVC (clusterLookup R quote net i E) ns name = map_sum (\<lambda>e. ErrorText E (Some e)) id (found_or_none (GetClaim E ns name))"
    by (simp add: clusterLookup_def)
  then show ?thesis
    using Some claim_problem_cluster [of Q _ R quote net i E]
    by (cases "GetClaim E ns name")
      (auto simp: volume_problem_def volume_refused_def found_or_none_def split: api_error.splits)
qed

section \<open>Properties\<close>

text \<open>
  Claim C19. A screening of the cluster warns of what is known to be wrong and of nothing else: exactly
  when the size cannot be read, a quota the API lists leaves too little, a container asks for
  more than its room, has no readiness probe or no requests, an image's reference does not
  parse or its registry says it does not exist, or the API says that a Secret, a ConfigMap, a
  claim or a storage class the pods need is not found (or that no class is the default). An API
  or a registry that cannot be reached, and a cluster without a metadata client, warn of
  nothing.
\<close>

theorem cluster_screening_warns_exactly:
  "fst (Summarize reason (Screen Q parse_quantity as_selector inp (clusterLookup R quote net i E))) \<longleftrightarrow>
     (case ParseSize parse_quantity (QSign Q) (Size (InSpec inp)) of
        Inl _ \<Rightarrow> True
      | Inr sz \<Rightarrow>
          (\<exists>quotas quota r want hard. ListQuotas E (InNamespace inp) = Inr quotas \<and> quota \<in> set quotas
             \<and> (r, want) \<in> set (launch_need Q (i32 (SpecReplicas (InSpec inp) + 1)) (size_list sz))
             \<and> quota_hard quota r = Some hard \<and> QCmp Q (quota_avail Q (InPlacenta inp) quota r hard) want < 0)
          \<or> (\<exists>d r. InDeployment inp = Some d \<and> (r = ResourceCPU \<or> r = ResourceMemory)
             \<and> QCmp Q (q_at Q (podRequests Q (ScTemplate d)) r) (q_at Q (size_list sz) r) > 0))
     \<or> (\<exists>d. InDeployment inp = Some d
         \<and> ((\<exists>c. c \<in> set (InitContainers (ScTemplate d)) \<union> set (Containers (ScTemplate d))
               \<and> image_refused R (net (CtrImage c)) i (CtrImage c))
          \<or> (HasMetadata E \<and> (\<exists>n. n \<in> set (fst (References (ScTemplate d))) \<and> GetSecretMeta E (ScNamespace d) n = Inl NotFound))
          \<or> (HasMetadata E \<and> (\<exists>n. n \<in> set (snd (References (ScTemplate d))) \<and> GetConfigMapMeta E (ScNamespace d) n = Inl NotFound))
          \<or> (\<exists>v. v \<in> set (Volumes (ScTemplate d)) \<and> volume_refused Q E (ScNamespace d) v)
          \<or> (\<exists>c. c \<in> set (Containers (ScTemplate d))
               \<and> (\<not> HasReadiness c \<or> CtrRequests c ResourceCPU = None \<or> CtrRequests c ResourceMemory = None))))"
proof -
  let ?l = "clusterLookup R quote net i E"
  have fields: "ResourceQuotas ?l ns = Inr qs \<longleftrightarrow> ListQuotas E ns = Inr qs"
    "SecretExists ?l ns n = Inr False \<longleftrightarrow> HasMetadata E \<and> GetSecretMeta E ns n = Inl NotFound"
    "ConfigMapExists ?l ns n = Inr False \<longleftrightarrow> HasMetadata E \<and> GetConfigMapMeta E ns n = Inl NotFound"
    "fst (ImageCheck ?l img) \<in> {ResultFail, ResultWarn} \<longleftrightarrow> image_refused R (net img) i img" for ns n qs img
    using image_alarm by (simp_all add: clusterLookup_def)
  have out: "(\<exists>n. n \<in> A \<and> HasMetadata E \<and> P n) \<longleftrightarrow> HasMetadata E \<and> (\<exists>n. n \<in> A \<and> P n)"
    for A :: "string set" and P by blast
  show ?thesis
    unfolding screening_warns_exactly fields volume_problem_cluster out by (rule refl)
qed



text \<open>A cluster that answers nothing, and a Deployment without a readiness probe.\<close>

definition down_cluster :: "(int, unit, unit) cluster_api" where
  "down_cluster =
     \<lparr>HasMetadata = False, GetSecretMeta = (\<lambda>_ _. Inl Conflict), GetConfigMapMeta = (\<lambda>_ _. Inl Conflict),
      GetClaim = (\<lambda>_ _. Inl Conflict), GetClass = (\<lambda>_. Inl Conflict), ListClasses = Inl Conflict,
      ListQuotas = (\<lambda>_. Inl Conflict), ListPDBs = (\<lambda>_. Inl Conflict), ClassAnnotations = (\<lambda>_ _. None), ClassName = (\<lambda>_. []),
      ErrorText = (\<lambda>_. ''down'')\<rparr>"

theorem cluster_screening_warns_exactly_witness:
  "fst (Summarize ''requested'' (Screen int_q (\<lambda>_. Some 5) (\<lambda>_. None) bare_input
     (clusterLookup demo_refs id (\<lambda>_. demo_net) demo_checker down_cluster)))"
  unfolding cluster_screening_warns_exactly
  by (rule disjI2) (simp add: bare_input_def bare_container_def)

end
