(* ===== verification/Placenta_Pods.thy ===== *)
theory Placenta_Pods
  imports Immunity StartingDose Care
begin

text \<open>
  The pods of the placenta and the admission plugins. \<open>placenta_pod\<close> is the whole pod
  specification of \<open>Placenta\<close> in \<open>gestation/pregnancy.go\<close>, as an extension of the
  record Immunity reads; the other plugins and the priority classes read parts of it. The lemmas
  show that the program's own placeholders pass its own plugins untouched, and that any pod of
  default or newborn priority may take their room.
\<close>

section \<open>The pod\<close>

definition PlacentaImage :: string where
  "PlacentaImage =
     ''registry.k8s.io/pause:3.10.2@sha256:f548e0e8e3dc1896ca956272154dde3314e8cc4fde0a57577ee9fa1c63f5baf4''"

record ('q, 'sel, 'tol, 'aff) placeholder_pod = ipod +
  PhLabels :: strmap
  PhPriorityClass :: string
  PhGraceSeconds :: "int option"
  PhAutomountToken :: "bool option"
  PhServiceLinks :: "bool option"
  PhRunAsNonRoot :: "bool option"
  PhRunAsUser :: "int option"
  PhReadOnlyRoot :: "bool option"
  PhDropped :: "string list"
  PhRequests :: "'q resources"
  PhScheduling :: "('sel, 'tol, 'aff) scheduling option"

definition placenta_container :: container where
  "placenta_container =
     \<lparr>CName = ''placenta'', ImageRef = PlacentaImage, HostPorts = [],
      Security = Some \<lparr>Privileged = None, AllowPrivilegeEscalation = Some False, CapabilitiesAdd = Some [],
        UnmaskedProcMount = None, Seccomp = None, AppArmor = None, HostProcess = None\<rparr>\<rparr>"

definition placenta_pod :: "('q, 'sel, 'tol, 'aff) placenta \<Rightarrow> ('q, 'sel, 'tol, 'aff) placeholder_pod" where
  "placenta_pod p =
     \<lparr>Annotations = (\<lambda>_. None), HostNetwork = False, HostPID = False, HostIPC = False, Volumes = [],
      PodSecurity = Some \<lparr>PodSeccomp = Some (OtherProfile ''RuntimeDefault''), PodAppArmor = None, PodHostProcess = None\<rparr>,
      InitContainers = [], Containers = [placenta_container], EphemeralContainers = [],
      PhLabels = [PlacentaLabel \<mapsto> PlLabel p], PhPriorityClass = PlPriorityClass p,
      PhGraceSeconds = Some (PlGraceSeconds p), PhAutomountToken = Some False, PhServiceLinks = Some False,
      PhRunAsNonRoot = Some True, PhRunAsUser = Some 65535, PhReadOnlyRoot = Some True, PhDropped = [''ALL''],
      PhRequests = [''cpu'' \<mapsto> fst (PlRequests p), ''memory'' \<mapsto> snd (PlRequests p)],
      PhScheduling = PlScheduling p\<rparr>"

text \<open>What the other two plugins see of it.\<close>

definition dose_view :: "('q, 'sel, 'tol, 'aff) placeholder_pod \<Rightarrow> 'q dpod" where
  "dose_view p =
     \<lparr>DAnnotations = Annotations p, HasPodResources = False, DInitContainers = [],
      DContainers = map (\<lambda>c. \<lparr>DName = CName c, Requests = PhRequests p, Limits = (\<lambda>_. None)\<rparr>) (Containers p)\<rparr>"

definition care_view :: "('q, 'sel, 'tol, 'aff) placeholder_pod \<Rightarrow> 'c npod" where
  "care_view p =
     \<lparr>NLabels = PhLabels p, NAnn = Annotations p, PriorityClassName = PhPriorityClass p, HasPriority = False\<rparr>"

section \<open>The plugins on it\<close>

lemma placenta_image_pinned: "\<not> FloatingTag PlacentaImage"
  by code_simp

lemma placenta_has_no_antigens: "Antigens upper (ipod.truncate (placenta_pod p)) = []"
  using placenta_image_pinned
  by (simp add: Antigens_def placenta_pod_def ipod.truncate_def visit_def visit_security_def placenta_container_def
      lookup_str_def host_process_def List.map_filter_def)

lemma placenta_is_admitted:
  "Validate upper ready cache client a (Some (ipod.truncate (placenta_pod p))) old = Allowed"
  by (simp add: Validate_def NewAntigens_def placenta_has_no_antigens split: option.splits)

lemma nothing_missing: "Requests c ''cpu'' \<noteq> None \<Longrightarrow> Requests c ''memory'' \<noteq> None \<Longrightarrow> missing pq c = []"
  using set_missing [of "hd (missing pq c)" pq c] by (cases "missing pq c") auto

lemma placenta_is_not_dosed:
  "StartingDose.Admit pq ready cache client a (dose_view (placenta_pod p)) = Inr (dose_view (placenta_pod p))"
proof -
  have "\<not> NeedsDose pq (dose_view (placenta_pod p))"
    by (simp add: NeedsDose_def dose_view_def placenta_pod_def nothing_missing)
  then show ?thesis by (simp add: StartingDose.Admit_def)
qed

lemma placenta_is_not_newborn:
  "PlPriorityClass p \<noteq> [] \<Longrightarrow>
   care_admit unmarshal parse_sel get_class classes ready cache client a (care_view (placenta_pod p)) = care_view (placenta_pod p)"
  by (simp add: care_admit_def care_view_def placenta_pod_def)

text \<open>
  Claim C15. The placeholders are welcome and give way: whatever the namespace, the caches and the API
  answer, Immunity admits every pod of a placenta, on creation and on update, and neither
  StartingDose nor NewbornCare changes it; its class is installed with a priority below that of
  a pod that names none, and every other class the controller installs is above both.
\<close>

theorem placeholders_are_welcome:
  "let pod = placenta_pod (Placenta name ns deployment uid reserved sz template)
   in Validate upper ready cache client a (Some (ipod.truncate pod)) old = Allowed
     \<and> StartingDose.Admit pq ready dcache dclient a (dose_view pod) = Inr (dose_view pod)
     \<and> care_admit unmarshal parse_sel get_class classes ready ncache nclient a (care_view pod) = care_view pod
     \<and> map_of PriorityClasses (PhPriorityClass pod) = Some PlacentaPriority \<and> PlacentaPriority < 0
     \<and> list_all (\<lambda>(c, v). c = PlacentaPriorityClass \<or> 0 < v) PriorityClasses"
proof -
  let ?room = "Placenta name ns deployment uid reserved sz template"
  have its_class: "PlPriorityClass ?room = PlacentaPriorityClass" by (simp add: Placenta_def)
  have named: "PlacentaPriorityClass \<noteq> []" by (simp add: PlacentaPriorityClass_def)
  have "PhPriorityClass (placenta_pod ?room) = PlacentaPriorityClass" by (simp add: placenta_pod_def its_class)
  then have "map_of PriorityClasses (PhPriorityClass (placenta_pod ?room)) = Some PlacentaPriority"
    by (simp add: PriorityClasses_def)
  moreover have "list_all (\<lambda>(c, v). c = PlacentaPriorityClass \<or> 0 < v) PriorityClasses" "PlacentaPriority < 0"
    by code_simp+
  moreover have "PlPriorityClass ?room \<noteq> []" using its_class named by simp
  ultimately show ?thesis
    unfolding Let_def by (intro conjI placenta_is_admitted placenta_is_not_dosed placenta_is_not_newborn) assumption+
qed

end
