(* ===== verification/Kyvctl_Reports.thy ===== *)
theory Kyvctl_Reports
  imports Diagnose Support
begin

text \<open>
  The reports of \<open>kyvctl\<close> from what the API lists to what is printed: \<open>runAutoimmune\<close>
  (\<open>diagnose.go\<close>), \<open>runMosaic\<close> (\<open>mosaic.go\<close>) and \<open>runSupport\<close>
  (\<open>support.go\<close>). A client that cannot be made and a list that fails end a report before
  anything is printed.
\<close>

record report_client =
  NoClient :: "api_error option"
  ListEvents :: "event list api"
  ListSelf :: "string list api"
  ListApiservers :: "apiserver_pod list api"
  ListKubelets :: "string list api"

text \<open>A report with the client, or the error of making it.\<close>

definition with_client :: "report_client \<Rightarrow> (api_error + 'a) \<Rightarrow> api_error + 'a" where
  "with_client C report = (case NoClient C of Some e \<Rightarrow> Inl e | None \<Rightarrow> report)"

definition runAutoimmune ::
    "((string \<times> rejection) list \<Rightarrow> (string \<times> rejection) list) \<Rightarrow> report_client \<Rightarrow> api_error + string" where
  "runAutoimmune arrange C =
     with_client C
       (case ListEvents C of
          Inl e \<Rightarrow> Inl e
        | Inr events \<Rightarrow>
            (case ListSelf C of
               Inl e \<Rightarrow> Inl e
             | Inr namespaces \<Rightarrow> Inr (renderAutoimmune (Rejections arrange events (\<lambda>ns. ns \<in> set namespaces)))))"

definition runMosaic ::
    "(string \<Rightarrow> bool \<times> version_info) \<Rightarrow> (string \<Rightarrow> mm option) \<Rightarrow> (cell list \<Rightarrow> cell list) \<Rightarrow> report_client \<Rightarrow> api_error + string" where
  "runMosaic decode minorOf arrange C =
     with_client C (map_sum id (renderMosaic minorOf arrange) (apiserverCells decode (ListApiservers C)))"

text \<open>What \<open>kyvctl support\<close> prints, and why it fails.\<close>

datatype support_error = NotListed api_error | Ended string

definition runSupport ::
    "(string \<Rightarrow> bool \<times> version_info) \<Rightarrow> (string \<Rightarrow> mm option) \<Rightarrow> (gotime \<Rightarrow> string) \<Rightarrow> report_client \<Rightarrow> gotime
     \<Rightarrow> string \<times> support_error option" where
  "runSupport decode minorOf date C now =
     (case with_client C
        (case apiserverCells decode (ListApiservers C) of
           Inl e \<Rightarrow> Inl e
         | Inr cells \<Rightarrow> (case ListKubelets C of Inl e \<Rightarrow> Inl e | Inr kubelets \<Rightarrow> Inr (used_minors minorOf cells kubelets))) of
        Inl e \<Rightarrow> ([], Some (NotListed e))
      | Inr (used, silent) \<Rightarrow>
          (let (out, ended) = renderSupport date used silent now in (out, map_option Ended ended)))"

section \<open>The minors in use\<close>

lemma count_minor_keys: "fst ` set (count_minor bump used m) = insert m (fst ` set used)"
proof -
  have "fst ` set used = dom (map_of used)" for used :: "(nat \<times> usage) list" by (simp add: dom_map_of_conv_image_fst)
  then show ?thesis by (simp add: count_minor_def update_conv')
qed

lemma count_minors_keys: "fst ` set (foldl (count_minor bump) used ms) = set ms \<union> fst ` set used"
  by (induction ms arbitrary: used) (auto simp: count_minor_keys)

lemma used_minors_keys:
  "fst ` set (fst (used_minors minorOf cells kubelets)) =
     snd ` (set (minors_of minorOf (map Version cells)) \<union> set (minors_of minorOf kubelets))"
  by (auto simp: used_minors_def Let_def count_minors_keys)

lemma minors_of_mem: "m \<in> set (minors_of minorOf vs) \<longleftrightarrow> (\<exists>v \<in> set vs. minorOf v = Some m)"
  by (induction vs) (auto simp: minors_of_def List.map_filter_simps split: option.splits)

text \<open>A version the cluster runs: the binary's of an apiserver that answers, or a kubelet's.\<close>

definition runs_version :: "(string \<Rightarrow> bool \<times> version_info) \<Rightarrow> apiserver_pod list \<Rightarrow> string list \<Rightarrow> string \<Rightarrow> bool" where
  "runs_version decode pods kubelets v \<longleftrightarrow>
     v \<in> set kubelets \<or> (\<exists>p \<in> set pods. v = (case APAnswer p of Inl _ \<Rightarrow> [] | Inr raw \<Rightarrow> GitVersion (snd (decode raw))))"

lemma cell_version:
  "Version (apiserver_cell decode p) = (case APAnswer p of Inl _ \<Rightarrow> [] | Inr raw \<Rightarrow> GitVersion (snd (decode raw)))"
  by (auto simp: apiserver_cell_def Let_def case_prod_beta split: sum.splits)

lemma used_minors_mem:
  "m \<in> fst ` set (fst (used_minors minorOf (map (apiserver_cell decode) pods) kubelets)) \<longleftrightarrow>
     (\<exists>v major. runs_version decode pods kubelets v \<and> minorOf v = Some (major, m))"
  unfolding used_minors_keys runs_version_def
  by (force simp: minors_of_mem cell_version image_iff)

text \<open>
  Claim C40. When a report fails: \<open>kyvctl support\<close> fails exactly when the client cannot be made, the
  apiservers or the nodes cannot be listed, or the binary of an apiserver that answers or a
  kubelet is of a minor out of support (the version an apiserver emulates does not count), and
  it prints nothing when it could not list; the other two reports fail only when the API does,
  and \<open>autoimmune\<close> prints only once both of its lists are there.
\<close>

theorem reports_fail_exactly:
  "(snd (runSupport decode minorOf date C now) \<noteq> None \<longleftrightarrow>
      NoClient C \<noteq> None \<or> isl (ListApiservers C) \<or> isl (ListKubelets C)
      \<or> (\<exists>pods kubelets v major minor. ListApiservers C = Inr pods \<and> ListKubelets C = Inr kubelets
           \<and> runs_version decode pods kubelets v \<and> minorOf v = Some (major, minor)
           \<and> Stage (AssessMinor minor now) = Unsupported))
   \<and> (\<forall>e. snd (runSupport decode minorOf date C now) = Some (NotListed e) \<longrightarrow> fst (runSupport decode minorOf date C now) = [])
   \<and> (isl (runMosaic decode minorOf arrange C) \<longleftrightarrow> NoClient C \<noteq> None \<or> isl (ListApiservers C))
   \<and> (isl (runAutoimmune arrange' C) \<longleftrightarrow> NoClient C \<noteq> None \<or> isl (ListEvents C) \<or> isl (ListSelf C))"
proof -
  have verdict: "snd (renderSupport date used silent now) \<noteq> None \<longleftrightarrow> (\<exists>m \<in> fst ` set used. Stage (AssessMinor m now) = Unsupported)"
    for used silent using support_verdict_sound [of date used silent now now] by blast
  have support: "snd (runSupport decode minorOf date C now) \<noteq> None \<longleftrightarrow>
      NoClient C \<noteq> None \<or> isl (ListApiservers C) \<or> isl (ListKubelets C)
      \<or> (\<exists>pods kubelets v major minor. ListApiservers C = Inr pods \<and> ListKubelets C = Inr kubelets
           \<and> runs_version decode pods kubelets v \<and> minorOf v = Some (major, minor)
           \<and> Stage (AssessMinor minor now) = Unsupported)"
  proof (cases "NoClient C = None \<and> \<not> isl (ListApiservers C) \<and> \<not> isl (ListKubelets C)")
    case False
    then show ?thesis
      by (auto simp: runSupport_def with_client_def apiserverCells_def isl_def split: option.splits sum.splits)
  next
    case True
    then obtain pods kubelets where l: "NoClient C = None" "ListApiservers C = Inr pods" "ListKubelets C = Inr kubelets"
      by (cases "ListApiservers C"; cases "ListKubelets C") auto
    let ?u = "used_minors minorOf (map (apiserver_cell decode) pods) kubelets"
    have "snd (runSupport decode minorOf date C now) = map_option Ended (snd (renderSupport date (fst ?u) (snd ?u) now))"
      by (simp add: runSupport_def with_client_def apiserverCells_def l case_prod_beta Let_def)
    then have "snd (runSupport decode minorOf date C now) \<noteq> None \<longleftrightarrow>
        (\<exists>m \<in> fst ` set (fst ?u). Stage (AssessMinor m now) = Unsupported)"
      using verdict [of "fst ?u" "snd ?u"] by simp
    also have "\<dots> \<longleftrightarrow> (\<exists>v major minor. runs_version decode pods kubelets v \<and> minorOf v = Some (major, minor)
        \<and> Stage (AssessMinor minor now) = Unsupported)"
      unfolding Bex_def used_minors_mem by blast
    finally show ?thesis using l by simp
  qed
  have silent: "fst (runSupport decode minorOf date C now) = []"
    if "snd (runSupport decode minorOf date C now) = Some (NotListed e)" for e
    using that by (auto simp: runSupport_def Let_def case_prod_beta split: sum.splits)
  have others: "isl (runMosaic decode minorOf arrange C) \<longleftrightarrow> NoClient C \<noteq> None \<or> isl (ListApiservers C)"
      "isl (runAutoimmune arrange' C) \<longleftrightarrow> NoClient C \<noteq> None \<or> isl (ListEvents C) \<or> isl (ListSelf C)"
    by (auto simp: runMosaic_def runAutoimmune_def with_client_def apiserverCells_def isl_def split: option.splits sum.splits)
  show ?thesis by (intro conjI support others) (use silent in blast)
qed


text \<open>A cluster with one kubelet of a minor long out of support.\<close>

definition old_cluster :: report_client where
  "old_cluster = \<lparr>NoClient = None, ListEvents = Inr [], ListSelf = Inr [], ListApiservers = Inr [], ListKubelets = Inr [''v1.10.0'']\<rparr>"

theorem reports_fail_exactly_witness:
  "snd (runSupport (\<lambda>_. (False, \<lparr>GitVersion = [], EmulationMajor = [], EmulationMinor = []\<rparr>)) (\<lambda>_. Some (1, 10)) (\<lambda>_. []) old_cluster 0) \<noteq> None"
proof -
  have "Stage (AssessMinor 10 0) = Unsupported" by code_simp
  then show ?thesis
    unfolding reports_fail_exactly [THEN conjunct1] by (auto simp: old_cluster_def runs_version_def)
qed

end
