(* ===== verification/Go_Time.thy ===== *)
theory Go_Time
  imports Go_Strconv "HOL-Library.Product_Lexorder"
begin

text \<open>
  What the code uses of Go's \<open>time\<close> package to read and print dates: the calendar in UTC,
  \<open>time.Parse\<close> and \<open>Format\<close> with \<open>DateOnly\<close>, and \<open>Format\<close> with
  \<open>RFC3339\<close>. Days are counted from 1 January of the year 0, years are those from 0 on.
  The lemmas show that the calendar is one to one and that the printed texts are ordered as the
  times they print.
\<close>

section \<open>Years\<close>

definition leap :: "nat \<Rightarrow> bool" where
  "leap y \<longleftrightarrow> 4 dvd y \<and> (\<not> 100 dvd y \<or> 400 dvd y)"

definition year_start :: "nat \<Rightarrow> int" where
  "year_start y = 365 * int y + int ((y + 3) div 4) - int ((y + 99) div 100) + int ((y + 399) div 400)"

definition year_days :: "nat \<Rightarrow> nat" where
  "year_days y = (if leap y then 366 else 365)"

lemma div_up: "0 < k \<Longrightarrow> (Suc y + (k - 1)) div k = (y + (k - 1)) div k + (if k dvd y then 1 else 0)"
proof -
  assume "0 < k"
  then have "Suc y + (k - 1) = y + k" by simp
  moreover have "Suc (y + (k - 1)) = y + k" using \<open>0 < k\<close> by simp
  ultimately show ?thesis
    using div_Suc [of "y + (k - 1)" k] \<open>0 < k\<close> by (auto simp: dvd_eq_mod_eq_0)
qed

lemma year_start_Suc: "year_start (Suc y) = year_start y + int (year_days y)"
proof -
  have up: "int ((Suc y + 3) div 4) = int ((y + 3) div 4) + (if 4 dvd y then 1 else 0)"
    "int ((Suc y + 99) div 100) = int ((y + 99) div 100) + (if 100 dvd y then 1 else 0)"
    "int ((Suc y + 399) div 400) = int ((y + 399) div 400) + (if 400 dvd y then 1 else 0)"
    using div_up [of 4 y] div_up [of 100 y] div_up [of 400 y] by simp_all
  have days: "int (year_days y) = 365 + (if 4 dvd y then 1 else 0) - (if 100 dvd y then 1 else 0) + (if 400 dvd y then 1 else 0)"
    using dvd_trans [of 100 400 y] dvd_trans [of 4 100 y]
    by (cases "4 dvd y"; cases "100 dvd y"; cases "400 dvd y") (simp_all add: year_days_def leap_def)
  show ?thesis unfolding year_start_def up days by simp
qed

lemma year_start_strict: "y < z \<Longrightarrow> year_start y < year_start z"
  by (rule lift_Suc_mono_less [where f = year_start]) (simp_all add: year_start_Suc year_days_def)

lemma year_start_bound: "year_start y \<le> 366 * int y"
proof (induction y)
  case (Suc y)
  then show ?case by (simp add: year_start_Suc year_days_def)
qed (simp add: year_start_def)

text \<open>The year of a day, searched from a year that is not later.\<close>

function year_from :: "nat \<Rightarrow> int \<Rightarrow> nat" where
  "year_from y n = (if year_start (Suc y) \<le> n then year_from (Suc y) n else y)"
  by pat_completeness auto
termination
proof (relation "measure (\<lambda>(y, n). nat (n + 1 - year_start y))", simp)
  fix y n assume "year_start (Suc y) \<le> n"
  then show "((Suc y, n), (y, n)) \<in> measure (\<lambda>(y, n). nat (n + 1 - year_start y))"
    using year_start_strict [of y "Suc y"] by auto
qed

declare year_from.simps [simp del]

definition year_of :: "int \<Rightarrow> nat" where
  "year_of n = year_from (nat (n div 366)) n"

lemma year_from_spec:
  "year_start y \<le> n \<Longrightarrow> year_start (year_from y n) \<le> n \<and> n < year_start (Suc (year_from y n))"
proof (induction y n rule: year_from.induct)
  case (1 y n)
  then show ?case by (subst (1 2) year_from.simps) auto
qed

lemma year_of_spec: "0 \<le> n \<Longrightarrow> year_start (year_of n) \<le> n \<and> n < year_start (Suc (year_of n))"
proof -
  assume n: "0 \<le> n"
  have "year_start (nat (n div 366)) \<le> 366 * (n div 366)"
    using year_start_bound [of "nat (n div 366)"] n by (simp add: pos_imp_zdiv_nonneg_iff)
  also have "\<dots> \<le> n" by simp
  finally show ?thesis unfolding year_of_def by (rule year_from_spec)
qed

lemma year_of_unique: "year_start y \<le> n \<Longrightarrow> n < year_start (Suc y) \<Longrightarrow> 0 \<le> n \<Longrightarrow> year_of n = y"
proof (rule ccontr)
  assume a: "year_start y \<le> n" "n < year_start (Suc y)" "0 \<le> n" "year_of n \<noteq> y"
  have mono: "year_start (Suc u) \<le> year_start v" if "u < v" for u v
    using that year_start_strict [of "Suc u" v] by (cases "Suc u = v") (auto simp: less_eq_Suc_le)
  show False using year_of_spec [OF a(3)] mono [of y "year_of n"] mono [of "year_of n" y] a by linarith
qed

lemma year_start_nonneg: "0 \<le> year_start y"
proof -
  have "year_start 0 = 0" by (simp add: year_start_def)
  then show ?thesis using year_start_strict [of 0 y] by (cases "y = 0") auto
qed

section \<open>Months and days\<close>

definition month_lengths :: "nat \<Rightarrow> nat list" where
  "month_lengths y = [31, if leap y then 29 else 28, 31, 30, 31, 30, 31, 31, 30, 31, 30, 31]"

fun month_day :: "nat list \<Rightarrow> nat \<Rightarrow> nat \<Rightarrow> nat \<times> nat" where
  "month_day [] m r = (m, Suc r)"
| "month_day (l # ls) m r = (if r < l then (m, Suc r) else month_day ls (Suc m) (r - l))"

lemma month_day_sum:
  "k < length ls \<Longrightarrow> j < ls ! k \<Longrightarrow> month_day ls m (sum_list (take k ls) + j) = (m + k, Suc j)"
  by (induction ls m "sum_list (take k ls) + j" arbitrary: k rule: month_day.induct)
    (auto simp: nth_Cons take_Cons split: nat.splits)

lemma month_day_inverse:
  "(r :: nat) < sum_list ls \<Longrightarrow> \<exists>k j. k < length ls \<and> j < ls ! k \<and> r = sum_list (take k ls) + j"
proof (induction ls arbitrary: r)
  case (Cons l ls)
  show ?case
  proof (cases "r < l")
    case True
    then show ?thesis by (intro exI [of _ 0] exI [of _ r]) simp
  next
    case False
    then have "r - l < sum_list ls" using Cons.prems by simp
    then obtain k j where "k < length ls" "j < ls ! k" "r - l = sum_list (take k ls) + j"
      using Cons.IH by blast
    then show ?thesis using False by (intro exI [of _ "Suc k"] exI [of _ j]) auto
  qed
qed simp

lemma month_lengths_sum: "sum_list (month_lengths y) = year_days y" "length (month_lengths y) = 12"
  by (simp_all add: month_lengths_def year_days_def)

type_synonym date = "nat \<times> nat \<times> nat"

definition valid_date :: "date \<Rightarrow> bool" where
  "valid_date = (\<lambda>(y, m, d). 1 \<le> m \<and> m \<le> 12 \<and> 1 \<le> d \<and> d \<le> month_lengths y ! (m - 1))"

definition day_number :: "date \<Rightarrow> int" where
  "day_number = (\<lambda>(y, m, d). year_start y + int (sum_list (take (m - 1) (month_lengths y)) + (d - 1)))"

definition date_of_day :: "int \<Rightarrow> date" where
  "date_of_day n = (let y = year_of n in (y, month_day (month_lengths y) 1 (nat (n - year_start y))))"


lemma date_of_day_valid:
  assumes "0 \<le> n"
  shows "valid_date (date_of_day n) \<and> day_number (date_of_day n) = n"
proof -
  let ?y = "year_of n" and ?ls = "month_lengths (year_of n)"
  have y: "year_start ?y \<le> n" "n < year_start (Suc ?y)" using year_of_spec [OF assms] by simp_all
  then have "nat (n - year_start ?y) < sum_list ?ls"
    by (simp add: year_start_Suc month_lengths_sum nat_less_iff)
  then obtain k j where k: "k < 12" "j < ?ls ! k" "nat (n - year_start ?y) = sum_list (take k ?ls) + j"
    using month_day_inverse month_lengths_sum(2) by metis
  then have d: "date_of_day n = (?y, Suc k, Suc j)"
    using month_day_sum [of k ?ls j 1] month_lengths_sum(2) by (simp add: date_of_day_def Let_def)
  have "n = year_start ?y + int (sum_list (take k ?ls) + j)" using k(3) y(1) by simp
  then show ?thesis using d k by (simp add: valid_date_def day_number_def)
qed

lemma day_number_in_year:
  assumes "valid_date (y, m, d)"
  shows "year_start y \<le> day_number (y, m, d) \<and> day_number (y, m, d) < year_start (Suc y)"
proof -
  let ?ls = "month_lengths y"
  have m: "m - 1 < length ?ls" "d - 1 < ?ls ! (m - 1)" using assms by (auto simp: valid_date_def month_lengths_sum)
  then have "sum_list (take (m - 1) ?ls) + ?ls ! (m - 1) \<le> sum_list ?ls"
  proof -
    have "sum_list ?ls = sum_list (take (m - 1) ?ls) + sum_list (drop (m - 1) ?ls)"
      by (metis append_take_drop_id sum_list.append)
    moreover have "drop (m - 1) ?ls = ?ls ! (m - 1) # drop (Suc (m - 1)) ?ls" using m(1) by (simp add: Cons_nth_drop_Suc)
    ultimately show ?thesis by simp
  qed
  then have "sum_list (take (m - 1) ?ls) + (d - 1) < year_days y" using m(2) by (simp add: month_lengths_sum)
  then show ?thesis by (simp add: day_number_def year_start_Suc)
qed

lemma date_of_day_number: "valid_date dt \<Longrightarrow> date_of_day (day_number dt) = dt"
proof -
  assume v: "valid_date dt"
  obtain y m d where dt: "dt = (y, m, d)" by (cases dt)
  let ?ls = "month_lengths y" and ?n = "day_number dt"
  have in_y: "year_start y \<le> ?n" "?n < year_start (Suc y)" using day_number_in_year v dt by simp_all
  have "0 \<le> ?n" using year_start_nonneg [of y] in_y(1) by simp
  then have y: "year_of ?n = y" using year_of_unique in_y by blast
  have m: "m - 1 < length ?ls" "d - 1 < ?ls ! (m - 1)" "1 \<le> m" "1 \<le> d"
    using v dt by (auto simp: valid_date_def month_lengths_sum)
  have "nat (?n - year_start y) = sum_list (take (m - 1) ?ls) + (d - 1)" by (simp add: dt day_number_def)
  then show ?thesis
    using month_day_sum [OF m(1,2), of 1] m(3,4) y by (simp add: date_of_day_def dt)
qed

section \<open>Numbers of a fixed width\<close>

primrec digits :: "nat \<Rightarrow> nat \<Rightarrow> string" where
  "digits 0 n = []"
| "digits (Suc w) n = digits w (n div 10) @ [digit_char (n mod 10)]"

text \<open>\<open>appendInt\<close> with a width: zeros in front of a shorter number, a longer one in full.\<close>

definition pad_number :: "nat \<Rightarrow> nat \<Rightarrow> string" where
  "pad_number w n = (if n < 10 ^ w then digits w n else show_nat n)"

lemma length_digits [simp]: "length (digits w n) = w"
  by (induction w arbitrary: n) simp_all

lemma digits_all: "list_all is_digit (digits w n)"
  by (induction w arbitrary: n) simp_all

lemma nat_of_digits_digits: "n < 10 ^ w \<Longrightarrow> nat_of_digits (digits w n) = n"
proof (induction w arbitrary: n)
  case (Suc w)
  then have "n div 10 < 10 ^ w" by (simp add: less_mult_imp_div_less mult.commute)
  then show ?case using Suc.IH by (simp add: nat_of_digits_snoc)
qed (simp add: nat_of_digits_def)

lemma digit_val_small: "is_digit c \<Longrightarrow> digit_val c < 10 \<and> digit_char (digit_val c) = c"
  by (auto simp: is_digit_def digit_val_def digit_char_def)

lemma digits_nat_of_digits: "list_all is_digit s \<Longrightarrow> length s = w \<Longrightarrow> digits w (nat_of_digits s) = s \<and> nat_of_digits s < 10 ^ w"
proof (induction s arbitrary: w rule: rev_induct)
  case (snoc c s)
  then have "digits (length s) (nat_of_digits s) = s" "nat_of_digits s < 10 ^ length s" "is_digit c" by simp_all
  then show ?case using snoc.prems(2) digit_val_small [of c] by (auto simp: nat_of_digits_snoc)
qed (simp add: nat_of_digits_def)

lemma append_less:
  fixes xs ys :: string
  shows "length xs = length ys \<Longrightarrow> xs @ us < ys @ vs \<longleftrightarrow> xs < ys \<or> xs = ys \<and> us < vs"
  by (induction xs ys rule: list_induct2) auto

lemma digit_char_less: "a < 10 \<Longrightarrow> b < 10 \<Longrightarrow> digit_char a < digit_char b \<longleftrightarrow> a < b"
  by (simp add: digit_char_def less_char_def)

lemma less_by_quotient: "(a :: nat) < b \<longleftrightarrow> a div k < b div k \<or> a div k = b div k \<and> a mod k < b mod k"
proof (cases "a div k = b div k")
  case True
  then show ?thesis using div_mult_mod_eq [of a k] div_mult_mod_eq [of b k] by (metis add_less_cancel_left less_irrefl)
next
  case False
  then show ?thesis using div_le_mono [of a b k] div_le_mono [of b a k] by linarith
qed

lemma digits_less: "a < 10 ^ w \<Longrightarrow> b < 10 ^ w \<Longrightarrow> digits w a < digits w b \<longleftrightarrow> a < b"
proof (induction w arbitrary: a b)
  case (Suc w)
  have d: "a div 10 < 10 ^ w" "b div 10 < 10 ^ w" using Suc.prems by (simp_all add: less_mult_imp_div_less mult.commute)
  have "digits w (a div 10) = digits w (b div 10) \<longleftrightarrow> a div 10 = b div 10"
    using nat_of_digits_digits d by metis
  then have "digits (Suc w) a < digits (Suc w) b \<longleftrightarrow> a div 10 < b div 10 \<or> a div 10 = b div 10 \<and> a mod 10 < b mod 10"
    using Suc.IH [OF d] append_less [of "digits w (a div 10)" "digits w (b div 10)"] by (simp add: digit_char_less)
  also have "\<dots> \<longleftrightarrow> a < b" by (simp add: less_by_quotient [of a b 10])
  finally show ?case .
qed simp


section \<open>Dates as texts\<close>

abbreviation epoch_day :: int where "epoch_day \<equiv> 719528"

definition civil :: "gotime \<Rightarrow> date" where
  "civil t = date_of_day (t div (24 * hour) + epoch_day)"

definition date_text :: "date \<Rightarrow> string" where
  "date_text = (\<lambda>(y, m, d). pad_number 4 y @ ''-'' @ pad_number 2 m @ ''-'' @ pad_number 2 d)"

definition FormatDate :: "gotime \<Rightarrow> string" where
  "FormatDate t = date_text (civil t)"

definition midnight :: "date \<Rightarrow> gotime" where
  "midnight dt = (day_number dt - epoch_day) * (24 * hour)"

definition ParseDate :: "string \<Rightarrow> gotime option" where
  "ParseDate s =
     (if length s = 10 \<and> s ! 4 = CHR ''-'' \<and> s ! 7 = CHR ''-''
         \<and> list_all is_digit (take 4 s @ take 2 (drop 5 s) @ drop 8 s)
      then (let dt = (nat_of_digits (take 4 s), nat_of_digits (take 2 (drop 5 s)), nat_of_digits (drop 8 s))
            in if valid_date dt then Some (midnight dt) else None)
      else None)"

text \<open>\<open>Format(time.RFC3339)\<close> of a time in UTC.\<close>

definition FormatRFC3339 :: "gotime \<Rightarrow> string" where
  "FormatRFC3339 t =
     (let s = nat (t div second mod 86400)
      in date_text (civil t) @ ''T'' @ pad_number 2 (s div 3600) @ '':'' @ pad_number 2 (s div 60 mod 60) @ '':''
         @ pad_number 2 (s mod 60) @ ''Z'')"

lemma epoch_day_correct: "day_number (1970, 1, 1) = epoch_day"
  by code_simp

text \<open>Times of the years 0 to 9999.\<close>

definition four_digit_year :: "gotime \<Rightarrow> bool" where
  "four_digit_year t \<longleftrightarrow> 0 \<le> t div (24 * hour) + epoch_day \<and> fst (civil t) < 10000"

lemma civil_valid: "0 \<le> t div (24 * hour) + epoch_day \<Longrightarrow> valid_date (civil t) \<and> day_number (civil t) = t div (24 * hour) + epoch_day"
  unfolding civil_def by (rule date_of_day_valid)

lemma month_bounds:
  assumes "valid_date (y, m, d)"
  shows "m < 100 \<and> d < 100"
proof -
  have "list_all (\<lambda>l. l \<le> 31) (month_lengths y)" by (simp add: month_lengths_def)
  moreover have "m - 1 < length (month_lengths y)" using assms by (auto simp: valid_date_def month_lengths_sum)
  ultimately have "month_lengths y ! (m - 1) \<le> 31" by (simp only: list_all_length)
  then show ?thesis using assms by (auto simp: valid_date_def)
qed

lemma date_text_digits:
  "valid_date (y, m, d) \<Longrightarrow> y < 10000 \<Longrightarrow> date_text (y, m, d) = digits 4 y @ ''-'' @ digits 2 m @ ''-'' @ digits 2 d"
  using month_bounds [of y m d] by (simp add: date_text_def pad_number_def)

lemma parse_date_text:
  assumes "valid_date dt" and "fst dt < 10000"
  shows "ParseDate (date_text dt) = Some (midnight dt)"
proof -
  obtain y m d where dt: "dt = (y, m, d)" by (cases dt)
  have b: "y < 10 ^ 4" "m < 10 ^ 2" "d < 10 ^ 2" using month_bounds [of y m d] assms dt by simp_all
  have t: "date_text dt = digits 4 y @ CHR ''-'' # digits 2 m @ CHR ''-'' # digits 2 d"
    using date_text_digits [of y m d] assms dt by simp
  have at: "(digits 4 y @ CHR ''-'' # digits 2 m @ CHR ''-'' # digits 2 d) ! 4 = CHR ''-''"
    "(digits 4 y @ CHR ''-'' # digits 2 m @ CHR ''-'' # digits 2 d) ! 7 = CHR ''-''"
    by (simp_all add: nth_append)
  show ?thesis
    unfolding ParseDate_def t using assms(1) digits_all [of 4 y] digits_all [of 2 m] digits_all [of 2 d] b
    by (simp add: at nat_of_digits_digits dt)
qed

lemma midnight_day: "midnight dt div (24 * hour) + epoch_day = day_number dt"
  by (simp add: midnight_def)

lemma day_number_nonneg: "valid_date dt \<Longrightarrow> 0 \<le> day_number dt"
  using day_number_in_year [of "fst dt" "fst (snd dt)" "snd (snd dt)"] year_start_nonneg [of "fst dt"] by simp

lemma civil_midnight: "valid_date dt \<Longrightarrow> civil (midnight dt) = dt"
  using date_of_day_number midnight_day by (simp add: civil_def)

text \<open>What is read as a date is printed back as it was, and what is printed is read as its midnight.\<close>

lemma parse_gives_back:
  assumes "ParseDate s = Some t"
  shows "FormatDate t = s \<and> four_digit_year t \<and> valid_date (civil t) \<and> t = midnight (civil t)"
proof -
  let ?y = "take 4 s" and ?m = "take 2 (drop 5 s)" and ?d = "drop 8 s"
  let ?dt = "(nat_of_digits ?y, nat_of_digits ?m, nat_of_digits ?d)"
  have s: "length s = 10" "s ! 4 = CHR ''-''" "s ! 7 = CHR ''-''" "list_all is_digit ?y" "list_all is_digit ?m" "list_all is_digit ?d"
    and v: "valid_date ?dt" and t: "t = midnight ?dt"
    using assms by (auto simp: ParseDate_def Let_def split: if_splits)
  have l: "length ?y = 4" "length ?m = 2" "length ?d = 2" using s(1) by simp_all
  have y: "digits 4 (nat_of_digits ?y) = ?y" "nat_of_digits ?y < 10 ^ 4" using digits_nat_of_digits [OF s(4) l(1)] by simp_all
  have md: "digits 2 (nat_of_digits ?m) = ?m" "digits 2 (nat_of_digits ?d) = ?d"
    using digits_nat_of_digits [OF s(5) l(2)] digits_nat_of_digits [OF s(6) l(3)] by simp_all
  have "s = ?y @ s ! 4 # ?m @ s ! 7 # ?d"
  proof -
    have step: "drop n s = s ! n # drop (Suc n) s" if "n < 10" for n using that s(1) by (simp add: Cons_nth_drop_Suc)
    have "s = ?y @ drop 4 s" by simp
    also have "drop 4 s = s ! 4 # drop 5 s" using step [of 4] by simp
    also have "drop 5 s = ?m @ drop 7 s" using append_take_drop_id [of 2 "drop 5 s"] by simp
    also have "drop 7 s = s ! 7 # ?d" using step [of 7] by simp
    finally show ?thesis .
  qed
  then have "date_text ?dt = s" using date_text_digits [OF v] y md s(2,3) by simp
  moreover have "civil t = ?dt" using civil_midnight [OF v] t by simp
  ultimately show ?thesis
    using v t y(2) midnight_day [of ?dt] day_number_nonneg [OF v] by (simp add: FormatDate_def four_digit_year_def)
qed


lemma print_is_read: "four_digit_year t \<Longrightarrow> ParseDate (FormatDate t) = Some (t div (24 * hour) * (24 * hour))"
proof -
  assume y: "four_digit_year t"
  then have v: "valid_date (civil t)" "day_number (civil t) = t div (24 * hour) + epoch_day" "fst (civil t) < 10000"
    using civil_valid by (simp_all add: four_digit_year_def)
  then have "midnight (civil t) = t div (24 * hour) * (24 * hour)" by (simp add: midnight_def)
  then show ?thesis using parse_date_text [OF v(1,3)] by (simp add: FormatDate_def)
qed

section \<open>Texts in order\<close>

lemma digits_eq: "a < 10 ^ w \<Longrightarrow> b < 10 ^ w \<Longrightarrow> digits w a = digits w b \<longleftrightarrow> a = b"
  using nat_of_digits_digits by metis

lemma take_sum_step: "i < j \<Longrightarrow> i < length ls \<Longrightarrow> sum_list (take i ls) + ls ! i \<le> sum_list (take j (ls :: nat list))"
proof (induction ls arbitrary: i j)
  case (Cons l ls)
  then show ?case by (cases i; cases j) auto
qed simp

lemma day_number_less:
  assumes "valid_date a" and "valid_date b" and "a < b"
  shows "day_number a < day_number b"
  using assms
proof (cases a, cases b)
  fix y m d y' m' d' assume a: "a = (y, m, d)" and b: "b = (y', m', d')"
  have less: "y < y' \<or> y = y' \<and> (m < m' \<or> m = m' \<and> d < d')" using assms(3) a b by (auto simp: less_prod_def)
  have ya: "day_number a < year_start (Suc y)" and yb: "year_start y' \<le> day_number b"
    using day_number_in_year assms(1,2) a b by blast+
  have va: "1 \<le> m" "m - 1 < length (month_lengths y)" "1 \<le> d" "d \<le> month_lengths y ! (m - 1)"
    using assms(1) a by (auto simp: valid_date_def month_lengths_sum)
  consider "y < y'" | "y = y'" "m < m'" | "y = y'" "m = m'" "d < d'" using less by blast
  then show ?thesis
  proof cases
    case 1
    then have "year_start (Suc y) \<le> year_start y'" using year_start_strict [of "Suc y" y'] by (cases "Suc y = y'") auto
    then show ?thesis using ya yb by simp
  next
    case 2
    then have "sum_list (take (m - 1) (month_lengths y)) + month_lengths y ! (m - 1) \<le> sum_list (take (m' - 1) (month_lengths y))"
      using va by (intro take_sum_step) auto
    then have "sum_list (take (m - 1) (month_lengths y)) + (d - 1) < sum_list (take (m' - 1) (month_lengths y)) + (d' - 1)"
      using va by linarith
    then show ?thesis using 2 a b by (simp add: day_number_def)
  next
    case 3
    then show ?thesis using a b va by (simp add: day_number_def)
  qed
qed

lemma date_text_less:
  assumes "valid_date a" and "valid_date b" and "fst a < 10000" and "fst b < 10000"
  shows "date_text a < date_text b \<longleftrightarrow> a < b" and "length (date_text a) = 10" and "date_text a = date_text b \<longleftrightarrow> a = b"
proof -
  obtain y m d y' m' d' where ab: "a = (y, m, d)" "b = (y', m', d')" by (cases a; cases b)
  have t: "date_text a = digits 4 y @ ''-'' @ digits 2 m @ ''-'' @ digits 2 d"
    "date_text b = digits 4 y' @ ''-'' @ digits 2 m' @ ''-'' @ digits 2 d'"
    using date_text_digits assms ab by auto
  have w: "y < 10 ^ 4" "y' < 10 ^ 4" "m < 10 ^ 2" "m' < 10 ^ 2" "d < 10 ^ 2" "d' < 10 ^ 2"
    using month_bounds assms ab by fastforce+
  show "date_text a < date_text b \<longleftrightarrow> a < b"
    unfolding t by (auto simp: append_less digits_less [OF w(1,2)] digits_less [OF w(3,4)] digits_less [OF w(5,6)]
        digits_eq [OF w(1,2)] digits_eq [OF w(3,4)] digits_eq [OF w(5,6)] ab less_prod_def)
  show "length (date_text a) = 10" unfolding t by simp
  show "date_text a = date_text b \<longleftrightarrow> a = b" unfolding t by (simp add: digits_eq [OF w(1,2)] digits_eq [OF w(3,4)] digits_eq [OF w(5,6)] ab)
qed


definition second_of_day :: "gotime \<Rightarrow> nat" where
  "second_of_day t = nat (t div second mod 86400)"

lemma seconds_split: "t div second = t div (24 * hour) * 86400 + int (second_of_day t)" "second_of_day t < 86400"
proof -
  have "t div second div 86400 = t div (24 * hour)" by (simp add: zdiv_zmult2_eq [symmetric])
  then show "t div second = t div (24 * hour) * 86400 + int (second_of_day t)"
    using div_mult_mod_eq [of "t div second" 86400] by (simp add: second_of_day_def)
  show "second_of_day t < 86400" by (simp add: second_of_day_def nat_less_iff)
qed

definition clock_text :: "nat \<Rightarrow> string" where
  "clock_text s = ''T'' @ digits 2 (s div 3600) @ '':'' @ digits 2 (s div 60 mod 60) @ '':'' @ digits 2 (s mod 60) @ ''Z''"

lemma clock_width:
  "s < 86400 \<Longrightarrow> s div 3600 < 10 ^ 2" "s div 60 mod 60 < (10 :: nat) ^ 2" "s mod 60 < (10 :: nat) ^ 2"
proof -
  have "m mod 60 < 60" for m :: nat by simp
  then have "m mod 60 < 100" for m :: nat by (rule less_trans) simp
  then show "s div 60 mod 60 < (10 :: nat) ^ 2" "s mod 60 < (10 :: nat) ^ 2" by simp_all
  show "s < 86400 \<Longrightarrow> s div 3600 < 10 ^ 2" by (simp add: less_mult_imp_div_less)
qed

lemma hours: "s div 3600 = s div 60 div (60 :: nat)"
  by (simp add: div_mult2_eq [symmetric])

lemma same_by_quotient: "(a :: nat) = b \<longleftrightarrow> a div k = b div k \<and> a mod k = b mod k"
  by (metis div_mult_mod_eq)

lemma clock_text_less:
  assumes "s < 86400" and "r < 86400"
  shows "clock_text s < clock_text r \<longleftrightarrow> s < r"
proof -
  have "clock_text s < clock_text r \<longleftrightarrow> s div 3600 < r div 3600 \<or> s div 3600 = r div 3600
      \<and> (s div 60 mod 60 < r div 60 mod 60 \<or> s div 60 mod 60 = r div 60 mod 60 \<and> s mod 60 < r mod 60)"
    unfolding clock_text_def
    by (simp only: append_less length_digits refl digits_less clock_width assms digits_eq less_irrefl simp_thms)
  also have "\<dots> \<longleftrightarrow> s < r"
    unfolding hours using less_by_quotient [of s r 60] less_by_quotient [of "s div 60" "r div 60" 60]
      same_by_quotient [of "s div 60" "r div 60" 60] by blast
  finally show ?thesis .
qed

lemma stamp_parts: "FormatRFC3339 t = date_text (civil t) @ clock_text (second_of_day t)"
proof -
  have pad: "n < 10 ^ w \<Longrightarrow> pad_number w n = digits w n" for n w by (simp add: pad_number_def)
  note pads = pad [OF clock_width(1) [OF seconds_split(2) [of t]]] pad [OF clock_width(2) [of "second_of_day t"]]
    pad [OF clock_width(3) [of "second_of_day t"]]
  show ?thesis
    unfolding FormatRFC3339_def Let_def second_of_day_def [symmetric] clock_text_def pads by (rule refl)
qed

lemma civil_less:
  assumes "four_digit_year t" and "four_digit_year u"
  shows "civil t < civil u \<longleftrightarrow> t div (24 * hour) < u div (24 * hour)"
    and "civil t = civil u \<longleftrightarrow> t div (24 * hour) = u div (24 * hour)"
proof -
  have c: "valid_date (civil t)" "valid_date (civil u)"
    "day_number (civil t) = t div (24 * hour) + epoch_day" "day_number (civil u) = u div (24 * hour) + epoch_day"
    using assms civil_valid by (simp_all add: four_digit_year_def)
  then show eq: "civil t = civil u \<longleftrightarrow> t div (24 * hour) = u div (24 * hour)"
    using date_of_day_number [OF c(1)] date_of_day_number [OF c(2)] by (metis add_right_cancel)
  show "civil t < civil u \<longleftrightarrow> t div (24 * hour) < u div (24 * hour)"
    using day_number_less [OF c(1,2)] day_number_less [OF c(2,1)] eq unfolding c(3,4)
    by (cases "civil t" "civil u" rule: linorder_cases) auto
qed

text \<open>Stamps of the years 0 to 9999 are ordered as the seconds they print.\<close>

lemma stamp_order:
  assumes "four_digit_year t" and "four_digit_year u"
  shows "FormatRFC3339 t < FormatRFC3339 u \<longleftrightarrow> t div second < u div second"
proof -
  have c: "valid_date (civil t)" "valid_date (civil u)" "fst (civil t) < 10000" "fst (civil u) < 10000"
    using assms civil_valid by (simp_all add: four_digit_year_def)
  have "FormatRFC3339 t < FormatRFC3339 u \<longleftrightarrow>
      civil t < civil u \<or> civil t = civil u \<and> second_of_day t < second_of_day u"
    unfolding stamp_parts
    using date_text_less [OF c] date_text_less(2) [OF c(2,1,4,3)] clock_text_less [OF seconds_split(2) seconds_split(2), of t u]
    by (simp add: append_less)
  then show ?thesis
    unfolding civil_less [OF assms]
    using seconds_split [of t] seconds_split [of u] by linarith
qed

lemma stamp_le: "four_digit_year t \<Longrightarrow> four_digit_year u \<Longrightarrow> FormatRFC3339 t \<le> FormatRFC3339 u \<longleftrightarrow> t div second \<le> u div second"
  using stamp_order [of u t] by (simp add: not_less [symmetric])

end
