(* ===== verification/Dates.thy ===== *)
theory Dates
  imports Schemas ServiceMemory Support Go_Time
begin

text \<open>
  The dates the program exchanges as texts, with Go's formats in place of the parameters the
  other theories take. A due date travels from the command line through the API to the
  controller (\<open>DueTime\<close> of \<open>gestation/types.go\<close>); a record of the memory of services
  carries stamps (\<open>Stamp\<close> of \<open>gestation/memory.go\<close>), and \<open>prune\<close> compares
  them as strings.
\<close>

section \<open>Due dates\<close>

definition due_time :: "spec \<Rightarrow> gotime option" where
  "due_time = DueTime Go_Time.ParseDate"

lemma parsed_is_shaped: "Go_Time.ParseDate s = Some t \<Longrightarrow> date_shaped s"
proof -
  assume p: "Go_Time.ParseDate s = Some t"
  then have l: "length s = 10" "s ! 4 = CHR ''-''" "s ! 7 = CHR ''-''"
    and d: "list_all is_digit (take 4 s)" "list_all is_digit (take 2 (drop 5 s))" "list_all is_digit (drop 8 s)"
    by (auto simp: Go_Time.ParseDate_def Let_def split: if_splits)
  obtain a0 a1 a2 a3 a4 a5 a6 a7 a8 a9 where s: "s = [a0, a1, a2, a3, a4, a5, a6, a7, a8, a9]"
    using l(1) by (auto simp: numeral_eq_Suc length_Suc_conv)
  show ?thesis using l d by (simp add: s date_shaped_def)
qed

text \<open>The schema's pattern lets dates through that are no dates; the controller has no due time for them.\<close>

lemma shaped_is_not_parsed: "date_shaped ''2026-02-30'' \<and> Go_Time.ParseDate ''2026-02-30'' = None"
  by code_simp

lemma days_of_the_calendar: "Go_Time.ParseDate ''2024-02-29'' \<noteq> None \<and> Go_Time.ParseDate ''2023-02-29'' = None
    \<and> Go_Time.ParseDate ''2100-02-29'' = None \<and> Go_Time.ParseDate ''1970-01-02'' = Some (24 * hour)"
  by code_simp

text \<open>
  Claim C16. A due date survives its way: when conceive accepts a plan, its due date is a day of the
  calendar; the controller reads from the object the midnight (UTC) conceive compared with the
  clock, printing that time gives the text that was typed, and the API accepts the plan as soon
  as the name fits and there are at most 1000 replicas.
\<close>

theorem due_dates_survive:
  assumes "conceive_spec Go_Time.ParseDate parse_quantity sign_of name opts now = Inr sp"
  shows "(\<exists>due day. due_time sp = Some due \<and> now < due \<and> valid_date day \<and> due = midnight day
      \<and> civil due = day \<and> FormatDate due = OptDue opts)
    \<and> (conforms (CrdSchema GestationCRD) (gestation_json FormatRFC3339 ns gname sp) \<longleftrightarrow>
         1 \<le> rune_count (SpecDeployment sp) \<and> rune_count (SpecDeployment sp) \<le> 253 \<and> OptReplicas opts \<le> 1000)"
proof -
  have sp: "1 \<le> SpecReplicas sp" "SpecReplicas sp = OptReplicas opts" "Due sp = OptDue opts" "SpecDelivery sp = 0"
    using conceive_spec_reads [OF assms] by simp_all
  obtain due where due: "DueTime Go_Time.ParseDate sp = Some due" "now < due"
    using conceive_spec_reads [OF assms] by blast
  then have p: "Go_Time.ParseDate (OptDue opts) = Some due" using sp(3) by (simp add: DueTime_def)
  have "\<exists>due day. due_time sp = Some due \<and> now < due \<and> valid_date day \<and> due = midnight day
      \<and> civil due = day \<and> FormatDate due = OptDue opts"
    using parse_gives_back [OF p] due unfolding due_time_def by blast
  moreover have "conforms (CrdSchema GestationCRD) (gestation_json FormatRFC3339 ns gname sp) \<longleftrightarrow>
         1 \<le> rune_count (SpecDeployment sp) \<and> rune_count (SpecDeployment sp) \<le> 253 \<and> OptReplicas opts \<le> 1000"
    unfolding gestation_conforms using sp parsed_is_shaped [OF p] by auto
  ultimately show ?thesis by blast
qed

theorem due_dates_survive_witness:
  "\<exists>due. due_time demo_spec = Some due \<and> FormatDate due = ''2026-11-01''"
proof -
  have t: "trim_space ''500m'' = ''500m''" "trim_space ''512Mi'' = ''512Mi''" by code_simp+
  obtain due where "Go_Time.ParseDate ''2026-11-01'' = Some due" "0 < due"
  proof -
    have "case Go_Time.ParseDate ''2026-11-01'' of None \<Rightarrow> False | Some due \<Rightarrow> 0 < due" by code_simp
    then show thesis using that by (auto split: option.splits)
  qed
  then have c: "conceive_spec Go_Time.ParseDate (\<lambda>_. Some (5::int)) id ''web'' demo_options 0 = Inr demo_spec"
    by (simp add: conceive_spec_def conceive_size_def ParseSize_def demo_options_def demo_spec_def t)
  show ?thesis using due_dates_survive [OF c] by (auto simp: demo_options_def)
qed

section \<open>Stamps\<close>

definition stamp_of :: "gotime \<Rightarrow> string" where
  "stamp_of t = FormatRFC3339 t"

text \<open>The record carries stamps of these times, of years that print with four digits.\<close>

definition stamped :: "(life \<Rightarrow> gotime) \<Rightarrow> (life \<Rightarrow> gotime) \<Rightarrow> life \<Rightarrow> bool" where
  "stamped born_at left_at r \<longleftrightarrow>
     four_digit_year (born_at r) \<and> Born r = stamp_of (born_at r)
     \<and> (Departed r \<longrightarrow> four_digit_year (left_at r) \<and> Left r = stamp_of (left_at r))"

text \<open>A year of five digits sorts before those of four, so the bound is needed.\<close>

lemma midnight_stamp: "valid_date dt \<Longrightarrow> stamp_of (midnight dt) = date_text dt @ ''T00:00:00Z''"
proof -
  have "midnight dt = (day_number dt - epoch_day) * 86400 * second" by (simp add: midnight_def)
  then have "midnight dt div second = (day_number dt - epoch_day) * 86400" by simp
  then have "second_of_day (midnight dt) = 0" unfolding second_of_day_def by simp
  then have "clock_text (second_of_day (midnight dt)) = clock_text 0" by simp
  moreover have "clock_text 0 = ''T00:00:00Z''" by code_simp
  ultimately show "valid_date dt \<Longrightarrow> stamp_of (midnight dt) = date_text dt @ ''T00:00:00Z''"
    by (simp add: stamp_of_def stamp_parts civil_midnight)
qed

lemma five_digits_sort_first: "stamp_of (midnight (10000, 1, 1)) < stamp_of (midnight (2001, 1, 1))"
proof -
  have v: "valid_date (10000, 1, 1)" "valid_date (2001, 1, 1)" by (simp_all add: valid_date_def month_lengths_def)
  have d: "digit_char 0 = CHR ''0''" "digit_char 1 = CHR ''1''" "digit_char 2 = CHR ''2''" by code_simp+
  have first: "digits (Suc (Suc (Suc (Suc 0)))) 2001 = CHR ''2'' # ''001''" using d by simp
  have four: "(4 :: nat) = Suc (Suc (Suc (Suc 0)))" by simp
  have "show_nat 10000 = CHR ''1'' # ''0000''" using d by (simp add: show_nat.simps)
  moreover have "digits 4 2001 = CHR ''2'' # ''001''" unfolding four by (rule first)
  ultimately show ?thesis
    unfolding midnight_stamp [OF v(1)] midnight_stamp [OF v(2)]
    by (simp add: date_text_def pad_number_def less_char_def)
qed

text \<open>The first to go among records: by the times, to the second.\<close>

definition earliest :: "(life \<Rightarrow> gotime) \<Rightarrow> (life \<Rightarrow> gotime) \<Rightarrow> life set \<Rightarrow> life \<Rightarrow> bool" where
  "earliest born_at left_at others gone \<longleftrightarrow>
     (\<forall>q \<in> others.
        (Departed q \<longrightarrow> Departed gone \<and> left_at gone div second \<le> left_at q div second)
        \<and> (\<not> Departed q \<and> \<not> Departed gone \<longrightarrow> born_at gone div second \<le> born_at q div second))"

lemma first_to_go_earliest:
  assumes "first_to_go unmarshal data keep gone" and "\<And>q. q \<in> set (Records unmarshal data) \<Longrightarrow> stamped born_at left_at q"
  shows "Key gone \<noteq> keep \<and> gone \<in> set (Records unmarshal data)
    \<and> earliest born_at left_at {q \<in> set (Records unmarshal data). Key q \<noteq> keep} gone"
proof -
  have g: "stamped born_at left_at gone" using assms by (simp add: first_to_go_def)
  have "(Departed q \<longrightarrow> Departed gone \<and> left_at gone div second \<le> left_at q div second)
        \<and> (\<not> Departed q \<and> \<not> Departed gone \<longrightarrow> born_at gone div second \<le> born_at q div second)"
    if "q \<in> set (Records unmarshal data)" "Key q \<noteq> keep" for q
    using assms that g assms(2) [OF that(1)]
      stamp_le [of "left_at gone" "left_at q"] stamp_le [of "born_at gone" "born_at q"]
    by (auto simp: first_to_go_def stamped_def stamp_of_def)
  then show ?thesis using assms(1) by (auto simp: first_to_go_def earliest_def)
qed

text \<open>
  Claim C35. The cluster keeps a little of every service, within bounds and by time: storing a record
  into a memory of at most 256 well-kept records leaves at most 256 well-kept records, among
  them the one just stored, every other one kept unchanged except at most one; that one is let
  go only from a full memory, and it departed before or with every other departure, or, when
  nobody has departed, was born before or with every other: the order of the stamps as strings is
  the order of the times, as long as years have four digits.
\<close>

theorem memory_lets_go_by_time:
  assumes "well_kept unmarshal data" and "length data \<le> MaxRecords"
    and "LifeName (Bounded r) \<noteq> []" and "unmarshal (marshal (Bounded r)) = Some (Bounded r)"
    and "marshal (Bounded r) \<noteq> []"
    and "\<And>q. q \<in> set (Records unmarshal (AList.update (Key (Bounded r)) (marshal (Bounded r)) data)) \<Longrightarrow> stamped born_at left_at q"
  shows "\<exists>ch data'. Put marshal unmarshal data r = (ch, data')
    \<and> map_of data' (Key (Bounded r)) = Some (marshal (Bounded r))
    \<and> length data' \<le> MaxRecords \<and> well_kept unmarshal data'
    \<and> ((\<forall>k. k \<noteq> Key (Bounded r) \<longrightarrow> map_of data' k = map_of data k)
       \<or> (length data = MaxRecords
          \<and> (\<exists>gone. earliest born_at left_at
                 {q \<in> set (Records unmarshal (AList.update (Key (Bounded r)) (marshal (Bounded r)) data)). Key q \<noteq> Key (Bounded r)} gone
               \<and> Key gone \<noteq> Key (Bounded r)
               \<and> (\<forall>k. k \<noteq> Key (Bounded r) \<longrightarrow> map_of data' k = (if k = Key gone then None else map_of data k)))))"
proof -
  let ?d = "AList.update (Key (Bounded r)) (marshal (Bounded r)) data"
  have time: "earliest born_at left_at {q \<in> set (Records unmarshal ?d). Key q \<noteq> Key (Bounded r)} gone \<and> Key gone \<noteq> Key (Bounded r)"
    if "first_to_go unmarshal ?d (Key (Bounded r)) gone" for gone
    using first_to_go_earliest [OF that assms(6)] by blast
  obtain ch data' where put: "Put marshal unmarshal data r = (ch, data')"
      "map_of data' (Key (Bounded r)) = Some (marshal (Bounded r))" "length data' \<le> MaxRecords" "well_kept unmarshal data'"
    and rest: "(\<forall>k. k \<noteq> Key (Bounded r) \<longrightarrow> map_of data' k = map_of data k)
       \<or> (length data = MaxRecords \<and> (\<exists>gone. first_to_go unmarshal ?d (Key (Bounded r)) gone
            \<and> (\<forall>k. k \<noteq> Key (Bounded r) \<longrightarrow> map_of data' k = (if k = Key gone then None else map_of data k))))"
    using memory_lets_go_in_order [of unmarshal data r marshal] assms(1-5) by blast
  show ?thesis
    using put rest time by (intro exI [of _ ch] exI [of _ data']) blast
qed

text \<open>One service, born in 2026.\<close>

definition one_birth :: gotime where "one_birth = midnight (2026, 1, 1)"

definition stamped_life :: life where
  "stamped_life = one_life\<lparr>Born := stamp_of one_birth\<rparr>"

definition stamped_unmarshal :: "string \<Rightarrow> life option" where
  "stamped_unmarshal raw = (if raw = ''cart'' then Some stamped_life else None)"

theorem memory_lets_go_by_time_witness:
  "\<exists>ch data'. Put toy_marshal stamped_unmarshal [] stamped_life = (ch, data')
     \<and> map_of data' ''shop.cart.01234567'' = Some ''cart''"
proof -
  have "Bounded (one_life\<lparr>Born := x\<rparr>) = (Bounded one_life)\<lparr>Born := x\<rparr>" for x by (simp add: Bounded_def)
  moreover have "Bounded one_life = one_life" "Key one_life = ''shop.cart.01234567''" by code_simp+
  ultimately have b: "Bounded stamped_life = stamped_life" and k: "Key stamped_life = ''shop.cart.01234567''"
    by (simp_all add: stamped_life_def Key_def)
  have m: "toy_marshal stamped_life = ''cart''" and n: "LifeName stamped_life \<noteq> []"
    by (simp_all add: toy_marshal_def stamped_life_def one_life_def)
  have "valid_date (2026, 1, 1)" by (simp add: valid_date_def month_lengths_def)
  then have y: "four_digit_year one_birth"
    unfolding four_digit_year_def one_birth_def midnight_day by (simp add: civil_midnight day_number_nonneg)
  have s: "stamped (\<lambda>_. one_birth) (\<lambda>_. one_birth) q"
    if "q \<in> set (Records stamped_unmarshal (AList.update (Key (Bounded stamped_life)) (toy_marshal (Bounded stamped_life)) []))" for q
  proof -
    have "q = stamped_life" using that
      by (auto simp: set_Records decoded_def stamped_unmarshal_def split: if_splits)
    moreover have "\<not> Departed stamped_life" by (simp add: Departed_def stamped_life_def one_life_def)
    ultimately show ?thesis using y by (simp add: stamped_def stamped_life_def)
  qed
  have "well_kept stamped_unmarshal []" "length ([] :: data) \<le> MaxRecords"
    "stamped_unmarshal (toy_marshal (Bounded stamped_life)) = Some (Bounded stamped_life)"
    "toy_marshal (Bounded stamped_life) \<noteq> []" "LifeName (Bounded stamped_life) \<noteq> []"
    using n by (simp_all add: well_kept_def b m stamped_unmarshal_def)
  then have "\<exists>ch data'. Put toy_marshal stamped_unmarshal [] stamped_life = (ch, data')
      \<and> map_of data' (Key (Bounded stamped_life)) = Some (toy_marshal (Bounded stamped_life))"
    using memory_lets_go_by_time [of stamped_unmarshal "[]" stamped_life toy_marshal "\<lambda>_. one_birth" "\<lambda>_. one_birth"] s
    by blast
  then show ?thesis by (simp only: b k m)
qed


section \<open>The calendar of support\<close>

text \<open>The days of the lifecycle table are read as Go reads them.\<close>

lemma days_before_year_start: "days_before_year (int y) = year_start y - epoch_day"
proof -
  have "(int y - 1969) div 4 = int ((y + 3) div 4) - 493"
  proof -
    have "int y - 1969 = (int y + 3) + 4 * (- 493)" by simp
    then show ?thesis by (simp add: zdiv_int)
  qed
  moreover have "(int y - 1901) div 100 = int ((y + 99) div 100) - 20"
  proof -
    have "int y - 1901 = (int y + 99) + 100 * (- 20)" by simp
    then show ?thesis by (simp add: zdiv_int)
  qed
  moreover have "(int y - 1601) div 400 = int ((y + 399) div 400) - 5"
  proof -
    have "int y - 1601 = (int y + 399) + 400 * (- 5)" by simp
    then show ?thesis by (simp add: zdiv_int)
  qed
  ultimately show ?thesis by (simp add: days_before_year_def year_start_def)
qed

lemma leap_years: "leap_year (int y) \<longleftrightarrow> leap y"
proof -
  have "int y mod k = 0 \<longleftrightarrow> k dvd int y" for k by (simp add: dvd_eq_mod_eq_0)
  moreover have "4 dvd int y \<longleftrightarrow> 4 dvd y" "100 dvd int y \<longleftrightarrow> 100 dvd y" "400 dvd int y \<longleftrightarrow> 400 dvd y"
    using int_dvd_int_iff [of 4 y] int_dvd_int_iff [of 100 y] int_dvd_int_iff [of 400 y] by simp_all
  ultimately show ?thesis by (simp add: leap_year_def leap_def)
qed

lemma days_before_month_sum:
  assumes "1 \<le> m" and "m \<le> 12"
  shows "days_before_month (int y) (int m) = int (sum_list (take (m - 1) (month_lengths y)))"
proof -
  have "m = 1 \<or> m = 2 \<or> m = 3 \<or> m = 4 \<or> m = 5 \<or> m = 6 \<or> m = 7 \<or> m = 8 \<or> m = 9 \<or> m = 10 \<or> m = 11 \<or> m = 12"
    using assms by arith
  then show ?thesis
    by (elim disjE) (simp_all add: days_before_month_def month_lengths_def leap_years)
qed

lemma support_day_is_parsed:
  assumes "Go_Time.ParseDate s = Some t"
  shows "day s = t"
proof -
  let ?y = "nat_of_digits (take 4 s)" and ?m = "nat_of_digits (take 2 (drop 5 s))" and ?d = "nat_of_digits (drop 8 s)"
  have v: "valid_date (?y, ?m, ?d)" and t: "t = midnight (?y, ?m, ?d)" and l: "length s = 10"
    using assms by (auto simp: Go_Time.ParseDate_def Let_def split: if_splits)
  have "take 2 (drop 8 s) = drop 8 s" using l by simp
  moreover have "1 \<le> ?m" "?m \<le> 12" "1 \<le> ?d" using v by (simp_all add: valid_date_def)
  ultimately show ?thesis
    unfolding day_def Let_def t midnight_def day_number_def days_before_year_start
    by (simp add: days_before_month_sum)
qed

end
