(* ===== verification/Commands.thy ===== *)
theory Commands
  imports Command_Line Kyvctl_Plan Kyvctl_Charts Remember Dependencies Roles
begin

text \<open>
  kyvctl's command tree and the bodies of its commands: \<open>newCommand\<close> of \<open>kyvctl/root.go\<close>,
  the constructors of the commands (\<open>newConceiveCommand\<close> and the others) and what their
  \<open>Run\<close> does between the client configuration and the exit. The tree kubectl builds and
  cobra's reading of a use line (its first word is the command's name) are parameters.
\<close>

section \<open>The tree\<close>

datatype args_rule = AnyArgs | NoArgs | ExactArgs nat | MaximumNArgs nat

datatype own_body =
    RunRemember | RunRelationships | RunExclude bool | RunCalm | RunAutoimmune | RunMosaic | RunSupport
  | RunConceive | RunScreen | RunDeliver | RunApgar | RunGrowth

datatype flag_default = BoolFlag bool | StringFlag string | IntFlag int | DurationFlag duration

text \<open>The flags of a command with their defaults; \<open>Body\<close> is kubectl's or kyvctl's own, if it has one.\<close>

datatype 'k cobra =
  Command (UseLine: string) (CommandAliases: "string list") (ArgsRule: args_rule) (Flags: "(string \<times> flag_default) list")
    (Body: "'k + own_body option") (Subcommands: "'k cobra list")

text \<open>A command of kyvctl's own: without aliases and subcommands unless said.\<close>

definition own_command :: "string \<Rightarrow> args_rule \<Rightarrow> (string \<times> flag_default) list \<Rightarrow> own_body \<Rightarrow> 'k cobra" where
  "own_command use args flags body = Command use [] args flags (Inr (Some body)) []"

definition newRememberCommand :: "'k cobra" where
  "newRememberCommand = own_command ''remember [TYPE/NAME]'' (MaximumNArgs 1) [(''all'', BoolFlag False)] RunRemember"

definition newRelationshipsCommand :: "'k cobra" where
  "newRelationshipsCommand =
     Command ''relationships [NAME]'' [''rels''] (MaximumNArgs 1) [(''all-namespaces'', BoolFlag False)] (Inr (Some RunRelationships)) []"

definition newExcludeCommand :: "bool \<Rightarrow> 'k cobra" where
  "newExcludeCommand exclude =
     own_command (if exclude then ''exclude pod/NAME'' else ''include pod/NAME'') (ExactArgs 1) [] (RunExclude exclude)"

definition newCalmCommand :: "'k cobra" where
  "newCalmCommand = own_command ''calm'' NoArgs [(''all-namespaces'', BoolFlag False), (''since'', DurationFlag hour), (''top'', IntFlag 5)] RunCalm"

text \<open>\<open>diagnose\<close> has no body of its own, only the subcommand \<open>autoimmune\<close>.\<close>

definition newDiagnoseCommand :: "'k cobra" where
  "newDiagnoseCommand =
     Command ''diagnose'' [] AnyArgs [] (Inr None) [own_command ''autoimmune'' NoArgs [] RunAutoimmune]"

definition newMosaicCommand :: "'k cobra" where
  "newMosaicCommand = own_command ''mosaic'' NoArgs [] RunMosaic"

definition newSupportCommand :: "'k cobra" where
  "newSupportCommand = own_command ''support'' NoArgs [(''on'', StringFlag [])] RunSupport"

definition newConceiveCommand :: "'k cobra" where
  "newConceiveCommand =
     own_command ''conceive NAME --due YYYY-MM-DD --size CPU/MEMORY [--replicas N]'' (ExactArgs 1)
       [(''due'', StringFlag []), (''size'', StringFlag []), (''replicas'', IntFlag 1), (''deployment'', StringFlag []),
        (''no-rollback'', BoolFlag False)] RunConceive"

definition newScreenCommand :: "'k cobra" where
  "newScreenCommand = own_command ''screen NAME'' (ExactArgs 1) [(''timeout'', DurationFlag (30 * second))] RunScreen"

definition newDeliverCommand :: "'k cobra" where
  "newDeliverCommand = own_command ''deliver NAME [--again]'' (ExactArgs 1) [(''again'', BoolFlag False)] RunDeliver"

definition newApgarCommand :: "'k cobra" where
  "newApgarCommand = own_command ''apgar NAME|deploy/NAME'' (ExactArgs 1) [] RunApgar"

definition newGrowthCommand :: "'k cobra" where
  "newGrowthCommand = own_command ''growth NAME'' (ExactArgs 1) [] RunGrowth"

definition own_tree :: "'k cobra list" where
  "own_tree =
     [newRememberCommand, newRelationshipsCommand, newExcludeCommand True, newExcludeCommand False, newCalmCommand,
      newDiagnoseCommand, newMosaicCommand, newSupportCommand, newConceiveCommand, newScreenCommand, newDeliverCommand,
      newApgarCommand, newGrowthCommand]"

text \<open>
  \<open>kubectl\<close> is the tree kubectl builds for the command line, with or without its lookup of
  plugins; \<open>name_of\<close> is cobra's name of a use line. The result is whether plugins are
  looked up, and the commands of the root.
\<close>

definition newCommand ::
    "(string \<Rightarrow> string) \<Rightarrow> (string \<Rightarrow> bool) \<Rightarrow> (char \<Rightarrow> bool) \<Rightarrow> (bool \<Rightarrow> string list \<Rightarrow> 'k cobra list) \<Rightarrow> string list
     \<Rightarrow> bool \<times> 'k cobra list" where
  "newCommand name_of takes short kubectl args =
     (let plugins = (\<not> invokesOwnCommand takes short args)
      in (plugins, filter (\<lambda>c. name_of (UseLine c) \<notin> set ownCommands) (kubectl plugins args) @ own_tree))"

text \<open>cobra: the name is the first word of the use line; a command answers to it and to its aliases.\<close>

definition first_word :: "(string \<Rightarrow> string) \<Rightarrow> bool" where
  "first_word name_of \<longleftrightarrow> (\<forall>w rest. CHR '' '' \<notin> set w \<longrightarrow> name_of w = w \<and> name_of (w @ CHR '' '' # rest) = w)"

definition answers_to :: "(string \<Rightarrow> string) \<Rightarrow> 'k cobra \<Rightarrow> string list" where
  "answers_to name_of c = name_of (UseLine c) # CommandAliases c"

lemma first_word_names:
  assumes "first_word name_of"
  shows "map (answers_to name_of) own_tree =
    [[''remember''], [''relationships'', ''rels''], [''exclude''], [''include''], [''calm''], [''diagnose''], [''mosaic''],
     [''support''], [''conceive''], [''screen''], [''deliver''], [''apgar''], [''growth'']]"
proof -
  have w: "CHR '' '' \<notin> set w \<Longrightarrow> name_of (w @ CHR '' '' # rest) = w" "CHR '' '' \<notin> set w \<Longrightarrow> name_of w = w" for w rest
    using assms by (auto simp: first_word_def)
  show ?thesis
    using w(1) [of "''remember''" "''[TYPE/NAME]''"] w(1) [of "''relationships''" "''[NAME]''"] w(1) [of "''exclude''" "''pod/NAME''"]
      w(1) [of "''include''" "''pod/NAME''"] w(2) [of "''calm''"] w(2) [of "''diagnose''"] w(2) [of "''mosaic''"] w(2) [of "''support''"]
      w(1) [of "''conceive''" "''NAME --due YYYY-MM-DD --size CPU/MEMORY [--replicas N]''"] w(1) [of "''screen''" "''NAME''"]
      w(1) [of "''deliver''" "''NAME [--again]''"] w(1) [of "''apgar''" "''NAME|deploy/NAME''"] w(1) [of "''growth''" "''NAME''"]
    by (simp add: own_tree_def answers_to_def own_command_def newRememberCommand_def newRelationshipsCommand_def
        newExcludeCommand_def newCalmCommand_def newDiagnoseCommand_def newMosaicCommand_def newSupportCommand_def
        newConceiveCommand_def newScreenCommand_def newDeliverCommand_def newApgarCommand_def newGrowthCommand_def)
qed

lemma own_words: "first_word name_of \<Longrightarrow> concat (map (answers_to name_of) own_tree) = ownCommands"
  by (simp add: first_word_names ownCommands_def)

text \<open>A word that occurs once in the words of a list of commands has one command that answers.\<close>

lemma one_answers:
  assumes "distinct (concat (map f cs))" and "w \<in> set (concat (map f cs))"
  shows "\<exists>c \<in> set cs. filter (\<lambda>c. w \<in> set (f c)) cs = [c]"
  using assms
proof (induction cs)
  case (Cons c cs)
  show ?case
  proof (cases "w \<in> set (f c)")
    case True
    then have "\<forall>d \<in> set cs. w \<notin> set (f d)" using Cons.prems(1) by auto
    then have "filter (\<lambda>c. w \<in> set (f c)) cs = []" by (simp add: filter_empty_conv)
    then show ?thesis using True by simp
  next
    case False
    then show ?thesis using Cons by auto
  qed
qed simp

text \<open>
  kyvctl's words are its own: the names and aliases of the commands it adds are exactly the
  words it looks for on the command line; each is answered by one command of the tree, one of
  kyvctl's own, whatever kubectl or an alias of the user put there under that name; every
  other word is answered as kubectl answers it; and kubectl looks for a plugin unless the
  first argument that is no flag is one of kyvctl's words.
\<close>

theorem own_commands_answer:
  assumes "first_word name_of"
    and "\<And>plugins c. c \<in> set (kubectl plugins args) \<Longrightarrow> set (CommandAliases c) \<inter> set ownCommands = {}"
    and "newCommand name_of takes short kubectl args = (plugins, cs)"
  shows "concat (map (answers_to name_of) (own_tree :: 'k cobra list)) = ownCommands
    \<and> (\<forall>w \<in> set ownCommands. \<exists>c \<in> set (own_tree :: 'k cobra list). filter (\<lambda>c. w \<in> set (answers_to name_of c)) cs = [c])
    \<and> (\<forall>w. w \<notin> set ownCommands \<longrightarrow>
         filter (\<lambda>c. w \<in> set (answers_to name_of c)) cs =
         filter (\<lambda>c. w \<in> set (answers_to name_of c) \<and> name_of (UseLine c) \<notin> set ownCommands) (kubectl plugins args))
    \<and> (plugins \<longleftrightarrow> firstPositional takes short (tl args) \<notin> set ownCommands)"
proof -
  let ?own = "own_tree :: 'k cobra list" and ?f = "answers_to name_of"
  let ?kept = "filter (\<lambda>c. name_of (UseLine c) \<notin> set ownCommands) (kubectl plugins args)"
  have cs: "cs = ?kept @ ?own" and p: "plugins \<longleftrightarrow> \<not> invokesOwnCommand takes short args"
    using assms(3) by (auto simp: newCommand_def Let_def)
  have words: "concat (map ?f ?own) = ownCommands" by (rule own_words [OF assms(1)])
  have "distinct ownCommands" by code_simp
  then have one: "\<exists>c \<in> set ?own. filter (\<lambda>c. w \<in> set (?f c)) ?own = [c]" if "w \<in> set ownCommands" for w
    using one_answers [of ?f ?own w] that unfolding words by blast
  have none: "filter (\<lambda>c. w \<in> set (?f c)) ?kept = []" if "w \<in> set ownCommands" for w
    using assms(2) that by (fastforce simp: filter_empty_conv answers_to_def)
  have rest: "filter (\<lambda>c. w \<in> set (?f c)) ?own = []" if "w \<notin> set ownCommands" for w
    using that unfolding words [symmetric] by (auto simp: filter_empty_conv)
  show ?thesis
  proof (intro conjI ballI allI impI)
    show "concat (map ?f ?own) = ownCommands" by (rule words)
    show "\<exists>c \<in> set ?own. filter (\<lambda>c. w \<in> set (?f c)) cs = [c]" if "w \<in> set ownCommands" for w
      using one [OF that] none [OF that] unfolding cs by (simp only: filter_append append_Nil)
    show "filter (\<lambda>c. w \<in> set (?f c)) cs =
        filter (\<lambda>c. w \<in> set (?f c) \<and> name_of (UseLine c) \<notin> set ownCommands) (kubectl plugins args)"
      if "w \<notin> set ownCommands" for w
      using rest [OF that] unfolding cs by (simp only: filter_append filter_filter append_Nil2 conj_commute)
    show "plugins \<longleftrightarrow> firstPositional takes short (tl args) \<notin> set ownCommands"
      using p invokesOwnCommand_first [of takes short args] by blast
  qed
qed

section \<open>The commands of a gestation\<close>

text \<open>
  What the client configuration answers: the namespace and the two clients \<open>clients\<close>
  makes. An error of a command ends the process (\<open>CheckErr\<close>, \<open>Fatal\<close> of \<open>Failures\<close>);
  otherwise the command prints. The second component of a result is what was sent to the API.
\<close>

datatype metrics_client = NoMetricsConfig | MetricsClientFails | MetricsClient

record session =
  SessionNamespace :: "string + string"
  NoDynamicClient :: "string option"
  NoKubeClient :: "string option"
  MetricsOf :: metrics_client

datatype command_error = NoClients string | Refused refusal

definition clients :: "session \<Rightarrow> command_error + string" where
  "clients S =
     (case SessionNamespace S of
        Inl e \<Rightarrow> Inl (NoClients e)
      | Inr ns \<Rightarrow>
          (case NoDynamicClient S of Some e \<Rightarrow> Inl (NoClients e) | None \<Rightarrow>
           case NoKubeClient S of Some e \<Rightarrow> Inl (NoClients e) | None \<Rightarrow> Inr ns))"

definition or_refused :: "refusal + 'a \<Rightarrow> command_error + 'a" where
  "or_refused r = map_sum Refused id r"

definition conceive_command ::
    "('u \<Rightarrow> planned option) \<Rightarrow> (string \<Rightarrow> gotime option) \<Rightarrow> (string \<Rightarrow> 'q option) \<Rightarrow> ('q \<Rightarrow> int) \<Rightarrow> 'u creation
     \<Rightarrow> session \<Rightarrow> string \<Rightarrow> conceive_options \<Rightarrow> gotime \<Rightarrow> gotime \<Rightarrow> (command_error + string) \<times> (string \<times> string \<times> spec) option" where
  "conceive_command convert parse_date parse_quantity sign_of create S name opts now later =
     (case clients S of
        Inl e \<Rightarrow> (Inl e, None)
      | Inr ns \<Rightarrow>
          (let (r, sent) = Conceive convert parse_date parse_quantity sign_of create ns name opts now
           in (map_sum id (\<lambda>g. renderConceived parse_date (fst g) later) (or_refused r), sent)))"

definition screen_command ::
    "('u \<Rightarrow> planned option) \<Rightarrow> (gotime \<Rightarrow> string) \<Rightarrow> (string list list \<Rightarrow> string) \<Rightarrow> 'u watch \<Rightarrow> session \<Rightarrow> string \<Rightarrow> gotime
     \<Rightarrow> duration \<Rightarrow> (command_error + string) option" where
  "screen_command convert local_time table w S name now timeout =
     (case clients S of
        Inl e \<Rightarrow> Some (Inl e)
      | Inr ns \<Rightarrow>
          map_option (\<lambda>r. map_sum id (renderScreening local_time table) (or_refused r)) (ask_screening convert w ns name now timeout))"

definition delivering_text :: "gestation \<Rightarrow> string" where
  "delivering_text g =
     ''Delivering '' @ GNamespace g @ ''/'' @ GName g @ ''. Its reserved room is being released for its own pods.'' @ nl
     @ ''The first Apgar score comes at one minute: kyvctl apgar '' @ GName g @ '' -n '' @ GNamespace g @ nl"

definition deliver_command ::
    "('u \<Rightarrow> planned option) \<Rightarrow> 'u api \<Rightarrow> unit api \<Rightarrow> (int \<Rightarrow> 'u api) \<Rightarrow> session \<Rightarrow> string \<Rightarrow> bool
     \<Rightarrow> (command_error + string) \<times> int option" where
  "deliver_command convert got served patch S name again =
     (case clients S of
        Inl e \<Rightarrow> (Inl e, None)
      | Inr ns \<Rightarrow>
          (let (r, sent) = Deliver convert got served patch ns name again
           in (map_sum id (\<lambda>g. delivering_text (fst g)) (or_refused r), sent)))"

definition apgar_command ::
    "('u \<Rightarrow> planned option) \<Rightarrow> (gotime \<Rightarrow> string) \<Rightarrow> (string list list \<Rightarrow> string) \<Rightarrow> (string \<Rightarrow> 'u api) \<Rightarrow> unit api
     \<Rightarrow> 'u list api \<Rightarrow> session \<Rightarrow> string \<Rightarrow> command_error + string" where
  "apgar_command convert local_time table get served items S arg =
     (case clients S of
        Inl e \<Rightarrow> Inl e
      | Inr ns \<Rightarrow> map_sum id (renderApgar local_time table) (or_refused (findGestation convert get served items ns arg)))"

text \<open>
  Without a configuration there is no client for metrics. A client that cannot be made from it is
  a nil pointer in the interface, which is not nil: asking it for the usage of pods crashes.
\<close>

definition growth_crashes :: "session \<Rightarrow> planned \<Rightarrow> bool" where
  "growth_crashes S g \<longleftrightarrow>
     MetricsOf S = MetricsClientFails \<and> (case Birth (snd g) of None \<Rightarrow> False | Some b \<Rightarrow> BirthSelector b \<noteq> [])"

definition growth_command ::
    "('u \<Rightarrow> planned option) \<Rightarrow> 'q qops \<Rightarrow> ('q \<Rightarrow> int) \<Rightarrow> ('q \<Rightarrow> int) \<Rightarrow> (int \<Rightarrow> string) \<Rightarrow> (string list list \<Rightarrow> string)
     \<Rightarrow> 'u api \<Rightarrow> unit api \<Rightarrow> 'q container list api \<Rightarrow> pod_usage list list api \<Rightarrow> session \<Rightarrow> string \<Rightarrow> command_error + string" where
  "growth_command convert Q milli whole formatCPU table got served containers metrics S name =
     (case clients S of
        Inl e \<Rightarrow> Inl e
      | Inr ns \<Rightarrow>
          (case getGestation convert got served ns name of
             Inl e \<Rightarrow> Inl (Refused e)
           | Inr g \<Rightarrow>
               if growth_crashes S g then Inl (Refused NilDereference)
               else Inr (Growth Q milli whole formatCPU table containers (MetricsOf S = MetricsClient) metrics g)))"

section \<open>The other commands\<close>

text \<open>The story of a workload, or, without an argument, the services that left.\<close>

definition relationships_command ::
    "(edge list \<Rightarrow> edge list) \<Rightarrow> string + string \<Rightarrow> string option \<Rightarrow> (string \<Rightarrow> (string \<times> relationship) list api)
     \<Rightarrow> bool \<Rightarrow> string list \<Rightarrow> (string + api_error) + string" where
  "relationships_command arrange namespace no_client items_in every args =
     (let focus = (case args of [a] \<Rightarrow> a | _ \<Rightarrow> [])
      in case namespace of Inl e \<Rightarrow> Inl (Inl e) | Inr ns \<Rightarrow>
         (case no_client of Some e \<Rightarrow> Inl (Inl e) | None \<Rightarrow>
            map_sum Inr id (runRelationships arrange focus (items_in (if every then [] else ns)))))"

definition remember_command ::
    "(string \<Rightarrow> life option) \<Rightarrow> (string \<Rightarrow> string) \<Rightarrow> (string list list \<Rightarrow> string) \<Rightarrow> (string \<Rightarrow> (string + api_error) + string)
     \<Rightarrow> string option \<Rightarrow> data api \<Rightarrow> bool \<Rightarrow> string list \<Rightarrow> (string + api_error) + string" where
  "remember_command unmarshal date table story no_client kept_data every args =
     (case args of
        [] \<Rightarrow>
          (case no_client of
             Some e \<Rightarrow> Inl (Inl e)
           | None \<Rightarrow>
               (case Memory unmarshal kept_data of
                  Inl e \<Rightarrow> Inl (Inr e)
                | Inr records \<Rightarrow> Inr (renderMemory date table records every)))
      | a # rest \<Rightarrow> story a)"

text \<open>The day \<open>kyvctl support\<close> judges: the clock's, or the one of \<open>--on\<close>.\<close>

definition support_day :: "(string \<Rightarrow> gotime option) \<Rightarrow> string \<Rightarrow> gotime \<Rightarrow> string + gotime" where
  "support_day parse_date on now =
     (if on = [] then Inr now
      else case parse_date on of None \<Rightarrow> Inl ''--on wants a date like 2027-07-01'' | Some t \<Rightarrow> Inr t)"

section \<open>What a success means\<close>

lemma or_refused_Inr: "map_sum id f (or_refused r) = Inr x \<longleftrightarrow> (\<exists>g. r = Inr g \<and> x = f g)"
  by (cases r) (auto simp: or_refused_def)

lemma from_unstructured_Inr: "from_unstructured convert u = Inr g \<longleftrightarrow> convert u = Some g"
  by (simp add: from_unstructured_def split: option.splits)

lemma conceived_was_granted:
  assumes "Conceive convert parse_date parse_quantity sign_of create ns name opts now = (Inr g, sent)"
  shows "\<exists>sp u. conceive_spec parse_date parse_quantity sign_of name opts now = Inr sp \<and> sent = Some (ns, name, sp)
    \<and> create (ns, name, sp) = Inr u \<and> convert u = Some g"
  using assms
  by (auto simp: Conceive_def from_unstructured_Inr split: sum.splits api_error.splits)

lemma delivery_was_granted:
  assumes "Deliver convert got served patch ns name again = (Inr g, sent)"
  shows "\<exists>g0. getGestation convert got served ns name = Inr g0 \<and> deliver_guard again g0 = None
    \<and> (if SpecDelivery (GSpec (fst g0)) > Delivery (snd g0) then g = g0 \<and> sent = None
       else sent = Some (i32 (Delivery (snd g0) + 1))
         \<and> (\<exists>u. patch (i32 (Delivery (snd g0) + 1)) = Inr u \<and> convert u = Some g))"
proof (cases "getGestation convert got served ns name")
  case (Inl e)
  then show ?thesis using assms by (simp add: Deliver_def)
next
  case (Inr g0)
  then have "deliver_guard again g0 = None" using assms by (simp add: Deliver_def split: option.splits)
  then show ?thesis using assms Inr
    by (intro exI [of _ g0]) (auto simp: Deliver_def Let_def from_unstructured_Inr split: sum.splits if_splits)
qed

lemma screening_was_granted:
  assumes "ask_screening convert w ns name now timeout = Some (Inr g)"
  shows "WPatch w (asked_at now) = None \<and> ScreenedRequest (snd g) = Some (asked_at now)
    \<and> (\<exists>m \<ge> 1. getGestation convert (WGet w m) (WList w m) ns name = Inr g)"
proof -
  have "WPatch w (asked_at now) = None"
    and a: "await convert w (asked_at now) (t_add (WNow w 0) timeout) ns name 1 = Some (Inr g)"
    using assms by (auto simp: ask_screening_def split: sum.splits option.splits)
  then show ?thesis using await_answers [OF a] by (simp add: answers_def)
qed

text \<open>
  Claim C37. kyvctl prints a success only when it happened. \<open>conceive\<close> prints only what the API
  answered to the plan it sent, and the plan passed every check of its flags;
  \<open>deliver\<close> prints only when the gestation may be delivered and either was already asked for or the API
  took the next number; \<open>screen\<close> prints only a gestation whose status answers this very
  request, read after it was asked for. Without a client configuration nothing is sent.
\<close>

theorem success_was_granted:
  fixes convert :: "'u \<Rightarrow> planned option"
  shows "(\<forall>t. fst (conceive_command convert parse_date parse_quantity sign_of create S name opts now later) = Inr t \<longrightarrow>
       (\<exists>ns sp u g. clients S = Inr ns \<and> conceive_spec parse_date parse_quantity sign_of name opts now = Inr sp
          \<and> snd (conceive_command convert parse_date parse_quantity sign_of create S name opts now later) = Some (ns, name, sp)
          \<and> create (ns, name, sp) = Inr u \<and> convert u = Some g \<and> t = renderConceived parse_date (fst g) later))
    \<and> (\<forall>t. fst (deliver_command convert got served patch S name again) = Inr t \<longrightarrow>
       (\<exists>ns g0 g. clients S = Inr ns \<and> getGestation convert got served ns name = Inr g0 \<and> deliver_guard again g0 = None
          \<and> t = delivering_text (fst g)
          \<and> (if SpecDelivery (GSpec (fst g0)) > Delivery (snd g0)
             then g = g0 \<and> snd (deliver_command convert got served patch S name again) = None
             else snd (deliver_command convert got served patch S name again) = Some (i32 (Delivery (snd g0) + 1))
               \<and> (\<exists>u. patch (i32 (Delivery (snd g0) + 1)) = Inr u \<and> convert u = Some g))))
    \<and> (\<forall>t. screen_command convert local_time table w S name now timeout = Some (Inr t) \<longrightarrow>
       (\<exists>ns g. clients S = Inr ns \<and> WPatch w (asked_at now) = None \<and> ScreenedRequest (snd g) = Some (asked_at now)
          \<and> (\<exists>m \<ge> 1. getGestation convert (WGet w m) (WList w m) ns name = Inr g) \<and> t = renderScreening local_time table g))
    \<and> (isl (clients S) \<longrightarrow>
       snd (conceive_command convert parse_date parse_quantity sign_of create S name opts now later) = None
       \<and> snd (deliver_command convert got served patch S name again) = None)"
proof (cases "clients S")
  case (Inl e)
  then show ?thesis by (simp add: conceive_command_def deliver_command_def screen_command_def)
next
  case (Inr ns)
  obtain r sent where c: "Conceive convert parse_date parse_quantity sign_of create ns name opts now = (r, sent)" by fastforce
  obtain q asked where d: "Deliver convert got served patch ns name again = (q, asked)" by fastforce
  have cc: "conceive_command convert parse_date parse_quantity sign_of create S name opts now later =
      (map_sum id (\<lambda>g. renderConceived parse_date (fst g) later) (or_refused r), sent)"
    by (simp add: conceive_command_def Inr c)
  have dc: "deliver_command convert got served patch S name again = (map_sum id (\<lambda>g. delivering_text (fst g)) (or_refused q), asked)"
    by (simp add: deliver_command_def Inr d)
  have sc: "screen_command convert local_time table w S name now timeout = Some (Inr t) \<longleftrightarrow>
      (\<exists>g. ask_screening convert w ns name now timeout = Some (Inr g) \<and> t = renderScreening local_time table g)" for t
    by (auto simp: screen_command_def Inr or_refused_Inr)
  show ?thesis
    unfolding cc dc sc fst_conv snd_conv or_refused_Inr Inr sum.disc
  proof (intro conjI allI impI; (elim exE conjE)?)
    show "\<exists>ns' sp u g. Inr ns = Inr ns' \<and> conceive_spec parse_date parse_quantity sign_of name opts now = Inr sp
        \<and> sent = Some (ns', name, sp) \<and> create (ns', name, sp) = Inr u \<and> convert u = Some g \<and> t = renderConceived parse_date (fst g) later"
      if "r = Inr g" "t = renderConceived parse_date (fst g) later" for t g
      using conceived_was_granted [OF c [unfolded that(1)]] that(2) by blast
    show "\<exists>ns' g0 g. Inr ns = Inr ns' \<and> getGestation convert got served ns' name = Inr g0 \<and> deliver_guard again g0 = None
        \<and> t = delivering_text (fst g)
        \<and> (if SpecDelivery (GSpec (fst g0)) > Delivery (snd g0) then g = g0 \<and> asked = None
           else asked = Some (i32 (Delivery (snd g0) + 1)) \<and> (\<exists>u. patch (i32 (Delivery (snd g0) + 1)) = Inr u \<and> convert u = Some g))"
      if "q = Inr g" "t = delivering_text (fst g)" for t g
      using delivery_was_granted [OF d [unfolded that(1)]] that(2) by blast
    show "\<exists>ns' g. Inr ns = Inr ns' \<and> WPatch w (asked_at now) = None \<and> ScreenedRequest (snd g) = Some (asked_at now)
        \<and> (\<exists>m \<ge> 1. getGestation convert (WGet w m) (WList w m) ns' name = Inr g) \<and> t = renderScreening local_time table g"
      if "ask_screening convert w ns name now timeout = Some (Inr g)" "t = renderScreening local_time table g" for t g
      using screening_was_granted [OF that(1)] that(2) by blast
  qed simp_all
qed

text \<open>A session in the namespace \<open>prod\<close>, with a gestation nobody has delivered.\<close>

definition demo_session :: session where
  "demo_session = \<lparr>SessionNamespace = Inr ''prod'', NoDynamicClient = None, NoKubeClient = None, MetricsOf = NoMetricsConfig\<rparr>"

definition demo_delivered :: "int \<Rightarrow> planned" where
  "demo_delivered n = (with_delivery (Some n) demo_gestation, new_status)"

theorem success_was_granted_witness:
  "snd (deliver_command (\<lambda>u. Some u) (Inr (demo_gestation, new_status)) (Inr ()) (\<lambda>n. Inr (demo_delivered n))
     demo_session ''web'' False) = Some 1"
proof -
  let ?c = "deliver_command (\<lambda>u. Some u) (Inr (demo_gestation, new_status)) (Inr ()) (\<lambda>n. Inr (demo_delivered n))
     demo_session ''web'' False"
  have f: "getGestation (\<lambda>u. Some u) (Inr (demo_gestation, new_status)) (Inr ()) ns name = Inr (demo_gestation, new_status)" for ns name
    by (simp add: getGestation_def from_unstructured_def)
  have g: "deliver_guard False (demo_gestation, new_status) = None" "Delivery new_status = 0" "SpecDelivery (GSpec demo_gestation) = 0"
    by (simp_all add: deliver_guard_def gestation_born_def demo_defs)
  have "fst ?c = Inr (delivering_text (fst (demo_delivered 1)))"
    by (simp add: deliver_command_def clients_def demo_session_def Deliver_def f g from_unstructured_def or_refused_def Let_def i32_id in_i32_def)
  then have "\<exists>g0. getGestation (\<lambda>u. Some u) (Inr (demo_gestation, new_status)) (Inr ()) ''prod'' ''web'' = Inr g0
      \<and> (if SpecDelivery (GSpec (fst g0)) > Delivery (snd g0) then snd ?c = None else snd ?c = Some (i32 (Delivery (snd g0) + 1)))"
    using success_was_granted [where convert = "\<lambda>u. Some u" and got = "Inr (demo_gestation, new_status)" and served = "Inr ()"
        and patch = "\<lambda>n. Inr (demo_delivered n)" and S = demo_session and name = "''web''" and again = False]
    unfolding f by (metis (no_types, lifting))
  then show ?thesis by (simp add: f g i32_id in_i32_def)
qed

end
