(* ===== verification/Spec2Isabelle.thy ===== *)
theory Spec2Isabelle
  imports Wrapper PlaceMemory NoBruteForce StartingDose Worry Newborn_Pods Relationship_Sync
    Humanize Calm Remember Diagnose Support Failures Image_Check Crd Kyvctl_Charts Dependencies Roles Schemas Delivery_Race Place_Queue Cluster_Lookup Placenta_Pods Kyvctl_Reports Dates Commands
begin

text \<open>
  A verification library for Kyvernetria, a Kubernetes distribution with habits of its own.
  The Go code lives in two trees: \<open>x-inactivation\<close>, the wrapper that chooses between two
  builds of a control plane, and \<open>kubernetes/overlay\<close>, packages laid over the sources of
  Kubernetes. This header says what the parts are, which theory models which part, what the
  lemmas show, and what is left out. All paths are below \<open>src/\<close>, \<open>KYV\<close> stands for
  \<open>kubernetes/overlay/pkg/kyvernetria\<close>.

  1. The parts and how they meet.

  (a) X inactivation. On every control-plane node two builds of each component are installed,
  Xm and Xp. The wrapper (\<open>main.go\<close>) runs under the component's name, asks the node's
  cell (\<open>cell.go\<close>, files under a state directory) which allele is expressed, starts that
  build, and records its early exits; enough crashes make the cell switch the allele once
  (an escape). The cell is shared by every component of the node and survives reboots.

  (b) Admission plugins (\<open>KYV/admission\<close>). Immunity rejects pods that leave the baseline
  profile unless their namespace is marked as self; NoBruteForce refuses to cut off running
  pods; StartingDose gives pods without requests a small one; NewbornCare gives the pods of a
  newborn service its priority class, which it finds in an annotation of the namespace.

  (c) Controllers and the scheduler (\<open>KYV/controller\<close>, \<open>KYV/scheduler\<close>). Place
  memory writes on a workload where its pods ran, and the scheduler plugin sends replacements
  home. Worry warns on nodes whose requests are high and keeps its worries in an annotation.
  Relationships keeps one object per edge of the graph of services. The gestation controller
  plans, screens, delivers, scores and looks after the launch of a service, keeps the memory of
  services that left, and writes the annotation NewbornCare reads; it remembers as dependencies
  of a service the edges the relationships controller wrote.

  (d) The client (\<open>KYV/kyvctl\<close>): commands that steer a gestation, tell stories from
  events, fold warnings, read rejections back, and remember failed command lines.

  2. The theories.

  Foundations: \<open>Prelude\<close> (Go integers as HOL integers wrapped by \<open>i32\<close> and
  \<open>i64\<close>, truncating division, time and saturating durations, list and map lemmas, the
  collections of hints), \<open>Go_Strings\<close> and \<open>Go_Strconv\<close> (the string functions used,
  on byte strings), \<open>Go_Time\<close> (Go's calendar: dates and stamps printed and parsed), \<open>Kube\<close> (shared names, API errors and objects; the locale
  \<open>settling\<close>, the contract of a memory kept in an annotation), \<open>Admission\<close>.

  X inactivation: \<open>Disk\<close> (the files of the state directory and the system calls on them:
  a state passed along, a call may fail or tear at any tick; the locale \<open>watched_file\<close>),
  \<open>Cell\<close> (\<open>cell.go\<close>), \<open>Starters\<close> (racing first starts as a step relation),
  \<open>Wrapper\<close> (\<open>main.go\<close>).

  Admission: \<open>Immunity\<close>, \<open>NoBruteForce\<close>, \<open>StartingDose\<close>, \<open>Care\<close> (with
  \<open>gestation/care.go\<close>), one file of \<open>KYV/admission\<close> each.

  Placement, worry, relationships: \<open>Placement\<close> (\<open>KYV/placement\<close>: what is remembered
  and how it is encoded), \<open>PlaceMemory\<close> (its controller and scheduler plugin),
  \<open>Place_Queue\<close> (the controller with its watches and queue, as a system of steps),
  \<open>Worry\<close>, \<open>Relationships\<close> (the graph), \<open>Relationship_Sync\<close> (its controller),
  \<open>Dependencies\<close> (who reads the graph), \<open>Crd\<close> (the installation of the two custom
  resources; the locale \<open>crd_installer\<close>), \<open>Schemas\<close> (their definitions and
  the objects sent for them), \<open>Roles\<close> (the RBAC roles, and \<open>kyvctl exclude\<close>).

  Gestation: the library of \<open>KYV/gestation\<close> is \<open>Pregnancy\<close>, \<open>Apgar\<close>,
  \<open>Care\<close>, \<open>Growth\<close>, \<open>ServiceMemory\<close> and \<open>Screening\<close>; the controller is
  \<open>Gestation_Types\<close> (its objects), \<open>Signs\<close> (what the score sees), \<open>Gestation_World\<close>
  (the API as a record of answers, the log of effects), \<open>Delivery\<close> (pregnancy and birth),
  \<open>Gestations\<close> (care, memory, a whole pass), \<open>Lifecycle\<close> (the invariant of the status
  and the phases), \<open>Launch\<close> (the order and conditions of its writes),
  \<open>Launch_Examples\<close>, \<open>Passes\<close> (what a whole pass stores, screens and puts in place),
  \<open>Newborn_Pods\<close> (controller and admission plugin together), \<open>Image_Check\<close> and
  \<open>Cluster_Lookup\<close> (\<open>lookup.go\<close>), and \<open>Placenta_Pods\<close> (the placeholders' pods
  before the admission plugins). \<open>Dates\<close> puts Go's formats in the place of the parameters
  for due dates and stamps, from the command line to the controller.

  Client and messages: \<open>Humanize\<close>, \<open>Kyvctl_Names\<close>, \<open>Grouping\<close>, \<open>Calm\<close>,
  \<open>Remember\<close>, \<open>Diagnose\<close>, \<open>Mosaic\<close>, \<open>Support\<close>, \<open>Kyvctl_Reports\<close> (these three from the API to the exit), \<open>Command_Line\<close>,
  \<open>Explain\<close>, \<open>Failures\<close>, \<open>Kyvctl_Plan\<close> (conceive, screen, deliver), \<open>Kyvctl_Charts\<close> (what
  they print), \<open>Commands\<close> (the command tree, and the bodies of the commands from the
  client configuration to what is printed), \<open>Delivery_Race\<close> (commands and passes at once, as a step relation).

  3. State and operations.

  A struct is a record, an enumeration a datatype, an error a value of a sum type; a message
  of the code that no program reads back is a constructor with the values the code formats
  into it, and a text otherwise. A controller's pass is a function from the state it reads to
  the state it leaves and the log of its writes. The API server and the metrics API are
  parameters: in the gestation controller every answer is a function of the number of the call,
  so a theorem over all answers covers failures and concurrent changes at any moment. Go maps
  are functions where only lookups matter, and association lists where they are visited; the
  order of the visit is then a parameter, or the model is a permutation of it. Labels,
  quantities, JSON, regular expressions on versions, local times and hashes are parameters with
  the laws that are used as named hypotheses; dates and stamps are parameters too until \<open>Dates\<close>.

  4. What the lemmas show.

  The cell: the choice file is whole at every moment of any run with any faults; a choice is
  inherited; racing starters agree, also when their calls fail; recording a crash refines an abstract decision, and escapes
  are rare and justified. The wrapper: which exits count, and what they
  leave in the node's state.
  The plugins admit exactly what their documents say. The controllers: memories settle and never
  overwrite each other; a controller whose caches are current comes to rest with every running pod
  remembered, on at most 16 nodes and when no event of a pod is dropped that a sync under way has
  listed elsewhere (three lemmas show what is missed without each of these conditions); a new leader is quiet, the graph has exactly the declared edges and
  reaches the API, and the custom resources get installed. The gestation: an invariant of every
  status that can be stored, the phases as a state machine, protection before pods, going home
  only after 72 hours with two caregivers, rolling back only on a low score and to an earlier revision the API listed, replicas given
  back, room that grows to term and within the schema never wraps, scores that end, records that leave in order, screenings that
  warn exactly. The client and the controller together, over whole passes that can read the
  Deployment or find none: a delivery asked for is started, a screening asked for is run and
  answered and its wait ends, a conceived plan has its room put in place, and asking at once
  delivers once. The roles allow
  every write of the model and keep Secrets read-only. The client alone: folded groups, stories,
  rejections and failures are exactly the abstract ones, and the history keeps no secret. A due date
  reaches the controller as it was typed, and the stamps of the memory sort as the times do.

  5. Bounds and fuel.

  Loops are structural recursion or have a measure; the wait of a command is the partial
  function \<open>Kyvctl_Plan.await\<close>, whose result is proved to exist when the clock advances; what
  runs at once is a step relation (\<open>Starters\<close>, \<open>Delivery_Race\<close>, \<open>Place_Queue\<close>, the reachable statuses of
  \<open>Lifecycle\<close>). The retries of place memory are the code's own five
  attempts; the scores of a launch at most five, the remembered services 256, the growth
  samples 336, the remembered nodes 16: these are the code's constants. Integers are unbounded
  with the wrap written out; a theorem that needs a range says so. Seconds near the end of
  \<open>int64\<close>, \<open>float64\<close> rounding in hours (exact for whole seconds) and percentiles
  (exact up to 100000 samples) are named where they are modelled.

  6. Not modelled.

  Process start, signals and descriptors below \<open>main.go\<close> are events of the wrapper's model,
  not system calls. What a power loss takes of data that was not synced is not modelled: the
  syncs of the cell are calls that may fail and change nothing. What remains of the Go code is glue around the operations modelled: \<open>New\<close>
  and \<open>Run\<close> of the controllers (informers, leader election, goroutines), the registration
  of the plugins, \<open>cmd\<close> (constructors that hand clients on), the copying of API objects
  between representations, and help texts. Cobra, the reading of flags and the tree kubectl
  builds are third-party, parameters of \<open>Commands\<close> and \<open>Command_Line\<close>. File ownership
  (\<open>history_unix.go\<close>, \<open>history_other.go\<close>) is an
  answer of the system. The patches to Kubernetes, the build scripts and the documents are not
  Go code of this repository. Nothing else of the core logic is left out.
\<close>

end
